(* ===== verification/Prelude.thy ===== *)
theory Prelude
  imports Main
begin

text \<open>
  Shared vocabulary of the development: the error monad every entry point is written in,
  weighted totals over finite maps (the counters and exposures of the contracts are such
  totals), and counting lemmas on lists. A contract call returns a value of
  \<open>'e + 'a\<close>: \<open>Inl e\<close> is a panic, which reverts the whole transaction, so the new
  state only exists under \<open>Inr\<close>.
\<close>

section \<open>Collections of facts\<close>

named_theorems storage_simps "reads of a ledger entry after a write, a removal or a rent extension"
named_theorems frame_simps "fields a contract operation leaves alone"

section \<open>The error monad\<close>

definition bindE :: "'e + 'a \<Rightarrow> ('a \<Rightarrow> 'e + 'b) \<Rightarrow> 'e + 'b" where
  "bindE m f = (case m of Inl e \<Rightarrow> Inl e | Inr x \<Rightarrow> f x)"

lemma bindE_Inl [simp]: "bindE (Inl e) f = Inl e"
  by (simp add: bindE_def)

lemma bindE_Inr [simp]: "bindE (Inr x) f = f x"
  by (simp add: bindE_def)

lemma bindE_if [simp]: "bindE (if c then a else b) f = (if c then bindE a f else bindE b f)"
  by simp

lemma bindE_eq_Inr: "bindE m f = Inr y \<longleftrightarrow> (\<exists>x. m = Inr x \<and> f x = Inr y)"
  by (simp add: bindE_def split: sum.splits)

lemma bindE_eq_Inl: "bindE m f = Inl e \<longleftrightarrow> m = Inl e \<or> (\<exists>x. m = Inr x \<and> f x = Inl e)"
  by (auto simp add: bindE_def split: sum.splits)

lemma bindE_InrE [elim]:
  assumes "bindE m f = Inr y"
  obtains x where "m = Inr x" and "f x = Inr y"
  using assms by (auto simp: bindE_eq_Inr)

lemma bindE_assoc: "bindE (bindE m f) g = bindE m (\<lambda>x. bindE (f x) g)"
  by (simp add: bindE_def split: sum.splits)

section \<open>Weighted totals over finite maps\<close>

text \<open>
  \<open>total w m\<close> adds the weight of every value stored in \<open>m\<close>. A count of the policies
  with a property is the total of its indicator, an exposure the total of the sums insured.
\<close>

definition total :: "('v \<Rightarrow> int) \<Rightarrow> ('k \<rightharpoonup> 'v) \<Rightarrow> int" where
  "total w m = (\<Sum>k\<in>dom m. w (the (m k)))"

definition weight_at :: "('v \<Rightarrow> int) \<Rightarrow> ('k \<rightharpoonup> 'v) \<Rightarrow> 'k \<Rightarrow> int" where
  "weight_at w m k = (case m k of None \<Rightarrow> 0 | Some v \<Rightarrow> w v)"

lemma weight_at_simps [simp]:
  "m k = None \<Longrightarrow> weight_at w m k = 0"
  "m k = Some v \<Longrightarrow> weight_at w m k = w v"
  by (simp_all add: weight_at_def)

lemma total_empty [simp]: "total w Map.empty = 0"
  by (simp add: total_def)

lemma total_remove:
  assumes "finite (dom m)"
  shows "total w m = weight_at w m k + (\<Sum>j\<in>dom m - {k}. w (the (m j)))"
proof (cases "k \<in> dom m")
  case True
  then have "total w m = w (the (m k)) + (\<Sum>j\<in>dom m - {k}. w (the (m j)))"
    unfolding total_def using assms by (simp add: sum.remove)
  with True show ?thesis by auto
next
  case False
  then have "dom m - {k} = dom m" and "weight_at w m k = 0" by (auto simp: dom_def)
  then show ?thesis by (simp add: total_def)
qed

lemma total_upd:
  assumes "finite (dom m)"
  shows "total w (m(k \<mapsto> v)) = total w m - weight_at w m k + w v"
proof -
  have "total w (m(k \<mapsto> v)) =
      weight_at w (m(k \<mapsto> v)) k + (\<Sum>j\<in>dom (m(k \<mapsto> v)) - {k}. w (the ((m(k \<mapsto> v)) j)))"
    by (rule total_remove) (simp add: assms)
  also have "\<dots> = w v + (\<Sum>j\<in>dom m - {k}. w (the (m j)))"
    by (intro arg_cong2 [where f = "(+)"] sum.cong) auto
  finally show ?thesis using total_remove [OF assms, of w k] by simp
qed

lemma total_nonneg: "(\<And>k v. m k = Some v \<Longrightarrow> 0 \<le> w v) \<Longrightarrow> 0 \<le> total w m"
  unfolding total_def by (rule sum_nonneg) auto

lemma weight_at_le_total:
  assumes "finite (dom m)" and "\<And>k v. m k = Some v \<Longrightarrow> 0 \<le> w v"
  shows "weight_at w m k \<le> total w m"
proof -
  have "0 \<le> (\<Sum>j\<in>dom m - {k}. w (the (m j)))"
    using assms(2) by (intro sum_nonneg) auto
  then show ?thesis using total_remove [OF assms(1), of w k] by simp
qed

text \<open>Two totals agree when the weights agree on the values stored.\<close>

lemma total_cong: "(\<And>k v. m k = Some v \<Longrightarrow> w v = w' v) \<Longrightarrow> total w m = total w' m"
  unfolding total_def by (rule sum.cong) auto

lemma total_add: "total (\<lambda>v. w v + w' v) m = total w m + total w' m"
  by (simp add: total_def sum.distrib)

text \<open>The total of an indicator counts the keys.\<close>

lemma total_indicator:
  assumes "finite (dom m)"
  shows "total (\<lambda>v. if P v then 1 else 0) m = int (card {k. \<exists>v. m k = Some v \<and> P v})"
proof -
  have "{k. \<exists>v. m k = Some v \<and> P v} = dom m \<inter> {k. P (the (m k))}" by auto
  then show ?thesis using assms by (simp add: total_def sum.If_cases)
qed

end
