(* ===== verification/Errors.thy ===== *)
theory Errors
  imports Prelude
begin

text \<open>
  The error codes of \<^verbatim>\<open>crates/shared/src/errors.rs\<close>, the crate-local pause code of the
  PayoutReceiver, and the failures the host itself raises (a missing authorisation, an
  arithmetic overflow under \<open>overflow-checks = true\<close>, an operation on an entry or a
  contract that does not exist, an invalid signature encoding).
\<close>

section \<open>Contract errors\<close>

datatype common_error = Unauthorized | ZeroAddress | NotConfigured | NotInitialized

datatype policy_error =
    ZeroAddressFarmer | ZeroAddressOrg | ZeroAddressDistributor | SumInsuredTooLow
  | SumInsuredTooHigh | ZeroPremium | InvalidDuration | TooManyActivePolicies
  | TooManyClaimsThisYear | PolicyDoesNotExist | InvalidPolicyStatus | PolicyExpired
  | PolicyNotYetExpired | PolicyNftNotSet | OrgNotSetForPolicy | OrgAlreadySet
  | CancelActiveRequiresAdmin | InvalidCoordinates | CoverageNotOffered

datatype payout_error =
    SignerNotConfigured | DamageExceedsMaximum | SubScoreOutOfRange | InvalidWeatherFlag
  | WeatherFlagDamageMismatch | InvalidWeightedDamage | DamageBelowThreshold
  | PolicyDoesNotExist | PolicyNotActive | PolicyExpired | PolicyAlreadyPaid
  | SumInsuredMismatch | InvalidPayoutCalculation | ReportInFuture | ReportTooOld
  | FarmerClaimLimitExceeded | DeterminationAlreadyConsumed | InvalidSignature
  | NoPendingClaim | CoverageNotSettledByMethodology | PlotLocationMismatch
  | MethodologyDisabled | DroughtScoreOutOfRange | InvalidDroughtDamage
  | DroughtEvidenceInvalid | EvidenceOutsideCoverWindow | SeasonNotComplete
  | SettlementAdapterNotBound | ObligationNotRecorded

datatype paused_error = ContractPaused

datatype nft_error =
    ZeroAddress | InvalidPolicyId | PolicyAlreadyMinted | TransferWhileActive
  | PolicyNotFound | NotPolicyManager | TokenNotFound

datatype adapter_error =
    NotPayoutReceiver | InvalidAmount | ObligationConflict | ObligationNotFound
  | ObligationAlreadyFunded | ObligationAlreadySettled | InvalidReference
  | InvalidPayoutReceiver | CounterOverflow

text \<open>Failures of the host, which carry no contract code.\<close>

datatype host_error =
    AuthFailed | ArithmeticOverflow | MissingEntry | NoContract | BadSignatureEncoding
  | DeployRefused

datatype error =
    CommonE common_error | PolicyE policy_error | PayoutE payout_error
  | PausedE paused_error | NftE nft_error | AdapterE adapter_error | HostE host_error

section \<open>The numbers that leave the contracts\<close>

fun common_error_code :: "common_error \<Rightarrow> nat" where
  "common_error_code Unauthorized = 1"
| "common_error_code common_error.ZeroAddress = 2"
| "common_error_code NotConfigured = 3"
| "common_error_code NotInitialized = 4"

fun policy_error_code :: "policy_error \<Rightarrow> nat" where
  "policy_error_code ZeroAddressFarmer = 100"
| "policy_error_code ZeroAddressOrg = 101"
| "policy_error_code ZeroAddressDistributor = 102"
| "policy_error_code SumInsuredTooLow = 103"
| "policy_error_code SumInsuredTooHigh = 104"
| "policy_error_code ZeroPremium = 105"
| "policy_error_code InvalidDuration = 106"
| "policy_error_code TooManyActivePolicies = 107"
| "policy_error_code TooManyClaimsThisYear = 108"
| "policy_error_code policy_error.PolicyDoesNotExist = 109"
| "policy_error_code InvalidPolicyStatus = 110"
| "policy_error_code policy_error.PolicyExpired = 111"
| "policy_error_code PolicyNotYetExpired = 112"
| "policy_error_code PolicyNftNotSet = 113"
| "policy_error_code OrgNotSetForPolicy = 114"
| "policy_error_code OrgAlreadySet = 115"
| "policy_error_code CancelActiveRequiresAdmin = 116"
| "policy_error_code InvalidCoordinates = 117"
| "policy_error_code CoverageNotOffered = 118"

fun payout_error_code :: "payout_error \<Rightarrow> nat" where
  "payout_error_code SignerNotConfigured = 300"
| "payout_error_code DamageExceedsMaximum = 301"
| "payout_error_code SubScoreOutOfRange = 302"
| "payout_error_code InvalidWeatherFlag = 303"
| "payout_error_code WeatherFlagDamageMismatch = 304"
| "payout_error_code InvalidWeightedDamage = 305"
| "payout_error_code DamageBelowThreshold = 306"
| "payout_error_code payout_error.PolicyDoesNotExist = 307"
| "payout_error_code PolicyNotActive = 308"
| "payout_error_code payout_error.PolicyExpired = 309"
| "payout_error_code PolicyAlreadyPaid = 310"
| "payout_error_code SumInsuredMismatch = 311"
| "payout_error_code InvalidPayoutCalculation = 312"
| "payout_error_code ReportInFuture = 313"
| "payout_error_code ReportTooOld = 314"
| "payout_error_code FarmerClaimLimitExceeded = 315"
| "payout_error_code DeterminationAlreadyConsumed = 316"
| "payout_error_code InvalidSignature = 317"
| "payout_error_code NoPendingClaim = 319"
| "payout_error_code CoverageNotSettledByMethodology = 320"
| "payout_error_code PlotLocationMismatch = 321"
| "payout_error_code MethodologyDisabled = 322"
| "payout_error_code DroughtScoreOutOfRange = 323"
| "payout_error_code InvalidDroughtDamage = 324"
| "payout_error_code DroughtEvidenceInvalid = 325"
| "payout_error_code EvidenceOutsideCoverWindow = 326"
| "payout_error_code SeasonNotComplete = 327"
| "payout_error_code SettlementAdapterNotBound = 328"
| "payout_error_code ObligationNotRecorded = 329"

fun paused_error_code :: "paused_error \<Rightarrow> nat" where
  "paused_error_code ContractPaused = 318"

fun nft_error_code :: "nft_error \<Rightarrow> nat" where
  "nft_error_code nft_error.ZeroAddress = 400"
| "nft_error_code InvalidPolicyId = 401"
| "nft_error_code PolicyAlreadyMinted = 402"
| "nft_error_code TransferWhileActive = 403"
| "nft_error_code PolicyNotFound = 404"
| "nft_error_code NotPolicyManager = 405"
| "nft_error_code TokenNotFound = 406"

fun adapter_error_code :: "adapter_error \<Rightarrow> nat" where
  "adapter_error_code NotPayoutReceiver = 500"
| "adapter_error_code InvalidAmount = 501"
| "adapter_error_code ObligationConflict = 502"
| "adapter_error_code ObligationNotFound = 503"
| "adapter_error_code ObligationAlreadyFunded = 504"
| "adapter_error_code ObligationAlreadySettled = 505"
| "adapter_error_code InvalidReference = 506"
| "adapter_error_code InvalidPayoutReceiver = 507"
| "adapter_error_code CounterOverflow = 508"

fun error_code :: "error \<Rightarrow> nat option" where
  "error_code (CommonE e) = Some (common_error_code e)"
| "error_code (PolicyE e) = Some (policy_error_code e)"
| "error_code (PayoutE e) = Some (payout_error_code e)"
| "error_code (PausedE e) = Some (paused_error_code e)"
| "error_code (NftE e) = Some (nft_error_code e)"
| "error_code (AdapterE e) = Some (adapter_error_code e)"
| "error_code (HostE e) = None"

subsection \<open>One range per contract domain\<close>

lemma common_error_range: "1 \<le> common_error_code e \<and> common_error_code e \<le> 9"
  by (cases e) simp_all

lemma policy_error_range: "100 \<le> policy_error_code e \<and> policy_error_code e \<le> 199"
  by (cases e) simp_all

lemma payout_error_range: "300 \<le> payout_error_code e \<and> payout_error_code e \<le> 399"
  by (cases e) simp_all

lemma nft_error_range: "400 \<le> nft_error_code e \<and> nft_error_code e \<le> 499"
  by (cases e) simp_all

lemma adapter_error_range: "500 \<le> adapter_error_code e \<and> adapter_error_code e \<le> 599"
  by (cases e) simp_all

lemmas error_ranges =
  common_error_range policy_error_range payout_error_range nft_error_range adapter_error_range

lemma common_error_code_inj: "common_error_code a = common_error_code b \<longleftrightarrow> a = b"
  by (cases a; cases b) simp_all

lemma policy_error_code_inj: "policy_error_code a = policy_error_code b \<longleftrightarrow> a = b"
  by (cases a; cases b) simp_all

lemma payout_error_code_inj: "payout_error_code a = payout_error_code b \<longleftrightarrow> a = b"
  by (cases a; cases b) simp_all

lemma nft_error_code_inj: "nft_error_code a = nft_error_code b \<longleftrightarrow> a = b"
  by (cases a; cases b) simp_all

lemma adapter_error_code_inj: "adapter_error_code a = adapter_error_code b \<longleftrightarrow> a = b"
  by (cases a; cases b) simp_all

lemma payout_error_code_not_paused: "payout_error_code a \<noteq> paused_error_code b"
  by (cases a; cases b) simp_all

lemma paused_error_code_inj: "paused_error_code a = paused_error_code b \<longleftrightarrow> a = b"
  by (cases a; cases b) simp_all

lemmas error_code_injs =
  common_error_code_inj policy_error_code_inj payout_error_code_inj nft_error_code_inj
  adapter_error_code_inj paused_error_code_inj

end
