(* ===== verification/Host.thy ===== *)
theory Host
  imports Errors "HOL-Library.Word"
begin

text \<open>
  What the contracts use of the Soroban host: the invocation environment, checked machine
  arithmetic, and typed ledger entries with a rent horizon.

  Unsigned integers are \<open>nat\<close> and signed ones \<open>int\<close>; every operation that Rust checks
  under \<open>overflow-checks = true\<close> is written with its range test, so an overflow is the
  host's trap \<open>ArithmeticOverflow\<close> and never a silent wrap. Fixed byte arrays are words of
  their width, so their length is part of the type.

  The hash, the signature recovery, the address serialisation and the host's rule for moving a
  rent horizon are not code of the repository: they are fields of the environment, and each
  theorem that needs more than their type states it as a hypothesis.
\<close>

section \<open>Types\<close>

datatype address = Address nat

type_synonym byte = "8 word"
type_synonym bytes32 = "256 word"
type_synonym bytes64 = "512 word"
type_synonym bytes65 = "520 word"

text \<open>The environment of one invocation (\<open>Env\<close> in the sources).\<close>

record env =
  timestamp :: nat
  sequence :: nat
  max_ttl :: nat
  network_id :: bytes32
  current_contract_address :: address
  authorizes :: "address \<Rightarrow> bool"
  fresh_live_until :: nat
  host_extend_ttl :: "nat \<Rightarrow> nat \<Rightarrow> nat \<Rightarrow> nat"
  keccak256 :: "byte list \<Rightarrow> bytes32"
  secp256k1_recover :: "bytes32 \<Rightarrow> bytes64 \<Rightarrow> nat \<Rightarrow> bytes65 option"
  address_xdr :: "address \<Rightarrow> byte list"

text \<open>
  \<open>authorizes e a\<close> says whether \<open>a.require_auth()\<close> passes in this invocation. A direct
  call from one contract into another authorises the caller contract itself, which is the only
  address the callees of the repository ask for.
\<close>

definition require_auth :: "env \<Rightarrow> address \<Rightarrow> error + unit" where
  "require_auth e a = (if authorizes e a then Inr () else Inl (HostE AuthFailed))"

definition subcall :: "env \<Rightarrow> address \<Rightarrow> env" where
  "subcall e callee =
     e\<lparr>current_contract_address := callee, authorizes := (\<lambda>a. a = current_contract_address e)\<rparr>"

lemma subcall_simps [simp]:
  "timestamp (subcall e c) = timestamp e"
  "sequence (subcall e c) = sequence e"
  "max_ttl (subcall e c) = max_ttl e"
  "current_contract_address (subcall e c) = c"
  "authorizes (subcall e c) a \<longleftrightarrow> a = current_contract_address e"
  "fresh_live_until (subcall e c) = fresh_live_until e"
  "host_extend_ttl (subcall e c) = host_extend_ttl e"
  by (simp_all add: subcall_def)

section \<open>Checked machine arithmetic\<close>

definition u32_max :: nat where "u32_max = 4294967295"
definition u64_max :: nat where "u64_max = 18446744073709551615"
definition u128_max :: nat where "u128_max = 340282366920938463463374607431768211455"
definition i128_max :: int where "i128_max = 170141183460469231731687303715884105727"
definition i128_min :: int where "i128_min = -170141183460469231731687303715884105728"

definition checked :: "nat \<Rightarrow> nat \<Rightarrow> error + nat" where
  "checked bound n = (if n \<le> bound then Inr n else Inl (HostE ArithmeticOverflow))"

definition add_u32 :: "nat \<Rightarrow> nat \<Rightarrow> error + nat" where
  "add_u32 a b = checked u32_max (a + b)"

definition mul_u32 :: "nat \<Rightarrow> nat \<Rightarrow> error + nat" where
  "mul_u32 a b = checked u32_max (a * b)"

definition add_u64 :: "nat \<Rightarrow> nat \<Rightarrow> error + nat" where
  "add_u64 a b = checked u64_max (a + b)"

definition mul_u64 :: "nat \<Rightarrow> nat \<Rightarrow> error + nat" where
  "mul_u64 a b = checked u64_max (a * b)"

definition mul_u128 :: "nat \<Rightarrow> nat \<Rightarrow> error + nat" where
  "mul_u128 a b = checked u128_max (a * b)"

definition sub_u :: "nat \<Rightarrow> nat \<Rightarrow> error + nat" where
  "sub_u a b = (if b \<le> a then Inr (a - b) else Inl (HostE ArithmeticOverflow))"

definition checked_i128 :: "int \<Rightarrow> error + int" where
  "checked_i128 n =
     (if i128_min \<le> n \<and> n \<le> i128_max then Inr n else Inl (HostE ArithmeticOverflow))"

definition saturating_add_u64 :: "nat \<Rightarrow> nat \<Rightarrow> nat" where
  "saturating_add_u64 a b = min u64_max (a + b)"

definition saturating_add_u32 :: "nat \<Rightarrow> nat \<Rightarrow> nat" where
  "saturating_add_u32 a b = min u32_max (a + b)"

text \<open>\<open>u64::div_ceil\<close>.\<close>

definition div_ceil :: "nat \<Rightarrow> nat \<Rightarrow> nat" where
  "div_ceil a b = (if a mod b = 0 then a div b else a div b + 1)"

lemma checked_Inr [simp]: "checked bound n = Inr m \<longleftrightarrow> m = n \<and> n \<le> bound"
  by (auto simp: checked_def)

lemma add_u32_Inr [simp]: "add_u32 a b = Inr c \<longleftrightarrow> c = a + b \<and> a + b \<le> u32_max"
  by (simp add: add_u32_def)

lemma mul_u32_Inr [simp]: "mul_u32 a b = Inr c \<longleftrightarrow> c = a * b \<and> a * b \<le> u32_max"
  by (simp add: mul_u32_def)

lemma add_u64_Inr [simp]: "add_u64 a b = Inr c \<longleftrightarrow> c = a + b \<and> a + b \<le> u64_max"
  by (simp add: add_u64_def)

lemma mul_u64_Inr [simp]: "mul_u64 a b = Inr c \<longleftrightarrow> c = a * b \<and> a * b \<le> u64_max"
  by (simp add: mul_u64_def)

lemma mul_u128_Inr [simp]: "mul_u128 a b = Inr c \<longleftrightarrow> c = a * b \<and> a * b \<le> u128_max"
  by (simp add: mul_u128_def)

lemma sub_u_Inr [simp]: "sub_u a b = Inr c \<longleftrightarrow> c = a - b \<and> b \<le> a"
  by (auto simp: sub_u_def)

lemma checked_i128_Inr [simp]:
  "checked_i128 n = Inr m \<longleftrightarrow> m = n \<and> i128_min \<le> n \<and> n \<le> i128_max"
  by (auto simp: checked_i128_def)

lemma checked_fits: "n \<le> bound \<Longrightarrow> checked bound n = Inr n"
  by simp

lemma require_auth_Inr [simp]: "require_auth e a = Inr x \<longleftrightarrow> authorizes e a"
  by (simp add: require_auth_def)

lemma div_ceil_least:
  assumes "0 < b"
  shows "a \<le> div_ceil a b * b" and "0 < a \<Longrightarrow> (div_ceil a b - 1) * b < a"
proof -
  have split: "a = a div b * b + a mod b" by simp
  have small: "a mod b < b" using assms by simp
  show "a \<le> div_ceil a b * b"
  proof (cases "a mod b = 0")
    case True
    then show ?thesis using split by (simp add: div_ceil_def)
  next
    case False
    have "a \<le> a div b * b + b" using split small by linarith
    with False show ?thesis by (simp add: div_ceil_def)
  qed
  assume "0 < a"
  show "(div_ceil a b - 1) * b < a"
  proof (cases "a mod b = 0")
    case True
    with split \<open>0 < a\<close> have "0 < a div b" by (metis add_0 mult_0 not_gr_zero)
    then have "(a div b - 1) * b < a div b * b" using assms by simp
    with True split show ?thesis by (simp add: div_ceil_def)
  next
    case False
    then have "a div b * b < a" using split by linarith
    with False show ?thesis by (simp add: div_ceil_def)
  qed
qed

section \<open>Ledger entries\<close>

text \<open>
  A class of persistent entries maps a key to its value and the last ledger the entry is paid
  for. The host restores an archived entry before a call that reads it runs, or refuses the
  call, so a read in a running call gives the stored value; the horizon matters for rent and
  for temporary entries, which the host deletes.
\<close>

type_synonym ('k, 'v) storage = "'k \<Rightarrow> ('v \<times> nat) option"

definition get :: "('k, 'v) storage \<Rightarrow> 'k \<Rightarrow> 'v option" where
  "get st = (\<lambda>k. map_option fst (st k))"

definition has :: "('k, 'v) storage \<Rightarrow> 'k \<Rightarrow> bool" where
  "has st k \<longleftrightarrow> st k \<noteq> None"

definition live_until :: "('k, 'v) storage \<Rightarrow> 'k \<Rightarrow> nat option" where
  "live_until st k = map_option snd (st k)"

definition put :: "env \<Rightarrow> 'k \<Rightarrow> 'v \<Rightarrow> ('k, 'v) storage \<Rightarrow> ('k, 'v) storage" where
  "put e k v st =
     st(k \<mapsto> (v, case st k of None \<Rightarrow> fresh_live_until e | Some (_, l) \<Rightarrow> l))"

definition remove :: "'k \<Rightarrow> ('k, 'v) storage \<Rightarrow> ('k, 'v) storage" where
  "remove k st = st(k := None)"

text \<open>Extending an entry moves only its horizon; an entry that does not exist is a trap.\<close>

definition bumped :: "env \<Rightarrow> 'k \<Rightarrow> nat \<Rightarrow> nat \<Rightarrow> ('k, 'v) storage \<Rightarrow> ('k, 'v) storage" where
  "bumped e k threshold extend_to st =
     st(k := map_option (\<lambda>(v, l). (v, host_extend_ttl e l threshold extend_to)) (st k))"

definition extend_ttl ::
  "env \<Rightarrow> 'k \<Rightarrow> nat \<Rightarrow> nat \<Rightarrow> ('k, 'v) storage \<Rightarrow> error + ('k, 'v) storage" where
  "extend_ttl e k threshold extend_to st =
     (if has st k then Inr (bumped e k threshold extend_to st) else Inl (HostE MissingEntry))"

definition unwrap_or :: "'v \<Rightarrow> 'v option \<Rightarrow> 'v" where
  "unwrap_or d x = (case x of None \<Rightarrow> d | Some v \<Rightarrow> v)"

lemma unwrap_or_simps [simp]: "unwrap_or d None = d" "unwrap_or d (Some v) = v"
  by (simp_all add: unwrap_or_def)

lemma get_empty [simp, storage_simps]: "get Map.empty = Map.empty"
  by (simp add: get_def)

lemma get_put [simp, storage_simps]: "get (put e k v st) = (get st)(k \<mapsto> v)"
  by (auto simp: get_def put_def)

lemma get_remove [simp, storage_simps]: "get (remove k st) = (get st)(k := None)"
  by (auto simp: get_def remove_def)

lemma get_bumped [simp, storage_simps]: "get (bumped e k t n st) = get st"
  by (auto simp: get_def bumped_def option.map_comp comp_def split_def)

lemma has_iff: "has st k \<longleftrightarrow> get st k \<noteq> None"
  by (simp add: has_def get_def)

lemma has_put [simp]: "has (put e k v st) j \<longleftrightarrow> j = k \<or> has st j"
  by (simp add: has_iff)

lemma has_remove [simp]: "has (remove k st) j \<longleftrightarrow> j \<noteq> k \<and> has st j"
  by (simp add: has_iff)

lemma has_bumped [simp]: "has (bumped e k t n st) = has st"
  by (simp add: fun_eq_iff has_iff)

lemma has_empty [simp]: "\<not> has Map.empty k"
  by (simp add: has_iff)

lemma get_SomeD: "get st k = Some v \<Longrightarrow> has st k"
  by (simp add: has_iff)

lemma extend_ttl_has [simp]: "has st k \<Longrightarrow> extend_ttl e k t n st = Inr (bumped e k t n st)"
  by (simp add: extend_ttl_def)

lemma extend_ttl_get: "extend_ttl e k t n st = Inr st' \<Longrightarrow> get st' = get st"
  by (auto simp: extend_ttl_def split: if_splits)

subsection \<open>The interface of a class of entries\<close>

text \<open>
  What the contracts rely on when they read, write, remove and extend entries. The contract
  proofs use these laws only through \<open>get\<close> and \<open>has\<close>.
\<close>

locale entry_class =
  fixes look :: "'s \<Rightarrow> 'k \<Rightarrow> 'v option"
    and store :: "env \<Rightarrow> 'k \<Rightarrow> 'v \<Rightarrow> 's \<Rightarrow> 's"
    and erase :: "'k \<Rightarrow> 's \<Rightarrow> 's"
    and prolong :: "env \<Rightarrow> 'k \<Rightarrow> nat \<Rightarrow> nat \<Rightarrow> 's \<Rightarrow> error + 's"
  assumes look_store: "look (store e k v s) = (look s)(k \<mapsto> v)"
    and look_erase: "look (erase k s) = (look s)(k := None)"
    and look_prolong: "prolong e k t n s = Inr s' \<Longrightarrow> look s' = look s"
    and prolong_present: "look s k \<noteq> None \<Longrightarrow> \<exists>s'. prolong e k t n s = Inr s'"
    and prolong_absent: "look s k = None \<Longrightarrow> prolong e k t n s = Inl (HostE MissingEntry)"
begin

lemma store_then_look: "look (store e k v s) k = Some v"
  by (simp add: look_store)

lemma store_commute_look: "j \<noteq> k \<Longrightarrow> look (store e k v s) j = look s j"
  by (simp add: look_store)

text \<open>The write-then-extend idiom of the contracts never traps and leaves exactly the write.\<close>

lemma store_prolong: "\<exists>s'. prolong e' k t n (store e k v s) = Inr s' \<and> look s' = (look s)(k \<mapsto> v)"
  by (metis prolong_present look_prolong look_store fun_upd_same option.distinct(1))

lemma erase_store: "look (erase k (store e k v s)) = look (erase k s)"
  by (simp add: look_erase look_store)

end

interpretation entries: entry_class get put remove extend_ttl
proof unfold_locales
  show "\<And>e k t n (s :: ('a, 'b) storage) s'. extend_ttl e k t n s = Inr s' \<Longrightarrow> get s' = get s"
    by (rule extend_ttl_get)
qed (simp_all add: extend_ttl_def has_iff)

subsection \<open>Temporary entries\<close>

text \<open>A temporary entry past its horizon is gone: it neither reads nor blocks a new one.\<close>

definition live_entry :: "env \<Rightarrow> ('k, 'v) storage \<Rightarrow> 'k \<Rightarrow> ('v \<times> nat) option" where
  "live_entry e st k =
     (case st k of None \<Rightarrow> None | Some (v, l) \<Rightarrow> if sequence e \<le> l then Some (v, l) else None)"

definition has_temporary :: "env \<Rightarrow> ('k, 'v) storage \<Rightarrow> 'k \<Rightarrow> bool" where
  "has_temporary e st k \<longleftrightarrow> live_entry e st k \<noteq> None"

definition put_temporary :: "env \<Rightarrow> 'k \<Rightarrow> 'v \<Rightarrow> ('k, 'v) storage \<Rightarrow> ('k, 'v) storage" where
  "put_temporary e k v st =
     st(k \<mapsto> (v, case live_entry e st k of None \<Rightarrow> fresh_live_until e | Some (_, l) \<Rightarrow> l))"

lemma has_put_temporary [simp]: "has (put_temporary e k v st) j \<longleftrightarrow> j = k \<or> has st j"
  by (simp add: has_def put_temporary_def)

section \<open>The documented rule for rent horizons\<close>

text \<open>
  The documentation of \<open>extend_ttl\<close>: an entry whose remaining life is below the threshold gets
  exactly the requested life; otherwise its horizon stays, or is set to that life if this is
  later. In no case is a horizon shortened. The bound on the requested life is the host's own
  precondition for the call.
\<close>

definition documented_extend_ttl :: "env \<Rightarrow> bool" where
  "documented_extend_ttl e \<longleftrightarrow>
     (\<forall>l t n. t \<le> n \<longrightarrow> n \<le> max_ttl e \<longrightarrow>
        l \<le> host_extend_ttl e l t n \<and>
        host_extend_ttl e l t n \<le> max l (sequence e + n) \<and>
        (l < sequence e + t \<longrightarrow> host_extend_ttl e l t n = sequence e + n))"

lemma documented_extend_ttlD:
  assumes "documented_extend_ttl e" and "t \<le> n" and "n \<le> max_ttl e"
  shows "l \<le> host_extend_ttl e l t n"
    and "host_extend_ttl e l t n \<le> max l (sequence e + n)"
    and "l < sequence e + t \<Longrightarrow> host_extend_ttl e l t n = sequence e + n"
    and "sequence e + t \<le> host_extend_ttl e l t n"
proof -
  have all: "l \<le> host_extend_ttl e l t n \<and> host_extend_ttl e l t n \<le> max l (sequence e + n) \<and>
      (l < sequence e + t \<longrightarrow> host_extend_ttl e l t n = sequence e + n)"
    using assms unfolding documented_extend_ttl_def by blast
  then show "l \<le> host_extend_ttl e l t n"
    and "host_extend_ttl e l t n \<le> max l (sequence e + n)"
    and "l < sequence e + t \<Longrightarrow> host_extend_ttl e l t n = sequence e + n"
    by simp_all
  show "sequence e + t \<le> host_extend_ttl e l t n"
    using all assms(2) by (cases "l < sequence e + t") auto
qed

section \<open>A concrete environment\<close>

text \<open>
  The environment the examples of the development run in: everybody authorises, the rent rule
  is the documented one, the hash and the recovery are arbitrary concrete functions.
\<close>

definition sample_env :: env where
  "sample_env =
     \<lparr>timestamp = 1700000000, sequence = 1000, max_ttl = 3110400, network_id = 7,
      current_contract_address = Address 100, authorizes = (\<lambda>_. True), fresh_live_until = 5095,
      host_extend_ttl = (\<lambda>l t n. if l < 1000 + t then 1000 + n else l),
      keccak256 = (\<lambda>bytes. word_of_nat (sum_list (map unat bytes))),
      secp256k1_recover = (\<lambda>digest sig r. if r < 4 then Some (ucast digest) else None),
      address_xdr = (\<lambda>a. case a of Address n \<Rightarrow> [word_of_nat n])\<rparr>"

lemma sample_env_simps [simp]:
  "timestamp sample_env = 1700000000"
  "authorizes sample_env a"
  "current_contract_address sample_env = Address 100"
  "max_ttl sample_env = 3110400"
  by (simp_all add: sample_env_def)

lemma sample_env_documented: "documented_extend_ttl sample_env"
  by (auto simp: documented_extend_ttl_def sample_env_def)

end
