(* ===== verification/Types.thy ===== *)
theory Types
  imports Host
begin

text \<open>
  The data of \<^verbatim>\<open>crates/shared/src/types.rs\<close>: the enums with their wire ordinals, and the
  structs as records. Field names carry a prefix per struct (\<open>p_\<close> policy, \<open>r_\<close> report,
  \<open>cd_\<close> crop determination, \<open>d_\<close> drought determination, \<open>c_\<close> certificate,
  \<open>o_\<close> obligation), because Isabelle record fields share one name space.
\<close>

section \<open>Enums\<close>

datatype coverage_type = Drought | Flood | Both | ExcessRain | Comprehensive

datatype policy_status = Pending | Active | Expired | Cancelled | Claimed

datatype role = Admin | Backend | Oracle | Payout | Relayer | Upgrader | Minter | Funder

datatype methodology_kind = CropDualIndex10 | CropDroughtRdi10

datatype obligation_status = Owed | Funded | Settled

subsection \<open>Wire ordinals\<close>

fun coverage_type_ordinal :: "coverage_type \<Rightarrow> nat" where
  "coverage_type_ordinal Drought = 0"
| "coverage_type_ordinal Flood = 1"
| "coverage_type_ordinal Both = 2"
| "coverage_type_ordinal ExcessRain = 3"
| "coverage_type_ordinal Comprehensive = 4"

fun policy_status_ordinal :: "policy_status \<Rightarrow> nat" where
  "policy_status_ordinal Pending = 0"
| "policy_status_ordinal Active = 1"
| "policy_status_ordinal Expired = 2"
| "policy_status_ordinal Cancelled = 3"
| "policy_status_ordinal Claimed = 4"

fun role_ordinal :: "role \<Rightarrow> nat" where
  "role_ordinal Admin = 0"
| "role_ordinal Backend = 1"
| "role_ordinal Oracle = 2"
| "role_ordinal Payout = 3"
| "role_ordinal Relayer = 4"
| "role_ordinal Upgrader = 5"
| "role_ordinal Minter = 6"
| "role_ordinal Funder = 7"

fun methodology_kind_ordinal :: "methodology_kind \<Rightarrow> nat" where
  "methodology_kind_ordinal CropDualIndex10 = 0"
| "methodology_kind_ordinal CropDroughtRdi10 = 1"

fun obligation_status_ordinal :: "obligation_status \<Rightarrow> nat" where
  "obligation_status_ordinal Owed = 0"
| "obligation_status_ordinal Funded = 1"
| "obligation_status_ordinal Settled = 2"

text \<open>The statuses of an obligation are ordered by their ordinals: forward is upward.\<close>

instantiation obligation_status :: linorder
begin

definition less_eq_obligation_status :: "obligation_status \<Rightarrow> obligation_status \<Rightarrow> bool" where
  "less_eq_obligation_status a b \<longleftrightarrow> obligation_status_ordinal a \<le> obligation_status_ordinal b"

definition less_obligation_status :: "obligation_status \<Rightarrow> obligation_status \<Rightarrow> bool" where
  "less_obligation_status a b \<longleftrightarrow> obligation_status_ordinal a < obligation_status_ordinal b"

instance
proof
  fix a b c :: obligation_status
  show "(a < b) = (a \<le> b \<and> \<not> b \<le> a)"
    by (auto simp: less_eq_obligation_status_def less_obligation_status_def)
  show "a \<le> a" by (simp add: less_eq_obligation_status_def)
  show "a \<le> b \<Longrightarrow> b \<le> c \<Longrightarrow> a \<le> c" by (simp add: less_eq_obligation_status_def)
  show "a \<le> b \<Longrightarrow> b \<le> a \<Longrightarrow> a = b"
    by (cases a; cases b) (simp_all add: less_eq_obligation_status_def)
  show "a \<le> b \<or> b \<le> a" by (auto simp: less_eq_obligation_status_def)
qed

end

lemma obligation_status_le_simps [simp]:
  "Owed \<le> s" "s \<le> Settled" "Funded \<le> Owed \<longleftrightarrow> False" "Settled \<le> Owed \<longleftrightarrow> False"
  "Settled \<le> Funded \<longleftrightarrow> False"
  by (cases s; simp add: less_eq_obligation_status_def)+

section \<open>Structs\<close>

record policy =
  p_id :: nat
  p_farmer :: address
  p_plot_id :: nat
  p_lat_e6 :: int
  p_lon_e6 :: int
  p_sum_insured :: int
  p_premium :: int
  p_start_date :: nat
  p_end_date :: nat
  p_coverage_type :: coverage_type
  p_status :: policy_status
  p_created_at :: nat
  p_org :: address

record damage_report =
  r_policy_id :: nat
  r_damage_percentage :: nat
  r_weather_damage :: nat
  r_satellite_damage :: nat
  r_payout_amount :: int
  r_assessed_at :: nat

record crop_determination =
  cd_on_chain_policy_id :: nat
  cd_damage_percent_bp :: nat
  cd_weather_damage :: nat
  cd_satellite_damage :: nat
  cd_payout_amount :: int
  cd_assessed_at :: nat
  cd_latitude_e6 :: int
  cd_longitude_e6 :: int
  cd_sum_insured :: int
  cd_ndvi_scaled :: int
  cd_weather_present :: nat
  cd_weather_temp_c_e2 :: int
  cd_weather_precip_e2 :: nat
  cd_weather_humidity :: nat
  cd_weather_wind_e2 :: nat

record drought_determination =
  d_on_chain_policy_id :: nat
  d_damage_percent_bp :: nat
  d_drought_damage :: nat
  d_payout_amount :: int
  d_assessed_at :: nat
  d_latitude_e6 :: int
  d_longitude_e6 :: int
  d_sum_insured :: int
  d_season_start_epoch :: nat
  d_lgp_days :: nat
  d_rain_w1_e2 :: nat
  d_rain_ref_w1_e2 :: nat
  d_rain_w2_e2 :: nat
  d_rain_ref_w2_e2 :: nat
  d_cdd_w2_days :: nat
  d_source_hash :: bytes32
  d_methodology_params_hash :: bytes32

record policy_certificate =
  c_policy_id :: nat
  c_farmer :: address
  c_distributor :: address
  c_distributor_name :: string
  c_sum_insured :: int
  c_premium :: int
  c_start_date :: nat
  c_end_date :: nat
  c_coverage_type :: coverage_type
  c_region :: string
  c_plot_id :: nat
  c_is_active :: bool

record obligation =
  o_id :: nat
  o_payout_receiver :: address
  o_policy_id :: nat
  o_org :: address
  o_amount :: int
  o_determination_digest :: bytes32
  o_status :: obligation_status
  o_recorded_at :: nat
  o_org_index :: nat
  o_funded_by :: "address option"
  o_funded_at :: nat
  o_funding_reference :: "bytes32 option"
  o_settled_by :: "address option"
  o_settled_at :: nat
  o_settlement_reference :: "bytes32 option"

end
