(* ===== verification/Ttl.thy ===== *)
theory Ttl
  imports Host
begin

text \<open>
  The rent policy of \<^verbatim>\<open>crates/shared/src/ttl.rs\<close>. The functions on an entry are generic in
  its key, as in the source; the ones on the contract instance move its horizon. The lemmas show
  that no rent call changes a stored value, that each call respects the host's precondition
  \<open>threshold \<le> extend_to \<le> max_ttl\<close>, and what life an entry has afterwards.
\<close>

section \<open>Constants\<close>

definition NETWORK_MAX_ENTRY_TTL_LEDGERS :: nat where "NETWORK_MAX_ENTRY_TTL_LEDGERS = 3110400"
definition LEDGER_SECONDS :: nat where "LEDGER_SECONDS = 5"
definition DAY_LEDGERS :: nat where "DAY_LEDGERS = 17280"
definition USER_THRESHOLD_LEDGERS :: nat where "USER_THRESHOLD_LEDGERS = 3 * DAY_LEDGERS"
definition USER_TARGET_LEDGERS :: nat where "USER_TARGET_LEDGERS = 10 * DAY_LEDGERS"
definition KEEPER_THRESHOLD_LEDGERS :: nat where "KEEPER_THRESHOLD_LEDGERS = 23 * DAY_LEDGERS"
definition KEEPER_TARGET_LEDGERS :: nat where "KEEPER_TARGET_LEDGERS = 30 * DAY_LEDGERS"
definition ROLE_THRESHOLD_LEDGERS :: nat where "ROLE_THRESHOLD_LEDGERS = 30 * DAY_LEDGERS"
definition ROLE_TARGET_LEDGERS :: nat where "ROLE_TARGET_LEDGERS = 60 * DAY_LEDGERS"
definition PENDING_THRESHOLD_LEDGERS :: nat where "PENDING_THRESHOLD_LEDGERS = 30 * DAY_LEDGERS"
definition PENDING_TARGET_LEDGERS :: nat where "PENDING_TARGET_LEDGERS = 60 * DAY_LEDGERS"
definition SHARED_FLOOR_LEDGERS :: nat where "SHARED_FLOOR_LEDGERS = 60 * DAY_LEDGERS"
definition POLICY_GRACE_SECS :: nat where "POLICY_GRACE_SECS = 30 * 86400"
definition CLAIM_HISTORY_SECS :: nat where "CLAIM_HISTORY_SECS = 365 * 86400"

lemmas ttl_constants =
  NETWORK_MAX_ENTRY_TTL_LEDGERS_def LEDGER_SECONDS_def DAY_LEDGERS_def
  USER_THRESHOLD_LEDGERS_def USER_TARGET_LEDGERS_def KEEPER_THRESHOLD_LEDGERS_def
  KEEPER_TARGET_LEDGERS_def ROLE_THRESHOLD_LEDGERS_def ROLE_TARGET_LEDGERS_def
  PENDING_THRESHOLD_LEDGERS_def PENDING_TARGET_LEDGERS_def SHARED_FLOOR_LEDGERS_def
  POLICY_GRACE_SECS_def CLAIM_HISTORY_SECS_def

section \<open>The contract instance and its code\<close>

text \<open>The argument and the result are the last ledger the instance is paid for.\<close>

definition touch_contract :: "env \<Rightarrow> nat \<Rightarrow> nat" where
  "touch_contract e live =
     host_extend_ttl e live (min USER_THRESHOLD_LEDGERS (max_ttl e)) (min USER_TARGET_LEDGERS (max_ttl e))"

definition keep_contract_alive :: "env \<Rightarrow> nat \<Rightarrow> nat" where
  "keep_contract_alive e live =
     host_extend_ttl e live
       (min KEEPER_THRESHOLD_LEDGERS (max_ttl e)) (min KEEPER_TARGET_LEDGERS (max_ttl e))"

definition keep_other_contract_alive :: "env \<Rightarrow> nat \<Rightarrow> nat" where
  "keep_other_contract_alive e live =
     host_extend_ttl e live
       (min KEEPER_THRESHOLD_LEDGERS (max_ttl e)) (min KEEPER_TARGET_LEDGERS (max_ttl e))"

section \<open>Persistent entries\<close>

definition ledgers_until :: "env \<Rightarrow> nat \<Rightarrow> nat" where
  "ledgers_until e t =
     (let now = timestamp e in
      if t \<le> now then 0
      else let ledgers = div_ceil (t - now) LEDGER_SECONDS; bound = max_ttl e
           in if bound < ledgers then bound else ledgers)"

definition extend_to :: "env \<Rightarrow> 'k \<Rightarrow> nat \<Rightarrow> ('k, 'v) storage \<Rightarrow> error + ('k, 'v) storage" where
  "extend_to e k n st =
     (let n = min n (max_ttl e) in
      if n = 0 then Inr st
      else let threshold = n - DAY_LEDGERS in extend_ttl e k threshold n st)"

definition extend_for_policy ::
  "env \<Rightarrow> 'k \<Rightarrow> nat \<Rightarrow> ('k, 'v) storage \<Rightarrow> error + ('k, 'v) storage" where
  "extend_for_policy e k end_date st =
     extend_to e k (ledgers_until e (saturating_add_u64 end_date POLICY_GRACE_SECS)) st"

definition extend_pending ::
  "env \<Rightarrow> 'k \<Rightarrow> ('k, 'v) storage \<Rightarrow> error + ('k, 'v) storage" where
  "extend_pending e k st =
     extend_ttl e k (min PENDING_THRESHOLD_LEDGERS (max_ttl e)) (min PENDING_TARGET_LEDGERS (max_ttl e)) st"

definition extend_role ::
  "env \<Rightarrow> 'k \<Rightarrow> ('k, 'v) storage \<Rightarrow> error + ('k, 'v) storage" where
  "extend_role e k st =
     extend_ttl e k (min ROLE_THRESHOLD_LEDGERS (max_ttl e)) (min ROLE_TARGET_LEDGERS (max_ttl e)) st"

definition extend_shared ::
  "env \<Rightarrow> 'k \<Rightarrow> nat option \<Rightarrow> ('k, 'v) storage \<Rightarrow> error + ('k, 'v) storage" where
  "extend_shared e k end_date st =
     (let need = (case end_date of
                    Some end \<Rightarrow> ledgers_until e (saturating_add_u64 end POLICY_GRACE_SECS)
                  | None \<Rightarrow> 0)
      in extend_to e k (max need SHARED_FLOOR_LEDGERS) st)"

definition extend_for_secs ::
  "env \<Rightarrow> 'k \<Rightarrow> nat \<Rightarrow> ('k, 'v) storage \<Rightarrow> error + ('k, 'v) storage" where
  "extend_for_secs e k secs st =
     (let until = saturating_add_u64 (timestamp e) secs
      in extend_to e k (max (ledgers_until e until) SHARED_FLOOR_LEDGERS) st)"

section \<open>Rent never touches a value and never traps on an existing entry\<close>

text \<open>
  \<open>kept e k n st\<close> is the store after a successful \<open>extend_to\<close>: the form the contract
  proofs rewrite every rent call to.
\<close>

definition kept :: "env \<Rightarrow> 'k \<Rightarrow> nat \<Rightarrow> ('k, 'v) storage \<Rightarrow> ('k, 'v) storage" where
  "kept e k n st =
     (let n = min n (max_ttl e) in if n = 0 then st else bumped e k (n - DAY_LEDGERS) n st)"

lemma get_kept [simp, storage_simps]: "get (kept e k n st) = get st"
  by (simp add: kept_def Let_def)

lemma has_kept [simp]: "has (kept e k n st) = has st"
  by (simp add: kept_def Let_def)

text \<open>The store after a rent call the code makes only if the entry exists.\<close>

definition kept_if :: "env \<Rightarrow> 'k \<Rightarrow> nat \<Rightarrow> ('k, 'v) storage \<Rightarrow> ('k, 'v) storage" where
  "kept_if e k n st = (if has st k then kept e k n st else st)"

lemma get_kept_if [simp, storage_simps]: "get (kept_if e k n st) = get st"
  by (simp add: kept_if_def)

lemma extend_to_has [simp]: "has st k \<Longrightarrow> extend_to e k n st = Inr (kept e k n st)"
  by (cases "min n (max_ttl e) = 0") (simp_all only: extend_to_def kept_def Let_def simp_thms if_True if_False extend_ttl_has)

lemma extend_to_get: "extend_to e k n st = Inr st' \<Longrightarrow> get st' = get st"
  by (auto simp: extend_to_def Let_def split: if_splits dest: extend_ttl_get)

lemma extend_for_policy_has [simp]:
  "has st k \<Longrightarrow> extend_for_policy e k t st =
     Inr (kept e k (ledgers_until e (saturating_add_u64 t POLICY_GRACE_SECS)) st)"
  by (simp add: extend_for_policy_def)

lemma extend_pending_has [simp]:
  "has st k \<Longrightarrow> extend_pending e k st =
     Inr (bumped e k (min PENDING_THRESHOLD_LEDGERS (max_ttl e)) (min PENDING_TARGET_LEDGERS (max_ttl e)) st)"
  by (simp add: extend_pending_def)

lemma extend_role_has [simp]:
  "has st k \<Longrightarrow> extend_role e k st =
     Inr (bumped e k (min ROLE_THRESHOLD_LEDGERS (max_ttl e)) (min ROLE_TARGET_LEDGERS (max_ttl e)) st)"
  by (simp add: extend_role_def)

definition shared_need :: "env \<Rightarrow> nat option \<Rightarrow> nat" where
  "shared_need e end_date =
     max (case end_date of
            Some end \<Rightarrow> ledgers_until e (saturating_add_u64 end POLICY_GRACE_SECS)
          | None \<Rightarrow> 0) SHARED_FLOOR_LEDGERS"

lemma extend_shared_has [simp]:
  "has st k \<Longrightarrow> extend_shared e k t st = Inr (kept e k (shared_need e t) st)"
  by (simp add: extend_shared_def shared_need_def Let_def)

lemma extend_for_secs_has [simp]:
  "has st k \<Longrightarrow> extend_for_secs e k secs st =
     Inr (kept e k (max (ledgers_until e (saturating_add_u64 (timestamp e) secs)) SHARED_FLOOR_LEDGERS) st)"
  by (simp add: extend_for_secs_def Let_def)

section \<open>What life an entry has\<close>

lemma ledgers_until_le_max: "ledgers_until e t \<le> max_ttl e"
  by (simp add: ledgers_until_def Let_def)

lemma ledgers_until_zero_iff: "0 < max_ttl e \<Longrightarrow> ledgers_until e t = 0 \<longleftrightarrow> t \<le> timestamp e"
  using div_ceil_least(1) [of LEDGER_SECONDS "t - timestamp e"]
  by (auto simp: ledgers_until_def Let_def LEDGER_SECONDS_def)

text \<open>
  The wanted number of ledgers covers the time, and one ledger less would not.
\<close>

lemma ledgers_until_covers:
  assumes "ledgers_until e t < max_ttl e"
  shows "t \<le> timestamp e + ledgers_until e t * LEDGER_SECONDS"
  using assms div_ceil_least(1) [of LEDGER_SECONDS "t - timestamp e"]
  by (auto simp: ledgers_until_def Let_def LEDGER_SECONDS_def split: if_splits)

lemma ledgers_until_least:
  assumes "0 < ledgers_until e t"
  shows "timestamp e + (ledgers_until e t - 1) * LEDGER_SECONDS < t"
proof -
  let ?c = "div_ceil (t - timestamp e) LEDGER_SECONDS"
  have future: "timestamp e < t"
    using assms by (auto simp: ledgers_until_def Let_def split: if_splits)
  have "ledgers_until e t \<le> ?c" by (auto simp: ledgers_until_def Let_def)
  then have "(ledgers_until e t - 1) * LEDGER_SECONDS \<le> (?c - 1) * LEDGER_SECONDS"
    by (intro mult_le_mono1 diff_le_mono)
  also have "\<dots> < t - timestamp e"
    using div_ceil_least(2) [of LEDGER_SECONDS "t - timestamp e"] future
    by (simp add: LEDGER_SECONDS_def)
  finally show ?thesis using future by linarith
qed

text \<open>
  A rent call never shortens a horizon, and afterwards the entry lives as long as asked, up to
  the network maximum and less at most the one day of hysteresis.
\<close>

lemma extend_to_live:
  assumes host: "documented_extend_ttl e" and old: "live_until st k = Some l"
    and call: "extend_to e k n st = Inr st'" and asked: "0 < min n (max_ttl e)"
  shows "\<exists>l'. live_until st' k = Some l' \<and> l \<le> l' \<and> l' \<le> max l (sequence e + min n (max_ttl e)) \<and>
           sequence e + (min n (max_ttl e) - DAY_LEDGERS) \<le> l'"
proof -
  define m where "m = min n (max_ttl e)"
  let ?l = "host_extend_ttl e l (m - DAY_LEDGERS) m"
  have "has st k" using old by (auto simp: has_def live_until_def)
  then have "st' = bumped e k (m - DAY_LEDGERS) m st"
    using call asked by (simp add: m_def kept_def Let_def)
  then have new: "live_until st' k = Some ?l"
    using old by (auto simp: live_until_def bumped_def)
  have "m - DAY_LEDGERS \<le> m" and "m \<le> max_ttl e" by (simp, unfold m_def, rule min.cobounded2)
  note rule = documented_extend_ttlD [OF host this]
  from new rule(1,2,4) show ?thesis unfolding m_def by blast
qed

text \<open>The host's own precondition holds at every call with fixed thresholds.\<close>

lemma rent_targets_ordered:
  "min USER_THRESHOLD_LEDGERS b \<le> min USER_TARGET_LEDGERS b"
  "min KEEPER_THRESHOLD_LEDGERS b \<le> min KEEPER_TARGET_LEDGERS b"
  "min ROLE_THRESHOLD_LEDGERS b \<le> min ROLE_TARGET_LEDGERS b"
  "min PENDING_THRESHOLD_LEDGERS b \<le> min PENDING_TARGET_LEDGERS b"
  by (auto simp: ttl_constants)

text \<open>
  The keeper never leaves an instance with less than its 23-day threshold, and a user call
  never extends past ten days what already lives for three.
\<close>

lemma keep_contract_alive_live:
  assumes "documented_extend_ttl e"
  shows "live \<le> keep_contract_alive e live"
    and "sequence e + min KEEPER_THRESHOLD_LEDGERS (max_ttl e) \<le> keep_contract_alive e live"
  unfolding keep_contract_alive_def
  using documented_extend_ttlD(1,4) [OF assms rent_targets_ordered(2) min.cobounded2] by blast+

lemma touch_contract_live:
  assumes "documented_extend_ttl e"
  shows "live \<le> touch_contract e live"
    and "sequence e + min USER_THRESHOLD_LEDGERS (max_ttl e) \<le> touch_contract e live"
    and "touch_contract e live \<le> max live (sequence e + min USER_TARGET_LEDGERS (max_ttl e))"
  unfolding touch_contract_def
  using documented_extend_ttlD(1,2,4) [OF assms rent_targets_ordered(1) min.cobounded2] by blast+

section \<open>Properties\<close>

text \<open>A policy's entries outlive the policy. On a host that follows the documented rule, an
  \<open>extend_for_policy\<close> call that succeeds while the need is inside the network's limit leaves the entry
  paid for until 30 days after the end of the cover, less at most the one day of hysteresis; it
  never shortens a horizon and never pays for more than the need.\<close>

theorem policy_entry_outlives_policy:
  assumes host: "documented_extend_ttl e" and old: "live_until st k = Some l"
    and call: "extend_for_policy e k end_date st = Inr st'"
    and need: "timestamp e < end_date" "end_date + POLICY_GRACE_SECS \<le> u64_max"
    and limit: "ledgers_until e (end_date + POLICY_GRACE_SECS) < max_ttl e"
  shows "\<exists>l'. live_until st' k = Some l' \<and> l \<le> l' \<and>
     l' \<le> max l (sequence e + ledgers_until e (end_date + POLICY_GRACE_SECS)) \<and>
     end_date + POLICY_GRACE_SECS \<le> timestamp e + (l' - sequence e + DAY_LEDGERS) * LEDGER_SECONDS"
proof -
  let ?t = "end_date + POLICY_GRACE_SECS"
  let ?n = "ledgers_until e ?t"
  have sat: "saturating_add_u64 end_date POLICY_GRACE_SECS = ?t" using need(2) by (simp add: saturating_add_u64_def)
  have "0 < ?n" using need(1) limit ledgers_until_zero_iff [of e ?t] by (cases "?n = 0") simp_all
  then have asked: "0 < min ?n (max_ttl e)" using limit by simp
  from extend_to_live [OF host old call [unfolded extend_for_policy_def sat] asked] limit
  obtain l' where l': "live_until st' k = Some l'" "l \<le> l'" "l' \<le> max l (sequence e + ?n)"
      "sequence e + (?n - DAY_LEDGERS) \<le> l'" by auto
  have "?n \<le> l' - sequence e + DAY_LEDGERS" using l'(4) by linarith
  then have "?n * LEDGER_SECONDS \<le> (l' - sequence e + DAY_LEDGERS) * LEDGER_SECONDS" by (rule mult_le_mono1)
  with ledgers_until_covers [OF limit] have "?t \<le> timestamp e + (l' - sequence e + DAY_LEDGERS) * LEDGER_SECONDS"
    by linarith
  with l' show ?thesis by blast
qed

theorem policy_entry_outlives_policy_witness:
  "\<exists>st' l'. extend_for_policy sample_env (0::nat) 1700086400 (put sample_env 0 True Map.empty) = Inr st' \<and>
     live_until st' 0 = Some l' \<and> 1702678400 \<le> 1700000000 + (l' - 1000 + DAY_LEDGERS) * LEDGER_SECONDS"
proof -
  let ?st = "put sample_env (0::nat) True Map.empty"
  obtain st' where call: "extend_for_policy sample_env 0 1700086400 ?st = Inr st'" by simp
  have old: "live_until ?st 0 = Some 5095" by (simp add: live_until_def put_def sample_env_def)
  have t: "1700086400 + POLICY_GRACE_SECS = 1702678400" by (simp add: POLICY_GRACE_SECS_def)
  have "ledgers_until sample_env 1702678400 < max_ttl sample_env"
    by (simp add: ledgers_until_def Let_def div_ceil_def LEDGER_SECONDS_def)
  then show ?thesis
    using policy_entry_outlives_policy [OF sample_env_documented old call] call t
    by (auto simp: u64_max_def) (simp add: sample_env_def)
qed

end
