(* ===== verification/Roles.thy ===== *)
theory Roles
  imports Types Ttl
begin

text \<open>
  The role registry of \<^verbatim>\<open>crates/shared/src/roles.rs\<close>: one persistent entry per grant, keyed
  by role and holder, in each contract's own storage. A read of a held grant extends its rent,
  so even the queries return a new registry.
\<close>

section \<open>The registry\<close>

type_synonym roles = "(role \<times> address, bool) storage"

definition has_role :: "env \<Rightarrow> role \<Rightarrow> address \<Rightarrow> roles \<Rightarrow> error + bool \<times> roles" where
  "has_role e r who st =
     (let held = unwrap_or False (get st (r, who)) in
      if held then bindE (extend_role e (r, who) st) (\<lambda>st. Inr (held, st))
      else Inr (held, st))"

definition grant_role :: "env \<Rightarrow> role \<Rightarrow> address \<Rightarrow> roles \<Rightarrow> error + roles" where
  "grant_role e r who st = extend_role e (r, who) (put e (r, who) True st)"

definition revoke_role :: "env \<Rightarrow> role \<Rightarrow> address \<Rightarrow> roles \<Rightarrow> roles" where
  "revoke_role e r who st = remove (r, who) st"

definition require_role :: "env \<Rightarrow> address \<Rightarrow> role \<Rightarrow> roles \<Rightarrow> error + roles" where
  "require_role e caller r st =
     bindE (require_auth e caller) (\<lambda>_.
     bindE (has_role e r caller st) (\<lambda>(held, st).
     if \<not> held then Inl (CommonE Unauthorized) else Inr st))"

section \<open>What a holder is\<close>

definition holds :: "roles \<Rightarrow> role \<Rightarrow> address \<Rightarrow> bool" where
  "holds st r who \<longleftrightarrow> get st (r, who) = Some True"

text \<open>The registry after a held grant was found: only the grant's horizon moved.\<close>

definition used_role :: "env \<Rightarrow> role \<Rightarrow> address \<Rightarrow> roles \<Rightarrow> roles" where
  "used_role e r who st =
     (if holds st r who
      then bumped e (r, who) (min ROLE_THRESHOLD_LEDGERS (max_ttl e)) (min ROLE_TARGET_LEDGERS (max_ttl e)) st
      else st)"

lemma get_used_role [simp, storage_simps]: "get (used_role e r who st) = get st"
  by (simp add: used_role_def)

lemma holds_used_role [simp]: "holds (used_role e r who st) = holds st"
  by (simp add: fun_eq_iff holds_def)

lemma unwrap_held: "unwrap_or False (get st (r, who)) \<longleftrightarrow> holds st r who"
  by (simp add: holds_def unwrap_or_def split: option.splits)

lemma has_role_eq: "has_role e r who st = Inr (holds st r who, used_role e r who st)"
  by (auto simp: has_role_def unwrap_held used_role_def Let_def has_iff holds_def)

lemma require_role_eq:
  "require_role e caller r st =
     (if \<not> authorizes e caller then Inl (HostE AuthFailed)
      else if \<not> holds st r caller then Inl (CommonE Unauthorized)
      else Inr (used_role e r caller st))"
  by (simp add: require_role_def has_role_eq require_auth_def)

lemma require_role_Inr [simp]:
  "require_role e caller r st = Inr st' \<longleftrightarrow>
     authorizes e caller \<and> holds st r caller \<and> st' = used_role e r caller st"
  by (auto simp: require_role_eq)

lemma grant_role_ok: "\<exists>st'. grant_role e r who st = Inr st' \<and> get st' = (get st)((r, who) \<mapsto> True)"
  by (simp add: grant_role_def)

lemma grant_role_Inr: "grant_role e r who st = Inr st' \<Longrightarrow> get st' = (get st)((r, who) \<mapsto> True)"
  by (auto simp: grant_role_def)

lemma holds_grant:
  "grant_role e r who st = Inr st' \<Longrightarrow> holds st' q a \<longleftrightarrow> (q = r \<and> a = who) \<or> holds st q a"
  by (cases "q = r \<and> a = who") (auto simp: holds_def grant_role_Inr)

lemma holds_revoke: "holds (revoke_role e r who st) q a \<longleftrightarrow> holds st q a \<and> \<not> (q = r \<and> a = who)"
  by (auto simp: holds_def revoke_role_def)

section \<open>The interface of a role-gated contract\<close>

text \<open>
  The access-control contract every one of the four contracts repeats: an entry point that
  grants, one that revokes, and the registry they act on. \<open>registry\<close> reads it out of the
  contract's state. The laws are the access-control rules; what they imply for a whole contract
  is proved once here.
\<close>

locale role_gated =
  fixes grant :: "env \<Rightarrow> address \<Rightarrow> role \<Rightarrow> address \<Rightarrow> 's \<Rightarrow> error + 's"
    and revoke :: "env \<Rightarrow> address \<Rightarrow> role \<Rightarrow> address \<Rightarrow> 's \<Rightarrow> error + 's"
    and registry :: "'s \<Rightarrow> roles"
  assumes grant_law:
      "(\<exists>s'. grant e c r a s = Inr s') \<longleftrightarrow> authorizes e c \<and> holds (registry s) Admin c"
    and grant_effect:
      "grant e c r a s = Inr s' \<Longrightarrow>
         holds (registry s') q b \<longleftrightarrow> (q = r \<and> b = a) \<or> holds (registry s) q b"
    and revoke_law:
      "(\<exists>s'. revoke e c r a s = Inr s') \<longleftrightarrow> authorizes e c \<and> holds (registry s) Admin c"
    and revoke_effect:
      "revoke e c r a s = Inr s' \<Longrightarrow>
         holds (registry s') q b \<longleftrightarrow> holds (registry s) q b \<and> \<not> (q = r \<and> b = a)"
begin

lemma grant_needs_admin:
  "grant e c r a s = Inr s' \<Longrightarrow> authorizes e c \<and> holds (registry s) Admin c"
  using grant_law by blast

lemma revoke_needs_admin:
  "revoke e c r a s = Inr s' \<Longrightarrow> authorizes e c \<and> holds (registry s) Admin c"
  using revoke_law by blast

text \<open>A stranger cannot make itself a holder of anything.\<close>

lemma no_self_escalation: "\<not> holds (registry s) Admin c \<Longrightarrow> grant e c r c s \<noteq> Inr s'"
  using grant_needs_admin by blast

text \<open>An admin can undo a grant, and the registry is then what it was for every other pair.\<close>

lemma grant_revoke_restores:
  assumes "grant e c r a s = Inr s1" and "authorizes e' c'" and "holds (registry s1) Admin c'"
  shows "\<exists>s2. revoke e' c' r a s1 = Inr s2 \<and>
           (\<forall>q b. holds (registry s2) q b \<longleftrightarrow> holds (registry s) q b \<and> \<not> (q = r \<and> b = a))"
proof -
  obtain s2 where "revoke e' c' r a s1 = Inr s2" using assms(2,3) revoke_law by blast
  then show ?thesis using grant_effect [OF assms(1)] revoke_effect by blast
qed

end

end
