(* ===== verification/PagedIndex.thy ===== *)
theory PagedIndex
  imports Host
begin

text \<open>
  Three contracts keep the same kind of index: a count per owner and one entry per position,
  read back in pages of at most fifty. Here are the two page loops of the sources and the
  interface they implement; each contract interprets it on its own entries.
\<close>

section \<open>The page loops\<close>

text \<open>
  \<^verbatim>\<open>while i < end { let id = p.get(..).unwrap_or_else(panic); out.push_back(id); i += 1 }\<close>,
  as PolicyManager and PolicyNft write it.
\<close>

function read_page ::
  "error \<Rightarrow> (nat \<Rightarrow> nat option) \<Rightarrow> nat \<Rightarrow> nat \<Rightarrow> nat list \<Rightarrow> error + nat list" where
  "read_page err item i end out =
     (if i < end
      then (case item i of None \<Rightarrow> Inl err | Some v \<Rightarrow> read_page err item (i + 1) end (out @ [v]))
      else Inr out)"
  by pat_completeness auto
termination
  by (relation "measure (\<lambda>(err, item, i, end, out). end - i)") auto

declare read_page.simps [simp del]

text \<open>\<^verbatim>\<open>for i in start..end { if let Some(id) = .. { out.push_back(id) } }\<close>, as in the adapter.\<close>

definition collect_page :: "(nat \<Rightarrow> nat option) \<Rightarrow> nat \<Rightarrow> nat \<Rightarrow> nat list" where
  "collect_page item start end =
     fold (\<lambda>i out. case item i of None \<Rightarrow> out | Some v \<Rightarrow> out @ [v]) [start..<end] []"

lemma read_page_dense:
  assumes "\<And>j. i \<le> j \<Longrightarrow> j < end \<Longrightarrow> item j \<noteq> None"
  shows "read_page err item i end out = Inr (out @ map (\<lambda>j. the (item j)) [i..<end])"
  using assms
proof (induction err item i "end" out rule: read_page.induct)
  case (1 err item i "end" out)
  show ?case
  proof (cases "i < end")
    case True
    then obtain v where v: "item i = Some v" using "1.prems" by blast
    have "read_page err item (i + 1) end (out @ [v]) =
        Inr ((out @ [v]) @ map (\<lambda>j. the (item j)) [i + 1..<end])"
      by (rule "1.IH" [OF True v]) (use "1.prems" in simp)
    then show ?thesis
      using True v by (simp add: read_page.simps [of err item i] upt_conv_Cons)
  next
    case False
    then show ?thesis by (simp add: read_page.simps [of err item i])
  qed
qed

lemma read_page_missing:
  assumes "i \<le> j" and "j < end" and "item j = None"
  shows "read_page err item i end out = Inl err"
  using assms
proof (induction err item i "end" out rule: read_page.induct)
  case (1 err item i "end" out)
  then have "i < end" by simp
  show ?case
  proof (cases "item i")
    case None
    with \<open>i < end\<close> show ?thesis by (simp add: read_page.simps [of err item i])
  next
    case (Some v)
    with "1.prems" have "i + 1 \<le> j" by (cases "i = j") auto
    then have "read_page err item (i + 1) end (out @ [v]) = Inl err"
      using "1.IH" [OF \<open>i < end\<close> Some] "1.prems" by blast
    with Some \<open>i < end\<close> show ?thesis by (simp add: read_page.simps [of err item i])
  qed
qed

lemma collect_fold:
  "(\<And>j. j \<in> set js \<Longrightarrow> item j \<noteq> None) \<Longrightarrow>
     fold (\<lambda>i out. case item i of None \<Rightarrow> out | Some v \<Rightarrow> out @ [v]) js out =
       out @ map (\<lambda>j. the (item j)) js"
proof (induction js arbitrary: out)
  case (Cons a js)
  then obtain v where "item a = Some v" by (metis list.set_intros(1) not_Some_eq)
  with Cons show ?case by simp
qed simp

lemma collect_page_dense:
  assumes "\<And>j. start \<le> j \<Longrightarrow> j < end \<Longrightarrow> item j \<noteq> None"
  shows "collect_page item start end = map (\<lambda>j. the (item j)) [start..<end]"
  unfolding collect_page_def using assms collect_fold [of "[start..<end]" item "[]"] by auto

section \<open>The interface\<close>

locale paged_index =
  fixes items :: "'s \<Rightarrow> address \<Rightarrow> nat \<Rightarrow> nat option"
    and size_of :: "'s \<Rightarrow> address \<Rightarrow> nat"
    and page :: "'s \<Rightarrow> address \<Rightarrow> nat \<Rightarrow> nat \<Rightarrow> error + nat list"
    and cap :: nat
    and well_formed :: "'s \<Rightarrow> bool"
  assumes cap_pos: "0 < cap"
    and small: "well_formed s \<Longrightarrow> size_of s a \<le> u32_max"
    and page_law:
      "well_formed s \<Longrightarrow> page s a start limit =
         Inr (map (\<lambda>i. the (items s a i))
           [start..<min (saturating_add_u32 start (min limit cap)) (size_of s a)])"
begin

definition listing :: "'s \<Rightarrow> address \<Rightarrow> nat list" where
  "listing s a = map (\<lambda>i. the (items s a i)) [0..<size_of s a]"

text \<open>A page is a slice of the whole index.\<close>

lemma page_slice:
  assumes "well_formed s"
  shows "page s a start limit = Inr (take (min limit cap) (drop start (listing s a)))"
proof -
  let ?n = "size_of s a"
  have "min (saturating_add_u32 start (min limit cap)) ?n = min (start + min limit cap) ?n"
    using small [OF assms, of a] by (simp add: saturating_add_u32_def)
  moreover have "take m (drop start [0..<?n]) = [start..<min (start + m) ?n]" for m
    by (simp add: take_upt drop_upt min_def)
  ultimately show ?thesis
    by (simp add: page_law [OF assms] listing_def drop_map take_map)
qed

lemma page_length: "well_formed s \<Longrightarrow> page s a start limit = Inr ids \<Longrightarrow> length ids \<le> cap"
  by (auto simp: page_slice)

lemma page_past_end: "well_formed s \<Longrightarrow> size_of s a \<le> start \<Longrightarrow> page s a start limit = Inr []"
  by (simp add: page_slice listing_def)

text \<open>Walking the pages from the start reads the whole index, in order, without gap or repeat.\<close>

lemma pages_complete:
  assumes "well_formed s" and "0 < limit"
  shows "concat (map (\<lambda>k. projr (page s a (k * min limit cap) limit)) [0..<size_of s a]) = listing s a"
proof -
  let ?m = "min limit cap" and ?xs = "listing s a"
  have "0 < ?m" using assms(2) cap_pos by simp
  have chunks: "concat (map (\<lambda>k. take ?m (drop (k * ?m) ?xs)) [0..<n]) = take (n * ?m) ?xs" for n
  proof (induction n)
    case (Suc n)
    have "take (Suc n * ?m) ?xs = take (n * ?m) ?xs @ take ?m (drop (n * ?m) ?xs)"
      using take_add [of "n * ?m" ?m ?xs] by (simp add: add.commute)
    then show ?case using Suc by simp
  qed simp
  have "length ?xs \<le> size_of s a * ?m" using \<open>0 < ?m\<close> by (simp add: listing_def)
  then show ?thesis using chunks [of "size_of s a"] by (simp add: page_slice [OF assms(1)])
qed

end

end
