(* ===== verification/PolicyNft.thy ===== *)
theory PolicyNft
  imports Roles PagedIndex
begin

text \<open>
  The certificate registry of \<^verbatim>\<open>crates/policy-nft/src/lib.rs\<close>: its storage as a record (one
  field per variant of \<open>DataKey\<close>), every entry point, and the lemmas: what each operation
  does on each branch, the invariant linking certificates, owners, tokens and the distributor
  index, and the soulbound rule.
\<close>

section \<open>State\<close>

datatype nft_event =
    PolicyNftMinted nat nat address address int
  | PolicyStatusUpdated nat bool
  | PolicyManagerUpdated address
  | Transfer address address nat

record nft_state =
  nft_roles :: roles
  nft_policy_manager :: "address option"
  nft_name :: "string option"
  nft_symbol :: "string option"
  nft_certificate :: "(nat, policy_certificate) storage"
  nft_owner :: "(nat, address) storage"
  nft_policy_to_token :: "(nat, nat) storage"
  nft_distributor_count :: "(address, nat) storage"
  nft_distributor_policy :: "(address \<times> nat, nat) storage"
  nft_instance_live :: nat
  nft_events :: "nft_event list"

definition NFT_MAX_PAGE_SIZE :: nat where "NFT_MAX_PAGE_SIZE = 50"

definition nft_deployed :: "env \<Rightarrow> nft_state" where
  "nft_deployed e =
     \<lparr>nft_roles = Map.empty, nft_policy_manager = None, nft_name = None, nft_symbol = None,
      nft_certificate = Map.empty, nft_owner = Map.empty, nft_policy_to_token = Map.empty,
      nft_distributor_count = Map.empty, nft_distributor_policy = Map.empty,
      nft_instance_live = fresh_live_until e, nft_events = []\<rparr>"

definition nft_publish :: "nft_event \<Rightarrow> nft_state \<Rightarrow> nft_state" where
  "nft_publish ev s = s\<lparr>nft_events := nft_events s @ [ev]\<rparr>"

definition nft_bump_instance :: "env \<Rightarrow> nft_state \<Rightarrow> nft_state" where
  "nft_bump_instance e s = s\<lparr>nft_instance_live := touch_contract e (nft_instance_live s)\<rparr>"

section \<open>Deployment and administration\<close>

definition nft_constructor :: "env \<Rightarrow> address \<Rightarrow> string \<Rightarrow> string \<Rightarrow> error + nft_state" where
  "nft_constructor e admin name symbol =
     (let s = nft_deployed e in
      bindE (grant_role e Admin admin (nft_roles s)) (\<lambda>roles.
      Inr (s\<lparr>nft_roles := roles, nft_name := Some name, nft_symbol := Some symbol\<rparr>)))"

definition set_policy_manager :: "env \<Rightarrow> address \<Rightarrow> address \<Rightarrow> nft_state \<Rightarrow> error + nft_state" where
  "set_policy_manager e caller policy_manager s =
     bindE (require_role e caller Admin (nft_roles s)) (\<lambda>roles.
     let s = s\<lparr>nft_roles := roles\<rparr>;
         s = s\<lparr>nft_policy_manager := Some policy_manager\<rparr>;
         s = nft_bump_instance e s
     in Inr (nft_publish (PolicyManagerUpdated policy_manager) s))"

definition nft_extend_contract_ttl :: "env \<Rightarrow> nft_state \<Rightarrow> error + nft_state" where
  "nft_extend_contract_ttl e s =
     Inr (s\<lparr>nft_instance_live := keep_contract_alive e (nft_instance_live s)\<rparr>)"

definition nft_grant_role :: "env \<Rightarrow> address \<Rightarrow> role \<Rightarrow> address \<Rightarrow> nft_state \<Rightarrow> error + nft_state" where
  "nft_grant_role e caller r who s =
     bindE (require_role e caller Admin (nft_roles s)) (\<lambda>roles.
     bindE (grant_role e r who roles) (\<lambda>roles. Inr (s\<lparr>nft_roles := roles\<rparr>)))"

definition nft_revoke_role :: "env \<Rightarrow> address \<Rightarrow> role \<Rightarrow> address \<Rightarrow> nft_state \<Rightarrow> error + nft_state" where
  "nft_revoke_role e caller r who s =
     bindE (require_role e caller Admin (nft_roles s)) (\<lambda>roles.
     Inr (s\<lparr>nft_roles := revoke_role e r who roles\<rparr>))"

definition nft_has_role :: "env \<Rightarrow> role \<Rightarrow> address \<Rightarrow> nft_state \<Rightarrow> error + bool \<times> nft_state" where
  "nft_has_role e r who s =
     bindE (has_role e r who (nft_roles s)) (\<lambda>(b, roles). Inr (b, s\<lparr>nft_roles := roles\<rparr>))"

section \<open>Domain operations\<close>

definition mint_policy ::
  "env \<Rightarrow> address \<Rightarrow> address \<Rightarrow> nat \<Rightarrow> address \<Rightarrow> string \<Rightarrow> int \<Rightarrow> int \<Rightarrow> nat \<Rightarrow> nat \<Rightarrow>
     coverage_type \<Rightarrow> string \<Rightarrow> nat \<Rightarrow> nft_state \<Rightarrow> error + nat \<times> nft_state" where
  "mint_policy e caller farmer policy_id distributor distributor_name sum_insured premium
     start_date end_date coverage_type region plot_id s =
     bindE (require_role e caller Minter (nft_roles s)) (\<lambda>roles.
     let s = s\<lparr>nft_roles := roles\<rparr> in
     if policy_id = 0 then Inl (NftE InvalidPolicyId)
     else if has (nft_policy_to_token s) policy_id then Inl (NftE PolicyAlreadyMinted)
     else
       let token_id = policy_id;
           cert = \<lparr>c_policy_id = policy_id, c_farmer = farmer, c_distributor = distributor,
                   c_distributor_name = distributor_name, c_sum_insured = sum_insured,
                   c_premium = premium, c_start_date = start_date, c_end_date = end_date,
                   c_coverage_type = coverage_type, c_region = region, c_plot_id = plot_id,
                   c_is_active = True\<rparr>;
           s = s\<lparr>nft_certificate := put e token_id cert (nft_certificate s)\<rparr>;
           s = s\<lparr>nft_policy_to_token := put e policy_id token_id (nft_policy_to_token s)\<rparr>;
           s = s\<lparr>nft_owner := put e token_id farmer (nft_owner s)\<rparr>;
           n = unwrap_or 0 (get (nft_distributor_count s) distributor);
           s = s\<lparr>nft_distributor_policy := put e (distributor, n) token_id (nft_distributor_policy s)\<rparr>
       in
       bindE (add_u32 n 1) (\<lambda>n1.
       let s = s\<lparr>nft_distributor_count := put e distributor n1 (nft_distributor_count s)\<rparr> in
       bindE (extend_for_policy e token_id end_date (nft_certificate s)) (\<lambda>m.
       let s = s\<lparr>nft_certificate := m\<rparr> in
       bindE (extend_for_policy e policy_id end_date (nft_policy_to_token s)) (\<lambda>m.
       let s = s\<lparr>nft_policy_to_token := m\<rparr> in
       bindE (extend_for_policy e token_id end_date (nft_owner s)) (\<lambda>m.
       let s = s\<lparr>nft_owner := m\<rparr> in
       bindE (extend_for_policy e (distributor, n) end_date (nft_distributor_policy s)) (\<lambda>m.
       let s = s\<lparr>nft_distributor_policy := m\<rparr> in
       bindE (extend_shared e distributor (Some end_date) (nft_distributor_count s)) (\<lambda>m.
       let s = s\<lparr>nft_distributor_count := m\<rparr>;
           s = nft_bump_instance e s
       in Inr (token_id,
            nft_publish (PolicyNftMinted token_id policy_id farmer distributor sum_insured) s))))))))"

definition update_policy_status ::
  "env \<Rightarrow> address \<Rightarrow> nat \<Rightarrow> bool \<Rightarrow> nft_state \<Rightarrow> error + nft_state" where
  "update_policy_status e caller policy_id is_active s =
     (if nft_policy_manager s \<noteq> Some caller then Inl (NftE NotPolicyManager)
      else
        bindE (require_auth e caller) (\<lambda>_.
        case get (nft_policy_to_token s) policy_id of
          None \<Rightarrow> Inl (NftE PolicyNotFound)
        | Some token_id \<Rightarrow>
            (case get (nft_certificate s) token_id of
               None \<Rightarrow> Inl (NftE PolicyNotFound)
             | Some cert \<Rightarrow>
                 let cert = cert\<lparr>c_is_active := is_active\<rparr>;
                     s = s\<lparr>nft_certificate := put e token_id cert (nft_certificate s)\<rparr>
                 in
                 bindE (extend_for_policy e token_id (c_end_date cert) (nft_certificate s)) (\<lambda>m.
                 let s = s\<lparr>nft_certificate := m\<rparr>;
                     s = nft_bump_instance e s
                 in Inr (nft_publish (PolicyStatusUpdated token_id is_active) s)))))"

definition transfer :: "env \<Rightarrow> address \<Rightarrow> address \<Rightarrow> nat \<Rightarrow> nft_state \<Rightarrow> error + nft_state" where
  "transfer e from_addr to_addr token_id s =
     bindE (require_auth e from_addr) (\<lambda>_.
     case get (nft_owner s) token_id of
       None \<Rightarrow> Inl (NftE TokenNotFound)
     | Some owner \<Rightarrow>
         if owner \<noteq> from_addr then Inl (CommonE Unauthorized)
         else
           (case get (nft_certificate s) token_id of
              None \<Rightarrow> Inl (NftE TokenNotFound)
            | Some cert \<Rightarrow>
                if c_is_active cert then Inl (NftE TransferWhileActive)
                else
                  let s = s\<lparr>nft_owner := put e token_id to_addr (nft_owner s)\<rparr> in
                  bindE (extend_for_policy e token_id (c_end_date cert) (nft_owner s)) (\<lambda>m.
                  let s = s\<lparr>nft_owner := m\<rparr>
                  in Inr (nft_publish (Transfer from_addr to_addr token_id) s))))"

definition nft_extend_policy_ttl :: "env \<Rightarrow> nat \<Rightarrow> nft_state \<Rightarrow> error + nft_state" where
  "nft_extend_policy_ttl e policy_id s =
     (let s = nft_bump_instance e s in
      case get (nft_policy_to_token s) policy_id of
        None \<Rightarrow> Inr s
      | Some token_id \<Rightarrow>
          (case get (nft_certificate s) token_id of
             None \<Rightarrow> Inr s
           | Some cert \<Rightarrow>
               let end_date = c_end_date cert in
               bindE (extend_for_policy e policy_id end_date (nft_policy_to_token s)) (\<lambda>m.
               let s = s\<lparr>nft_policy_to_token := m\<rparr> in
               bindE (extend_for_policy e token_id end_date (nft_certificate s)) (\<lambda>m.
               let s = s\<lparr>nft_certificate := m\<rparr> in
               if has (nft_owner s) token_id
               then bindE (extend_for_policy e token_id end_date (nft_owner s)) (\<lambda>m.
                    Inr (s\<lparr>nft_owner := m\<rparr>))
               else Inr s))))"

section \<open>Views\<close>

definition owner_of :: "nat \<Rightarrow> nft_state \<Rightarrow> error + address" where
  "owner_of token_id s =
     (case get (nft_owner s) token_id of None \<Rightarrow> Inl (NftE TokenNotFound) | Some a \<Rightarrow> Inr a)"

definition get_certificate :: "nat \<Rightarrow> nft_state \<Rightarrow> error + policy_certificate" where
  "get_certificate token_id s =
     (case get (nft_certificate s) token_id of None \<Rightarrow> Inl (NftE TokenNotFound) | Some c \<Rightarrow> Inr c)"

definition policy_nft_exists :: "nat \<Rightarrow> nft_state \<Rightarrow> bool" where
  "policy_nft_exists policy_id s = has (nft_policy_to_token s) policy_id"

definition get_distributor_policy_count :: "address \<Rightarrow> nft_state \<Rightarrow> nat" where
  "get_distributor_policy_count distributor s =
     unwrap_or 0 (get (nft_distributor_count s) distributor)"

definition get_distributor_policies ::
  "address \<Rightarrow> nat \<Rightarrow> nat \<Rightarrow> nft_state \<Rightarrow> error + nat list" where
  "get_distributor_policies distributor start limit s =
     (let count = unwrap_or 0 (get (nft_distributor_count s) distributor);
          end = min (saturating_add_u32 start (min limit NFT_MAX_PAGE_SIZE)) count
      in read_page (NftE TokenNotFound) (\<lambda>i. get (nft_distributor_policy s) (distributor, i)) start end [])"

section \<open>What each operation does\<close>

text \<open>
  The certificate \<open>mint_policy\<close> stores. Every other field of it comes from the call; only
  \<open>c_is_active\<close> ever changes afterwards.
\<close>

definition fresh_certificate ::
  "address \<Rightarrow> nat \<Rightarrow> address \<Rightarrow> string \<Rightarrow> int \<Rightarrow> int \<Rightarrow> nat \<Rightarrow> nat \<Rightarrow> coverage_type \<Rightarrow> string \<Rightarrow>
     nat \<Rightarrow> policy_certificate" where
  "fresh_certificate farmer policy_id distributor name amount premium start stop cover region plot =
     \<lparr>c_policy_id = policy_id, c_farmer = farmer, c_distributor = distributor,
      c_distributor_name = name, c_sum_insured = amount, c_premium = premium, c_start_date = start,
      c_end_date = stop, c_coverage_type = cover, c_region = region, c_plot_id = plot,
      c_is_active = True\<rparr>"

definition distributor_size :: "nft_state \<Rightarrow> address \<Rightarrow> nat" where
  "distributor_size s d = unwrap_or 0 (get (nft_distributor_count s) d)"

lemma mint_policy_effect:
  assumes "mint_policy e caller farmer pid d name sm prem st en cov reg plot s = Inr (t, s')"
  shows "authorizes e caller" and "holds (nft_roles s) Minter caller" and "pid \<noteq> 0"
    and "get (nft_policy_to_token s) pid = None" and "distributor_size s d < u32_max"
    and "t = pid"
    and "get (nft_certificate s') =
           (get (nft_certificate s))(pid \<mapsto> fresh_certificate farmer pid d name sm prem st en cov reg plot)"
    and "get (nft_policy_to_token s') = (get (nft_policy_to_token s))(pid \<mapsto> pid)"
    and "get (nft_owner s') = (get (nft_owner s))(pid \<mapsto> farmer)"
    and "get (nft_distributor_policy s') =
           (get (nft_distributor_policy s))((d, distributor_size s d) \<mapsto> pid)"
    and "get (nft_distributor_count s') =
           (get (nft_distributor_count s))(d \<mapsto> distributor_size s d + 1)"
    and "nft_policy_manager s' = nft_policy_manager s"
    and "holds (nft_roles s') = holds (nft_roles s)"
    and "nft_events s' = nft_events s @ [PolicyNftMinted pid pid farmer d sm]"
  using assms
  by (auto simp: mint_policy_def Let_def bindE_eq_Inr has_iff fresh_certificate_def
      distributor_size_def nft_publish_def nft_bump_instance_def split: if_splits)

lemma mint_policy_ok:
  assumes "authorizes e caller" and "holds (nft_roles s) Minter caller" and "pid \<noteq> 0"
    and "get (nft_policy_to_token s) pid = None" and "distributor_size s d < u32_max"
  shows "\<exists>s'. mint_policy e caller farmer pid d name sm prem st en cov reg plot s = Inr (pid, s')"
  using assms
  by (simp add: mint_policy_def Let_def require_role_eq has_iff distributor_size_def
      add_u32_def checked_def)

lemma update_policy_status_effect:
  assumes "update_policy_status e caller pid b s = Inr s'"
  shows "\<exists>t cert. nft_policy_manager s = Some caller \<and> authorizes e caller \<and>
           get (nft_policy_to_token s) pid = Some t \<and> get (nft_certificate s) t = Some cert \<and>
           get (nft_certificate s') = (get (nft_certificate s))(t \<mapsto> cert\<lparr>c_is_active := b\<rparr>) \<and>
           nft_events s' = nft_events s @ [PolicyStatusUpdated t b]"
    and "get (nft_policy_to_token s') = get (nft_policy_to_token s)"
    and "get (nft_owner s') = get (nft_owner s)"
    and "get (nft_distributor_policy s') = get (nft_distributor_policy s)"
    and "get (nft_distributor_count s') = get (nft_distributor_count s)"
    and "nft_policy_manager s' = nft_policy_manager s"
    and "nft_roles s' = nft_roles s"
  using assms
  by (auto simp: update_policy_status_def Let_def bindE_eq_Inr nft_publish_def nft_bump_instance_def
      split: if_splits option.splits)

lemma update_policy_status_ok:
  assumes "nft_policy_manager s = Some caller" and "authorizes e caller"
    and "get (nft_policy_to_token s) pid = Some t" and "get (nft_certificate s) t = Some cert"
  shows "\<exists>s'. update_policy_status e caller pid b s = Inr s'"
  using assms by (simp add: update_policy_status_def require_auth_def Let_def)

lemma transfer_effect:
  assumes "transfer e a b t s = Inr s'"
  shows "authorizes e a" and "get (nft_owner s) t = Some a"
    and "\<exists>cert. get (nft_certificate s) t = Some cert \<and> \<not> c_is_active cert"
    and "get (nft_owner s') = (get (nft_owner s))(t \<mapsto> b)"
    and "nft_certificate s' = nft_certificate s"
    and "nft_policy_to_token s' = nft_policy_to_token s"
    and "nft_distributor_policy s' = nft_distributor_policy s"
    and "nft_distributor_count s' = nft_distributor_count s"
    and "nft_policy_manager s' = nft_policy_manager s" and "nft_roles s' = nft_roles s"
    and "nft_events s' = nft_events s @ [Transfer a b t]"
  using assms
  by (auto simp: transfer_def Let_def bindE_eq_Inr nft_publish_def split: if_splits option.splits)

lemma transfer_ok:
  assumes "authorizes e a" and "get (nft_owner s) t = Some a"
    and "get (nft_certificate s) t = Some cert" and "\<not> c_is_active cert"
  shows "\<exists>s'. transfer e a b t s = Inr s'"
  using assms by (simp add: transfer_def require_auth_def Let_def)

definition nft_rented :: "env \<Rightarrow> nat \<Rightarrow> nft_state \<Rightarrow> nft_state" where
  "nft_rented e pid s =
     (let s = nft_bump_instance e s in
      case get (nft_policy_to_token s) pid of
        None \<Rightarrow> s
      | Some t \<Rightarrow>
          (case get (nft_certificate s) t of
             None \<Rightarrow> s
           | Some c \<Rightarrow>
               let n = ledgers_until e (saturating_add_u64 (c_end_date c) POLICY_GRACE_SECS) in
               s\<lparr>nft_policy_to_token := kept e pid n (nft_policy_to_token s),
                 nft_certificate := kept e t n (nft_certificate s),
                 nft_owner := if has (nft_owner s) t then kept e t n (nft_owner s) else nft_owner s\<rparr>))"

lemma nft_extend_policy_ttl_ok: "nft_extend_policy_ttl e pid s = Inr (nft_rented e pid s)"
proof (cases "get (nft_policy_to_token s) pid")
  case None
  then show ?thesis by (simp add: nft_extend_policy_ttl_def nft_rented_def nft_bump_instance_def Let_def)
next
  case (Some t)
  then show ?thesis
    by (cases "get (nft_certificate s) t")
      (simp_all add: nft_extend_policy_ttl_def nft_rented_def nft_bump_instance_def Let_def get_SomeD)
qed

lemma nft_rented_simps [simp]:
  "get (nft_certificate (nft_rented e pid s)) = get (nft_certificate s)"
  "get (nft_policy_to_token (nft_rented e pid s)) = get (nft_policy_to_token s)"
  "get (nft_owner (nft_rented e pid s)) = get (nft_owner s)"
  "nft_distributor_policy (nft_rented e pid s) = nft_distributor_policy s"
  "nft_distributor_count (nft_rented e pid s) = nft_distributor_count s"
  "nft_policy_manager (nft_rented e pid s) = nft_policy_manager s"
  "nft_roles (nft_rented e pid s) = nft_roles s"
  "nft_events (nft_rented e pid s) = nft_events s"
  by (simp_all add: nft_rented_def nft_bump_instance_def Let_def split: option.split)

section \<open>Steps of the contract\<close>

text \<open>One rule per entry point that writes; the label is the invocation's environment.\<close>

inductive nft_step :: "env \<Rightarrow> nft_state \<Rightarrow> nft_state \<Rightarrow> bool" where
  step_mint:
    "mint_policy e caller farmer pid d name sm prem st en cov reg plot s = Inr (t, s') \<Longrightarrow> nft_step e s s'"
| step_status: "update_policy_status e caller pid b s = Inr s' \<Longrightarrow> nft_step e s s'"
| step_transfer: "transfer e a b t s = Inr s' \<Longrightarrow> nft_step e s s'"
| step_rent: "nft_extend_policy_ttl e pid s = Inr s' \<Longrightarrow> nft_step e s s'"
| step_keep: "nft_extend_contract_ttl e s = Inr s' \<Longrightarrow> nft_step e s s'"
| step_manager: "set_policy_manager e caller m s = Inr s' \<Longrightarrow> nft_step e s s'"
| step_grant: "nft_grant_role e caller r who s = Inr s' \<Longrightarrow> nft_step e s s'"
| step_revoke: "nft_revoke_role e caller r who s = Inr s' \<Longrightarrow> nft_step e s s'"
| step_has_role: "nft_has_role e r who s = Inr (b, s') \<Longrightarrow> nft_step e s s'"

inductive nft_reachable :: "nft_state \<Rightarrow> bool" where
  nft_start: "nft_constructor e admin name symbol = Inr s \<Longrightarrow> nft_reachable s"
| nft_next: "nft_reachable s \<Longrightarrow> nft_step e s s' \<Longrightarrow> nft_reachable s'"

text \<open>
  The part of the state the certificate book consists of. The administrative entry points and
  the rent calls leave all of it alone.
\<close>

definition same_book :: "nft_state \<Rightarrow> nft_state \<Rightarrow> bool" where
  "same_book s s' \<longleftrightarrow>
     get (nft_certificate s') = get (nft_certificate s) \<and>
     get (nft_policy_to_token s') = get (nft_policy_to_token s) \<and>
     get (nft_owner s') = get (nft_owner s) \<and>
     get (nft_distributor_policy s') = get (nft_distributor_policy s) \<and>
     get (nft_distributor_count s') = get (nft_distributor_count s)"

lemma same_book_rent: "nft_extend_policy_ttl e pid s = Inr s' \<Longrightarrow> same_book s s'"
  by (auto simp: same_book_def nft_extend_policy_ttl_ok)

lemma same_book_admin:
  "nft_extend_contract_ttl e s = Inr s' \<Longrightarrow> same_book s s'"
  "set_policy_manager e caller m s = Inr s' \<Longrightarrow> same_book s s'"
  "nft_grant_role e caller r who s = Inr s' \<Longrightarrow> same_book s s'"
  "nft_revoke_role e caller r who s = Inr s' \<Longrightarrow> same_book s s'"
  "nft_has_role e r who s = Inr (b, s') \<Longrightarrow> same_book s s'"
  by (auto simp: same_book_def nft_extend_contract_ttl_def set_policy_manager_def nft_grant_role_def
      nft_revoke_role_def nft_has_role_def has_role_eq bindE_eq_Inr Let_def nft_bump_instance_def
      nft_publish_def)

lemma set_policy_manager_effect:
  assumes "set_policy_manager e caller m s = Inr s'"
  shows "authorizes e caller" and "holds (nft_roles s) Admin caller"
    and "nft_policy_manager s' = Some m" and "holds (nft_roles s') = holds (nft_roles s)"
  using assms
  by (auto simp: set_policy_manager_def bindE_eq_Inr Let_def nft_publish_def nft_bump_instance_def)

text \<open>So every step is a mint, a status flip, a transfer, or leaves the book alone.\<close>

lemma nft_step_cases:
  assumes "nft_step e s s'"
  obtains (Mint) caller farmer pid d name sm prem st en cov reg plot t where
      "mint_policy e caller farmer pid d name sm prem st en cov reg plot s = Inr (t, s')"
    | (Status) caller pid b where "update_policy_status e caller pid b s = Inr s'"
    | (Move) a b t where "transfer e a b t s = Inr s'"
    | (Other) "same_book s s'"
  using assms by (cases rule: nft_step.cases) (blast dest: same_book_rent same_book_admin)+

section \<open>The invariant\<close>

definition nft_inv :: "nft_state \<Rightarrow> bool" where
  "nft_inv s \<longleftrightarrow>
     (\<forall>pid t. get (nft_policy_to_token s) pid = Some t \<longrightarrow> t = pid \<and> pid \<noteq> 0) \<and>
     dom (get (nft_certificate s)) = dom (get (nft_policy_to_token s)) \<and>
     dom (get (nft_owner s)) = dom (get (nft_policy_to_token s)) \<and>
     (\<forall>t c. get (nft_certificate s) t = Some c \<longrightarrow> c_policy_id c = t) \<and>
     (\<forall>d. distributor_size s d \<le> u32_max) \<and>
     (\<forall>d i. get (nft_distributor_policy s) (d, i) \<noteq> None \<longleftrightarrow> i < distributor_size s d) \<and>
     (\<forall>d i t. get (nft_distributor_policy s) (d, i) = Some t \<longrightarrow>
        (\<exists>c. get (nft_certificate s) t = Some c \<and> c_distributor c = d)) \<and>
     (\<forall>t c. get (nft_certificate s) t = Some c \<longrightarrow>
        (\<exists>!i. get (nft_distributor_policy s) (c_distributor c, i) = Some t))"

lemma nft_invD:
  assumes "nft_inv s"
  shows "get (nft_policy_to_token s) pid = Some t \<Longrightarrow> t = pid \<and> pid \<noteq> 0"
    and "dom (get (nft_certificate s)) = dom (get (nft_policy_to_token s))"
    and "dom (get (nft_owner s)) = dom (get (nft_policy_to_token s))"
    and "get (nft_certificate s) t = Some c \<Longrightarrow> c_policy_id c = t"
    and "distributor_size s d \<le> u32_max"
    and "get (nft_distributor_policy s) (d, i) \<noteq> None \<longleftrightarrow> i < distributor_size s d"
    and "get (nft_distributor_policy s) (d, i) = Some t \<Longrightarrow>
           \<exists>c. get (nft_certificate s) t = Some c \<and> c_distributor c = d"
    and "get (nft_certificate s) t = Some c \<Longrightarrow>
           \<exists>!i. get (nft_distributor_policy s) (c_distributor c, i) = Some t"
  using assms unfolding nft_inv_def by blast+

lemma nft_inv_same_book: "nft_inv s \<Longrightarrow> same_book s s' \<Longrightarrow> nft_inv s'"
  by (simp add: nft_inv_def same_book_def distributor_size_def)

lemma nft_inv_transfer:
  assumes "nft_inv s" and "transfer e a b t s = Inr s'"
  shows "nft_inv s'"
proof -
  note tr = transfer_effect [OF assms(2)]
  have "dom (get (nft_owner s')) = dom (get (nft_owner s))" using tr(2,4) by (auto simp: insert_dom)
  then show ?thesis
    using assms(1) tr(5-8) unfolding nft_inv_def distributor_size_def by simp
qed

lemma nft_inv_status:
  assumes inv: "nft_inv s" and call: "update_policy_status e caller pid b s = Inr s'"
  shows "nft_inv s'"
proof -
  note st = update_policy_status_effect [OF call]
  from st(1) obtain t cert where c: "get (nft_certificate s) t = Some cert"
    and c': "get (nft_certificate s') = (get (nft_certificate s))(t \<mapsto> cert\<lparr>c_is_active := b\<rparr>)"
    by blast
  have dom: "dom (get (nft_certificate s')) = dom (get (nft_certificate s))"
    using c c' by auto
  have older: "\<And>u x. get (nft_certificate s') u = Some x \<Longrightarrow> \<exists>y. get (nft_certificate s) u = Some y \<and>
      c_policy_id y = c_policy_id x \<and> c_distributor y = c_distributor x"
    using c c' by (auto split: if_splits)
  have forth: "\<And>u y. get (nft_certificate s) u = Some y \<Longrightarrow> \<exists>x. get (nft_certificate s') u = Some x \<and>
      c_distributor x = c_distributor y"
    using c c' by (auto split: if_splits)
  note old = nft_invD [OF inv]
  have size: "distributor_size s' = distributor_size s" by (simp add: fun_eq_iff distributor_size_def st(5))
  show ?thesis
    unfolding nft_inv_def st(2,3,4) dom size
  proof (intro conjI allI impI)
    show "\<And>u x. get (nft_certificate s') u = Some x \<Longrightarrow> c_policy_id x = u"
      using older old(4) by metis
    show "\<And>d i u. get (nft_distributor_policy s) (d, i) = Some u \<Longrightarrow>
        \<exists>x. get (nft_certificate s') u = Some x \<and> c_distributor x = d"
      using forth old(7) by metis
    show "\<And>u x. get (nft_certificate s') u = Some x \<Longrightarrow>
        \<exists>!i. get (nft_distributor_policy s) (c_distributor x, i) = Some u"
      using older old(8) by metis
  qed (use old(1,2,3,5,6) in \<open>blast+\<close>)
qed

lemma nft_inv_mint:
  assumes inv: "nft_inv s"
    and call: "mint_policy e caller farmer pid d name sm prem st en cov reg plot s = Inr (t, s')"
  shows "nft_inv s'"
proof -
  note m = mint_policy_effect [OF call]
  note old = nft_invD [OF inv]
  define cert where "cert = fresh_certificate farmer pid d name sm prem st en cov reg plot"
  have cert: "c_policy_id cert = pid" "c_distributor cert = d"
    by (simp_all add: cert_def fresh_certificate_def)
  have size: "distributor_size s' a = (if a = d then distributor_size s d + 1 else distributor_size s a)" for a
    by (simp add: distributor_size_def m(11))
  have absent: "get (nft_certificate s) pid = None"
    using m(4) old(2) by (metis domIff)
  have unused: "get (nft_distributor_policy s) (a, i) \<noteq> Some pid" for a i
    using old(7) absent by fastforce
  have index: "get (nft_distributor_policy s') (a, i) =
      (if a = d \<and> i = distributor_size s d then Some pid else get (nft_distributor_policy s) (a, i))" for a i
    by (auto simp: m(10))
  have certs: "get (nft_certificate s') u = (if u = pid then Some cert else get (nft_certificate s) u)" for u
    by (simp add: m(7) cert_def)
  have free: "get (nft_distributor_policy s) (d, distributor_size s d) = None"
    using old(6) [of d "distributor_size s d"] by simp
  show ?thesis unfolding nft_inv_def
  proof (intro conjI allI impI)
    show "\<And>q u. get (nft_policy_to_token s') q = Some u \<Longrightarrow> u = q"
      and "\<And>q u. get (nft_policy_to_token s') q = Some u \<Longrightarrow> q \<noteq> 0"
      using old(1) m(3) by (auto simp: m(8) split: if_splits)
    show "dom (get (nft_certificate s')) = dom (get (nft_policy_to_token s'))"
      and "dom (get (nft_owner s')) = dom (get (nft_policy_to_token s'))"
      using old(2,3) by (simp_all add: m(7,8,9))
    show "\<And>u c. get (nft_certificate s') u = Some c \<Longrightarrow> c_policy_id c = u"
      using old(4) cert by (auto simp: certs split: if_splits)
    show "\<And>a. distributor_size s' a \<le> u32_max" using old(5) m(5) by (simp add: size)
    show "\<And>a i. (get (nft_distributor_policy s') (a, i) \<noteq> None) = (i < distributor_size s' a)"
      using old(6) by (auto simp: index size less_Suc_eq)
    show "\<And>a i u. get (nft_distributor_policy s') (a, i) = Some u \<Longrightarrow>
        \<exists>c. get (nft_certificate s') u = Some c \<and> c_distributor c = a"
      using old(7) unused cert by (auto simp: index certs split: if_splits)
    show "\<exists>!i. get (nft_distributor_policy s') (c_distributor c, i) = Some u"
      if "get (nft_certificate s') u = Some c" for u c
    proof (cases "u = pid")
      case True
      then show ?thesis using that cert unused by (auto simp: index certs)
    next
      case False
      then have "\<exists>!i. get (nft_distributor_policy s) (c_distributor c, i) = Some u"
        using that old(8) by (simp add: certs)
      moreover have "get (nft_distributor_policy s') (c_distributor c, i) = Some u \<longleftrightarrow>
          get (nft_distributor_policy s) (c_distributor c, i) = Some u" for i
        using False free by (auto simp: index)
      ultimately show ?thesis by simp
    qed
  qed
qed

lemma nft_constructor_effect:
  assumes "nft_constructor e admin name symbol = Inr s"
  shows "holds (nft_roles s) r a \<longleftrightarrow> r = Admin \<and> a = admin"
    and "get (nft_certificate s) = Map.empty" and "get (nft_policy_to_token s) = Map.empty"
    and "get (nft_owner s) = Map.empty" and "get (nft_distributor_policy s) = Map.empty"
    and "get (nft_distributor_count s) = Map.empty"
  using assms
  by (auto simp: nft_constructor_def nft_deployed_def bindE_eq_Inr Let_def holds_def
      dest!: grant_role_Inr split: if_splits)

lemma nft_inv_constructor:
  assumes "nft_constructor e admin name symbol = Inr s"
  shows "nft_inv s"
  by (simp add: nft_inv_def distributor_size_def nft_constructor_effect(2-) [OF assms])

lemma nft_inv_step: "nft_inv s \<Longrightarrow> nft_step e s s' \<Longrightarrow> nft_inv s'"
  by (erule nft_step_cases) (blast intro: nft_inv_mint nft_inv_status nft_inv_transfer nft_inv_same_book)+

section \<open>Interfaces\<close>

interpretation nft_access: role_gated nft_grant_role nft_revoke_role nft_roles
proof unfold_locales
  fix e c r a and s s' :: nft_state and q b
  show "(\<exists>s'. nft_grant_role e c r a s = Inr s') \<longleftrightarrow> authorizes e c \<and> holds (nft_roles s) Admin c"
    by (auto simp: nft_grant_role_def require_role_eq grant_role_def)
  show "(\<exists>s'. nft_revoke_role e c r a s = Inr s') \<longleftrightarrow> authorizes e c \<and> holds (nft_roles s) Admin c"
    by (auto simp: nft_revoke_role_def require_role_eq)
  show "nft_grant_role e c r a s = Inr s' \<Longrightarrow>
      holds (nft_roles s') q b \<longleftrightarrow> (q = r \<and> b = a) \<or> holds (nft_roles s) q b"
    by (auto simp: nft_grant_role_def bindE_eq_Inr holds_grant)
  show "nft_revoke_role e c r a s = Inr s' \<Longrightarrow>
      holds (nft_roles s') q b \<longleftrightarrow> holds (nft_roles s) q b \<and> \<not> (q = r \<and> b = a)"
    by (auto simp: nft_revoke_role_def bindE_eq_Inr holds_revoke)
qed

lemma distributor_page:
  assumes "nft_inv s"
  shows "get_distributor_policies d start limit s =
    Inr (map (\<lambda>i. the (get (nft_distributor_policy s) (d, i)))
      [start..<min (saturating_add_u32 start (min limit NFT_MAX_PAGE_SIZE)) (distributor_size s d)])"
  unfolding get_distributor_policies_def distributor_size_def [symmetric] Let_def
  using nft_invD(6) [OF assms] by (subst read_page_dense) auto

interpretation nft_pages: paged_index
  "\<lambda>s d i. get (nft_distributor_policy s) (d, i)" distributor_size
  "\<lambda>s d start limit. get_distributor_policies d start limit s" NFT_MAX_PAGE_SIZE nft_inv
  by unfold_locales (auto simp: distributor_page NFT_MAX_PAGE_SIZE_def dest: nft_invD(5))

section \<open>A concrete run\<close>

text \<open>
  Admin 11 makes the PolicyManager 100 a minter and the manager; 100 mints policy 9
  for farmer 5 and then closes it.
\<close>

definition sample_nft_new :: nft_state where
  "sample_nft_new = projr (nft_constructor sample_env (Address 11) ''MicroCrop'' ''MCROP'')"

definition sample_nft_ready :: nft_state where
  "sample_nft_ready =
     projr (bindE (nft_grant_role sample_env (Address 11) Minter (Address 100) sample_nft_new)
       (set_policy_manager sample_env (Address 11) (Address 100)))"

definition sample_nft_minted :: nft_state where
  "sample_nft_minted =
     snd (projr (mint_policy sample_env (Address 100) (Address 5) 9 (Address 6) ''Org'' 1000 50
       1700000000 1710000000 Drought ''NG'' 3 sample_nft_ready))"

definition sample_nft_closed :: nft_state where
  "sample_nft_closed = projr (update_policy_status sample_env (Address 100) 9 False sample_nft_minted)"

lemma sample_nft_new:
  "nft_constructor sample_env (Address 11) ''MicroCrop'' ''MCROP'' = Inr sample_nft_new"
  by (simp add: sample_nft_new_def nft_constructor_def grant_role_def Let_def)

lemma sample_nft_new_admin: "holds (nft_roles sample_nft_new) Admin (Address 11)"
  by (simp add: nft_constructor_effect(1) [OF sample_nft_new])

lemma sample_nft_ready:
  "\<exists>s. nft_grant_role sample_env (Address 11) Minter (Address 100) sample_nft_new = Inr s \<and>
     set_policy_manager sample_env (Address 11) (Address 100) s = Inr sample_nft_ready"
  "holds (nft_roles sample_nft_ready) Minter (Address 100)"
  "get (nft_policy_to_token sample_nft_ready) = Map.empty"
  "get (nft_distributor_count sample_nft_ready) = Map.empty"
  "nft_policy_manager sample_nft_ready = Some (Address 100)"
proof -
  obtain s where s: "nft_grant_role sample_env (Address 11) Minter (Address 100) sample_nft_new = Inr s"
    using nft_access.grant_law sample_nft_new_admin sample_env_simps(2) by blast
  have "holds (nft_roles s) Admin (Address 11)" and m: "holds (nft_roles s) Minter (Address 100)"
    using nft_access.grant_effect [OF s] sample_nft_new_admin by auto
  then have "\<exists>s'. set_policy_manager sample_env (Address 11) (Address 100) s = Inr s'"
    by (simp add: set_policy_manager_def require_role_eq Let_def)
  then obtain s' where s': "set_policy_manager sample_env (Address 11) (Address 100) s = Inr s'" ..
  then have eq: "s' = sample_nft_ready" by (simp add: sample_nft_ready_def s)
  then show "\<exists>s. nft_grant_role sample_env (Address 11) Minter (Address 100) sample_nft_new = Inr s \<and>
     set_policy_manager sample_env (Address 11) (Address 100) s = Inr sample_nft_ready" using s s' by blast
  have "same_book sample_nft_new sample_nft_ready"
    using same_book_admin(3) [OF s] same_book_admin(2) [OF s'] eq by (simp add: same_book_def)
  then show "get (nft_policy_to_token sample_nft_ready) = Map.empty"
    and "get (nft_distributor_count sample_nft_ready) = Map.empty"
    using nft_constructor_effect [OF sample_nft_new] by (simp_all add: same_book_def)
  show "holds (nft_roles sample_nft_ready) Minter (Address 100)"
    and "nft_policy_manager sample_nft_ready = Some (Address 100)"
    using m eq set_policy_manager_effect [OF s'] by simp_all
qed

lemma sample_nft_minted:
  "mint_policy sample_env (Address 100) (Address 5) 9 (Address 6) ''Org'' 1000 50
     1700000000 1710000000 Drought ''NG'' 3 sample_nft_ready = Inr (9, sample_nft_minted)"
proof -
  have "\<exists>s'. mint_policy sample_env (Address 100) (Address 5) 9 (Address 6) ''Org'' 1000 50
     1700000000 1710000000 Drought ''NG'' 3 sample_nft_ready = Inr (9, s')"
    by (rule mint_policy_ok) (simp_all add: sample_nft_ready(2-5) distributor_size_def u32_max_def)
  then obtain s' where "mint_policy sample_env (Address 100) (Address 5) 9 (Address 6) ''Org'' 1000 50
     1700000000 1710000000 Drought ''NG'' 3 sample_nft_ready = Inr (9, s')" ..
  then show ?thesis unfolding sample_nft_minted_def by simp
qed

lemma sample_nft_closed:
  "update_policy_status sample_env (Address 100) 9 False sample_nft_minted = Inr sample_nft_closed"
proof -
  note m = mint_policy_effect [OF sample_nft_minted]
  have "\<exists>s'. update_policy_status sample_env (Address 100) 9 False sample_nft_minted = Inr s'"
  proof (rule update_policy_status_ok)
    show "nft_policy_manager sample_nft_minted = Some (Address 100)" by (simp add: m(12) sample_nft_ready(5))
    show "get (nft_policy_to_token sample_nft_minted) 9 = Some 9" by (simp add: m(8))
    show "get (nft_certificate sample_nft_minted) 9 = Some (fresh_certificate (Address 5) 9 (Address 6)
        ''Org'' 1000 50 1700000000 1710000000 Drought ''NG'' 3)" by (simp add: m(7))
  qed simp
  then show ?thesis unfolding sample_nft_closed_def by (metis sum.sel(2))
qed

lemma sample_nft_reachable:
  "nft_reachable sample_nft_minted" "nft_reachable sample_nft_closed"
proof -
  have "nft_reachable sample_nft_ready"
    using sample_nft_ready(1) nft_start [OF sample_nft_new] by (blast intro: nft_next nft_step.intros)
  then show "nft_reachable sample_nft_minted"
    using sample_nft_minted by (blast intro: nft_next nft_step.intros)
  then show "nft_reachable sample_nft_closed"
    using sample_nft_closed by (blast intro: nft_next nft_step.intros)
qed

lemma nft_reachable_inv: "nft_reachable s \<Longrightarrow> nft_inv s"
  by (induction rule: nft_reachable.induct) (blast intro: nft_inv_constructor nft_inv_step)+

text \<open>The index of a distributor lists exactly its certificates, each once.\<close>

lemma nft_listing:
  assumes "nft_inv s"
  shows "set (nft_pages.listing s d) = {t. \<exists>c. get (nft_certificate s) t = Some c \<and> c_distributor c = d}"
    and "distinct (nft_pages.listing s d)"
proof -
  note inv = nft_invD [OF assms]
  let ?item = "\<lambda>i. get (nft_distributor_policy s) (d, i)"
  have stored: "\<exists>t. ?item i = Some t" if "i < distributor_size s d" for i
    using inv(6) that by blast
  have same: "i = j" if one: "?item i = Some t" and two: "?item j = Some t" for i j t
  proof -
    obtain c where c: "get (nft_certificate s) t = Some c" "c_distributor c = d"
      using inv(7) [OF one] by blast
    then show ?thesis using inv(8) [OF c(1)] one two by blast
  qed
  show "set (nft_pages.listing s d) = {t. \<exists>c. get (nft_certificate s) t = Some c \<and> c_distributor c = d}"
  proof
    show "set (nft_pages.listing s d) \<subseteq> {t. \<exists>c. get (nft_certificate s) t = Some c \<and> c_distributor c = d}"
      using stored inv(7) by (fastforce simp: nft_pages.listing_def)
  next
    show "{t. \<exists>c. get (nft_certificate s) t = Some c \<and> c_distributor c = d} \<subseteq> set (nft_pages.listing s d)"
    proof
      fix t
      assume "t \<in> {t. \<exists>c. get (nft_certificate s) t = Some c \<and> c_distributor c = d}"
      then obtain i where i: "?item i = Some t" using inv(8) by blast
      then have "i < distributor_size s d" using inv(6) by blast
      with i show "t \<in> set (nft_pages.listing s d)"
        unfolding nft_pages.listing_def set_map
        by (intro image_eqI [of t _ i]) simp_all
    qed
  qed
  show "distinct (nft_pages.listing s d)"
    unfolding nft_pages.listing_def distinct_map
  proof
    show "inj_on (\<lambda>i. the (?item i)) (set [0..<distributor_size s d])"
    proof (rule inj_onI)
      fix i j
      assume "i \<in> set [0..<distributor_size s d]" and "j \<in> set [0..<distributor_size s d]"
        and eq: "the (?item i) = the (?item j)"
      then obtain t u where "?item i = Some t" and "?item j = Some u" using stored by fastforce
      with eq show "i = j" using same by simp
    qed
  qed simp
qed

section \<open>Properties\<close>

text \<open>C33. In every reachable state the certificate book is consistent: a token's id is its
  policy's id and never zero, certificate, owner and token entries exist together, and each
  distributor's index enumerates its certificates, each exactly once, below its count.\<close>

theorem certificate_book_consistent:
  assumes "nft_reachable s"
  shows "nft_inv s"
  using assms by (rule nft_reachable_inv)

theorem certificate_book_consistent_witness: "nft_inv sample_nft_closed"
  by (rule certificate_book_consistent) (rule sample_nft_reachable)

text \<open>C34. Soulbound: from a reachable state, whatever call runs, an existing token changes owner
  only when its certificate is inactive and its old owner authorised the call, and the move is
  logged.\<close>

theorem soulbound_while_active:
  assumes "nft_reachable s" and "nft_step e s s'"
    and "get (nft_owner s) t = Some a" and "get (nft_owner s') t \<noteq> Some a"
  shows "\<exists>b c. get (nft_owner s') t = Some b \<and> get (nft_certificate s) t = Some c \<and>
           \<not> c_is_active c \<and> authorizes e a \<and> nft_events s' = nft_events s @ [Transfer a b t]"
  using assms(2)
proof (cases rule: nft_step_cases)
  case (Mint caller farmer pid d name sm prem st en cov reg plot u)
  note m = mint_policy_effect [OF Mint]
  have "get (nft_owner s) pid = None"
    using m(4) nft_invD(3) [OF nft_reachable_inv [OF assms(1)]] by (metis domIff)
  with m(9) assms(3,4) show ?thesis by (auto split: if_splits)
next
  case (Status caller pid b)
  then show ?thesis using assms(3,4) by (simp add: update_policy_status_effect(3))
next
  case (Move x y u)
  note tr = transfer_effect [OF Move]
  have "u = t" using tr(4) assms(3,4) by (auto split: if_splits)
  with tr assms(3) show ?thesis by auto
next
  case Other
  then show ?thesis using assms(3,4) by (simp add: same_book_def)
qed

lemma sample_nft_moved:
  "\<exists>s'. transfer sample_env (Address 5) (Address 8) 9 sample_nft_closed = Inr s'"
proof -
  note m = mint_policy_effect [OF sample_nft_minted]
  note u = update_policy_status_effect [OF sample_nft_closed]
  let ?cert = "fresh_certificate (Address 5) 9 (Address 6) ''Org'' 1000 50 1700000000 1710000000 Drought ''NG'' 3"
  have "get (nft_certificate sample_nft_closed) 9 = Some (?cert\<lparr>c_is_active := False\<rparr>)"
    using u(1) by (auto simp: m(7,8))
  moreover have "get (nft_owner sample_nft_closed) 9 = Some (Address 5)" by (simp add: u(3) m(9))
  moreover have "\<not> c_is_active (?cert\<lparr>c_is_active := False\<rparr>)" by (simp add: fresh_certificate_def)
  ultimately show ?thesis using transfer_ok [OF sample_env_simps(2)] by blast
qed

theorem soulbound_while_active_witness:
  "\<exists>(s' :: nft_state) c. get (nft_owner s') 9 = Some (Address 8) \<and>
     get (nft_certificate sample_nft_closed) 9 = Some c \<and> \<not> c_is_active c"
proof -
  obtain s' where s': "transfer sample_env (Address 5) (Address 8) 9 sample_nft_closed = Inr s'"
    using sample_nft_moved by blast
  note tr = transfer_effect [OF s']
  have "get (nft_owner s') 9 \<noteq> Some (Address 5)" by (simp add: tr(4))
  from soulbound_while_active [OF sample_nft_reachable(2) step_transfer [OF s'] tr(2) this]
  obtain c where "get (nft_certificate sample_nft_closed) 9 = Some c" and "\<not> c_is_active c" by blast
  moreover have "get (nft_owner s') 9 = Some (Address 8)" by (simp add: tr(4))
  ultimately show ?thesis by blast
qed

text \<open>A certificate is immutable but for its active flag, it is never deleted, and the flag
  only changes in a call the wired PolicyManager authorised.\<close>

theorem certificate_immutable:
  assumes "nft_reachable s" and "nft_step e s s'" and "get (nft_certificate s) t = Some c"
  shows "\<exists>b. get (nft_certificate s') t = Some (c\<lparr>c_is_active := b\<rparr>) \<and>
           (b = c_is_active c \<or> (\<exists>m. nft_policy_manager s = Some m \<and> authorizes e m))"
  using assms(2)
proof (cases rule: nft_step_cases)
  case (Mint caller farmer pid d name sm prem st en cov reg plot u)
  note m = mint_policy_effect [OF Mint]
  have "t \<noteq> pid"
    using m(4) assms(3) nft_invD(2) [OF nft_reachable_inv [OF assms(1)]] by (metis domIff option.simps(3))
  with m(7) assms(3) show ?thesis by (intro exI [of _ "c_is_active c"]) simp
next
  case (Status caller pid b)
  then show ?thesis using assms(3) update_policy_status_effect(1) [OF Status]
    by (cases "get (nft_policy_to_token s) pid = Some t") (auto intro: exI [of _ "c_is_active c"])
next
  case (Move x y u)
  then show ?thesis using assms(3) by (intro exI [of _ "c_is_active c"]) (simp add: transfer_effect(5))
next
  case Other
  then show ?thesis using assms(3) by (intro exI [of _ "c_is_active c"]) (simp add: same_book_def)
qed

theorem certificate_immutable_witness:
  "\<exists>b c. get (nft_certificate sample_nft_closed) 9 = Some (c\<lparr>c_is_active := b\<rparr>)"
proof -
  note m = mint_policy_effect(7) [OF sample_nft_minted]
  show ?thesis
    using certificate_immutable [OF sample_nft_reachable(1) step_status [OF sample_nft_closed], of 9] m
    by auto
qed

text \<open>A mint goes through exactly when an authorised minter asks for a non-zero policy id
  that has no certificate, and the distributor's count still fits 32 bits.\<close>

theorem mint_exactly_once:
  "(\<exists>r. mint_policy e caller farmer pid d name sm prem st en cov reg plot s = Inr r) \<longleftrightarrow>
     authorizes e caller \<and> holds (nft_roles s) Minter caller \<and> pid \<noteq> 0 \<and>
     \<not> policy_nft_exists pid s \<and> get_distributor_policy_count d s < u32_max"
proof -
  have "get (nft_policy_to_token s) pid = None \<longleftrightarrow> \<not> policy_nft_exists pid s"
    and "get_distributor_policy_count d s = distributor_size s d"
    by (simp_all add: policy_nft_exists_def has_iff get_distributor_policy_count_def distributor_size_def)
  then show ?thesis
    using mint_policy_effect(1-5) [of e caller farmer pid d name sm prem st en cov reg plot s]
      mint_policy_ok [of e caller s pid d farmer name sm prem st en cov reg plot]
    by (metis surj_pair)
qed

text \<open>Reading a distributor's index page by page, from the start with any positive page size,
  returns in order and without repeat exactly the tokens of the certificates minted for it.\<close>

theorem distributor_pages_complete:
  assumes "nft_reachable s" and "0 < limit"
  shows "let ids = concat (map (\<lambda>k. projr (get_distributor_policies d (k * min limit NFT_MAX_PAGE_SIZE) limit s))
             [0..<get_distributor_policy_count d s])
         in distinct ids \<and> set ids = {t. \<exists>c. get (nft_certificate s) t = Some c \<and> c_distributor c = d}"
proof -
  note inv = nft_reachable_inv [OF assms(1)]
  have "get_distributor_policy_count d s = distributor_size s d"
    by (simp add: get_distributor_policy_count_def distributor_size_def)
  then show ?thesis
    using nft_pages.pages_complete [OF inv assms(2), of d] nft_listing [OF inv, of d] by (simp add: Let_def)
qed

theorem distributor_pages_complete_witness:
  "\<exists>ids. distinct ids \<and> set ids = {t. \<exists>c. get (nft_certificate sample_nft_closed) t = Some c \<and>
     c_distributor c = Address 6}"
  using distributor_pages_complete [OF sample_nft_reachable(2) zero_less_numeral [of "num.Bit0 num.One"], of "Address 6"]
  unfolding Let_def by (rule exI)

end
