(* ===== verification/PolicyManager.thy ===== *)
theory PolicyManager
  imports PolicyNft
begin

text \<open>
  The policy book of \<^verbatim>\<open>crates/policy-manager/src/lib.rs\<close>: its storage (one field per variant
  of \<open>DataKey\<close>), every entry point and private helper in the order of the source, and what
  each operation does. The PolicyNft contracts it calls are the map \<open>nfts\<close> from addresses to
  certificate registries; a call to an address without a contract is a trap, and a failing
  \<open>try_\<close> call leaves its callee as it was.
\<close>

section \<open>Constants\<close>

definition MIN_SUM_INSURED :: int where "MIN_SUM_INSURED = 1000000000"
definition MAX_SUM_INSURED :: int where "MAX_SUM_INSURED = 10000000000000"
definition MIN_DURATION_DAYS :: nat where "MIN_DURATION_DAYS = 30"
definition MIN_DROUGHT_DURATION_DAYS :: nat where "MIN_DROUGHT_DURATION_DAYS = 117"
definition MAX_DURATION_DAYS :: nat where "MAX_DURATION_DAYS = 365"
definition MAX_ACTIVE_POLICIES_PER_FARMER :: nat where "MAX_ACTIVE_POLICIES_PER_FARMER = 3"
definition MAX_CLAIMS_PER_FARMER_PER_YEAR :: nat where "MAX_CLAIMS_PER_FARMER_PER_YEAR = 3"
definition PM_SECONDS_PER_DAY :: nat where "PM_SECONDS_PER_DAY = 86400"
definition PM_MAX_PAGE_SIZE :: nat where "PM_MAX_PAGE_SIZE = 50"
definition MAX_LAT_E6 :: int where "MAX_LAT_E6 = 90000000"
definition MAX_LON_E6 :: int where "MAX_LON_E6 = 180000000"
definition CLAIM_WINDOW_SECS :: nat where "CLAIM_WINDOW_SECS = 365 * PM_SECONDS_PER_DAY"

lemmas pm_constants =
  MIN_SUM_INSURED_def MAX_SUM_INSURED_def MIN_DURATION_DAYS_def MIN_DROUGHT_DURATION_DAYS_def
  MAX_DURATION_DAYS_def MAX_ACTIVE_POLICIES_PER_FARMER_def MAX_CLAIMS_PER_FARMER_PER_YEAR_def
  PM_SECONDS_PER_DAY_def PM_MAX_PAGE_SIZE_def MAX_LAT_E6_def MAX_LON_E6_def CLAIM_WINDOW_SECS_def

section \<open>State\<close>

datatype pm_event =
    PolicyCreated nat address nat int int nat nat coverage_type
  | PolicyActivated nat nat
  | PolicyClaimed nat nat
  | PolicyCancelled nat nat
  | PolicyExpired nat nat
  | PolicyNftSet address
  | PolicyNftUpdateSkipped nat
  | ClaimCountIncremented address nat nat

record pm_state =
  pm_roles :: roles
  pm_policy_nft :: "address option"
  pm_policy_counter :: "nat option"
  pm_policy :: "(nat, policy) storage"
  pm_farmer_policy_count :: "(address, nat) storage"
  pm_farmer_policy_at :: "(address \<times> nat, nat) storage"
  pm_farmer_active :: "(address, nat) storage"
  pm_farmer_pending :: "(address, nat) storage"
  pm_claim_times :: "(address, nat list) storage"
  pm_pending_counted :: "(nat, bool) storage"
  pm_org_outstanding :: "(address, int) storage"
  pm_instance_live :: nat
  pm_wasm :: "bytes32 option"
  pm_events :: "pm_event list"

type_synonym nfts = "address \<Rightarrow> nft_state option"

definition pm_deployed :: "env \<Rightarrow> pm_state" where
  "pm_deployed e =
     \<lparr>pm_roles = Map.empty, pm_policy_nft = None, pm_policy_counter = None, pm_policy = Map.empty,
      pm_farmer_policy_count = Map.empty, pm_farmer_policy_at = Map.empty,
      pm_farmer_active = Map.empty, pm_farmer_pending = Map.empty, pm_claim_times = Map.empty,
      pm_pending_counted = Map.empty, pm_org_outstanding = Map.empty,
      pm_instance_live = fresh_live_until e, pm_wasm = None, pm_events = []\<rparr>"

definition pm_publish :: "pm_event \<Rightarrow> pm_state \<Rightarrow> pm_state" where
  "pm_publish ev s = s\<lparr>pm_events := pm_events s @ [ev]\<rparr>"

definition pm_bump_instance :: "env \<Rightarrow> pm_state \<Rightarrow> pm_state" where
  "pm_bump_instance e s = s\<lparr>pm_instance_live := touch_contract e (pm_instance_live s)\<rparr>"

section \<open>Deployment and administration\<close>

definition pm_constructor :: "env \<Rightarrow> address \<Rightarrow> error + pm_state" where
  "pm_constructor e admin =
     (let s = pm_deployed e in
      bindE (grant_role e Admin admin (pm_roles s)) (\<lambda>roles.
      bindE (grant_role e Upgrader admin roles) (\<lambda>roles.
      Inr (s\<lparr>pm_roles := roles, pm_policy_counter := Some 0\<rparr>))))"

definition set_policy_nft :: "env \<Rightarrow> address \<Rightarrow> address \<Rightarrow> pm_state \<Rightarrow> error + pm_state" where
  "set_policy_nft e caller policy_nft s =
     bindE (require_role e caller Admin (pm_roles s)) (\<lambda>roles.
     let s = s\<lparr>pm_roles := roles\<rparr>;
         s = s\<lparr>pm_policy_nft := Some policy_nft\<rparr>;
         s = pm_bump_instance e s
     in Inr (pm_publish (PolicyNftSet policy_nft) s))"

definition pm_extend_contract_ttl :: "env \<Rightarrow> nfts \<Rightarrow> pm_state \<Rightarrow> error + nfts \<times> pm_state" where
  "pm_extend_contract_ttl e nfts s =
     (let s = s\<lparr>pm_instance_live := keep_contract_alive e (pm_instance_live s)\<rparr> in
      case pm_policy_nft s of
        None \<Rightarrow> Inr (nfts, s)
      | Some addr \<Rightarrow>
          (case nfts addr of
             None \<Rightarrow> Inl (HostE MissingEntry)
           | Some n \<Rightarrow>
               Inr (nfts(addr \<mapsto> n\<lparr>nft_instance_live := keep_other_contract_alive e (nft_instance_live n)\<rparr>), s)))"

definition pm_grant_role :: "env \<Rightarrow> address \<Rightarrow> role \<Rightarrow> address \<Rightarrow> pm_state \<Rightarrow> error + pm_state" where
  "pm_grant_role e caller r who s =
     bindE (require_role e caller Admin (pm_roles s)) (\<lambda>roles.
     bindE (grant_role e r who roles) (\<lambda>roles. Inr (s\<lparr>pm_roles := roles\<rparr>)))"

definition pm_revoke_role :: "env \<Rightarrow> address \<Rightarrow> role \<Rightarrow> address \<Rightarrow> pm_state \<Rightarrow> error + pm_state" where
  "pm_revoke_role e caller r who s =
     bindE (require_role e caller Admin (pm_roles s)) (\<lambda>roles.
     Inr (s\<lparr>pm_roles := revoke_role e r who roles\<rparr>))"

definition pm_has_role :: "env \<Rightarrow> role \<Rightarrow> address \<Rightarrow> pm_state \<Rightarrow> error + bool \<times> pm_state" where
  "pm_has_role e r who s =
     bindE (has_role e r who (pm_roles s)) (\<lambda>(b, roles). Inr (b, s\<lparr>pm_roles := roles\<rparr>))"

definition pm_upgrade :: "env \<Rightarrow> address \<Rightarrow> bytes32 \<Rightarrow> pm_state \<Rightarrow> error + pm_state" where
  "pm_upgrade e caller new_wasm_hash s =
     bindE (require_role e caller Upgrader (pm_roles s)) (\<lambda>roles.
     Inr (s\<lparr>pm_roles := roles, pm_wasm := Some new_wasm_hash\<rparr>))"

section \<open>Internal helpers\<close>

definition policy_counter :: "pm_state \<Rightarrow> nat" where
  "policy_counter s = unwrap_or 0 (pm_policy_counter s)"

definition bump_policy :: "env \<Rightarrow> policy \<Rightarrow> pm_state \<Rightarrow> error + pm_state" where
  "bump_policy e policy s =
     (case p_status policy of
        Pending \<Rightarrow> bindE (extend_for_policy e (p_id policy) (p_end_date policy) (pm_policy s))
                    (\<lambda>m. Inr (s\<lparr>pm_policy := m\<rparr>))
      | Active \<Rightarrow> bindE (extend_for_policy e (p_id policy) (p_end_date policy) (pm_policy s))
                    (\<lambda>m. Inr (s\<lparr>pm_policy := m\<rparr>))
      | Expired \<Rightarrow> Inr s
      | Cancelled \<Rightarrow> Inr s
      | Claimed \<Rightarrow> Inr s)"

definition save_policy :: "env \<Rightarrow> policy \<Rightarrow> pm_state \<Rightarrow> error + pm_state" where
  "save_policy e policy s =
     bump_policy e policy (s\<lparr>pm_policy := put e (p_id policy) policy (pm_policy s)\<rparr>)"

definition load_policy :: "env \<Rightarrow> nat \<Rightarrow> pm_state \<Rightarrow> error + policy \<times> pm_state" where
  "load_policy e policy_id s =
     (case get (pm_policy s) policy_id of
        Some p \<Rightarrow> bindE (bump_policy e p s) (\<lambda>s. Inr (p, s))
      | None \<Rightarrow> Inl (PolicyE policy_error.PolicyDoesNotExist))"

definition farmer_active_count :: "address \<Rightarrow> pm_state \<Rightarrow> nat" where
  "farmer_active_count farmer s = unwrap_or 0 (get (pm_farmer_active s) farmer)"

definition set_farmer_active_count ::
  "env \<Rightarrow> address \<Rightarrow> nat \<Rightarrow> nat \<Rightarrow> pm_state \<Rightarrow> error + pm_state" where
  "set_farmer_active_count e farmer v end_date s =
     bindE (extend_shared e farmer (Some end_date) (put e farmer v (pm_farmer_active s))) (\<lambda>m.
     Inr (s\<lparr>pm_farmer_active := m\<rparr>))"

definition farmer_pending_count :: "address \<Rightarrow> pm_state \<Rightarrow> nat" where
  "farmer_pending_count farmer s = unwrap_or 0 (get (pm_farmer_pending s) farmer)"

definition set_farmer_pending_count ::
  "env \<Rightarrow> address \<Rightarrow> nat \<Rightarrow> nat \<Rightarrow> pm_state \<Rightarrow> error + pm_state" where
  "set_farmer_pending_count e farmer v end_date s =
     bindE (extend_shared e farmer (Some end_date) (put e farmer v (pm_farmer_pending s))) (\<lambda>m.
     Inr (s\<lparr>pm_farmer_pending := m\<rparr>))"

definition claim_times :: "address \<Rightarrow> pm_state \<Rightarrow> nat list" where
  "claim_times farmer s = unwrap_or [] (get (pm_claim_times s) farmer)"

text \<open>The counter of the loop is below the length of a host vector, so it cannot overflow.\<close>

definition claims_in_window :: "env \<Rightarrow> address \<Rightarrow> pm_state \<Rightarrow> nat" where
  "claims_in_window e farmer s =
     (let now = timestamp e in
      fold (\<lambda>t n. if now < saturating_add_u64 t CLAIM_WINDOW_SECS then n + 1 else n)
        (claim_times farmer s) 0)"

definition org_outstanding :: "address \<Rightarrow> pm_state \<Rightarrow> int" where
  "org_outstanding org s = unwrap_or 0 (get (pm_org_outstanding s) org)"

definition set_org_outstanding ::
  "env \<Rightarrow> address \<Rightarrow> int \<Rightarrow> nat \<Rightarrow> pm_state \<Rightarrow> error + pm_state" where
  "set_org_outstanding e org v end_date s =
     bindE (extend_shared e org (Some end_date) (put e org v (pm_org_outstanding s))) (\<lambda>m.
     Inr (s\<lparr>pm_org_outstanding := m\<rparr>))"

definition decrement_active :: "env \<Rightarrow> address \<Rightarrow> nat \<Rightarrow> pm_state \<Rightarrow> error + pm_state" where
  "decrement_active e farmer end_date s =
     (let c = farmer_active_count farmer s in
      if 0 < c then set_farmer_active_count e farmer (c - 1) end_date s else Inr s)"

definition release_pending_slot ::
  "env \<Rightarrow> nat \<Rightarrow> address \<Rightarrow> nat \<Rightarrow> pm_state \<Rightarrow> error + pm_state" where
  "release_pending_slot e policy_id farmer end_date s =
     (if unwrap_or False (get (pm_pending_counted s) policy_id) then
        let s = s\<lparr>pm_pending_counted := remove policy_id (pm_pending_counted s)\<rparr>;
            pending = farmer_pending_count farmer s
        in if 0 < pending then set_farmer_pending_count e farmer (pending - 1) end_date s else Inr s
      else Inr s)"

definition release_org_exposure ::
  "env \<Rightarrow> address \<Rightarrow> int \<Rightarrow> nat \<Rightarrow> pm_state \<Rightarrow> error + pm_state" where
  "release_org_exposure e org sum_insured end_date s =
     (let outstanding = org_outstanding org s in
      bindE (if sum_insured < outstanding then checked_i128 (outstanding - sum_insured) else Inr 0)
        (\<lambda>next_value. set_org_outstanding e org next_value end_date s))"

definition deactivate_policy_nft ::
  "env \<Rightarrow> nat \<Rightarrow> nfts \<Rightarrow> pm_state \<Rightarrow> error + nfts \<times> pm_state" where
  "deactivate_policy_nft e policy_id nfts s =
     (case pm_policy_nft s of
        Some addr \<Rightarrow>
          (case nfts addr of
             None \<Rightarrow> Inl (HostE NoContract)
           | Some n \<Rightarrow>
               if policy_nft_exists policy_id n then
                 (case update_policy_status (subcall e addr) (current_contract_address e) policy_id False n of
                    Inl _ \<Rightarrow> Inr (nfts, pm_publish (PolicyNftUpdateSkipped policy_id) s)
                  | Inr n' \<Rightarrow> Inr (nfts(addr \<mapsto> n'), s))
               else Inr (nfts, pm_publish (PolicyNftUpdateSkipped policy_id) s))
      | None \<Rightarrow> Inr (nfts, pm_publish (PolicyNftUpdateSkipped policy_id) s))"

definition current_open_pending_inc :: "address \<Rightarrow> pm_state \<Rightarrow> error + nat" where
  "current_open_pending_inc farmer s = add_u32 (unwrap_or 0 (get (pm_farmer_pending s) farmer)) 1"

text \<open>\<open>if p.has(&key) { ttl::extend_shared(..) }\<close>\<close>

definition extend_shared_if ::
  "env \<Rightarrow> 'k \<Rightarrow> nat \<Rightarrow> ('k, 'v) storage \<Rightarrow> error + ('k, 'v) storage" where
  "extend_shared_if e k end_date st =
     (if has st k then extend_shared e k (Some end_date) st else Inr st)"

section \<open>Domain operations\<close>

definition create_policy ::
  "env \<Rightarrow> address \<Rightarrow> address \<Rightarrow> nat \<Rightarrow> int \<Rightarrow> int \<Rightarrow> int \<Rightarrow> int \<Rightarrow> nat \<Rightarrow> coverage_type \<Rightarrow> address \<Rightarrow>
     pm_state \<Rightarrow> error + nat \<times> pm_state" where
  "create_policy e caller farmer plot_id lat_e6 lon_e6 sum_insured premium duration_days
     coverage_type org s =
     bindE (require_role e caller Backend (pm_roles s)) (\<lambda>roles.
     let s = s\<lparr>pm_roles := roles\<rparr> in
     if sum_insured < MIN_SUM_INSURED then Inl (PolicyE SumInsuredTooLow)
     else if MAX_SUM_INSURED < sum_insured then Inl (PolicyE SumInsuredTooHigh)
     else if premium \<le> 0 then Inl (PolicyE ZeroPremium)
     else if \<not> (MIN_DURATION_DAYS \<le> duration_days \<and> duration_days \<le> MAX_DURATION_DAYS)
       then Inl (PolicyE InvalidDuration)
     else if \<not> (- MAX_LAT_E6 \<le> lat_e6 \<and> lat_e6 \<le> MAX_LAT_E6) \<or>
             \<not> (- MAX_LON_E6 \<le> lon_e6 \<and> lon_e6 \<le> MAX_LON_E6)
       then Inl (PolicyE InvalidCoordinates)
     else if coverage_type \<noteq> Drought then Inl (PolicyE CoverageNotOffered)
     else if duration_days < MIN_DROUGHT_DURATION_DAYS then Inl (PolicyE InvalidDuration)
     else
     bindE (add_u32 (farmer_active_count farmer s) (farmer_pending_count farmer s)) (\<lambda>current_open.
     let recent_claims = claims_in_window e farmer s in
     bindE (add_u32 current_open recent_claims) (\<lambda>occupied.
     if MAX_ACTIVE_POLICIES_PER_FARMER \<le> occupied then Inl (PolicyE TooManyActivePolicies)
     else
     bindE (add_u64 (policy_counter s) 1) (\<lambda>policy_id.
     let s = s\<lparr>pm_policy_counter := Some policy_id\<rparr>;
         start_date = timestamp e
     in
     bindE (mul_u64 duration_days PM_SECONDS_PER_DAY) (\<lambda>cover.
     bindE (add_u64 start_date cover) (\<lambda>end_date.
     let policy = \<lparr>p_id = policy_id, p_farmer = farmer, p_plot_id = plot_id, p_lat_e6 = lat_e6,
                   p_lon_e6 = lon_e6, p_sum_insured = sum_insured, p_premium = premium,
                   p_start_date = start_date, p_end_date = end_date,
                   p_coverage_type = coverage_type, p_status = Pending,
                   p_created_at = start_date, p_org = org\<rparr>
     in
     bindE (save_policy e policy s) (\<lambda>s.
     let n = unwrap_or 0 (get (pm_farmer_policy_count s) farmer);
         s = s\<lparr>pm_farmer_policy_at := put e (farmer, n) policy_id (pm_farmer_policy_at s)\<rparr>
     in
     bindE (add_u32 n 1) (\<lambda>n1.
     let s = s\<lparr>pm_farmer_policy_count := put e farmer n1 (pm_farmer_policy_count s)\<rparr> in
     bindE (extend_for_policy e (farmer, n) end_date (pm_farmer_policy_at s)) (\<lambda>m.
     let s = s\<lparr>pm_farmer_policy_at := m\<rparr> in
     bindE (extend_shared e farmer (Some end_date) (pm_farmer_policy_count s)) (\<lambda>m.
     let s = s\<lparr>pm_farmer_policy_count := m\<rparr>;
         outstanding = org_outstanding org s
     in
     bindE (checked_i128 (outstanding + sum_insured)) (\<lambda>exposure.
     bindE (set_org_outstanding e org exposure end_date s) (\<lambda>s.
     bindE (current_open_pending_inc farmer s) (\<lambda>pending.
     bindE (set_farmer_pending_count e farmer pending end_date s) (\<lambda>s.
     let s = s\<lparr>pm_pending_counted := put e policy_id True (pm_pending_counted s)\<rparr> in
     bindE (extend_for_policy e policy_id end_date (pm_pending_counted s)) (\<lambda>m.
     let s = s\<lparr>pm_pending_counted := m\<rparr>;
         s = pm_bump_instance e s
     in Inr (policy_id,
          pm_publish (PolicyCreated policy_id farmer plot_id sum_insured premium start_date end_date
            coverage_type) s))))))))))))))))"

definition activate_policy ::
  "env \<Rightarrow> address \<Rightarrow> nat \<Rightarrow> address \<Rightarrow> string \<Rightarrow> string \<Rightarrow> nfts \<Rightarrow> pm_state \<Rightarrow> error + nfts \<times> pm_state" where
  "activate_policy e caller policy_id distributor distributor_name region nfts s =
     bindE (require_role e caller Backend (pm_roles s)) (\<lambda>roles.
     let s = s\<lparr>pm_roles := roles\<rparr> in
     case pm_policy_nft s of
       None \<Rightarrow> Inl (PolicyE PolicyNftNotSet)
     | Some policy_nft \<Rightarrow>
       bindE (load_policy e policy_id s) (\<lambda>(policy, s).
       if p_status policy \<noteq> Pending then Inl (PolicyE InvalidPolicyStatus)
       else if p_end_date policy < timestamp e then Inl (PolicyE policy_error.PolicyExpired)
       else
       let current_active = farmer_active_count (p_farmer policy) s in
       if MAX_ACTIVE_POLICIES_PER_FARMER \<le> current_active then Inl (PolicyE TooManyActivePolicies)
       else
       let now = timestamp e in
       bindE (sub_u (p_end_date policy) (p_start_date policy)) (\<lambda>duration.
       bindE (add_u64 now duration) (\<lambda>end_date.
       let policy = policy\<lparr>p_status := Active, p_start_date := now, p_end_date := end_date\<rparr> in
       bindE (save_policy e policy s) (\<lambda>s.
       bindE (add_u32 current_active 1) (\<lambda>active.
       bindE (set_farmer_active_count e (p_farmer policy) active (p_end_date policy) s) (\<lambda>s.
       bindE (release_pending_slot e policy_id (p_farmer policy) (p_end_date policy) s) (\<lambda>s.
       bindE (extend_shared_if e (p_org policy) (p_end_date policy) (pm_org_outstanding s)) (\<lambda>m.
       let s = s\<lparr>pm_org_outstanding := m\<rparr> in
       bindE (extend_shared_if e (p_farmer policy) (p_end_date policy) (pm_farmer_policy_count s)) (\<lambda>m.
       let s = s\<lparr>pm_farmer_policy_count := m\<rparr> in
       case nfts policy_nft of
         None \<Rightarrow> Inl (HostE NoContract)
       | Some n \<Rightarrow>
         bindE (mint_policy (subcall e policy_nft) (current_contract_address e) (p_farmer policy)
             policy_id distributor distributor_name (p_sum_insured policy) (p_premium policy)
             (p_start_date policy) (p_end_date policy) (p_coverage_type policy) region
             (p_plot_id policy) n) (\<lambda>(_, n').
         let s = pm_bump_instance e s
         in Inr (nfts(policy_nft \<mapsto> n'), pm_publish (PolicyActivated policy_id now) s))))))))))))"

definition mark_as_claimed :: "env \<Rightarrow> address \<Rightarrow> nat \<Rightarrow> nfts \<Rightarrow> pm_state \<Rightarrow> error + nfts \<times> pm_state" where
  "mark_as_claimed e caller policy_id nfts s =
     bindE (require_role e caller Oracle (pm_roles s)) (\<lambda>roles.
     let s = s\<lparr>pm_roles := roles\<rparr> in
     bindE (load_policy e policy_id s) (\<lambda>(policy, s).
     if p_status policy \<noteq> Active then Inl (PolicyE InvalidPolicyStatus)
     else if p_end_date policy < timestamp e then Inl (PolicyE policy_error.PolicyExpired)
     else
     let policy = policy\<lparr>p_status := Claimed\<rparr> in
     bindE (save_policy e policy s) (\<lambda>s.
     bindE (decrement_active e (p_farmer policy) (p_end_date policy) s) (\<lambda>s.
     bindE (release_org_exposure e (p_org policy) (p_sum_insured policy) (p_end_date policy) s) (\<lambda>s.
     bindE (deactivate_policy_nft e policy_id nfts s) (\<lambda>(nfts, s).
     let s = pm_bump_instance e s
     in Inr (nfts, pm_publish (PolicyClaimed policy_id (timestamp e)) s)))))))"

text \<open>\<open>while times.len() > MAX { times.pop_front() }\<close>\<close>

fun pop_front_while :: "nat \<Rightarrow> nat list \<Rightarrow> nat list" where
  "pop_front_while bound [] = []"
| "pop_front_while bound (t # ts) =
     (if bound < length (t # ts) then pop_front_while bound ts else t # ts)"

definition increment_claim_count :: "env \<Rightarrow> address \<Rightarrow> address \<Rightarrow> pm_state \<Rightarrow> error + pm_state" where
  "increment_claim_count e caller farmer s =
     bindE (require_role e caller Oracle (pm_roles s)) (\<lambda>roles.
     let s = s\<lparr>pm_roles := roles\<rparr>;
         now = timestamp e;
         in_window = claims_in_window e farmer s
     in
     if MAX_CLAIMS_PER_FARMER_PER_YEAR \<le> in_window then Inl (PolicyE TooManyClaimsThisYear)
     else
     let times = claim_times farmer s;
         times = times @ [now];
         times = pop_front_while MAX_CLAIMS_PER_FARMER_PER_YEAR times;
         s = s\<lparr>pm_claim_times := put e farmer times (pm_claim_times s)\<rparr>
     in
     bindE (extend_for_secs e farmer CLAIM_HISTORY_SECS (pm_claim_times s)) (\<lambda>m.
     let s = s\<lparr>pm_claim_times := m\<rparr> in
     bindE (add_u32 in_window 1) (\<lambda>claims.
     Inr (pm_publish (ClaimCountIncremented farmer now claims) s))))"

definition cancel_policy :: "env \<Rightarrow> address \<Rightarrow> nat \<Rightarrow> nfts \<Rightarrow> pm_state \<Rightarrow> error + nfts \<times> pm_state" where
  "cancel_policy e caller policy_id nfts s =
     bindE (require_auth e caller) (\<lambda>_.
     bindE (has_role e Admin caller (pm_roles s)) (\<lambda>(is_admin, roles).
     let s = s\<lparr>pm_roles := roles\<rparr> in
     bindE (if is_admin then Inr (True, pm_roles s) else has_role e Backend caller (pm_roles s))
       (\<lambda>(allowed, roles).
     let s = s\<lparr>pm_roles := roles\<rparr> in
     if \<not> allowed then Inl (CommonE Unauthorized)
     else
     bindE (load_policy e policy_id s) (\<lambda>(policy, s).
     if p_status policy \<noteq> Pending \<and> p_status policy \<noteq> Active then Inl (PolicyE InvalidPolicyStatus)
     else if p_status policy = Active \<and> \<not> is_admin then Inl (PolicyE CancelActiveRequiresAdmin)
     else
     bindE (release_org_exposure e (p_org policy) (p_sum_insured policy) (p_end_date policy) s) (\<lambda>s.
     bindE (if p_status policy = Active
            then bindE (decrement_active e (p_farmer policy) (p_end_date policy) s)
                   (\<lambda>s. deactivate_policy_nft e policy_id nfts s)
            else bindE (release_pending_slot e policy_id (p_farmer policy) (p_end_date policy) s)
                   (\<lambda>s. Inr (nfts, s)))
       (\<lambda>(nfts, s).
     let policy = policy\<lparr>p_status := Cancelled\<rparr> in
     bindE (save_policy e policy s) (\<lambda>s.
     let s = pm_bump_instance e s
     in Inr (nfts, pm_publish (PolicyCancelled policy_id (timestamp e)) s))))))))"

definition expire_policy :: "env \<Rightarrow> nat \<Rightarrow> nfts \<Rightarrow> pm_state \<Rightarrow> error + nfts \<times> pm_state" where
  "expire_policy e policy_id nfts s =
     bindE (load_policy e policy_id s) (\<lambda>(policy, s).
     if p_status policy = Expired then Inr (nfts, s)
     else if p_status policy \<noteq> Active \<and> p_status policy \<noteq> Pending then Inl (PolicyE InvalidPolicyStatus)
     else if timestamp e \<le> p_end_date policy then Inl (PolicyE PolicyNotYetExpired)
     else
     bindE (if p_status policy = Active
            then bindE (decrement_active e (p_farmer policy) (p_end_date policy) s)
                   (\<lambda>s. deactivate_policy_nft e policy_id nfts s)
            else bindE (release_pending_slot e policy_id (p_farmer policy) (p_end_date policy) s)
                   (\<lambda>s. Inr (nfts, s)))
       (\<lambda>(nfts, s).
     bindE (release_org_exposure e (p_org policy) (p_sum_insured policy) (p_end_date policy) s) (\<lambda>s.
     let policy = policy\<lparr>p_status := Expired\<rparr> in
     bindE (save_policy e policy s) (\<lambda>s.
     let s = pm_bump_instance e s
     in Inr (nfts, pm_publish (pm_event.PolicyExpired policy_id (timestamp e)) s)))))"

definition pm_extend_policy_ttl :: "env \<Rightarrow> nat \<Rightarrow> nfts \<Rightarrow> pm_state \<Rightarrow> error + nfts \<times> pm_state" where
  "pm_extend_policy_ttl e policy_id nfts s =
     bindE (load_policy e policy_id s) (\<lambda>(policy, s).
     let end_date = p_end_date policy in
     bindE (extend_for_policy e policy_id end_date (pm_policy s)) (\<lambda>m.
     let s = s\<lparr>pm_policy := m\<rparr> in
     bindE (if has (pm_pending_counted s) policy_id
            then extend_for_policy e policy_id end_date (pm_pending_counted s)
            else Inr (pm_pending_counted s)) (\<lambda>m.
     let s = s\<lparr>pm_pending_counted := m\<rparr> in
     bindE (extend_shared_if e (p_farmer policy) end_date (pm_farmer_active s)) (\<lambda>m.
     let s = s\<lparr>pm_farmer_active := m\<rparr> in
     bindE (extend_shared_if e (p_farmer policy) end_date (pm_farmer_pending s)) (\<lambda>m.
     let s = s\<lparr>pm_farmer_pending := m\<rparr> in
     bindE (extend_shared_if e (p_farmer policy) end_date (pm_farmer_policy_count s)) (\<lambda>m.
     let s = s\<lparr>pm_farmer_policy_count := m\<rparr> in
     bindE (extend_shared_if e (p_org policy) end_date (pm_org_outstanding s)) (\<lambda>m.
     let s = s\<lparr>pm_org_outstanding := m\<rparr> in
     bindE (if has (pm_claim_times s) (p_farmer policy)
            then extend_for_secs e (p_farmer policy) CLAIM_HISTORY_SECS (pm_claim_times s)
            else Inr (pm_claim_times s)) (\<lambda>m.
     let s = s\<lparr>pm_claim_times := m\<rparr>;
         s = pm_bump_instance e s
     in
     case pm_policy_nft s of
       None \<Rightarrow> Inr (nfts, s)
     | Some addr \<Rightarrow>
         (case nfts addr of
            None \<Rightarrow> Inr (nfts, s)
          | Some n \<Rightarrow>
              (case nft_extend_policy_ttl (subcall e addr) policy_id n of
                 Inl _ \<Rightarrow> Inr (nfts, s)
               | Inr n' \<Rightarrow> Inr (nfts(addr \<mapsto> n'), s)))))))))))"

section \<open>Views\<close>

definition pm_get_policy :: "env \<Rightarrow> nat \<Rightarrow> pm_state \<Rightarrow> error + policy \<times> pm_state" where
  "pm_get_policy e policy_id s = load_policy e policy_id s"

definition get_farmer_policies :: "address \<Rightarrow> nat \<Rightarrow> nat \<Rightarrow> pm_state \<Rightarrow> error + nat list" where
  "get_farmer_policies farmer start limit s =
     (let count = unwrap_or 0 (get (pm_farmer_policy_count s) farmer);
          end = min (saturating_add_u32 start (min limit PM_MAX_PAGE_SIZE)) count
      in read_page (PolicyE policy_error.PolicyDoesNotExist)
           (\<lambda>i. get (pm_farmer_policy_at s) (farmer, i)) start end [])"

definition get_farmer_policy_count :: "address \<Rightarrow> pm_state \<Rightarrow> nat" where
  "get_farmer_policy_count farmer s = unwrap_or 0 (get (pm_farmer_policy_count s) farmer)"

definition get_farmer_active_count :: "address \<Rightarrow> pm_state \<Rightarrow> nat" where
  "get_farmer_active_count farmer s = farmer_active_count farmer s"

definition get_farmer_claim_count :: "env \<Rightarrow> address \<Rightarrow> pm_state \<Rightarrow> nat" where
  "get_farmer_claim_count e farmer s = claims_in_window e farmer s"

definition get_farmer_claim_times :: "address \<Rightarrow> pm_state \<Rightarrow> nat list" where
  "get_farmer_claim_times farmer s = claim_times farmer s"

definition pm_can_farmer_claim :: "env \<Rightarrow> address \<Rightarrow> pm_state \<Rightarrow> bool" where
  "pm_can_farmer_claim e farmer s \<longleftrightarrow> claims_in_window e farmer s < MAX_CLAIMS_PER_FARMER_PER_YEAR"

definition is_policy_active :: "env \<Rightarrow> nat \<Rightarrow> pm_state \<Rightarrow> bool" where
  "is_policy_active e policy_id s \<longleftrightarrow>
     (case get (pm_policy s) policy_id of
        Some p \<Rightarrow> p_status p = Active \<and> timestamp e \<le> p_end_date p
      | None \<Rightarrow> False)"

definition pm_policy_exists :: "nat \<Rightarrow> pm_state \<Rightarrow> bool" where
  "pm_policy_exists policy_id s \<longleftrightarrow> has (pm_policy s) policy_id"

definition policy_org :: "env \<Rightarrow> nat \<Rightarrow> pm_state \<Rightarrow> error + address \<times> pm_state" where
  "policy_org e policy_id s = bindE (load_policy e policy_id s) (\<lambda>(p, s). Inr (p_org p, s))"

definition org_outstanding_sum_insured :: "address \<Rightarrow> pm_state \<Rightarrow> int" where
  "org_outstanding_sum_insured org s = org_outstanding org s"

definition get_total_policies :: "pm_state \<Rightarrow> nat" where
  "get_total_policies s = policy_counter s"

section \<open>The book without its rent\<close>

text \<open>
  What the entries of the contract say, with the rent horizons erased. Every operation is a
  guarded function on this view, whatever the host does to horizons; the invariant is stated
  on it.
\<close>

record pm_view =
  v_policy :: "nat \<rightharpoonup> policy"
  v_counter :: nat
  v_policy_count :: "address \<rightharpoonup> nat"
  v_policy_at :: "address \<times> nat \<rightharpoonup> nat"
  v_active :: "address \<rightharpoonup> nat"
  v_pending :: "address \<rightharpoonup> nat"
  v_claims :: "address \<rightharpoonup> nat list"
  v_counted :: "nat \<rightharpoonup> bool"
  v_outstanding :: "address \<rightharpoonup> int"

definition pm_view :: "pm_state \<Rightarrow> pm_view" where
  "pm_view s =
     \<lparr>v_policy = get (pm_policy s), v_counter = policy_counter s,
      v_policy_count = get (pm_farmer_policy_count s), v_policy_at = get (pm_farmer_policy_at s),
      v_active = get (pm_farmer_active s), v_pending = get (pm_farmer_pending s),
      v_claims = get (pm_claim_times s), v_counted = get (pm_pending_counted s),
      v_outstanding = get (pm_org_outstanding s)\<rparr>"

lemma pm_view_sel [simp]:
  "v_policy (pm_view s) = get (pm_policy s)"
  "v_counter (pm_view s) = policy_counter s"
  "v_policy_count (pm_view s) = get (pm_farmer_policy_count s)"
  "v_policy_at (pm_view s) = get (pm_farmer_policy_at s)"
  "v_active (pm_view s) = get (pm_farmer_active s)"
  "v_pending (pm_view s) = get (pm_farmer_pending s)"
  "v_claims (pm_view s) = get (pm_claim_times s)"
  "v_counted (pm_view s) = get (pm_pending_counted s)"
  "v_outstanding (pm_view s) = get (pm_org_outstanding s)"
  by (simp_all add: pm_view_def)

lemma pm_view_upd [simp]:
  "pm_view (s\<lparr>pm_roles := r\<rparr>) = pm_view s"
  "pm_view (s\<lparr>pm_policy_nft := a\<rparr>) = pm_view s"
  "pm_view (s\<lparr>pm_policy_counter := Some n\<rparr>) = (pm_view s)\<lparr>v_counter := n\<rparr>"
  "pm_view (s\<lparr>pm_policy := m\<rparr>) = (pm_view s)\<lparr>v_policy := get m\<rparr>"
  "pm_view (s\<lparr>pm_farmer_policy_count := c\<rparr>) = (pm_view s)\<lparr>v_policy_count := get c\<rparr>"
  "pm_view (s\<lparr>pm_farmer_policy_at := at\<rparr>) = (pm_view s)\<lparr>v_policy_at := get at\<rparr>"
  "pm_view (s\<lparr>pm_farmer_active := c\<rparr>) = (pm_view s)\<lparr>v_active := get c\<rparr>"
  "pm_view (s\<lparr>pm_farmer_pending := c\<rparr>) = (pm_view s)\<lparr>v_pending := get c\<rparr>"
  "pm_view (s\<lparr>pm_claim_times := ts\<rparr>) = (pm_view s)\<lparr>v_claims := get ts\<rparr>"
  "pm_view (s\<lparr>pm_pending_counted := pc\<rparr>) = (pm_view s)\<lparr>v_counted := get pc\<rparr>"
  "pm_view (s\<lparr>pm_org_outstanding := x\<rparr>) = (pm_view s)\<lparr>v_outstanding := get x\<rparr>"
  "pm_view (s\<lparr>pm_instance_live := l\<rparr>) = pm_view s"
  "pm_view (s\<lparr>pm_wasm := w\<rparr>) = pm_view s"
  "pm_view (s\<lparr>pm_events := evs\<rparr>) = pm_view s"
  by (simp_all add: pm_view_def policy_counter_def)

lemma pm_view_plumbing [simp]:
  "pm_view (pm_publish ev s) = pm_view s" "pm_view (pm_bump_instance e s) = pm_view s"
  by (simp_all add: pm_publish_def pm_bump_instance_def)

subsection \<open>Everything else an operation carries along\<close>

text \<open>
  The registry, the certificate contract's address and the log. \<open>rest\<close> is a triple so that an
  operation's effect on all three is one equation.
\<close>

definition pm_rest :: "pm_state \<Rightarrow> (role \<Rightarrow> address \<Rightarrow> bool) \<times> address option \<times> pm_event list" where
  "pm_rest s = (holds (pm_roles s), pm_policy_nft s, pm_events s)"

lemma pm_rest_upd [simp]:
  "pm_rest (s\<lparr>pm_policy_counter := n\<rparr>) = pm_rest s"
  "pm_rest (s\<lparr>pm_policy := m\<rparr>) = pm_rest s"
  "pm_rest (s\<lparr>pm_farmer_policy_count := c\<rparr>) = pm_rest s"
  "pm_rest (s\<lparr>pm_farmer_policy_at := at\<rparr>) = pm_rest s"
  "pm_rest (s\<lparr>pm_farmer_active := c\<rparr>) = pm_rest s"
  "pm_rest (s\<lparr>pm_farmer_pending := c\<rparr>) = pm_rest s"
  "pm_rest (s\<lparr>pm_claim_times := ts\<rparr>) = pm_rest s"
  "pm_rest (s\<lparr>pm_pending_counted := pc\<rparr>) = pm_rest s"
  "pm_rest (s\<lparr>pm_org_outstanding := x\<rparr>) = pm_rest s"
  "pm_rest (s\<lparr>pm_instance_live := l\<rparr>) = pm_rest s"
  "pm_rest (s\<lparr>pm_wasm := w\<rparr>) = pm_rest s"
  "pm_rest (s\<lparr>pm_roles := used_role e r a (pm_roles s)\<rparr>) = pm_rest s"
  "pm_rest (pm_bump_instance e s) = pm_rest s"
  by (simp_all add: pm_rest_def pm_bump_instance_def)

lemma pm_rest_publish [simp]:
  "pm_rest (pm_publish ev s) = (holds (pm_roles s), pm_policy_nft s, pm_events s @ [ev])"
  by (simp add: pm_rest_def pm_publish_def)

section \<open>The helpers on the view\<close>

text \<open>
  Each helper that pays rent succeeds: the entry it extends was just written or read. These
  equations replace a call by the state it returns, whose view is immediate.
\<close>

definition policy_rented :: "env \<Rightarrow> policy \<Rightarrow> pm_state \<Rightarrow> pm_state" where
  "policy_rented e p s =
     (if p_status p = Pending \<or> p_status p = Active
      then s\<lparr>pm_policy := kept e (p_id p)
             (ledgers_until e (saturating_add_u64 (p_end_date p) POLICY_GRACE_SECS)) (pm_policy s)\<rparr>
      else s)"

lemma policy_rented_view [simp]:
  "pm_view (policy_rented e p s) = pm_view s" "pm_rest (policy_rented e p s) = pm_rest s"
  by (simp_all add: policy_rented_def pm_view_def policy_counter_def)

lemma bump_policy_eq: "has (pm_policy s) (p_id p) \<Longrightarrow> bump_policy e p s = Inr (policy_rented e p s)"
  by (cases "p_status p") (simp_all add: bump_policy_def policy_rented_def)

definition policy_saved :: "env \<Rightarrow> policy \<Rightarrow> pm_state \<Rightarrow> pm_state" where
  "policy_saved e p s = policy_rented e p (s\<lparr>pm_policy := put e (p_id p) p (pm_policy s)\<rparr>)"

lemma policy_saved_view [simp]:
  "pm_view (policy_saved e p s) = (pm_view s)\<lparr>v_policy := (get (pm_policy s))(p_id p \<mapsto> p)\<rparr>"
  "pm_rest (policy_saved e p s) = pm_rest s"
  by (simp_all add: policy_saved_def)

lemma save_policy_eq: "save_policy e p s = Inr (policy_saved e p s)"
  by (simp add: save_policy_def policy_saved_def bump_policy_eq)

lemma load_policy_eq:
  "get (pm_policy s) i = Some p \<Longrightarrow> p_id p = i \<Longrightarrow> load_policy e i s = Inr (p, policy_rented e p s)"
  by (simp add: load_policy_def bump_policy_eq get_SomeD)

lemma load_policy_None:
  "get (pm_policy s) i = None \<Longrightarrow> load_policy e i s = Inl (PolicyE policy_error.PolicyDoesNotExist)"
  by (simp add: load_policy_def)

lemma load_policy_Inr: "load_policy e i s = Inr (p, s') \<Longrightarrow> get (pm_policy s) i = Some p"
  by (auto simp: load_policy_def bindE_eq_Inr split: option.splits)

lemma set_farmer_active_count_eq:
  "set_farmer_active_count e a v t s =
     Inr (s\<lparr>pm_farmer_active := kept e a (shared_need e (Some t)) (put e a v (pm_farmer_active s))\<rparr>)"
  by (simp add: set_farmer_active_count_def)

lemma set_farmer_pending_count_eq:
  "set_farmer_pending_count e a v t s =
     Inr (s\<lparr>pm_farmer_pending := kept e a (shared_need e (Some t)) (put e a v (pm_farmer_pending s))\<rparr>)"
  by (simp add: set_farmer_pending_count_def)

lemma set_org_outstanding_eq:
  "set_org_outstanding e a v t s =
     Inr (s\<lparr>pm_org_outstanding := kept e a (shared_need e (Some t)) (put e a v (pm_org_outstanding s))\<rparr>)"
  by (simp add: set_org_outstanding_def)

lemma extend_shared_if_eq:
  "extend_shared_if e k t st = Inr (kept_if e k (shared_need e (Some t)) st)"
  by (simp add: extend_shared_if_def kept_if_def)

text \<open>Reading a count or an exposure off the view.\<close>

definition active_of :: "pm_view \<Rightarrow> address \<Rightarrow> nat" where
  "active_of v a = unwrap_or 0 (v_active v a)"

definition pending_of :: "pm_view \<Rightarrow> address \<Rightarrow> nat" where
  "pending_of v a = unwrap_or 0 (v_pending v a)"

definition exposure_of :: "pm_view \<Rightarrow> address \<Rightarrow> int" where
  "exposure_of v a = unwrap_or 0 (v_outstanding v a)"

definition claims_of :: "pm_view \<Rightarrow> address \<Rightarrow> nat list" where
  "claims_of v a = unwrap_or [] (v_claims v a)"

definition index_size :: "pm_view \<Rightarrow> address \<Rightarrow> nat" where
  "index_size v a = unwrap_or 0 (v_policy_count v a)"

lemma view_counts [simp]:
  "farmer_active_count a s = active_of (pm_view s) a"
  "farmer_pending_count a s = pending_of (pm_view s) a"
  "org_outstanding a s = exposure_of (pm_view s) a"
  "claim_times a s = claims_of (pm_view s) a"
  by (simp_all add: farmer_active_count_def active_of_def farmer_pending_count_def pending_of_def
      org_outstanding_def exposure_of_def claim_times_def claims_of_def)

text \<open>A claim counts while it is younger than the window.\<close>

definition recent :: "nat \<Rightarrow> nat \<Rightarrow> bool" where
  "recent now t \<longleftrightarrow> now < saturating_add_u64 t CLAIM_WINDOW_SECS"

lemma count_fold:
  "fold (\<lambda>t n. if P t then n + 1 else n) ts (k :: nat) = k + length (filter P ts)"
  by (induction ts arbitrary: k) auto

lemma claims_in_window_eq:
  "claims_in_window e a s = length (filter (recent (timestamp e)) (claims_of (pm_view s) a))"
  by (simp add: claims_in_window_def Let_def count_fold flip: recent_def)

lemma pop_front_while_eq: "pop_front_while n ts = drop (length ts - n) ts"
proof (induction n ts rule: pop_front_while.induct)
  case (2 n t ts)
  then show ?case by (cases "n < length (t # ts)") (simp_all add: Suc_diff_le)
qed simp

subsection \<open>The counters\<close>

definition active_decremented :: "env \<Rightarrow> address \<Rightarrow> nat \<Rightarrow> pm_state \<Rightarrow> pm_state" where
  "active_decremented e a t s =
     (if 0 < active_of (pm_view s) a
      then s\<lparr>pm_farmer_active := kept e a (shared_need e (Some t))
             (put e a (active_of (pm_view s) a - 1) (pm_farmer_active s))\<rparr>
      else s)"

lemma decrement_active_eq: "decrement_active e a t s = Inr (active_decremented e a t s)"
  by (simp add: decrement_active_def active_decremented_def set_farmer_active_count_eq)

lemma active_decremented_view [simp]:
  "0 < active_of (pm_view s) a \<Longrightarrow> pm_view (active_decremented e a t s) =
     (pm_view s)\<lparr>v_active := (get (pm_farmer_active s))(a \<mapsto> active_of (pm_view s) a - 1)\<rparr>"
  "pm_rest (active_decremented e a t s) = pm_rest s"
  by (simp_all add: active_decremented_def)

definition slot_released :: "env \<Rightarrow> nat \<Rightarrow> address \<Rightarrow> nat \<Rightarrow> pm_state \<Rightarrow> pm_state" where
  "slot_released e i a t s =
     (if unwrap_or False (get (pm_pending_counted s) i) then
        let s = s\<lparr>pm_pending_counted := remove i (pm_pending_counted s)\<rparr> in
        if 0 < pending_of (pm_view s) a
        then s\<lparr>pm_farmer_pending := kept e a (shared_need e (Some t))
               (put e a (pending_of (pm_view s) a - 1) (pm_farmer_pending s))\<rparr>
        else s
      else s)"

lemma release_pending_slot_eq: "release_pending_slot e i a t s = Inr (slot_released e i a t s)"
  by (simp add: release_pending_slot_def slot_released_def Let_def set_farmer_pending_count_eq)

lemma slot_released_view [simp]:
  "get (pm_pending_counted s) i = Some True \<Longrightarrow> 0 < pending_of (pm_view s) a \<Longrightarrow>
     pm_view (slot_released e i a t s) =
       (pm_view s)\<lparr>v_counted := (get (pm_pending_counted s))(i := None),
         v_pending := (get (pm_farmer_pending s))(a \<mapsto> pending_of (pm_view s) a - 1)\<rparr>"
  "pm_rest (slot_released e i a t s) = pm_rest s"
  by (simp_all add: slot_released_def Let_def pending_of_def)

definition exposure_released :: "env \<Rightarrow> address \<Rightarrow> int \<Rightarrow> nat \<Rightarrow> pm_state \<Rightarrow> pm_state" where
  "exposure_released e org amount t s =
     s\<lparr>pm_org_outstanding := kept e org (shared_need e (Some t))
        (put e org (max 0 (exposure_of (pm_view s) org - amount)) (pm_org_outstanding s))\<rparr>"

lemma release_org_exposure_eq:
  assumes "0 \<le> amount" and "exposure_of (pm_view s) org \<le> i128_max"
  shows "release_org_exposure e org amount t s = Inr (exposure_released e org amount t s)"
  using assms
  by (auto simp: release_org_exposure_def exposure_released_def Let_def set_org_outstanding_eq
      checked_i128_def i128_min_def max_def)

lemma exposure_released_view [simp]:
  "pm_view (exposure_released e org amount t s) =
     (pm_view s)\<lparr>v_outstanding :=
        (get (pm_org_outstanding s))(org \<mapsto> max 0 (exposure_of (pm_view s) org - amount))\<rparr>"
  "pm_rest (exposure_released e org amount t s) = pm_rest s"
  by (simp_all add: exposure_released_def)

text \<open>The best-effort deactivation touches the log and at most the wired certificate contract.\<close>

lemma deactivate_policy_nft_Inr:
  assumes "deactivate_policy_nft e i nfts s = Inr (nfts', s')"
  shows "pm_view s' = pm_view s" and "pm_roles s' = pm_roles s" and "pm_policy_nft s' = pm_policy_nft s"
    and "nfts' = nfts \<and> pm_events s' = pm_events s @ [PolicyNftUpdateSkipped i] \<or>
         (\<exists>addr n n'. pm_policy_nft s = Some addr \<and> nfts addr = Some n \<and>
            update_policy_status (subcall e addr) (current_contract_address e) i False n = Inr n' \<and>
            nfts' = nfts(addr \<mapsto> n') \<and> pm_events s' = pm_events s)"
  using assms
  by (auto simp: deactivate_policy_nft_def pm_publish_def split: option.splits if_splits sum.splits)

text \<open>It fails only when the wired address holds no contract.\<close>

definition nft_wired :: "address option \<Rightarrow> nfts \<Rightarrow> bool" where
  "nft_wired addr nfts \<longleftrightarrow> (\<forall>a. addr = Some a \<longrightarrow> nfts a \<noteq> None)"

lemma deactivate_policy_nft_ok:
  "nft_wired (pm_policy_nft s) nfts \<Longrightarrow> \<exists>nfts' s'. deactivate_policy_nft e i nfts s = Inr (nfts', s')"
  by (auto simp: deactivate_policy_nft_def nft_wired_def split: option.splits sum.splits)

end
