(* ===== verification/PolicyLedger.thy ===== *)
theory PolicyLedger
  imports PolicyManager
begin

text \<open>
  The correctness of the policy book: what every operation of \<open>PolicyManager\<close> does to the view,
  as abstract operations on policies, counters and exposures; the invariant of the book and its
  preservation; and the life cycle of a policy.
\<close>

section \<open>Creating a policy\<close>

definition new_policy ::
  "env \<Rightarrow> nat \<Rightarrow> address \<Rightarrow> nat \<Rightarrow> int \<Rightarrow> int \<Rightarrow> int \<Rightarrow> int \<Rightarrow> nat \<Rightarrow> coverage_type \<Rightarrow> address \<Rightarrow> policy" where
  "new_policy e i farmer plot lat lon amount premium days cover org =
     \<lparr>p_id = i, p_farmer = farmer, p_plot_id = plot, p_lat_e6 = lat, p_lon_e6 = lon,
      p_sum_insured = amount, p_premium = premium, p_start_date = timestamp e,
      p_end_date = timestamp e + days * PM_SECONDS_PER_DAY, p_coverage_type = cover,
      p_status = Pending, p_created_at = timestamp e, p_org = org\<rparr>"

text \<open>The book with one more pending policy.\<close>

definition a_create :: "policy \<Rightarrow> pm_view \<Rightarrow> pm_view" where
  "a_create p v =
     v\<lparr>v_policy := (v_policy v)(p_id p \<mapsto> p), v_counter := p_id p,
       v_policy_count := (v_policy_count v)(p_farmer p \<mapsto> index_size v (p_farmer p) + 1),
       v_policy_at := (v_policy_at v)((p_farmer p, index_size v (p_farmer p)) \<mapsto> p_id p),
       v_pending := (v_pending v)(p_farmer p \<mapsto> pending_of v (p_farmer p) + 1),
       v_counted := (v_counted v)(p_id p \<mapsto> True),
       v_outstanding := (v_outstanding v)(p_org p \<mapsto> exposure_of v (p_org p) + p_sum_insured p)\<rparr>"

text \<open>The terms of a sale, and the room the book must have for it.\<close>

definition sale_terms :: "int \<Rightarrow> int \<Rightarrow> int \<Rightarrow> int \<Rightarrow> nat \<Rightarrow> coverage_type \<Rightarrow> bool" where
  "sale_terms lat lon amount premium days cover \<longleftrightarrow>
     MIN_SUM_INSURED \<le> amount \<and> amount \<le> MAX_SUM_INSURED \<and> 0 < premium \<and>
     MIN_DROUGHT_DURATION_DAYS \<le> days \<and> days \<le> MAX_DURATION_DAYS \<and>
     \<bar>lat\<bar> \<le> MAX_LAT_E6 \<and> \<bar>lon\<bar> \<le> MAX_LON_E6 \<and> cover = Drought"

definition open_slots :: "env \<Rightarrow> address \<Rightarrow> pm_view \<Rightarrow> nat" where
  "open_slots e a v =
     active_of v a + pending_of v a + length (filter (recent (timestamp e)) (claims_of v a))"

definition has_room :: "env \<Rightarrow> address \<Rightarrow> int \<Rightarrow> nat \<Rightarrow> address \<Rightarrow> pm_view \<Rightarrow> bool" where
  "has_room e farmer amount days org v \<longleftrightarrow>
     open_slots e farmer v < MAX_ACTIVE_POLICIES_PER_FARMER \<and> v_counter v < u64_max \<and>
     timestamp e + days * PM_SECONDS_PER_DAY \<le> u64_max \<and> index_size v farmer < u32_max \<and>
     i128_min \<le> exposure_of v org + amount \<and> exposure_of v org + amount \<le> i128_max"

lemma view_index: "unwrap_or 0 (get (pm_farmer_policy_count s) a) = index_size (pm_view s) a"
  "unwrap_or 0 (get (pm_farmer_pending s) a) = pending_of (pm_view s) a"
  by (simp_all add: index_size_def pending_of_def)

lemma of_upd [simp]:
  "index_size (v\<lparr>v_policy := x1\<rparr>) = index_size v" "exposure_of (v\<lparr>v_policy := x1\<rparr>) = exposure_of v"
  "pending_of (v\<lparr>v_policy := x1\<rparr>) = pending_of v" "active_of (v\<lparr>v_policy := x1\<rparr>) = active_of v"
  "index_size (v\<lparr>v_counter := x2\<rparr>) = index_size v" "exposure_of (v\<lparr>v_counter := x2\<rparr>) = exposure_of v"
  "pending_of (v\<lparr>v_counter := x2\<rparr>) = pending_of v" "active_of (v\<lparr>v_counter := x2\<rparr>) = active_of v"
  "exposure_of (v\<lparr>v_policy_count := x3\<rparr>) = exposure_of v" "exposure_of (v\<lparr>v_policy_at := x4\<rparr>) = exposure_of v"
  "pending_of (v\<lparr>v_policy_count := x3\<rparr>) = pending_of v" "pending_of (v\<lparr>v_policy_at := x4\<rparr>) = pending_of v"
  "pending_of (v\<lparr>v_outstanding := x5\<rparr>) = pending_of v" "active_of (v\<lparr>v_outstanding := x5\<rparr>) = active_of v"
  "exposure_of (v\<lparr>v_active := x6\<rparr>) = exposure_of v" "pending_of (v\<lparr>v_active := x6\<rparr>) = pending_of v"
  "exposure_of (v\<lparr>v_pending := x7\<rparr>) = exposure_of v" "active_of (v\<lparr>v_pending := x7\<rparr>) = active_of v"
  "exposure_of (v\<lparr>v_counted := x8\<rparr>) = exposure_of v" "active_of (v\<lparr>v_counted := x8\<rparr>) = active_of v"
  by (simp_all add: fun_eq_iff index_size_def exposure_of_def pending_of_def active_of_def)

lemma policy_saved_fields [simp]:
  "pm_roles (policy_saved e p s) = pm_roles s" "pm_policy_nft (policy_saved e p s) = pm_policy_nft s"
  "pm_policy_counter (policy_saved e p s) = pm_policy_counter s"
  "pm_farmer_policy_count (policy_saved e p s) = pm_farmer_policy_count s"
  "pm_farmer_policy_at (policy_saved e p s) = pm_farmer_policy_at s"
  "pm_farmer_active (policy_saved e p s) = pm_farmer_active s"
  "pm_farmer_pending (policy_saved e p s) = pm_farmer_pending s"
  "pm_claim_times (policy_saved e p s) = pm_claim_times s"
  "pm_pending_counted (policy_saved e p s) = pm_pending_counted s"
  "pm_org_outstanding (policy_saved e p s) = pm_org_outstanding s"
  "pm_events (policy_saved e p s) = pm_events s"
  by (simp_all add: policy_saved_def policy_rented_def)

lemma pm_bump_instance_fields [simp]:
  "pm_roles (pm_bump_instance e s) = pm_roles s" "pm_policy_nft (pm_bump_instance e s) = pm_policy_nft s"
  "pm_events (pm_bump_instance e s) = pm_events s"
  by (simp_all add: pm_bump_instance_def)

lemma pm_publish_fields [simp]:
  "pm_roles (pm_publish ev s) = pm_roles s" "pm_policy_nft (pm_publish ev s) = pm_policy_nft s"
  "pm_events (pm_publish ev s) = pm_events s @ [ev]" "pm_policy (pm_publish ev s) = pm_policy s"
  by (simp_all add: pm_publish_def)

lemma policy_counter_upd [simp]: "policy_counter (s\<lparr>pm_roles := r\<rparr>) = policy_counter s"
  by (simp add: policy_counter_def)

lemma create_policy_ok:
  assumes "authorizes e caller" and "holds (pm_roles s) Backend caller"
    and terms: "sale_terms lat lon amount premium days cover"
    and room: "has_room e farmer amount days org (pm_view s)"
  shows "\<exists>s'. create_policy e caller farmer plot lat lon amount premium days cover org s =
             Inr (policy_counter s + 1, s') \<and>
           pm_view s' = a_create (new_policy e (policy_counter s + 1) farmer plot lat lon amount premium days cover org)
             (pm_view s) \<and>
           pm_rest s' = (holds (pm_roles s), pm_policy_nft s, pm_events s @
             [PolicyCreated (policy_counter s + 1) farmer plot amount premium (timestamp e)
               (timestamp e + days * PM_SECONDS_PER_DAY) cover])"
proof -
  have guards: "\<not> amount < MIN_SUM_INSURED" "\<not> MAX_SUM_INSURED < amount" "\<not> premium \<le> 0"
    "MIN_DURATION_DAYS \<le> days \<and> days \<le> MAX_DURATION_DAYS"
    "- MAX_LAT_E6 \<le> lat \<and> lat \<le> MAX_LAT_E6" "- MAX_LON_E6 \<le> lon \<and> lon \<le> MAX_LON_E6"
    "cover = Drought" "\<not> days < MIN_DROUGHT_DURATION_DAYS"
    using terms by (auto simp: sale_terms_def MIN_DURATION_DAYS_def MIN_DROUGHT_DURATION_DAYS_def)
  have open3: "\<not> MAX_ACTIVE_POLICIES_PER_FARMER \<le> open_slots e farmer (pm_view s)"
    using room by (simp add: has_room_def)
  have arith: "add_u32 (active_of (pm_view s) farmer) (pending_of (pm_view s) farmer) =
      Inr (active_of (pm_view s) farmer + pending_of (pm_view s) farmer)"
    "add_u32 (active_of (pm_view s) farmer + pending_of (pm_view s) farmer)
       (length (filter (recent (timestamp e)) (claims_of (pm_view s) farmer))) = Inr (open_slots e farmer (pm_view s))"
    "add_u64 (policy_counter s) 1 = Inr (policy_counter s + 1)"
    "mul_u64 days PM_SECONDS_PER_DAY = Inr (days * PM_SECONDS_PER_DAY)"
    "add_u64 (timestamp e) (days * PM_SECONDS_PER_DAY) = Inr (timestamp e + days * PM_SECONDS_PER_DAY)"
    "add_u32 (index_size (pm_view s) farmer) 1 = Inr (index_size (pm_view s) farmer + 1)"
    "checked_i128 (exposure_of (pm_view s) org + amount) = Inr (exposure_of (pm_view s) org + amount)"
    "add_u32 (pending_of (pm_view s) farmer) 1 = Inr (pending_of (pm_view s) farmer + 1)"
    using open3 room
    by (simp_all add: open_slots_def has_room_def u32_max_def MAX_ACTIVE_POLICIES_PER_FARMER_def)
  show ?thesis
    using assms(1,2) open3 guards
    by (simp add: create_policy_def Let_def require_role_eq claims_in_window_eq
        arith save_policy_eq set_org_outstanding_eq set_farmer_pending_count_eq current_open_pending_inc_def
        view_index new_policy_def a_create_def del: One_nat_def)
qed

lemma create_policy_needs:
  assumes "create_policy e caller farmer plot lat lon amount premium days cover org s = Inr r"
  shows "authorizes e caller" and "holds (pm_roles s) Backend caller"
    and "sale_terms lat lon amount premium days cover"
    and "has_room e farmer amount days org (pm_view s)"
proof -
  show auth: "authorizes e caller" "holds (pm_roles s) Backend caller"
    using assms by (auto simp: create_policy_def bindE_eq_Inr)
  have terms: "\<not> amount < MIN_SUM_INSURED \<and> \<not> MAX_SUM_INSURED < amount \<and> \<not> premium \<le> 0 \<and>
      (MIN_DURATION_DAYS \<le> days \<and> days \<le> MAX_DURATION_DAYS) \<and>
      (- MAX_LAT_E6 \<le> lat \<and> lat \<le> MAX_LAT_E6) \<and> (- MAX_LON_E6 \<le> lon \<and> lon \<le> MAX_LON_E6) \<and>
      cover = Drought \<and> \<not> days < MIN_DROUGHT_DURATION_DAYS"
    using assms by (simp add: create_policy_def Let_def require_role_eq auth split: if_splits)
  then show "sale_terms lat lon amount premium days cover"
    by (simp add: sale_terms_def abs_le_iff)
  have guards: "\<not> amount < MIN_SUM_INSURED" "\<not> MAX_SUM_INSURED < amount" "\<not> premium \<le> 0"
    "MIN_DURATION_DAYS \<le> days \<and> days \<le> MAX_DURATION_DAYS"
    "- MAX_LAT_E6 \<le> lat \<and> lat \<le> MAX_LAT_E6" "- MAX_LON_E6 \<le> lon \<and> lon \<le> MAX_LON_E6"
    "cover = Drought" "\<not> days < MIN_DROUGHT_DURATION_DAYS"
    using terms by blast+
  show "has_room e farmer amount days org (pm_view s)"
    using assms guards
    by (auto simp: create_policy_def Let_def require_role_eq auth claims_in_window_eq save_policy_eq
        set_org_outstanding_eq view_index has_room_def open_slots_def bindE_eq_Inr split: if_splits)
qed

section \<open>Closing a policy\<close>

text \<open>
  Claiming, expiring and cancelling are one abstract operation: the policy takes a closed status,
  its farmer's slot (active or pending) and its organisation's exposure are released.
\<close>

definition a_close :: "policy_status \<Rightarrow> policy \<Rightarrow> pm_view \<Rightarrow> pm_view" where
  "a_close st p v =
     v\<lparr>v_policy := (v_policy v)(p_id p \<mapsto> p\<lparr>p_status := st\<rparr>),
       v_active := (if p_status p = Active
          then (v_active v)(p_farmer p \<mapsto> active_of v (p_farmer p) - 1) else v_active v),
       v_pending := (if p_status p = Pending
          then (v_pending v)(p_farmer p \<mapsto> pending_of v (p_farmer p) - 1) else v_pending v),
       v_counted := (if p_status p = Pending then (v_counted v)(p_id p := None) else v_counted v),
       v_outstanding := (v_outstanding v)(p_org p \<mapsto> max 0 (exposure_of v (p_org p) - p_sum_insured p))\<rparr>"

text \<open>An open policy whose slot and exposure are on the books.\<close>

definition closable :: "pm_view \<Rightarrow> policy \<Rightarrow> bool" where
  "closable v p \<longleftrightarrow>
     v_policy v (p_id p) = Some p \<and> 0 \<le> p_sum_insured p \<and> exposure_of v (p_org p) \<le> i128_max \<and>
     (p_status p = Active \<and> 0 < active_of v (p_farmer p) \<or>
      p_status p = Pending \<and> v_counted v (p_id p) = Some True \<and> 0 < pending_of v (p_farmer p))"

text \<open>What a best-effort deactivation did to the certificates and to the log.\<close>

definition nft_closed ::
  "env \<Rightarrow> nat \<Rightarrow> address option \<Rightarrow> nfts \<Rightarrow> nfts \<Rightarrow> pm_event list \<Rightarrow> bool" where
  "nft_closed e i wired nfts nfts' skipped \<longleftrightarrow>
     nfts' = nfts \<and> skipped = [PolicyNftUpdateSkipped i] \<or>
     (\<exists>addr n n'. wired = Some addr \<and> nfts addr = Some n \<and>
        update_policy_status (subcall e addr) (current_contract_address e) i False n = Inr n' \<and>
        nfts' = nfts(addr \<mapsto> n') \<and> skipped = [])"

lemma deactivate_closed:
  assumes "deactivate_policy_nft e i nfts s = Inr (nfts', s')"
  shows "pm_view s' = pm_view s"
    and "\<exists>skipped. nft_closed e i (pm_policy_nft s) nfts nfts' skipped \<and>
           pm_rest s' = (holds (pm_roles s), pm_policy_nft s, pm_events s @ skipped)"
  using deactivate_policy_nft_Inr [OF assms] by (auto simp: nft_closed_def pm_rest_def)

lemma active_decremented_fields [simp]:
  "pm_roles (active_decremented e a t s) = pm_roles s"
  "pm_policy_nft (active_decremented e a t s) = pm_policy_nft s"
  "pm_policy (active_decremented e a t s) = pm_policy s"
  "pm_org_outstanding (active_decremented e a t s) = pm_org_outstanding s"
  "pm_pending_counted (active_decremented e a t s) = pm_pending_counted s"
  "pm_events (active_decremented e a t s) = pm_events s"
  by (simp_all add: active_decremented_def)

lemma slot_released_fields [simp]:
  "pm_roles (slot_released e i a t s) = pm_roles s"
  "pm_policy_nft (slot_released e i a t s) = pm_policy_nft s"
  "pm_policy (slot_released e i a t s) = pm_policy s"
  "pm_org_outstanding (slot_released e i a t s) = pm_org_outstanding s"
  "pm_events (slot_released e i a t s) = pm_events s"
  by (simp_all add: slot_released_def Let_def)

lemma exposure_released_fields [simp]:
  "pm_roles (exposure_released e a x t s) = pm_roles s"
  "pm_policy_nft (exposure_released e a x t s) = pm_policy_nft s"
  "pm_policy (exposure_released e a x t s) = pm_policy s"
  "pm_farmer_active (exposure_released e a x t s) = pm_farmer_active s"
  "pm_farmer_pending (exposure_released e a x t s) = pm_farmer_pending s"
  "pm_pending_counted (exposure_released e a x t s) = pm_pending_counted s"
  "pm_events (exposure_released e a x t s) = pm_events s"
  by (simp_all add: exposure_released_def)

lemma policy_rented_fields [simp]:
  "pm_roles (policy_rented e p s) = pm_roles s" "pm_policy_nft (policy_rented e p s) = pm_policy_nft s"
  "get (pm_policy (policy_rented e p s)) = get (pm_policy s)"
  "pm_farmer_active (policy_rented e p s) = pm_farmer_active s"
  "pm_farmer_pending (policy_rented e p s) = pm_farmer_pending s"
  "pm_pending_counted (policy_rented e p s) = pm_pending_counted s"
  "pm_claim_times (policy_rented e p s) = pm_claim_times s"
  "pm_farmer_policy_count (policy_rented e p s) = pm_farmer_policy_count s"
  "pm_org_outstanding (policy_rented e p s) = pm_org_outstanding s"
  "pm_events (policy_rented e p s) = pm_events s"
  by (simp_all add: policy_rented_def)

lemma policy_saved_policy [simp]:
  "get (pm_policy (policy_saved e p s)) = (get (pm_policy s))(p_id p \<mapsto> p)"
  by (simp add: policy_saved_def)

subsection \<open>Claiming\<close>

definition claim_core :: "env \<Rightarrow> address \<Rightarrow> policy \<Rightarrow> pm_state \<Rightarrow> pm_state" where
  "claim_core e caller p s =
     (let t = p_end_date p; s = s\<lparr>pm_roles := used_role e Oracle caller (pm_roles s)\<rparr> in
      exposure_released e (p_org p) (p_sum_insured p) t
       (active_decremented e (p_farmer p) t
         (policy_saved e (p\<lparr>p_status := Claimed\<rparr>) (policy_rented e p s))))"

lemma claim_core_view:
  assumes "closable (pm_view s) p" and "p_status p = Active"
  shows "pm_view (claim_core e caller p s) = a_close Claimed p (pm_view s)"
    and "pm_rest (claim_core e caller p s) = pm_rest s"
  using assms by (simp_all add: claim_core_def Let_def closable_def a_close_def)

lemma claim_core_fields [simp]:
  "pm_policy_nft (claim_core e caller p s) = pm_policy_nft s"
  "holds (pm_roles (claim_core e caller p s)) = holds (pm_roles s)"
  "pm_events (claim_core e caller p s) = pm_events s"
  by (simp_all add: claim_core_def Let_def)

lemma mark_as_claimed_eq:
  assumes "authorizes e caller" and "holds (pm_roles s) Oracle caller"
    and "get (pm_policy s) i = Some p" and "p_id p = i" and "p_status p = Active"
    and "timestamp e \<le> p_end_date p" and "closable (pm_view s) p"
  shows "mark_as_claimed e caller i nfts s =
    bindE (deactivate_policy_nft e i nfts (claim_core e caller p s)) (\<lambda>(nfts, s).
      Inr (nfts, pm_publish (PolicyClaimed i (timestamp e)) (pm_bump_instance e s)))"
proof -
  have "load_policy e i (s\<lparr>pm_roles := r\<rparr>) = Inr (p, policy_rented e p (s\<lparr>pm_roles := r\<rparr>))" for r
    using assms(3,4) by (intro load_policy_eq) simp_all
  then show ?thesis
    using assms
    by (simp add: mark_as_claimed_def Let_def require_role_eq claim_core_def
        closable_def save_policy_eq decrement_active_eq release_org_exposure_eq)
qed

section \<open>The invariant of the book\<close>

definition is_open :: "policy \<Rightarrow> bool" where
  "is_open p \<longleftrightarrow> p_status p = Pending \<or> p_status p = Active"

definition active_weight :: "address \<Rightarrow> policy \<Rightarrow> int" where
  "active_weight a p = (if p_farmer p = a \<and> p_status p = Active then 1 else 0)"

definition pending_weight :: "address \<Rightarrow> policy \<Rightarrow> int" where
  "pending_weight a p = (if p_farmer p = a \<and> p_status p = Pending then 1 else 0)"

definition exposure_weight :: "address \<Rightarrow> policy \<Rightarrow> int" where
  "exposure_weight org p = (if p_org p = org \<and> is_open p then p_sum_insured p else 0)"

text \<open>The terms every stored policy was sold on, and the length of its cover.\<close>

definition policy_ok :: "policy \<Rightarrow> bool" where
  "policy_ok p \<longleftrightarrow>
     (\<exists>days. sale_terms (p_lat_e6 p) (p_lon_e6 p) (p_sum_insured p) (p_premium p) days (p_coverage_type p) \<and>
        p_end_date p = p_start_date p + days * PM_SECONDS_PER_DAY) \<and>
     p_end_date p \<le> u64_max"

text \<open>
  The counters and exposures are exactly the totals over the stored policies; ids are dense; the
  index of each farmer enumerates its policies; at most three policies are open per farmer.
\<close>

definition ids_ok :: "pm_view \<Rightarrow> bool" where
  "ids_ok v \<longleftrightarrow>
     (\<forall>i. v_policy v i \<noteq> None \<longleftrightarrow> 1 \<le> i \<and> i \<le> v_counter v) \<and> v_counter v \<le> u64_max \<and>
     (\<forall>i p. v_policy v i = Some p \<longrightarrow> p_id p = i \<and> policy_ok p)"

definition totals_ok :: "pm_view \<Rightarrow> bool" where
  "totals_ok v \<longleftrightarrow>
     (\<forall>a. int (active_of v a) = total (active_weight a) (v_policy v)) \<and>
     (\<forall>a. int (pending_of v a) = total (pending_weight a) (v_policy v)) \<and>
     (\<forall>a. exposure_of v a = total (exposure_weight a) (v_policy v)) \<and>
     (\<forall>a. exposure_of v a \<le> i128_max)"

definition slots_ok :: "pm_view \<Rightarrow> bool" where
  "slots_ok v \<longleftrightarrow>
     (\<forall>i. v_counted v i =
        (case v_policy v i of Some p \<Rightarrow> if p_status p = Pending then Some True else None | None \<Rightarrow> None)) \<and>
     (\<forall>a. active_of v a + pending_of v a \<le> MAX_ACTIVE_POLICIES_PER_FARMER) \<and>
     (\<forall>a. length (claims_of v a) \<le> MAX_CLAIMS_PER_FARMER_PER_YEAR)"

definition index_ok :: "pm_view \<Rightarrow> bool" where
  "index_ok v \<longleftrightarrow>
     (\<forall>a. index_size v a \<le> u32_max) \<and>
     (\<forall>a j. v_policy_at v (a, j) \<noteq> None \<longleftrightarrow> j < index_size v a) \<and>
     (\<forall>a j i. v_policy_at v (a, j) = Some i \<longrightarrow> (\<exists>p. v_policy v i = Some p \<and> p_farmer p = a)) \<and>
     (\<forall>i p. v_policy v i = Some p \<longrightarrow> (\<exists>!j. v_policy_at v (p_farmer p, j) = Some i))"

definition pm_ok :: "pm_view \<Rightarrow> bool" where
  "pm_ok v \<longleftrightarrow> ids_ok v \<and> totals_ok v \<and> slots_ok v \<and> index_ok v"

lemma pm_okD:
  assumes "pm_ok v"
  shows "v_policy v i \<noteq> None \<longleftrightarrow> 1 \<le> i \<and> i \<le> v_counter v"
    and "v_counter v \<le> u64_max"
    and "v_policy v i = Some p \<Longrightarrow> p_id p = i \<and> policy_ok p"
    and "int (active_of v a) = total (active_weight a) (v_policy v)"
    and "int (pending_of v a) = total (pending_weight a) (v_policy v)"
    and "exposure_of v a = total (exposure_weight a) (v_policy v)"
    and "exposure_of v a \<le> i128_max"
    and "v_counted v i =
        (case v_policy v i of Some p \<Rightarrow> if p_status p = Pending then Some True else None | None \<Rightarrow> None)"
    and "active_of v a + pending_of v a \<le> MAX_ACTIVE_POLICIES_PER_FARMER"
    and "index_size v a \<le> u32_max"
    and "v_policy_at v (a, j) \<noteq> None \<longleftrightarrow> j < index_size v a"
    and "v_policy_at v (a, j) = Some i \<Longrightarrow> \<exists>p. v_policy v i = Some p \<and> p_farmer p = a"
    and "v_policy v i = Some p \<Longrightarrow> \<exists>!j. v_policy_at v (p_farmer p, j) = Some i"
    and "length (claims_of v a) \<le> MAX_CLAIMS_PER_FARMER_PER_YEAR"
proof -
  have ids: "ids_ok v" and totals: "totals_ok v" and slots: "slots_ok v" and index: "index_ok v"
    using assms by (simp_all add: pm_ok_def)
  show "v_policy v i \<noteq> None \<longleftrightarrow> 1 \<le> i \<and> i \<le> v_counter v" and "v_counter v \<le> u64_max"
    and "v_policy v i = Some p \<Longrightarrow> p_id p = i \<and> policy_ok p"
    using ids unfolding ids_ok_def by blast+
  show "int (active_of v a) = total (active_weight a) (v_policy v)"
    and "int (pending_of v a) = total (pending_weight a) (v_policy v)"
    and "exposure_of v a = total (exposure_weight a) (v_policy v)" and "exposure_of v a \<le> i128_max"
    using totals unfolding totals_ok_def by blast+
  show "v_counted v i =
        (case v_policy v i of Some p \<Rightarrow> if p_status p = Pending then Some True else None | None \<Rightarrow> None)"
    and "active_of v a + pending_of v a \<le> MAX_ACTIVE_POLICIES_PER_FARMER"
    and "length (claims_of v a) \<le> MAX_CLAIMS_PER_FARMER_PER_YEAR"
    using slots unfolding slots_ok_def by blast+
  show "index_size v a \<le> u32_max" and "v_policy_at v (a, j) \<noteq> None \<longleftrightarrow> j < index_size v a"
    and "v_policy_at v (a, j) = Some i \<Longrightarrow> \<exists>p. v_policy v i = Some p \<and> p_farmer p = a"
    and "v_policy v i = Some p \<Longrightarrow> \<exists>!j. v_policy_at v (p_farmer p, j) = Some i"
    using index unfolding index_ok_def by blast+
qed

lemma pm_okI:
  assumes "ids_ok v" and "totals_ok v" and "slots_ok v" and "index_ok v"
  shows "pm_ok v"
  using assms by (simp add: pm_ok_def)

lemma pm_ok_finite: "pm_ok v \<Longrightarrow> finite (dom (v_policy v))"
  by (rule finite_subset [of _ "{1..v_counter v}"]) (use pm_okD(1) in \<open>auto simp: dom_def\<close>)

text \<open>The two counters of a farmer together count the stored open policies.\<close>

lemma open_slots:
  assumes "pm_ok v"
  shows "active_of v a + pending_of v a = card {i. \<exists>p. v_policy v i = Some p \<and> p_farmer p = a \<and> is_open p}"
proof -
  have "int (active_of v a + pending_of v a) = total (\<lambda>p. active_weight a p + pending_weight a p) (v_policy v)"
    using pm_okD(4,5) [OF assms, of a] by (simp add: total_add)
  also have "\<dots> = total (\<lambda>p. if p_farmer p = a \<and> is_open p then 1 else 0) (v_policy v)"
    by (rule total_cong) (auto simp: active_weight_def pending_weight_def is_open_def)
  finally show ?thesis by (simp add: total_indicator [OF pm_ok_finite [OF assms]])
qed

lemma policy_ok_sum: "policy_ok p \<Longrightarrow> 0 < p_sum_insured p"
  by (auto simp: policy_ok_def sale_terms_def MIN_SUM_INSURED_def)

lemma policy_ok_dates: "policy_ok p \<Longrightarrow> p_start_date p \<le> p_end_date p"
  by (auto simp: policy_ok_def)

text \<open>An open policy of the book has its slot and its exposure on it.\<close>

lemma open_closable:
  assumes ok: "pm_ok v" and p: "v_policy v i = Some p" and op: "is_open p"
  shows "closable v p" and "p_id p = i" and "p_sum_insured p \<le> exposure_of v (p_org p)"
proof -
  note inv = pm_okD [OF ok]
  note fin = pm_ok_finite [OF ok]
  show id: "p_id p = i" using inv(3) [OF p] by simp
  have nonneg: "\<And>k q. v_policy v k = Some q \<Longrightarrow> 0 \<le> exposure_weight (p_org p) q"
    using inv(3) policy_ok_sum by (force simp: exposure_weight_def)
  have "weight_at (exposure_weight (p_org p)) (v_policy v) i \<le> exposure_of v (p_org p)"
    unfolding inv(6) by (rule weight_at_le_total [OF fin nonneg])
  then show "p_sum_insured p \<le> exposure_of v (p_org p)" using p op by (simp add: exposure_weight_def)
  have "weight_at (active_weight (p_farmer p)) (v_policy v) i \<le> int (active_of v (p_farmer p))"
    unfolding inv(4) by (rule weight_at_le_total [OF fin]) (simp add: active_weight_def)
  then have "p_status p = Active \<Longrightarrow> 0 < active_of v (p_farmer p)" using p by (simp add: active_weight_def)
  moreover have "weight_at (pending_weight (p_farmer p)) (v_policy v) i \<le> int (pending_of v (p_farmer p))"
    unfolding inv(5) by (rule weight_at_le_total [OF fin]) (simp add: pending_weight_def)
  then have "p_status p = Pending \<Longrightarrow> 0 < pending_of v (p_farmer p)" using p by (simp add: pending_weight_def)
  moreover have "p_status p = Pending \<Longrightarrow> v_counted v i = Some True" using p inv(8) [of i] by auto
  ultimately show "closable v p"
    using p op inv(7) policy_ok_sum inv(3) [OF p] by (force simp: closable_def is_open_def)
qed

lemma pm_ok_empty:
  "pm_ok \<lparr>v_policy = Map.empty, v_counter = 0, v_policy_count = Map.empty, v_policy_at = Map.empty,
     v_active = Map.empty, v_pending = Map.empty, v_claims = Map.empty, v_counted = Map.empty,
     v_outstanding = Map.empty\<rparr>"
  by (simp add: pm_ok_def ids_ok_def totals_ok_def slots_ok_def index_ok_def active_of_def pending_of_def
      exposure_of_def index_size_def claims_of_def i128_max_def)

subsection \<open>It is kept\<close>

text \<open>One policy entry changes: how each total moves.\<close>

lemma total_change:
  assumes "finite (dom m)"
  shows "total w (m(i \<mapsto> p)) = total w m + w p - weight_at w m i"
  using total_upd [OF assms, of w i p] by simp

lemma pm_ok_create:
  assumes ok: "pm_ok v" and p: "p_id p = v_counter v + 1" "p_status p = Pending" "policy_ok p"
    and room: "v_counter v < u64_max" "index_size v (p_farmer p) < u32_max"
      "exposure_of v (p_org p) + p_sum_insured p \<le> i128_max"
      "active_of v (p_farmer p) + pending_of v (p_farmer p) < MAX_ACTIVE_POLICIES_PER_FARMER"
  shows "pm_ok (a_create p v)"
proof -
  note inv = pm_okD [OF ok]
  note fin = pm_ok_finite [OF ok]
  have new: "v_policy v (p_id p) = None" using inv(1) [of "p_id p"] p(1) by simp
  have free: "v_policy_at v (p_farmer p, index_size v (p_farmer p)) = None"
    using inv(11) [of "p_farmer p" "index_size v (p_farmer p)"] by simp
  have unused: "v_policy_at v (a, j) \<noteq> Some (p_id p)" for a j using inv(12) [of a j] new by fastforce
  let ?v = "a_create p v"
  have fields: "active_of ?v a = active_of v a"
    "pending_of ?v a = (if a = p_farmer p then pending_of v a + 1 else pending_of v a)"
    "exposure_of ?v a = (if a = p_org p then exposure_of v a + p_sum_insured p else exposure_of v a)"
    "index_size ?v a = (if a = p_farmer p then index_size v a + 1 else index_size v a)"
    "claims_of ?v a = claims_of v a" for a
    by (simp_all add: a_create_def active_of_def pending_of_def exposure_of_def index_size_def claims_of_def)
  have pol: "v_policy ?v = (v_policy v)(p_id p \<mapsto> p)" by (simp add: a_create_def)
  have at: "v_policy_at ?v = (v_policy_at v)((p_farmer p, index_size v (p_farmer p)) \<mapsto> p_id p)"
    by (simp add: a_create_def)
  have counted: "v_counted ?v = (v_counted v)(p_id p \<mapsto> True)" by (simp add: a_create_def)
  have counter: "v_counter ?v = p_id p" by (simp add: a_create_def)
  have totals: "total w (v_policy ?v) = total w (v_policy v) + w p" for w
    using total_change [OF fin, of w "p_id p" p] new by (simp add: pol)
  show ?thesis
    unfolding pm_ok_def ids_ok_def totals_ok_def slots_ok_def index_ok_def
  proof (intro conjI)
    show "\<forall>i. v_policy ?v i \<noteq> None \<longleftrightarrow> 1 \<le> i \<and> i \<le> v_counter ?v"
      using inv(1) p(1) by (auto simp: pol counter le_Suc_eq)
    show "v_counter ?v \<le> u64_max" using room(1) p(1) by (simp add: counter)
    show "\<forall>i q. v_policy ?v i = Some q \<longrightarrow> p_id q = i \<and> policy_ok q"
      using inv(3) p(3) by (simp add: pol)
    show "\<forall>a. int (active_of ?v a) = total (active_weight a) (v_policy ?v)"
      using inv(4) p(2) by (simp add: fields totals active_weight_def)
    show "\<forall>a. int (pending_of ?v a) = total (pending_weight a) (v_policy ?v)"
      using inv(5) p(2) by (simp add: fields totals pending_weight_def)
    show "\<forall>a. exposure_of ?v a = total (exposure_weight a) (v_policy ?v)"
      using inv(6) p(2) by (simp add: fields totals exposure_weight_def is_open_def)
    show "\<forall>a. exposure_of ?v a \<le> i128_max" using inv(7) room(3) by (simp add: fields)
    show "\<forall>i. v_counted ?v i =
        (case v_policy ?v i of Some p \<Rightarrow> if p_status p = Pending then Some True else None | None \<Rightarrow> None)"
      using inv(8) p(2) by (simp add: pol counted)
    show "\<forall>a. active_of ?v a + pending_of ?v a \<le> MAX_ACTIVE_POLICIES_PER_FARMER"
      using inv(9) room(4) by (simp add: fields)
    show "\<forall>a. index_size ?v a \<le> u32_max" using inv(10) room(2) by (simp add: fields)
    show "\<forall>a j. v_policy_at ?v (a, j) \<noteq> None \<longleftrightarrow> j < index_size ?v a"
      using inv(11) by (auto simp: fields at less_Suc_eq)
    show "\<forall>a j i. v_policy_at ?v (a, j) = Some i \<longrightarrow> (\<exists>q. v_policy ?v i = Some q \<and> p_farmer q = a)"
      
    proof (intro allI impI)
      fix a j i
      assume i: "v_policy_at ?v (a, j) = Some i"
      show "\<exists>q. v_policy ?v i = Some q \<and> p_farmer q = a"
      proof (cases "(a, j) = (p_farmer p, index_size v (p_farmer p))")
        case True
        then show ?thesis using i by (simp add: at pol)
      next
        case False
        then have "v_policy_at v (a, j) = Some i" using i by (auto simp: at)
        then show ?thesis using inv(12) unused by (fastforce simp: pol)
      qed
    qed
    show "\<forall>a. length (claims_of ?v a) \<le> MAX_CLAIMS_PER_FARMER_PER_YEAR" using inv(14) by (simp add: fields)
    show "\<forall>i q. v_policy ?v i = Some q \<longrightarrow> (\<exists>!j. v_policy_at ?v (p_farmer q, j) = Some i)"
    proof (intro allI impI)
      fix i q
      assume q: "v_policy ?v i = Some q"
      show "\<exists>!j. v_policy_at ?v (p_farmer q, j) = Some i"
      proof (cases "i = p_id p")
        case True
        then have "q = p" using q by (simp add: pol)
        have "v_policy_at ?v (p_farmer p, j) = Some (p_id p) \<longleftrightarrow> j = index_size v (p_farmer p)" for j
          using unused by (simp add: at)
        then show ?thesis by (simp add: True \<open>q = p\<close>)
      next
        case False
        then have "\<exists>!j. v_policy_at v (p_farmer q, j) = Some i" using q inv(13) by (simp add: pol)
        moreover have "v_policy_at ?v (p_farmer q, j) = Some i \<longleftrightarrow> v_policy_at v (p_farmer q, j) = Some i" for j
          using False free by (auto simp: at)
        ultimately show ?thesis by simp
      qed
    qed
  qed
qed

text \<open>One stored policy is replaced by a later version of itself.\<close>

lemma pm_ok_update:
  assumes ok: "pm_ok v" and p: "v_policy v i = Some p"
    and p': "p_id p' = i" "p_farmer p' = p_farmer p" "p_org p' = p_org p" "policy_ok p'"
    and pol: "v_policy v' = (v_policy v)(i \<mapsto> p')" and counter: "v_counter v' = v_counter v"
    and at: "v_policy_at v' = v_policy_at v" and size: "\<And>a. index_size v' a = index_size v a"
    and claims: "\<And>a. claims_of v' a = claims_of v a"
    and active: "\<And>a. int (active_of v' a) = int (active_of v a) + active_weight a p' - active_weight a p"
    and pending: "\<And>a. int (pending_of v' a) = int (pending_of v a) + pending_weight a p' - pending_weight a p"
    and exposure: "\<And>a. exposure_of v' a = exposure_of v a + exposure_weight a p' - exposure_weight a p"
    and counted: "v_counted v' = (v_counted v)(i := if p_status p' = Pending then Some True else None)"
    and slots: "\<And>a. active_of v' a + pending_of v' a \<le> MAX_ACTIVE_POLICIES_PER_FARMER"
    and bound: "\<And>a. exposure_of v' a \<le> i128_max"
  shows "pm_ok v'"
proof -
  note inv = pm_okD [OF ok]
  note fin = pm_ok_finite [OF ok]
  have totals: "total w (v_policy v') = total w (v_policy v) + w p' - w p" for w
    using total_change [OF fin, of w i p'] p by (simp add: pol)
  show ?thesis
    unfolding pm_ok_def ids_ok_def totals_ok_def slots_ok_def index_ok_def
  proof (intro conjI)
    show "\<forall>i. v_policy v' i \<noteq> None \<longleftrightarrow> 1 \<le> i \<and> i \<le> v_counter v'"
    proof
      fix j
      have "v_policy v' j \<noteq> None \<longleftrightarrow> v_policy v j \<noteq> None" using p by (simp add: pol)
      then show "v_policy v' j \<noteq> None \<longleftrightarrow> 1 \<le> j \<and> j \<le> v_counter v'"
        using inv(1) [of j] by (simp add: counter)
    qed
    show "v_counter v' \<le> u64_max" using inv(2) by (simp add: counter)
    show "\<forall>i q. v_policy v' i = Some q \<longrightarrow> p_id q = i \<and> policy_ok q"
      using inv(3) p'(1,4) by (simp add: pol)
    show "\<forall>a. int (active_of v' a) = total (active_weight a) (v_policy v')"
      using inv(4) by (simp add: active totals)
    show "\<forall>a. int (pending_of v' a) = total (pending_weight a) (v_policy v')"
      using inv(5) by (simp add: pending totals)
    show "\<forall>a. exposure_of v' a = total (exposure_weight a) (v_policy v')"
      using inv(6) by (simp add: exposure totals)
    show "\<forall>i. v_counted v' i =
        (case v_policy v' i of Some p \<Rightarrow> if p_status p = Pending then Some True else None | None \<Rightarrow> None)"
      using inv(8) by (simp add: counted pol)
    show "\<forall>a j. v_policy_at v' (a, j) \<noteq> None \<longleftrightarrow> j < index_size v' a"
      using inv(11) by (simp add: at size)
    show "\<forall>a j i. v_policy_at v' (a, j) = Some i \<longrightarrow> (\<exists>q. v_policy v' i = Some q \<and> p_farmer q = a)"
    proof (intro allI impI)
      fix a j k
      assume "v_policy_at v' (a, j) = Some k"
      then have k: "v_policy_at v (a, j) = Some k" by (simp add: at)
      obtain q where "v_policy v k = Some q" "p_farmer q = a" using inv(12) [OF k] by blast
      then show "\<exists>q. v_policy v' k = Some q \<and> p_farmer q = a"
        using p p'(2) by (cases "k = i") (simp_all add: pol)
    qed
    show "\<forall>i q. v_policy v' i = Some q \<longrightarrow> (\<exists>!j. v_policy_at v' (p_farmer q, j) = Some i)"
      using inv(13) [OF p] inv(13) p'(2) by (simp add: pol at)
    show "\<forall>a. length (claims_of v' a) \<le> MAX_CLAIMS_PER_FARMER_PER_YEAR" using inv(14) by (simp add: claims)
    show "\<forall>a. index_size v' a \<le> u32_max" using inv(10) by (simp add: size)
  qed (use slots bound in blast)+
qed

lemma pm_ok_close:
  assumes ok: "pm_ok v" and p: "v_policy v i = Some p" and op: "is_open p"
    and st: "st \<noteq> Pending" "st \<noteq> Active"
  shows "pm_ok (a_close st p v)"
proof -
  note c = open_closable [OF ok p op]
  note inv = pm_okD [OF ok]
  have slot: "p_status p = Active \<Longrightarrow> 0 < active_of v (p_farmer p)"
    "p_status p = Pending \<Longrightarrow> 0 < pending_of v (p_farmer p)"
    using c(1) by (auto simp: closable_def)
  let ?v = "a_close st p v"
  have act: "active_of ?v a = (if p_status p = Active \<and> a = p_farmer p then active_of v a - 1 else active_of v a)"
    and pen: "pending_of ?v a = (if p_status p = Pending \<and> a = p_farmer p then pending_of v a - 1 else pending_of v a)"
    and ex: "exposure_of ?v a = (if a = p_org p then exposure_of v a - p_sum_insured p else exposure_of v a)" for a
    using c(3) by (simp_all add: a_close_def active_of_def pending_of_def exposure_of_def)
  show ?thesis
  proof (rule pm_ok_update [OF ok p, where p' = "p\<lparr>p_status := st\<rparr>"])
    show "policy_ok (p\<lparr>p_status := st\<rparr>)" using inv(3) [OF p] by (simp add: policy_ok_def)
    show "v_policy ?v = (v_policy v)(i \<mapsto> p\<lparr>p_status := st\<rparr>)" by (simp add: a_close_def c(2))
    show "int (active_of ?v a) = int (active_of v a) + active_weight a (p\<lparr>p_status := st\<rparr>) - active_weight a p" for a
      using slot(1) st by (auto simp: act active_weight_def)
    show "int (pending_of ?v a) = int (pending_of v a) + pending_weight a (p\<lparr>p_status := st\<rparr>) - pending_weight a p" for a
      using slot(2) st by (auto simp: pen pending_weight_def)
    show "exposure_of ?v a = exposure_of v a + exposure_weight a (p\<lparr>p_status := st\<rparr>) - exposure_weight a p" for a
      using op st by (auto simp: ex exposure_weight_def is_open_def)
    have "v_counted v i = None" if "p_status p \<noteq> Pending" using inv(8) [of i] p that by simp
    then show "v_counted ?v = (v_counted v)(i := if p_status (p\<lparr>p_status := st\<rparr>) = Pending then Some True else None)"
      using st by (auto simp: a_close_def c(2) fun_eq_iff)
    show "active_of ?v a + pending_of ?v a \<le> MAX_ACTIVE_POLICIES_PER_FARMER" for a
      using inv(9) [of a] by (auto simp: act pen)
    show "exposure_of ?v a \<le> i128_max" for a
      using inv(7) [of a] policy_ok_sum [of p] inv(3) [OF p] by (auto simp: ex)
  qed (simp_all add: c(2) a_close_def index_size_def claims_of_def)
qed

section \<open>Activating a policy\<close>

definition activated :: "nat \<Rightarrow> policy \<Rightarrow> policy" where
  "activated now p =
     p\<lparr>p_status := Active, p_start_date := now, p_end_date := now + (p_end_date p - p_start_date p)\<rparr>"

definition a_activate :: "nat \<Rightarrow> policy \<Rightarrow> pm_view \<Rightarrow> pm_view" where
  "a_activate now p v =
     v\<lparr>v_policy := (v_policy v)(p_id p \<mapsto> activated now p),
       v_active := (v_active v)(p_farmer p \<mapsto> active_of v (p_farmer p) + 1),
       v_pending := (v_pending v)(p_farmer p \<mapsto> pending_of v (p_farmer p) - 1),
       v_counted := (v_counted v)(p_id p := None)\<rparr>"

lemma activated_ok: "policy_ok p \<Longrightarrow> p_end_date (activated now p) \<le> u64_max \<Longrightarrow> policy_ok (activated now p)"
  by (auto simp: policy_ok_def activated_def)

lemma pm_ok_activate:
  assumes ok: "pm_ok v" and p: "v_policy v i = Some p" "p_status p = Pending"
    and ends: "p_end_date (activated now p) \<le> u64_max"
  shows "pm_ok (a_activate now p v)"
proof -
  have op: "is_open p" using p(2) by (simp add: is_open_def)
  note c = open_closable [OF ok p(1) op]
  note inv = pm_okD [OF ok]
  have slot: "0 < pending_of v (p_farmer p)" using c(1) p(2) by (simp add: closable_def)
  let ?v = "a_activate now p v"
  have act: "active_of ?v a = (if a = p_farmer p then active_of v a + 1 else active_of v a)"
    and pen: "pending_of ?v a = (if a = p_farmer p then pending_of v a - 1 else pending_of v a)"
    and ex: "exposure_of ?v a = exposure_of v a" for a
    by (simp_all add: a_activate_def active_of_def pending_of_def exposure_of_def)
  have fields: "p_farmer (activated now p) = p_farmer p" "p_org (activated now p) = p_org p"
    "p_id (activated now p) = p_id p" "p_status (activated now p) = Active"
    "p_sum_insured (activated now p) = p_sum_insured p"
    by (simp_all add: activated_def)
  show ?thesis
  proof (rule pm_ok_update [OF ok p(1), where p' = "activated now p"])
    show "policy_ok (activated now p)" using inv(3) [OF p(1)] ends by (simp add: activated_ok)
    show "v_policy ?v = (v_policy v)(i \<mapsto> activated now p)" by (simp add: a_activate_def c(2))
    show "int (active_of ?v a) = int (active_of v a) + active_weight a (activated now p) - active_weight a p" for a
      using p(2) by (simp add: act active_weight_def fields)
    show "int (pending_of ?v a) = int (pending_of v a) + pending_weight a (activated now p) - pending_weight a p" for a
      using slot p(2) by (auto simp: pen pending_weight_def fields)
    show "exposure_of ?v a = exposure_of v a + exposure_weight a (activated now p) - exposure_weight a p" for a
      using p(2) by (simp add: ex exposure_weight_def fields is_open_def)
    show "v_counted ?v = (v_counted v)(i := if p_status (activated now p) = Pending then Some True else None)"
      by (simp add: a_activate_def c(2) fields)
    show "active_of ?v a + pending_of ?v a \<le> MAX_ACTIVE_POLICIES_PER_FARMER" for a
      using inv(9) [of a] slot by (auto simp: act pen)
    show "exposure_of ?v a \<le> i128_max" for a using inv(7) [of a] by (simp add: ex)
  qed (simp_all add: c(2) fields a_activate_def index_size_def claims_of_def)
qed

section \<open>Counting a claim\<close>

definition a_claim :: "address \<Rightarrow> nat \<Rightarrow> pm_view \<Rightarrow> pm_view" where
  "a_claim farmer now v =
     v\<lparr>v_claims := (v_claims v)(farmer \<mapsto>
        pop_front_while MAX_CLAIMS_PER_FARMER_PER_YEAR (claims_of v farmer @ [now]))\<rparr>"

lemma pm_ok_claim: "pm_ok v \<Longrightarrow> pm_ok (a_claim a now v)"
proof -
  assume ok: "pm_ok v"
  have "claims_of (a_claim a now v) b = (if b = a
      then pop_front_while MAX_CLAIMS_PER_FARMER_PER_YEAR (claims_of v a @ [now]) else claims_of v b)" for b
    by (simp add: a_claim_def claims_of_def)
  then have len: "length (claims_of (a_claim a now v) b) \<le> MAX_CLAIMS_PER_FARMER_PER_YEAR" for b
    using pm_okD(14) [OF ok, of b] by (auto simp: pop_front_while_eq MAX_CLAIMS_PER_FARMER_PER_YEAR_def)
  have eqs: "active_of (a_claim a now v) = active_of v" "pending_of (a_claim a now v) = pending_of v"
    "exposure_of (a_claim a now v) = exposure_of v" "index_size (a_claim a now v) = index_size v"
    "v_policy (a_claim a now v) = v_policy v" "v_counter (a_claim a now v) = v_counter v"
    "v_counted (a_claim a now v) = v_counted v" "v_policy_at (a_claim a now v) = v_policy_at v"
    by (simp_all add: fun_eq_iff a_claim_def active_of_def pending_of_def exposure_of_def index_size_def)
  show ?thesis
  proof (rule pm_okI)
    show "ids_ok (a_claim a now v)" using ok unfolding pm_ok_def ids_ok_def eqs by blast
    show "totals_ok (a_claim a now v)" using ok unfolding pm_ok_def totals_ok_def eqs by blast
    show "slots_ok (a_claim a now v)" using ok len unfolding pm_ok_def slots_ok_def eqs by blast
    show "index_ok (a_claim a now v)" using ok unfolding pm_ok_def index_ok_def eqs by blast
  qed
qed

section \<open>What the entry points do to a consistent book\<close>

text \<open>
  Under the invariant every rent call and counter update succeeds, so an entry point succeeds
  exactly on its guards, and its effect is one of the abstract operations.
\<close>

lemma claim_guards:
  assumes "mark_as_claimed e caller i nfts s = Inr r"
  shows "authorizes e caller" and "holds (pm_roles s) Oracle caller"
    and "\<exists>p. get (pm_policy s) i = Some p \<and> p_status p = Active \<and> timestamp e \<le> p_end_date p"
  using assms
  by (auto simp: mark_as_claimed_def bindE_eq_Inr Let_def dest!: load_policy_Inr split: if_splits)

lemma mark_as_claimed_Inr:
  assumes ok: "pm_ok (pm_view s)" and call: "mark_as_claimed e caller i nfts s = Inr (nfts', s')"
  shows "\<exists>p skipped. authorizes e caller \<and> holds (pm_roles s) Oracle caller \<and>
     get (pm_policy s) i = Some p \<and> p_status p = Active \<and> timestamp e \<le> p_end_date p \<and>
     pm_view s' = a_close Claimed p (pm_view s) \<and>
     nft_closed e i (pm_policy_nft s) nfts nfts' skipped \<and>
     pm_rest s' = (holds (pm_roles s), pm_policy_nft s, pm_events s @ skipped @ [PolicyClaimed i (timestamp e)])"
proof -
  note g = claim_guards [OF call]
  obtain p where p: "get (pm_policy s) i = Some p" "p_status p = Active" "timestamp e \<le> p_end_date p"
    using g(3) by blast
  have c: "closable (pm_view s) p" "p_id p = i"
    using open_closable [OF ok, of i p] p by (simp_all add: is_open_def)
  note view = claim_core_view [OF c(1) p(2)]
  from call obtain s1 where d: "deactivate_policy_nft e i nfts (claim_core e caller p s) = Inr (nfts', s1)"
    and s': "s' = pm_publish (PolicyClaimed i (timestamp e)) (pm_bump_instance e s1)"
    unfolding mark_as_claimed_eq [OF g(1,2) p(1) c(2) p(2,3) c(1)] by (auto simp: bindE_eq_Inr)
  obtain skipped where sk: "nft_closed e i (pm_policy_nft s) nfts nfts' skipped"
      "pm_rest s1 = (holds (pm_roles s), pm_policy_nft s, pm_events s @ skipped)"
    using deactivate_closed(2) [OF d] by auto
  have "pm_view s' = a_close Claimed p (pm_view s)" using deactivate_closed(1) [OF d] view(1) s' by simp
  moreover have "pm_rest s' = (holds (pm_roles s), pm_policy_nft s, pm_events s @ skipped @ [PolicyClaimed i (timestamp e)])"
    using sk(2) s' by (simp add: pm_rest_def)
  ultimately show ?thesis using g(1,2) p sk(1) by blast
qed

lemma mark_as_claimed_ok:
  assumes ok: "pm_ok (pm_view s)" and auth: "authorizes e caller" "holds (pm_roles s) Oracle caller"
    and p: "get (pm_policy s) i = Some p" "p_status p = Active" "timestamp e \<le> p_end_date p"
    and wired: "nft_wired (pm_policy_nft s) nfts"
  shows "\<exists>nfts' s'. mark_as_claimed e caller i nfts s = Inr (nfts', s')"
proof -
  have c: "closable (pm_view s) p" "p_id p = i"
    using open_closable [OF ok, of i p] p by (simp_all add: is_open_def)
  obtain nfts' s1 where "deactivate_policy_nft e i nfts (claim_core e caller p s) = Inr (nfts', s1)"
    using deactivate_policy_nft_ok [of "claim_core e caller p s" nfts e i] wired by auto
  then show ?thesis unfolding mark_as_claimed_eq [OF auth p(1) c(2) p(2,3) c(1)] by simp
qed

subsection \<open>Expiring\<close>

text \<open>What releasing the farmer's slot leaves, before the best-effort deactivation.\<close>

definition expire_slot :: "env \<Rightarrow> policy \<Rightarrow> pm_state \<Rightarrow> pm_state" where
  "expire_slot e p s =
     (if p_status p = Active then active_decremented e (p_farmer p) (p_end_date p) (policy_rented e p s)
      else slot_released e (p_id p) (p_farmer p) (p_end_date p) (policy_rented e p s))"

definition expire_tail :: "env \<Rightarrow> policy \<Rightarrow> pm_state \<Rightarrow> pm_state" where
  "expire_tail e p s =
     pm_publish (pm_event.PolicyExpired (p_id p) (timestamp e))
       (pm_bump_instance e (policy_saved e (p\<lparr>p_status := Expired\<rparr>)
         (exposure_released e (p_org p) (p_sum_insured p) (p_end_date p) s)))"

lemma expire_policy_eq:
  assumes p: "get (pm_policy s) i = Some p" "p_id p = i" "is_open p" "p_end_date p < timestamp e"
    and c: "closable (pm_view s) p"
  shows "expire_policy e i nfts s =
    bindE (if p_status p = Active then deactivate_policy_nft e i nfts (expire_slot e p s)
           else Inr (nfts, expire_slot e p s))
      (\<lambda>(nfts, s1). bindE (release_org_exposure e (p_org p) (p_sum_insured p) (p_end_date p) s1)
        (\<lambda>s1. bindE (save_policy e (p\<lparr>p_status := Expired\<rparr>) s1) (\<lambda>s1.
          Inr (nfts, pm_publish (pm_event.PolicyExpired i (timestamp e)) (pm_bump_instance e s1)))))"
  using p c
  by (auto simp: expire_policy_def load_policy_eq Let_def is_open_def expire_slot_def
      decrement_active_eq release_pending_slot_eq)

lemma expire_slot_view:
  assumes "closable (pm_view s) p"
  shows "pm_view (expire_slot e p s) = (pm_view s)
      \<lparr>v_active := (if p_status p = Active
          then (get (pm_farmer_active s))(p_farmer p \<mapsto> active_of (pm_view s) (p_farmer p) - 1)
          else get (pm_farmer_active s)),
       v_pending := (if p_status p = Pending
          then (get (pm_farmer_pending s))(p_farmer p \<mapsto> pending_of (pm_view s) (p_farmer p) - 1)
          else get (pm_farmer_pending s)),
       v_counted := (if p_status p = Pending then (get (pm_pending_counted s))(p_id p := None)
          else get (pm_pending_counted s))\<rparr>"
    and "pm_rest (expire_slot e p s) = pm_rest s"
proof -
  show "pm_rest (expire_slot e p s) = pm_rest s" by (simp add: expire_slot_def)
  from assms have "p_status p = Active \<or> p_status p = Pending" by (auto simp: closable_def)
  then show "pm_view (expire_slot e p s) = (pm_view s)
      \<lparr>v_active := (if p_status p = Active
          then (get (pm_farmer_active s))(p_farmer p \<mapsto> active_of (pm_view s) (p_farmer p) - 1)
          else get (pm_farmer_active s)),
       v_pending := (if p_status p = Pending
          then (get (pm_farmer_pending s))(p_farmer p \<mapsto> pending_of (pm_view s) (p_farmer p) - 1)
          else get (pm_farmer_pending s)),
       v_counted := (if p_status p = Pending then (get (pm_pending_counted s))(p_id p := None)
          else get (pm_pending_counted s))\<rparr>"
  proof
    assume "p_status p = Active"
    with assms show ?thesis
      by (intro pm_view.equality) (simp_all add: expire_slot_def closable_def)
  next
    assume "p_status p = Pending"
    with assms show ?thesis
      by (intro pm_view.equality) (simp_all add: expire_slot_def closable_def)
  qed
qed

text \<open>
  Closing a policy that is active deactivates its certificate, best effort; closing a pending one
  touches no certificate.
\<close>

definition closed_nft ::
  "env \<Rightarrow> policy \<Rightarrow> address option \<Rightarrow> nfts \<Rightarrow> nfts \<Rightarrow> pm_event list \<Rightarrow> bool" where
  "closed_nft e p wired nfts nfts' skipped \<longleftrightarrow>
     (if p_status p = Active then nft_closed e (p_id p) wired nfts nfts' skipped
      else nfts' = nfts \<and> skipped = [])"

lemma expire_guards:
  assumes "expire_policy e i nfts s = Inr r"
  shows "\<exists>p. get (pm_policy s) i = Some p \<and>
    (p_status p = Expired \<or> is_open p \<and> p_end_date p < timestamp e)"
  using assms
  by (auto simp: expire_policy_def bindE_eq_Inr Let_def is_open_def not_le dest!: load_policy_Inr
      split: if_splits)

lemma expire_policy_expired:
  assumes "get (pm_policy s) i = Some p" and "p_id p = i" and "p_status p = Expired"
  shows "expire_policy e i nfts s = Inr (nfts, s)"
  using assms by (simp add: expire_policy_def load_policy_eq policy_rented_def)

lemma closed_view:
  assumes c: "closable (pm_view s) p"
    and v: "pm_view s1 = pm_view (expire_slot e p s)" and r: "pm_rest s1 = (holds (pm_roles s), pm_policy_nft s, evs)"
  shows "pm_view (policy_saved e (p\<lparr>p_status := st\<rparr>)
           (exposure_released e (p_org p) (p_sum_insured p) t s1)) = a_close st p (pm_view s)"
    and "release_org_exposure e (p_org p) (p_sum_insured p) t s1 =
           Inr (exposure_released e (p_org p) (p_sum_insured p) t s1)"
proof -
  have sel: "get (pm_policy s1) = get (pm_policy s)" "get (pm_org_outstanding s1) = get (pm_org_outstanding s)"
    "exposure_of (pm_view s1) = exposure_of (pm_view s)"
    using arg_cong [OF v, of v_policy] arg_cong [OF v, of v_outstanding] arg_cong [OF v, of exposure_of]
    by (simp_all add: expire_slot_view(1) [OF c] fun_eq_iff exposure_of_def)
  show "release_org_exposure e (p_org p) (p_sum_insured p) t s1 =
           Inr (exposure_released e (p_org p) (p_sum_insured p) t s1)"
    using c by (intro release_org_exposure_eq) (simp_all add: closable_def sel)
  show "pm_view (policy_saved e (p\<lparr>p_status := st\<rparr>)
           (exposure_released e (p_org p) (p_sum_insured p) t s1)) = a_close st p (pm_view s)"
    by (simp add: v sel expire_slot_view(1) [OF c] a_close_def)
qed

lemma expire_policy_Inr:
  assumes ok: "pm_ok (pm_view s)" and call: "expire_policy e i nfts s = Inr (nfts', s')"
  shows "\<exists>p. get (pm_policy s) i = Some p \<and>
     (p_status p = Expired \<and> nfts' = nfts \<and> s' = s \<or>
      (\<exists>skipped. is_open p \<and> p_end_date p < timestamp e \<and>
        pm_view s' = a_close Expired p (pm_view s) \<and>
        closed_nft e p (pm_policy_nft s) nfts nfts' skipped \<and>
        pm_rest s' = (holds (pm_roles s), pm_policy_nft s,
          pm_events s @ skipped @ [pm_event.PolicyExpired i (timestamp e)])))"
proof -
  obtain p where p: "get (pm_policy s) i = Some p"
    and st: "p_status p = Expired \<or> is_open p \<and> p_end_date p < timestamp e"
    using expire_guards [OF call] by blast
  have id: "p_id p = i" using pm_okD(3) [OF ok, of i p] p by simp
  show ?thesis
  proof (cases "p_status p = Expired")
    case True
    then show ?thesis using call p expire_policy_expired [OF p id] by simp
  next
    case False
    with st have op: "is_open p" and late: "p_end_date p < timestamp e" by auto
    have c: "closable (pm_view s) p" using open_closable(1) [OF ok, of i p] p op by simp
    obtain r where r: "(if p_status p = Active then deactivate_policy_nft e i nfts (expire_slot e p s)
           else Inr (nfts, expire_slot e p s)) = Inr r"
      and rest': "(\<lambda>(nfts, s1). bindE (release_org_exposure e (p_org p) (p_sum_insured p) (p_end_date p) s1)
        (\<lambda>s1. bindE (save_policy e (p\<lparr>p_status := Expired\<rparr>) s1) (\<lambda>s1.
          Inr (nfts, pm_publish (pm_event.PolicyExpired i (timestamp e)) (pm_bump_instance e s1))))) r = Inr (nfts', s')"
      using call unfolding expire_policy_eq [OF p id op late c] by (rule bindE_InrE)
    obtain n1 s1 where r1: "r = (n1, s1)" by (cases r)
    have "n1 = nfts'" using rest' by (auto simp: r1 bindE_eq_Inr)
    then have d: "(if p_status p = Active then deactivate_policy_nft e i nfts (expire_slot e p s)
           else Inr (nfts, expire_slot e p s)) = Inr (nfts', s1)"
      and rest: "bindE (release_org_exposure e (p_org p) (p_sum_insured p) (p_end_date p) s1)
        (\<lambda>s1. bindE (save_policy e (p\<lparr>p_status := Expired\<rparr>) s1) (\<lambda>s1.
          Inr (nfts', pm_publish (pm_event.PolicyExpired i (timestamp e)) (pm_bump_instance e s1)))) = Inr (nfts', s')"
      using r rest' r1 by simp_all
    have "\<exists>skipped. closed_nft e p (pm_policy_nft s) nfts nfts' skipped \<and>
        pm_view s1 = pm_view (expire_slot e p s) \<and>
        pm_rest s1 = (holds (pm_roles s), pm_policy_nft s, pm_events s @ skipped)"
    proof (cases "p_status p = Active")
      case True
      with d have "deactivate_policy_nft e i nfts (expire_slot e p s) = Inr (nfts', s1)" by simp
      from deactivate_closed [OF this] show ?thesis
        using True expire_slot_view(2) [OF c, of e] by (auto simp: closed_nft_def id pm_rest_def)
    next
      case False
      with d show ?thesis using expire_slot_view(2) [OF c, of e] by (auto simp: closed_nft_def pm_rest_def)
    qed
    then obtain skipped where sk: "closed_nft e p (pm_policy_nft s) nfts nfts' skipped"
        "pm_view s1 = pm_view (expire_slot e p s)"
        "pm_rest s1 = (holds (pm_roles s), pm_policy_nft s, pm_events s @ skipped)" by blast
    note cv = closed_view [OF c sk(2,3)]
    have s': "s' = pm_publish (pm_event.PolicyExpired i (timestamp e)) (pm_bump_instance e
        (policy_saved e (p\<lparr>p_status := Expired\<rparr>) (exposure_released e (p_org p) (p_sum_insured p) (p_end_date p) s1)))"
      using rest by (simp add: cv(2) save_policy_eq)
    then have "pm_view s' = a_close Expired p (pm_view s)" using cv(1) by simp
    moreover have "pm_rest s' = (holds (pm_roles s), pm_policy_nft s,
          pm_events s @ skipped @ [pm_event.PolicyExpired i (timestamp e)])"
      using sk(3) s' by (simp add: pm_rest_def)
    ultimately show ?thesis using p op late sk(1) by blast
  qed
qed

lemma expire_policy_ok:
  assumes ok: "pm_ok (pm_view s)" and p: "get (pm_policy s) i = Some p"
    and st: "p_status p = Expired \<or> is_open p \<and> p_end_date p < timestamp e"
    and wired: "nft_wired (pm_policy_nft s) nfts"
  shows "\<exists>nfts' s'. expire_policy e i nfts s = Inr (nfts', s')"
proof -
  have id: "p_id p = i" using pm_okD(3) [OF ok, of i p] p by simp
  show ?thesis
  proof (cases "p_status p = Expired")
    case True
    then show ?thesis using expire_policy_expired [OF p id] by simp
  next
    case False
    with st have op: "is_open p" and late: "p_end_date p < timestamp e" by auto
    have c: "closable (pm_view s) p" using open_closable(1) [OF ok, of i p] p op by simp
    have "pm_policy_nft (expire_slot e p s) = pm_policy_nft s" by (simp add: expire_slot_def)
    then obtain n1 s1 where d: "(if p_status p = Active then deactivate_policy_nft e i nfts (expire_slot e p s)
           else Inr (nfts, expire_slot e p s)) = Inr (n1, s1)"
      using deactivate_policy_nft_ok [of "expire_slot e p s" nfts e i] wired
      by (cases "p_status p = Active") auto
    have "\<exists>evs. pm_view s1 = pm_view (expire_slot e p s) \<and> pm_rest s1 = (holds (pm_roles s), pm_policy_nft s, evs)"
    proof (cases "p_status p = Active")
      case True
      with d have "deactivate_policy_nft e i nfts (expire_slot e p s) = Inr (n1, s1)" by simp
      from deactivate_closed [OF this] show ?thesis
        using expire_slot_view(2) [OF c, of e] by (auto simp: pm_rest_def)
    next
      case False
      with d show ?thesis using expire_slot_view(2) [OF c, of e] by (auto simp: pm_rest_def)
    qed
    then obtain evs where "pm_view s1 = pm_view (expire_slot e p s)"
      "pm_rest s1 = (holds (pm_roles s), pm_policy_nft s, evs)" by blast
    from closed_view(2) [OF c this] show ?thesis
      unfolding expire_policy_eq [OF p id op late c] d by (simp add: save_policy_eq)
  qed
qed

subsection \<open>Cancelling\<close>

definition cancel_roles :: "env \<Rightarrow> address \<Rightarrow> roles \<Rightarrow> roles" where
  "cancel_roles e caller r =
     (if holds r Admin caller then used_role e Admin caller r else used_role e Backend caller r)"

lemma cancel_roles_holds [simp]: "holds (cancel_roles e caller r) = holds r"
  by (simp add: cancel_roles_def)

definition cancel_slot :: "env \<Rightarrow> address \<Rightarrow> policy \<Rightarrow> pm_state \<Rightarrow> pm_state" where
  "cancel_slot e caller p s =
     (let s = exposure_released e (p_org p) (p_sum_insured p) (p_end_date p)
                (policy_rented e p (s\<lparr>pm_roles := cancel_roles e caller (pm_roles s)\<rparr>))
      in if p_status p = Active then active_decremented e (p_farmer p) (p_end_date p) s
         else slot_released e (p_id p) (p_farmer p) (p_end_date p) s)"

lemma cancel_policy_eq:
  assumes auth: "authorizes e caller" "holds (pm_roles s) Admin caller \<or> holds (pm_roles s) Backend caller"
    and p: "get (pm_policy s) i = Some p" "p_id p = i" "is_open p"
    and admin: "p_status p = Active \<longrightarrow> holds (pm_roles s) Admin caller"
    and c: "closable (pm_view s) p"
  shows "cancel_policy e caller i nfts s =
    bindE (if p_status p = Active then deactivate_policy_nft e i nfts (cancel_slot e caller p s)
           else Inr (nfts, cancel_slot e caller p s))
      (\<lambda>(nfts, s1). bindE (save_policy e (p\<lparr>p_status := Cancelled\<rparr>) s1) (\<lambda>s1.
          Inr (nfts, pm_publish (PolicyCancelled i (timestamp e)) (pm_bump_instance e s1))))"
proof -
  have load: "load_policy e i (s\<lparr>pm_roles := r\<rparr>) = Inr (p, policy_rented e p (s\<lparr>pm_roles := r\<rparr>))" for r
    using p(1,2) by (intro load_policy_eq) simp_all
  have rel: "release_org_exposure e (p_org p) (p_sum_insured p) (p_end_date p)
        (policy_rented e p (s\<lparr>pm_roles := r\<rparr>)) =
      Inr (exposure_released e (p_org p) (p_sum_insured p) (p_end_date p)
        (policy_rented e p (s\<lparr>pm_roles := r\<rparr>)))" for r
    using c by (intro release_org_exposure_eq) (simp_all add: closable_def)
  have roles: "used_role e Backend caller (used_role e Admin caller (pm_roles s)) = used_role e Backend caller (pm_roles s)"
    if "\<not> holds (pm_roles s) Admin caller"
    using that by (simp add: used_role_def [of e Admin])
  show ?thesis
  proof (cases "holds (pm_roles s) Admin caller")
    case True
    then show ?thesis
      using auth p(3)
      by (auto simp: cancel_policy_def require_auth_def has_role_eq Let_def load rel cancel_slot_def
          cancel_roles_def is_open_def decrement_active_eq release_pending_slot_eq p(2))
  next
    case False
    then have "holds (pm_roles s) Backend caller" "p_status p = Pending"
      using auth(2) admin p(3) by (auto simp: is_open_def)
    then show ?thesis
      using auth(1) False roles
      by (auto simp: cancel_policy_def require_auth_def has_role_eq Let_def load rel cancel_slot_def
          cancel_roles_def is_open_def decrement_active_eq release_pending_slot_eq p(2))
  qed
qed

lemma cancel_slot_view:
  assumes "closable (pm_view s) p"
  shows "(pm_view (cancel_slot e caller p s))\<lparr>v_policy := (get (pm_policy s))(p_id p \<mapsto> p\<lparr>p_status := st\<rparr>)\<rparr> =
           a_close st p (pm_view s)"
    and "pm_rest (cancel_slot e caller p s) = pm_rest s"
    and "get (pm_policy (cancel_slot e caller p s)) = get (pm_policy s)"
proof -
  show "pm_rest (cancel_slot e caller p s) = pm_rest s"
    by (simp add: cancel_slot_def Let_def pm_rest_def)
  show "get (pm_policy (cancel_slot e caller p s)) = get (pm_policy s)"
    by (simp add: cancel_slot_def Let_def)
  from assms have "p_status p = Active \<or> p_status p = Pending" by (auto simp: closable_def)
  then show "(pm_view (cancel_slot e caller p s))\<lparr>v_policy := (get (pm_policy s))(p_id p \<mapsto> p\<lparr>p_status := st\<rparr>)\<rparr> =
           a_close st p (pm_view s)"
  proof
    assume "p_status p = Active"
    with assms show ?thesis
      by (intro pm_view.equality) (simp_all add: cancel_slot_def Let_def closable_def a_close_def)
  next
    assume "p_status p = Pending"
    with assms show ?thesis
      by (intro pm_view.equality) (simp_all add: cancel_slot_def Let_def closable_def a_close_def)
  qed
qed

lemma cancel_guards:
  assumes "cancel_policy e caller i nfts s = Inr r"
  shows "authorizes e caller" and "holds (pm_roles s) Admin caller \<or> holds (pm_roles s) Backend caller"
    and "\<exists>p. get (pm_policy s) i = Some p \<and> is_open p \<and>
           (p_status p = Active \<longrightarrow> holds (pm_roles s) Admin caller)"
  using assms
  by (auto simp: cancel_policy_def has_role_eq bindE_eq_Inr Let_def is_open_def dest!: load_policy_Inr
      split: if_splits)

lemma cancel_policy_Inr:
  assumes ok: "pm_ok (pm_view s)" and call: "cancel_policy e caller i nfts s = Inr (nfts', s')"
  shows "\<exists>p skipped. authorizes e caller \<and> get (pm_policy s) i = Some p \<and> is_open p \<and>
     (holds (pm_roles s) Admin caller \<or> holds (pm_roles s) Backend caller \<and> p_status p = Pending) \<and>
     pm_view s' = a_close Cancelled p (pm_view s) \<and>
     closed_nft e p (pm_policy_nft s) nfts nfts' skipped \<and>
     pm_rest s' = (holds (pm_roles s), pm_policy_nft s, pm_events s @ skipped @ [PolicyCancelled i (timestamp e)])"
proof -
  note g = cancel_guards [OF call]
  obtain p where p: "get (pm_policy s) i = Some p" "is_open p"
      "p_status p = Active \<longrightarrow> holds (pm_roles s) Admin caller" using g(3) by blast
  have c: "closable (pm_view s) p" "p_id p = i" using open_closable(1,2) [OF ok, of i p] p by simp_all
  note view = cancel_slot_view [OF c(1), where e = e and caller = caller]
  obtain r where r: "(if p_status p = Active then deactivate_policy_nft e i nfts (cancel_slot e caller p s)
         else Inr (nfts, cancel_slot e caller p s)) = Inr r"
    and rest: "(\<lambda>(nfts, s1). bindE (save_policy e (p\<lparr>p_status := Cancelled\<rparr>) s1) (\<lambda>s1.
        Inr (nfts, pm_publish (PolicyCancelled i (timestamp e)) (pm_bump_instance e s1)))) r = Inr (nfts', s')"
    using call unfolding cancel_policy_eq [OF g(1,2) p(1) c(2) p(2,3) c(1)] by (rule bindE_InrE)
  obtain n1 s1 where r1: "r = (n1, s1)" by (cases r)
  have n1: "n1 = nfts'" and s': "s' = pm_publish (PolicyCancelled i (timestamp e)) (pm_bump_instance e
      (policy_saved e (p\<lparr>p_status := Cancelled\<rparr>) s1))"
    using rest by (simp_all add: r1 save_policy_eq)
  have "\<exists>skipped. closed_nft e p (pm_policy_nft s) nfts nfts' skipped \<and>
      pm_view s1 = pm_view (cancel_slot e caller p s) \<and>
      pm_rest s1 = (holds (pm_roles s), pm_policy_nft s, pm_events s @ skipped)"
  proof (cases "p_status p = Active")
    case True
    with r r1 n1 have "deactivate_policy_nft e i nfts (cancel_slot e caller p s) = Inr (nfts', s1)" by simp
    from deactivate_closed [OF this] show ?thesis
      using True view(2) by (auto simp: closed_nft_def c(2) pm_rest_def)
  next
    case False
    with r r1 n1 show ?thesis using view(2) by (auto simp: closed_nft_def pm_rest_def)
  qed
  then obtain skipped where sk: "closed_nft e p (pm_policy_nft s) nfts nfts' skipped"
      "pm_view s1 = pm_view (cancel_slot e caller p s)"
      "pm_rest s1 = (holds (pm_roles s), pm_policy_nft s, pm_events s @ skipped)" by blast
  have "get (pm_policy s1) = get (pm_policy s)" using arg_cong [OF sk(2), of v_policy] view(3) by simp
  then have "pm_view s' = a_close Cancelled p (pm_view s)" using view(1) sk(2) by (simp add: s')
  moreover have "pm_rest s' = (holds (pm_roles s), pm_policy_nft s, pm_events s @ skipped @ [PolicyCancelled i (timestamp e)])"
    using sk(3) s' by (simp add: pm_rest_def)
  ultimately show ?thesis using g(1,2) p sk(1) unfolding is_open_def by blast
qed

lemma cancel_policy_ok:
  assumes ok: "pm_ok (pm_view s)" and auth: "authorizes e caller"
    and p: "get (pm_policy s) i = Some p" "is_open p"
    and role: "holds (pm_roles s) Admin caller \<or> holds (pm_roles s) Backend caller \<and> p_status p = Pending"
    and wired: "nft_wired (pm_policy_nft s) nfts"
  shows "\<exists>nfts' s'. cancel_policy e caller i nfts s = Inr (nfts', s')"
proof -
  have c: "closable (pm_view s) p" "p_id p = i" using open_closable(1,2) [OF ok, of i p] p by simp_all
  have r: "holds (pm_roles s) Admin caller \<or> holds (pm_roles s) Backend caller"
    "p_status p = Active \<longrightarrow> holds (pm_roles s) Admin caller" using role by auto
  have "pm_policy_nft (cancel_slot e caller p s) = pm_policy_nft s" by (simp add: cancel_slot_def Let_def)
  then obtain n1 s1 where "(if p_status p = Active then deactivate_policy_nft e i nfts (cancel_slot e caller p s)
         else Inr (nfts, cancel_slot e caller p s)) = Inr (n1, s1)"
    using deactivate_policy_nft_ok [of "cancel_slot e caller p s" nfts e i] wired
    by (cases "p_status p = Active") auto
  then show ?thesis
    unfolding cancel_policy_eq [OF auth r(1) p(1) c(2) p(2) r(2) c(1)] by (simp add: save_policy_eq)
qed

subsection \<open>Activating\<close>

definition activate_core :: "env \<Rightarrow> address \<Rightarrow> policy \<Rightarrow> pm_state \<Rightarrow> pm_state" where
  "activate_core e caller p s =
     (let q = activated (timestamp e) p; t = p_end_date q;
          s = policy_saved e q (policy_rented e p (s\<lparr>pm_roles := used_role e Backend caller (pm_roles s)\<rparr>));
          s = s\<lparr>pm_farmer_active := kept e (p_farmer p) (shared_need e (Some t))
                 (put e (p_farmer p) (active_of (pm_view s) (p_farmer p) + 1) (pm_farmer_active s))\<rparr>;
          s = slot_released e (p_id p) (p_farmer p) t s;
          s = s\<lparr>pm_org_outstanding := kept_if e (p_org p) (shared_need e (Some t)) (pm_org_outstanding s)\<rparr>
      in s\<lparr>pm_farmer_policy_count :=
             kept_if e (p_farmer p) (shared_need e (Some t)) (pm_farmer_policy_count s)\<rparr>)"

definition mint_for ::
  "env \<Rightarrow> address \<Rightarrow> policy \<Rightarrow> address \<Rightarrow> string \<Rightarrow> string \<Rightarrow> nft_state \<Rightarrow> error + nat \<times> nft_state" where
  "mint_for e addr q distributor name region n =
     mint_policy (subcall e addr) (current_contract_address e) (p_farmer q) (p_id q) distributor name
       (p_sum_insured q) (p_premium q) (p_start_date q) (p_end_date q) (p_coverage_type q) region
       (p_plot_id q) n"

lemma activated_fields [simp]:
  "p_id (activated now p) = p_id p" "p_farmer (activated now p) = p_farmer p"
  "p_org (activated now p) = p_org p" "p_sum_insured (activated now p) = p_sum_insured p"
  "p_premium (activated now p) = p_premium p" "p_plot_id (activated now p) = p_plot_id p"
  "p_coverage_type (activated now p) = p_coverage_type p" "p_status (activated now p) = Active"
  "p_start_date (activated now p) = now"
  "p_end_date (activated now p) = now + (p_end_date p - p_start_date p)"
  by (simp_all add: activated_def)

lemma slot_released_more [simp]:
  "pm_farmer_active (slot_released e i a t s) = pm_farmer_active s"
  "pm_farmer_policy_count (slot_released e i a t s) = pm_farmer_policy_count s"
  by (simp_all add: slot_released_def Let_def)

lemma activate_policy_eq:
  assumes auth: "authorizes e caller" "holds (pm_roles s) Backend caller"
    and nft: "pm_policy_nft s = Some addr"
    and p: "get (pm_policy s) i = Some p" "p_id p = i" "p_status p = Pending" "timestamp e \<le> p_end_date p"
    and room: "active_of (pm_view s) (p_farmer p) < MAX_ACTIVE_POLICIES_PER_FARMER"
    and dates: "p_start_date p \<le> p_end_date p" "timestamp e + (p_end_date p - p_start_date p) \<le> u64_max"
  shows "activate_policy e caller i d name region nfts s =
    (case nfts addr of
       None \<Rightarrow> Inl (HostE NoContract)
     | Some n \<Rightarrow> bindE (mint_for e addr (activated (timestamp e) p) d name region n) (\<lambda>(_, n').
         Inr (nfts(addr \<mapsto> n'),
           pm_publish (PolicyActivated i (timestamp e)) (pm_bump_instance e (activate_core e caller p s)))))"
proof -
  have load: "load_policy e i (s\<lparr>pm_roles := r\<rparr>) = Inr (p, policy_rented e p (s\<lparr>pm_roles := r\<rparr>))" for r
    using p(1,2) by (intro load_policy_eq) simp_all
  have arith: "sub_u (p_end_date p) (p_start_date p) = Inr (p_end_date p - p_start_date p)"
    "add_u64 (timestamp e) (p_end_date p - p_start_date p) = Inr (timestamp e + (p_end_date p - p_start_date p))"
    "add_u32 (active_of (pm_view s) (p_farmer p)) 1 = Inr (active_of (pm_view s) (p_farmer p) + 1)"
    using dates room by (simp_all add: MAX_ACTIVE_POLICIES_PER_FARMER_def u32_max_def)
  have q: "p\<lparr>p_status := Active, p_start_date := timestamp e,
      p_end_date := timestamp e + (p_end_date p - p_start_date p)\<rparr> = activated (timestamp e) p"
    by (simp add: activated_def)
  show ?thesis
    using auth nft p(2,3,4) room
    by (simp add: activate_policy_def require_role_eq Let_def load arith q save_policy_eq
        set_farmer_active_count_eq release_pending_slot_eq extend_shared_if_eq activate_core_def
        mint_for_def has_iff del: One_nat_def split: option.split)
qed

lemma activate_core_view:
  assumes "closable (pm_view s) p" and "p_status p = Pending"
  shows "pm_view (activate_core e caller p s) = a_activate (timestamp e) p (pm_view s)"
    and "pm_rest (activate_core e caller p s) = pm_rest s"
proof -
  show "pm_rest (activate_core e caller p s) = pm_rest s"
    by (simp add: activate_core_def Let_def pm_rest_def)
  show "pm_view (activate_core e caller p s) = a_activate (timestamp e) p (pm_view s)"
    using assms
    by (intro pm_view.equality) (simp_all add: activate_core_def Let_def closable_def a_activate_def)
qed

lemma activate_guards:
  assumes "activate_policy e caller i d name region nfts s = Inr r"
  shows "authorizes e caller" and "holds (pm_roles s) Backend caller"
    and "\<exists>addr p. pm_policy_nft s = Some addr \<and> get (pm_policy s) i = Some p \<and> p_status p = Pending \<and>
      timestamp e \<le> p_end_date p \<and> p_start_date p \<le> p_end_date p \<and>
      timestamp e + (p_end_date p - p_start_date p) \<le> u64_max"
  using assms
  by (auto simp: activate_policy_def bindE_eq_Inr Let_def not_less dest!: load_policy_Inr
      split: if_splits option.splits)

lemma pending_leaves_room:
  assumes ok: "pm_ok v" and p: "v_policy v i = Some p" "p_status p = Pending"
  shows "active_of v (p_farmer p) < MAX_ACTIVE_POLICIES_PER_FARMER"
  using open_closable(1) [OF ok p(1)] pm_okD(9) [OF ok, of "p_farmer p"] p(2)
  by (simp add: is_open_def closable_def)

lemma activate_policy_run:
  assumes ok: "pm_ok (pm_view s)" and call: "activate_policy e caller i d name region nfts s = Inr (nfts', s')"
  obtains p addr n n' where "authorizes e caller" and "holds (pm_roles s) Backend caller"
    and "pm_policy_nft s = Some addr" and "nfts addr = Some n" and "nfts' = nfts(addr \<mapsto> n')"
    and "get (pm_policy s) i = Some p" and "p_status p = Pending" and "timestamp e \<le> p_end_date p"
    and "p_end_date (activated (timestamp e) p) \<le> u64_max"
    and "mint_for e addr (activated (timestamp e) p) d name region n = Inr (i, n')"
    and "s' = pm_publish (PolicyActivated i (timestamp e)) (pm_bump_instance e (activate_core e caller p s))"
    and "closable (pm_view s) p"
proof -
  note g = activate_guards [OF call]
  obtain addr p where nft: "pm_policy_nft s = Some addr"
    and p: "get (pm_policy s) i = Some p" "p_status p = Pending" "timestamp e \<le> p_end_date p"
    and dates: "p_start_date p \<le> p_end_date p" "timestamp e + (p_end_date p - p_start_date p) \<le> u64_max"
    using g(3) by blast
  have c: "closable (pm_view s) p" "p_id p = i"
    using open_closable(1,2) [OF ok, of i p] p by (simp_all add: is_open_def)
  have room: "active_of (pm_view s) (p_farmer p) < MAX_ACTIVE_POLICIES_PER_FARMER"
    using pending_leaves_room [OF ok, of i p] p by simp
  note eq = activate_policy_eq [OF g(1,2) nft p(1) c(2) p(2,3) room dates]
  obtain n where n: "nfts addr = Some n" using call unfolding eq by (cases "nfts addr") auto
  obtain t n' where m: "mint_for e addr (activated (timestamp e) p) d name region n = Inr (t, n')"
    and s': "nfts' = nfts(addr \<mapsto> n')"
      "s' = pm_publish (PolicyActivated i (timestamp e)) (pm_bump_instance e (activate_core e caller p s))"
    using call unfolding eq n by (auto simp: bindE_eq_Inr)
  have "t = i" using m mint_policy_effect(6) c(2) unfolding mint_for_def by fastforce
  with that [OF g(1,2) nft n s'(1) p _ _ s'(2) c(1)] m dates(2) show thesis by simp
qed

lemma activate_policy_Inr:
  assumes ok: "pm_ok (pm_view s)" and call: "activate_policy e caller i d name region nfts s = Inr (nfts', s')"
  shows "\<exists>p addr n n'. authorizes e caller \<and> holds (pm_roles s) Backend caller \<and>
     pm_policy_nft s = Some addr \<and> nfts addr = Some n \<and> nfts' = nfts(addr \<mapsto> n') \<and>
     get (pm_policy s) i = Some p \<and> p_status p = Pending \<and> timestamp e \<le> p_end_date p \<and>
     p_end_date (activated (timestamp e) p) \<le> u64_max \<and>
     mint_for e addr (activated (timestamp e) p) d name region n = Inr (i, n') \<and>
     pm_view s' = a_activate (timestamp e) p (pm_view s) \<and>
     pm_rest s' = (holds (pm_roles s), pm_policy_nft s, pm_events s @ [PolicyActivated i (timestamp e)])"
proof (rule activate_policy_run [OF ok call])
  fix p addr n n'
  assume run: "authorizes e caller" "holds (pm_roles s) Backend caller" "pm_policy_nft s = Some addr" "nfts addr = Some n"
    "nfts' = nfts(addr \<mapsto> n')" "get (pm_policy s) i = Some p" "p_status p = Pending" "timestamp e \<le> p_end_date p"
    "p_end_date (activated (timestamp e) p) \<le> u64_max"
    "mint_for e addr (activated (timestamp e) p) d name region n = Inr (i, n')"
    and s': "s' = pm_publish (PolicyActivated i (timestamp e)) (pm_bump_instance e (activate_core e caller p s))"
    and c: "closable (pm_view s) p"
  have "pm_view s' = a_activate (timestamp e) p (pm_view s)"
    using activate_core_view(1) [OF c run(7)] by (simp add: s')
  moreover have "pm_rest s' = (holds (pm_roles s), pm_policy_nft s, pm_events s @ [PolicyActivated i (timestamp e)])"
    using activate_core_view(2) [OF c run(7), of e caller] by (simp add: s' pm_rest_def)
  ultimately show ?thesis using run by blast
qed

lemma activate_policy_ok:
  assumes ok: "pm_ok (pm_view s)" and auth: "authorizes e caller" "holds (pm_roles s) Backend caller"
    and nft: "pm_policy_nft s = Some addr" "nfts addr = Some n"
    and p: "get (pm_policy s) i = Some p" "p_status p = Pending" "timestamp e \<le> p_end_date p"
    and ends: "p_end_date (activated (timestamp e) p) \<le> u64_max"
    and mint: "mint_for e addr (activated (timestamp e) p) d name region n = Inr (t, n')"
  shows "\<exists>nfts' s'. activate_policy e caller i d name region nfts s = Inr (nfts', s')"
proof -
  have c: "p_id p = i" "policy_ok p" using pm_okD(3) [OF ok, of i p] p by simp_all
  have room: "active_of (pm_view s) (p_farmer p) < MAX_ACTIVE_POLICIES_PER_FARMER"
    using pending_leaves_room [OF ok, of i p] p by simp
  show ?thesis
    using activate_policy_eq [OF auth nft(1) p(1) c(1) p(2,3) room policy_ok_dates [OF c(2)]] ends nft(2) mint
    by simp
qed

subsection \<open>Counting a claim and paying rent\<close>

lemma increment_claim_count_ok:
  assumes auth: "authorizes e caller" "holds (pm_roles s) Oracle caller"
    and room: "claims_in_window e farmer s < MAX_CLAIMS_PER_FARMER_PER_YEAR"
  shows "\<exists>s'. increment_claim_count e caller farmer s = Inr s' \<and>
     pm_view s' = a_claim farmer (timestamp e) (pm_view s) \<and>
     pm_rest s' = (holds (pm_roles s), pm_policy_nft s,
       pm_events s @ [ClaimCountIncremented farmer (timestamp e) (claims_in_window e farmer s + 1)])"
proof -
  have add: "add_u32 (claims_in_window e farmer s) 1 = Inr (claims_in_window e farmer s + 1)"
    using room by (simp add: MAX_CLAIMS_PER_FARMER_PER_YEAR_def u32_max_def)
  then show ?thesis
    using auth room
    by (simp add: increment_claim_count_def require_role_eq Let_def add [unfolded claims_in_window_eq]
        claims_in_window_eq a_claim_def del: One_nat_def)
qed

lemma increment_claim_count_needs:
  assumes "increment_claim_count e caller farmer s = Inr s'"
  shows "authorizes e caller" and "holds (pm_roles s) Oracle caller"
    and "claims_in_window e farmer s < MAX_CLAIMS_PER_FARMER_PER_YEAR"
  using assms
  by (auto simp: increment_claim_count_def bindE_eq_Inr Let_def claims_in_window_eq split: if_splits)

lemma extend_if_eq:
  "(if has st k then extend_for_policy e k t st else Inr st) =
     Inr (kept_if e k (ledgers_until e (saturating_add_u64 t POLICY_GRACE_SECS)) st)"
  "(if has cl a then extend_for_secs e a secs cl else Inr cl) =
     Inr (kept_if e a (max (ledgers_until e (saturating_add_u64 (timestamp e) secs)) SHARED_FLOOR_LEDGERS) cl)"
  by (simp_all add: kept_if_def)

text \<open>What the keeper may do to the certificate contracts: at most a rent call at the wired one.\<close>

definition nft_kept :: "nfts \<Rightarrow> nfts \<Rightarrow> bool" where
  "nft_kept nfts nfts' \<longleftrightarrow>
     nfts' = nfts \<or> (\<exists>addr n n'. nfts addr = Some n \<and> nfts' = nfts(addr \<mapsto> n') \<and> same_book n n' \<and>
        nft_policy_manager n' = nft_policy_manager n \<and> nft_roles n' = nft_roles n)"

definition pm_rented :: "env \<Rightarrow> policy \<Rightarrow> pm_state \<Rightarrow> pm_state" where
  "pm_rented e p s =
     (let t = p_end_date p; i = p_id p; a = p_farmer p; org = p_org p;
          n = ledgers_until e (saturating_add_u64 t POLICY_GRACE_SECS);
          shared = shared_need e (Some t);
          claims = max (ledgers_until e (saturating_add_u64 (timestamp e) CLAIM_HISTORY_SECS)) SHARED_FLOOR_LEDGERS
      in pm_bump_instance e (s
        \<lparr>pm_policy := kept e i n (pm_policy (policy_rented e p s)),
         pm_pending_counted := kept_if e i n (pm_pending_counted s),
         pm_farmer_active := kept_if e a shared (pm_farmer_active s),
         pm_farmer_pending := kept_if e a shared (pm_farmer_pending s),
         pm_farmer_policy_count := kept_if e a shared (pm_farmer_policy_count s),
         pm_org_outstanding := kept_if e org shared (pm_org_outstanding s),
         pm_claim_times := kept_if e a claims (pm_claim_times s)\<rparr>))"

lemma policy_rented_upd:
  "policy_rented e p s = s\<lparr>pm_policy := pm_policy (policy_rented e p s)\<rparr>"
  by (simp add: policy_rented_def)

lemma pm_rented_view:
  "pm_view (pm_rented e p s) = pm_view s" "pm_rest (pm_rented e p s) = pm_rest s"
  by (simp_all add: pm_rented_def Let_def)

lemma pm_extend_policy_ttl_eq:
  assumes p: "get (pm_policy s) i = Some p" "p_id p = i"
  shows "pm_extend_policy_ttl e i nfts s = Inr
    (case pm_policy_nft s of None \<Rightarrow> nfts
     | Some addr \<Rightarrow> (case nfts addr of None \<Rightarrow> nfts | Some n \<Rightarrow> nfts(addr \<mapsto> nft_rented (subcall e addr) i n)),
     pm_rented e p s)"
proof -
  define m where "m = pm_policy (policy_rented e p s)"
  have load: "load_policy e i s = Inr (p, s\<lparr>pm_policy := m\<rparr>)"
    using load_policy_eq [OF p] policy_rented_upd [of e p s] by (simp add: m_def)
  have "has m i" using p(1) by (simp add: m_def has_iff)
  then show ?thesis
    by (simp add: pm_extend_policy_ttl_def load Let_def extend_shared_if_eq extend_if_eq
        pm_rented_def p(2) m_def [symmetric] nft_extend_policy_ttl_ok pm_bump_instance_def
        split: option.split)
qed

lemma pm_extend_policy_ttl_Inr:
  assumes ok: "pm_ok (pm_view s)" and call: "pm_extend_policy_ttl e i nfts s = Inr (nfts', s')"
  shows "pm_view s' = pm_view s" and "pm_rest s' = pm_rest s" and "nft_kept nfts nfts'"
proof -
  obtain p where p: "get (pm_policy s) i = Some p"
    using call by (auto simp: pm_extend_policy_ttl_def bindE_eq_Inr dest: load_policy_Inr)
  have id: "p_id p = i" using pm_okD(3) [OF ok, of i p] p by simp
  note eq = call [unfolded pm_extend_policy_ttl_eq [OF p id]]
  then show "pm_view s' = pm_view s" and "pm_rest s' = pm_rest s" by (auto simp: pm_rented_view)
  show "nft_kept nfts nfts'"
  proof (cases "pm_policy_nft s")
    case None
    then show ?thesis using eq by (simp add: nft_kept_def)
  next
    case (Some addr)
    show ?thesis
    proof (cases "nfts addr")
      case None
      then show ?thesis using eq Some by (simp add: nft_kept_def)
    next
      case n: (Some n)
      then have "nfts' = nfts(addr \<mapsto> nft_rented (subcall e addr) i n)" using eq Some by auto
      moreover have "same_book n (nft_rented (subcall e addr) i n)" by (simp add: same_book_def)
      ultimately show ?thesis unfolding nft_kept_def using n by (metis nft_rented_simps(6,7))
    qed
  qed
qed

end
