(* ===== verification/PolicyLife.thy ===== *)
theory PolicyLife
  imports PolicyLedger
begin

text \<open>
  The policy book over time: its step relation (one rule per entry point, interleaved with the
  certificate contracts' own steps), the reachable states with their clock, the invariant in
  every reachable state, the life cycle of a policy and the rolling claim window, and what a closing
  call needs of the certificate contract.
\<close>

section \<open>Steps\<close>

text \<open>
  The state is the certificate contracts together with the book. The label is the environment of
  the invocation.
\<close>

inductive pm_step :: "env \<Rightarrow> nfts \<times> pm_state \<Rightarrow> nfts \<times> pm_state \<Rightarrow> bool" where
  do_create:
    "create_policy e c farmer plot lat lon amount prem days cov org s = Inr (i, s') \<Longrightarrow> pm_step e (n, s) (n, s')"
| do_activate: "activate_policy e c i d name region n s = Inr (n', s') \<Longrightarrow> pm_step e (n, s) (n', s')"
| do_claim: "mark_as_claimed e c i n s = Inr (n', s') \<Longrightarrow> pm_step e (n, s) (n', s')"
| do_count: "increment_claim_count e c farmer s = Inr s' \<Longrightarrow> pm_step e (n, s) (n, s')"
| do_cancel: "cancel_policy e c i n s = Inr (n', s') \<Longrightarrow> pm_step e (n, s) (n', s')"
| do_expire: "expire_policy e i n s = Inr (n', s') \<Longrightarrow> pm_step e (n, s) (n', s')"
| do_rent: "pm_extend_policy_ttl e i n s = Inr (n', s') \<Longrightarrow> pm_step e (n, s) (n', s')"
| do_keep: "pm_extend_contract_ttl e n s = Inr (n', s') \<Longrightarrow> pm_step e (n, s) (n', s')"
| do_read: "pm_get_policy e i s = Inr (p, s') \<Longrightarrow> pm_step e (n, s) (n, s')"
| do_read_org: "policy_org e i s = Inr (a, s') \<Longrightarrow> pm_step e (n, s) (n, s')"
| do_wire: "set_policy_nft e c a s = Inr s' \<Longrightarrow> pm_step e (n, s) (n, s')"
| do_grant: "pm_grant_role e c r who s = Inr s' \<Longrightarrow> pm_step e (n, s) (n, s')"
| do_revoke: "pm_revoke_role e c r who s = Inr s' \<Longrightarrow> pm_step e (n, s) (n, s')"
| do_has_role: "pm_has_role e r who s = Inr (b, s') \<Longrightarrow> pm_step e (n, s) (n, s')"
| do_upgrade: "pm_upgrade e c wasm s = Inr s' \<Longrightarrow> pm_step e (n, s) (n, s')"
| nft_deploys: "n a = None \<Longrightarrow> nft_constructor e admin name symbol = Inr x \<Longrightarrow> pm_step e (n, s) (n(a \<mapsto> x), s)"
| nft_moves: "n a = Some x \<Longrightarrow> nft_step e x x' \<Longrightarrow> pm_step e (n, s) (n(a \<mapsto> x'), s)"

text \<open>
  Time never runs backwards between invocations. The last second of 64-bit time is excluded: in it
  the saturating claim window would forget the claims of the second itself.
\<close>

inductive pm_reachable :: "nat \<Rightarrow> nfts \<times> pm_state \<Rightarrow> bool" where
  pm_start: "pm_constructor e admin = Inr s \<Longrightarrow> pm_reachable (timestamp e) (Map.empty, s)"
| pm_next: "pm_reachable t w \<Longrightarrow> pm_step e w w' \<Longrightarrow> t \<le> timestamp e \<Longrightarrow> timestamp e < u64_max \<Longrightarrow>
     pm_reachable (timestamp e) w'"

text \<open>The claims counted for a farmer, from the log, oldest first.\<close>

definition claim_of :: "address \<Rightarrow> pm_event \<Rightarrow> nat list" where
  "claim_of a ev = (case ev of ClaimCountIncremented b t n \<Rightarrow> if b = a then [t] else [] | _ \<Rightarrow> [])"

definition claim_log :: "address \<Rightarrow> pm_event list \<Rightarrow> nat list" where
  "claim_log a evs = concat (map (claim_of a) evs)"

lemma claim_log_simps [simp]:
  "claim_log a [] = []" "claim_log a (evs @ evs') = claim_log a evs @ claim_log a evs'"
  "claim_log a (ev # evs) = claim_of a ev @ claim_log a evs"
  by (simp_all add: claim_log_def)

lemma claim_of_simps [simp]:
  "claim_of a (ClaimCountIncremented b t n) = (if b = a then [t] else [])"
  "claim_of a (PolicyCreated i f p x y t1 t2 c) = []" "claim_of a (PolicyActivated i t) = []"
  "claim_of a (PolicyClaimed i t) = []" "claim_of a (PolicyCancelled i t) = []"
  "claim_of a (pm_event.PolicyExpired i t) = []" "claim_of a (PolicyNftSet b) = []"
  "claim_of a (PolicyNftUpdateSkipped i) = []"
  by (simp_all add: claim_of_def)

lemma closed_no_claim: "closed_nft e p w n n' evs \<Longrightarrow> claim_log a evs = []"
  "nft_closed e i w n n' evs \<Longrightarrow> claim_log a evs = []"
  by (auto simp: closed_nft_def nft_closed_def split: if_splits)

text \<open>Why a policy may leave the open statuses.\<close>

definition may_close :: "env \<Rightarrow> pm_state \<Rightarrow> policy \<Rightarrow> policy_status \<Rightarrow> bool" where
  "may_close e s p st \<longleftrightarrow>
     st = Claimed \<and> p_status p = Active \<and> timestamp e \<le> p_end_date p \<and>
       (\<exists>c. authorizes e c \<and> holds (pm_roles s) Oracle c) \<or>
     st = Expired \<and> is_open p \<and> p_end_date p < timestamp e \<or>
     st = Cancelled \<and> is_open p \<and>
       (\<exists>c. authorizes e c \<and> (holds (pm_roles s) Admin c \<or> holds (pm_roles s) Backend c \<and> p_status p = Pending))"

lemma may_close_open: "may_close e s p st \<Longrightarrow> is_open p \<and> st \<noteq> Pending \<and> st \<noteq> Active"
  by (auto simp: may_close_def is_open_def)

text \<open>The administrative entry points and reads leave the view and the claim log alone.\<close>

lemma pm_read_same:
  assumes "pm_ok (pm_view s)" and "load_policy e i s = Inr (p, s')"
  shows "pm_view s' = pm_view s" and "pm_rest s' = pm_rest s"
proof -
  have p: "get (pm_policy s) i = Some p" using load_policy_Inr [OF assms(2)] .
  then have "p_id p = i" using pm_okD(3) [OF assms(1), of i p] by simp
  with assms(2) p show "pm_view s' = pm_view s" and "pm_rest s' = pm_rest s"
    by (auto simp: load_policy_eq)
qed

lemma pm_admin_same:
  "set_policy_nft e c a s = Inr s' \<Longrightarrow> pm_view s' = pm_view s \<and> claim_log b (pm_events s') = claim_log b (pm_events s)"
  "pm_grant_role e c r who s = Inr s' \<Longrightarrow> pm_view s' = pm_view s \<and> claim_log b (pm_events s') = claim_log b (pm_events s)"
  "pm_revoke_role e c r who s = Inr s' \<Longrightarrow> pm_view s' = pm_view s \<and> claim_log b (pm_events s') = claim_log b (pm_events s)"
  "pm_has_role e r who s = Inr (x, s') \<Longrightarrow> pm_view s' = pm_view s \<and> claim_log b (pm_events s') = claim_log b (pm_events s)"
  "pm_upgrade e c wasm s = Inr s' \<Longrightarrow> pm_view s' = pm_view s \<and> claim_log b (pm_events s') = claim_log b (pm_events s)"
  by (auto simp: set_policy_nft_def pm_grant_role_def pm_revoke_role_def pm_has_role_def pm_upgrade_def
      has_role_eq bindE_eq_Inr Let_def)

lemma nft_keptI:
  "n addr = Some x \<Longrightarrow> same_book x x' \<Longrightarrow> nft_policy_manager x' = nft_policy_manager x \<Longrightarrow>
     nft_roles x' = nft_roles x \<Longrightarrow> nft_kept n (n(addr \<mapsto> x'))"
  unfolding nft_kept_def by blast

lemma nft_kept_refl: "nft_kept n n"
  by (simp add: nft_kept_def)

lemma pm_keep_same:
  "pm_extend_contract_ttl e n s = Inr (n', s') \<Longrightarrow>
     pm_view s' = pm_view s \<and> pm_rest s' = pm_rest s \<and> nft_kept n n'"
  by (auto simp: pm_extend_contract_ttl_def Let_def nft_kept_refl intro!: nft_keptI simp: same_book_def
      split: option.splits)

lemma pm_step_cases:
  assumes "pm_step e (n, s) (n', s')" and ok: "pm_ok (pm_view s)"
  obtains (Create) farmer plot lat lon amount prem days cov org p c where
      "authorizes e c" and "holds (pm_roles s) Backend c" and "sale_terms lat lon amount prem days cov"
      and "has_room e farmer amount days org (pm_view s)"
      and "p = new_policy e (policy_counter s + 1) farmer plot lat lon amount prem days cov org"
      and "pm_view s' = a_create p (pm_view s)" and "\<And>a. claim_log a (pm_events s') = claim_log a (pm_events s)"
    | (Activate) p c where "authorizes e c" and "holds (pm_roles s) Backend c"
      and "get (pm_policy s) (p_id p) = Some p" and "p_status p = Pending" and "timestamp e \<le> p_end_date p"
      and "p_end_date (activated (timestamp e) p) \<le> u64_max"
      and "pm_view s' = a_activate (timestamp e) p (pm_view s)"
      and "\<And>a. claim_log a (pm_events s') = claim_log a (pm_events s)"
    | (Close) p st where "get (pm_policy s) (p_id p) = Some p" and "may_close e s p st"
      and "pm_view s' = a_close st p (pm_view s)"
      and "\<And>a. claim_log a (pm_events s') = claim_log a (pm_events s)"
    | (Count) farmer c where "authorizes e c" and "holds (pm_roles s) Oracle c"
      and "claims_in_window e farmer s < MAX_CLAIMS_PER_FARMER_PER_YEAR"
      and "pm_view s' = a_claim farmer (timestamp e) (pm_view s)"
      and "\<And>a. claim_log a (pm_events s') = claim_log a (pm_events s) @ (if a = farmer then [timestamp e] else [])"
    | (Same) "pm_view s' = pm_view s" and "\<And>a. claim_log a (pm_events s') = claim_log a (pm_events s)"
  using assms(1)
proof (cases rule: pm_step.cases)
  case (do_create c farmer plot lat lon amount prem days cov org i)
  note needs = create_policy_needs [OF do_create(2)]
  show thesis
    using create_policy_ok [OF needs, of plot] do_create(2) needs
    by (intro Create [of c lat lon amount prem days cov farmer org _ plot]) (auto simp: pm_rest_def)
next
  case (do_activate c i d name region)
  from activate_policy_Inr [OF ok do_activate(1)] obtain p where
    p: "authorizes e c" "holds (pm_roles s) Backend c" "get (pm_policy s) i = Some p" "p_status p = Pending"
      "timestamp e \<le> p_end_date p" "p_end_date (activated (timestamp e) p) \<le> u64_max"
      "pm_view s' = a_activate (timestamp e) p (pm_view s)"
      "pm_rest s' = (holds (pm_roles s), pm_policy_nft s, pm_events s @ [PolicyActivated i (timestamp e)])"
    by blast
  have "p_id p = i" using pm_okD(3) [OF ok, of i p] p(3) by simp
  with p show thesis by (intro Activate [of c p]) (auto simp: pm_rest_def)
next
  case (do_claim c i)
  from mark_as_claimed_Inr [OF ok do_claim(1)] obtain p sk where
    p: "authorizes e c" "holds (pm_roles s) Oracle c" "get (pm_policy s) i = Some p" "p_status p = Active"
      "timestamp e \<le> p_end_date p" "pm_view s' = a_close Claimed p (pm_view s)"
    and sk: "nft_closed e i (pm_policy_nft s) n n' sk"
      "pm_rest s' = (holds (pm_roles s), pm_policy_nft s, pm_events s @ sk @ [PolicyClaimed i (timestamp e)])"
    by blast
  have "p_id p = i" using pm_okD(3) [OF ok, of i p] p(3) by simp
  with p sk show thesis
    by (intro Close [of p Claimed]) (auto simp: pm_rest_def may_close_def closed_no_claim)
next
  case (do_count c farmer)
  note needs = increment_claim_count_needs [OF do_count(2)]
  show thesis
    using increment_claim_count_ok [OF needs] do_count(2) needs
    by (intro Count [of c farmer]) (auto simp: pm_rest_def)
next
  case (do_cancel c i)
  from cancel_policy_Inr [OF ok do_cancel(1)] obtain p sk where
    p: "authorizes e c" "get (pm_policy s) i = Some p" "is_open p"
      "holds (pm_roles s) Admin c \<or> holds (pm_roles s) Backend c \<and> p_status p = Pending"
      "pm_view s' = a_close Cancelled p (pm_view s)"
    and sk: "closed_nft e p (pm_policy_nft s) n n' sk"
      "pm_rest s' = (holds (pm_roles s), pm_policy_nft s, pm_events s @ sk @ [PolicyCancelled i (timestamp e)])"
    by blast
  have "p_id p = i" using pm_okD(3) [OF ok, of i p] p(2) by simp
  with p sk show thesis
    by (intro Close [of p Cancelled]) (auto simp: pm_rest_def may_close_def closed_no_claim)
next
  case (do_expire i)
  from expire_policy_Inr [OF ok do_expire(1)] obtain p where p: "get (pm_policy s) i = Some p"
    and r: "p_status p = Expired \<and> n' = n \<and> s' = s \<or>
      (\<exists>sk. is_open p \<and> p_end_date p < timestamp e \<and> pm_view s' = a_close Expired p (pm_view s) \<and>
        closed_nft e p (pm_policy_nft s) n n' sk \<and>
        pm_rest s' = (holds (pm_roles s), pm_policy_nft s, pm_events s @ sk @ [pm_event.PolicyExpired i (timestamp e)]))"
    by blast
  have id: "p_id p = i" using pm_okD(3) [OF ok, of i p] p by simp
  from r show thesis
  proof
    assume "p_status p = Expired \<and> n' = n \<and> s' = s"
    then show thesis by (intro Same) simp_all
  next
    assume "\<exists>sk. is_open p \<and> p_end_date p < timestamp e \<and> pm_view s' = a_close Expired p (pm_view s) \<and>
        closed_nft e p (pm_policy_nft s) n n' sk \<and>
        pm_rest s' = (holds (pm_roles s), pm_policy_nft s, pm_events s @ sk @ [pm_event.PolicyExpired i (timestamp e)])"
    then show thesis using p id
      by (intro Close [of p Expired]) (auto simp: pm_rest_def may_close_def closed_no_claim)
  qed
next
  case (do_rent i)
  from pm_extend_policy_ttl_Inr [OF ok do_rent(1)] show thesis by (intro Same) (simp_all add: pm_rest_def)
next
  case do_keep
  from pm_keep_same [OF do_keep(1)] show thesis by (intro Same) (simp_all add: pm_rest_def)
next
  case (do_read i p)
  from pm_read_same [OF ok do_read(2) [unfolded pm_get_policy_def]] show thesis
    by (intro Same) (simp_all add: pm_rest_def)
next
  case (do_read_org i a)
  then obtain p where "load_policy e i s = Inr (p, s')" by (auto simp: policy_org_def bindE_eq_Inr)
  from pm_read_same [OF ok this] show thesis by (intro Same) (simp_all add: pm_rest_def)
next
  case (do_wire c a)
  show thesis by (rule Same) (simp_all add: pm_admin_same(1) [OF do_wire(2)])
next
  case (do_grant c r who)
  show thesis by (rule Same) (simp_all add: pm_admin_same(2) [OF do_grant(2)])
next
  case (do_revoke c r who)
  show thesis by (rule Same) (simp_all add: pm_admin_same(3) [OF do_revoke(2)])
next
  case (do_has_role r who b)
  show thesis by (rule Same) (simp_all add: pm_admin_same(4) [OF do_has_role(2)])
next
  case (do_upgrade c wasm)
  show thesis by (rule Same) (simp_all add: pm_admin_same(5) [OF do_upgrade(2)])
qed (auto intro: Same)

section \<open>The invariant over time\<close>

text \<open>The log of a farmer's claims: ordered, in the past, and any four of them span the window.\<close>

definition log_ok :: "nat \<Rightarrow> nat list \<Rightarrow> bool" where
  "log_ok now ts \<longleftrightarrow> sorted ts \<and> (\<forall>t\<in>set ts. t \<le> now) \<and>
     (\<forall>k. k + 3 < length ts \<longrightarrow> ts ! k + CLAIM_WINDOW_SECS \<le> ts ! (k + 3))"

definition clock_ok :: "nat \<Rightarrow> pm_state \<Rightarrow> bool" where
  "clock_ok now s \<longleftrightarrow>
     (\<forall>i p. get (pm_policy s) i = Some p \<longrightarrow> p_created_at p \<le> p_start_date p \<and> p_start_date p \<le> now) \<and>
     (\<forall>a. log_ok now (claim_log a (pm_events s)) \<and>
        claims_of (pm_view s) a = drop (length (claim_log a (pm_events s)) - 3) (claim_log a (pm_events s)))"

lemma log_ok_later: "log_ok t ts \<Longrightarrow> t \<le> now \<Longrightarrow> log_ok now ts"
  by (auto simp: log_ok_def)

lemma log_ok_append:
  assumes ok: "log_ok t ts" and now: "t \<le> now" "now < u64_max"
    and room: "length (filter (recent now) (drop (length ts - 3) ts)) < 3"
  shows "log_ok now (ts @ [now])"
proof -
  have "ts ! (length ts - 3) + CLAIM_WINDOW_SECS \<le> now" if len: "3 \<le> length ts"
  proof -
    let ?last = "drop (length ts - 3) ts"
    have "length ?last = 3" using len by simp
    then have "filter (recent now) ?last \<noteq> ?last" using room by (metis less_irrefl)
    then obtain x where x: "x \<in> set ?last" "\<not> recent now x" by (auto simp: filter_id_conv)
    then obtain j where j: "j < 3" "x = ts ! (length ts - 3 + j)"
      using len by (auto simp: in_set_conv_nth)
    have "ts ! (length ts - 3) \<le> x"
      using ok len j by (auto simp: log_ok_def intro!: sorted_nth_mono)
    moreover have "x + CLAIM_WINDOW_SECS \<le> now"
      using x(2) now(2) by (auto simp: recent_def saturating_add_u64_def min_def split: if_splits)
    ultimately show ?thesis by linarith
  qed
  moreover have "k + 3 < length ts \<Longrightarrow> ts ! k + CLAIM_WINDOW_SECS \<le> ts ! (k + 3)" for k
    using ok by (simp add: log_ok_def)
  ultimately have "k + 3 < length (ts @ [now]) \<Longrightarrow>
      (ts @ [now]) ! k + CLAIM_WINDOW_SECS \<le> (ts @ [now]) ! (k + 3)" for k
    by (cases "k = length ts - 3") (auto simp: nth_append)
  then show ?thesis
    using ok now(1) by (fastforce simp: log_ok_def sorted_append)
qed

lemma last_three: "pop_front_while 3 (drop (length ts - 3) ts @ [t]) = drop (length (ts @ [t]) - 3) (ts @ [t])"
proof (cases "3 \<le> length ts")
  case True
  then have "Suc (length ts - 3) = length ts - 2" by arith
  with True show ?thesis by (simp add: pop_front_while_eq)
next
  case False
  then show ?thesis by (simp add: pop_front_while_eq)
qed

lemma pm_constructor_effect:
  assumes "pm_constructor e admin = Inr s"
  shows "pm_ok (pm_view s)" and "clock_ok now s" and "holds (pm_roles s) r a \<longleftrightarrow> a = admin \<and> (r = Admin \<or> r = Upgrader)"
    and "pm_policy_nft s = None" and "pm_events s = []" and "pm_view s = \<lparr>v_policy = Map.empty, v_counter = 0,
     v_policy_count = Map.empty, v_policy_at = Map.empty,
     v_active = Map.empty, v_pending = Map.empty, v_claims = Map.empty, v_counted = Map.empty,
     v_outstanding = Map.empty\<rparr>"
proof -
  show view: "pm_view s = \<lparr>v_policy = Map.empty, v_counter = 0, v_policy_count = Map.empty, v_policy_at = Map.empty,
     v_active = Map.empty, v_pending = Map.empty, v_claims = Map.empty, v_counted = Map.empty,
     v_outstanding = Map.empty\<rparr>"
    using assms
    by (auto simp: pm_constructor_def pm_deployed_def bindE_eq_Inr Let_def pm_view_def policy_counter_def)
  then show "pm_ok (pm_view s)" by (simp add: pm_ok_empty)
  show ev: "pm_events s = []" and "pm_policy_nft s = None"
    using assms by (auto simp: pm_constructor_def pm_deployed_def bindE_eq_Inr Let_def)
  have "get (pm_policy s) = Map.empty" using arg_cong [OF view, of v_policy] by simp
  then show "clock_ok now s" by (simp add: clock_ok_def ev view log_ok_def claims_of_def)
  show "holds (pm_roles s) r a \<longleftrightarrow> a = admin \<and> (r = Admin \<or> r = Upgrader)"
    using assms
    by (auto simp: pm_constructor_def pm_deployed_def bindE_eq_Inr Let_def holds_def
        dest!: grant_role_Inr split: if_splits)
qed

lemma pm_ok_step:
  assumes "pm_step e (n, s) (n', s')" and ok: "pm_ok (pm_view s)"
  shows "pm_ok (pm_view s')"
  using assms
proof (cases rule: pm_step_cases)
  case (Create farmer plot lat lon amount prem days cov org p c)
  have "policy_ok p" using Create(3,4,5) by (auto simp: policy_ok_def new_policy_def has_room_def)
  then have "pm_ok (a_create p (pm_view s))"
    using ok Create(4,5) by (intro pm_ok_create) (auto simp: new_policy_def has_room_def open_slots_def)
  then show ?thesis by (simp add: Create(6))
next
  case (Activate p c)
  then show ?thesis using pm_ok_activate [OF ok, of "p_id p" p] by simp
next
  case (Close p st)
  then show ?thesis using pm_ok_close [OF ok, of "p_id p" p st] may_close_open [of e s p st] by simp
next
  case (Count farmer c)
  then show ?thesis using pm_ok_claim [OF ok] by simp
qed (use ok in simp)

lemma clock_ok_step:
  assumes step: "pm_step e (n, s) (n', s')" and ok: "pm_ok (pm_view s)" and clock: "clock_ok t s"
    and time: "t \<le> timestamp e" "timestamp e < u64_max"
  shows "clock_ok (timestamp e) s'"
proof -
  let ?now = "timestamp e"
  have dates: "p_created_at p \<le> p_start_date p \<and> p_start_date p \<le> ?now" if "get (pm_policy s) i = Some p" for i p
    using clock time(1) that by (fastforce simp: clock_ok_def)
  have logs: "log_ok ?now (claim_log a (pm_events s))" for a
    using clock time(1) by (auto simp: clock_ok_def intro: log_ok_later)
  have last: "claims_of (pm_view s) a = drop (length (claim_log a (pm_events s)) - 3) (claim_log a (pm_events s))" for a
    using clock by (simp add: clock_ok_def)
  have pol: "get (pm_policy s') = v_policy (pm_view s')" by simp
  from step ok show ?thesis
  proof (cases rule: pm_step_cases)
    case (Create farmer plot lat lon amount prem days cov org p c)
    have "claims_of (pm_view s') a = claims_of (pm_view s) a" for a
      by (simp add: Create(6) a_create_def claims_of_def)
    moreover have "get (pm_policy s') = (get (pm_policy s))(p_id p \<mapsto> p)"
      unfolding pol Create(6) by (simp add: a_create_def)
    moreover have "p_created_at p = ?now" "p_start_date p = ?now" by (simp_all add: Create(5) new_policy_def)
    ultimately show ?thesis using dates logs last Create(7) by (auto simp: clock_ok_def)
  next
    case (Activate p c)
    have "claims_of (pm_view s') a = claims_of (pm_view s) a" for a
      by (simp add: Activate(7) a_activate_def claims_of_def)
    moreover have "get (pm_policy s') = (get (pm_policy s))(p_id p \<mapsto> activated ?now p)"
      unfolding pol Activate(7) by (simp add: a_activate_def)
    moreover have "p_created_at (activated ?now p) = p_created_at p" by (simp add: activated_def)
    moreover have "p_created_at p \<le> ?now" using dates [OF Activate(3)] by simp
    ultimately show ?thesis using dates logs last Activate(8) by (auto simp: clock_ok_def)
  next
    case (Close p st)
    have "claims_of (pm_view s') a = claims_of (pm_view s) a" for a
      by (simp add: Close(3) a_close_def claims_of_def)
    moreover have "get (pm_policy s') = (get (pm_policy s))(p_id p \<mapsto> p\<lparr>p_status := st\<rparr>)"
      unfolding pol Close(3) by (simp add: a_close_def)
    ultimately show ?thesis using dates [OF Close(1)] dates logs last Close(4) by (auto simp: clock_ok_def)
  next
    case (Count farmer c)
    let ?log = "claim_log farmer (pm_events s)"
    have few: "length (filter (recent ?now) (drop (length ?log - 3) ?log)) < 3"
      using Count(3) by (simp add: claims_in_window_eq last MAX_CLAIMS_PER_FARMER_PER_YEAR_def)
    have "log_ok ?now (claim_log a (pm_events s'))" for a
      using log_ok_append [OF logs [of farmer] order_refl time(2) few] logs [of a] by (simp add: Count(5))
    moreover have "claims_of (pm_view s') a =
        (if a = farmer then drop (length (?log @ [?now]) - 3) (?log @ [?now]) else claims_of (pm_view s) a)" for a
      using last_three [of ?log ?now] last [of farmer]
      by (simp add: Count(4) a_claim_def claims_of_def MAX_CLAIMS_PER_FARMER_PER_YEAR_def)
    moreover have "get (pm_policy s') = get (pm_policy s)" unfolding pol Count(4) by (simp add: a_claim_def)
    ultimately show ?thesis using dates last by (auto simp: clock_ok_def Count(5))
  next
    case Same
    moreover have "get (pm_policy s') = get (pm_policy s)" unfolding pol Same(1) by simp
    ultimately show ?thesis using dates logs last by (auto simp: clock_ok_def)
  qed
qed

lemma pm_reachable_ok:
  assumes "pm_reachable t w"
  shows "pm_ok (pm_view (snd w)) \<and> clock_ok t (snd w)"
  using assms
proof (induction rule: pm_reachable.induct)
  case (pm_start e admin s)
  then show ?case using pm_constructor_effect(1,2) by simp
next
  case (pm_next t w e w')
  obtain n s n' s' where w: "w = (n, s)" "w' = (n', s')" by (cases w, cases w')
  then show ?case using pm_next pm_ok_step [of e n s n' s'] clock_ok_step [of e n s n' s' t] by simp
qed

section \<open>Interfaces\<close>

interpretation pm_access: role_gated pm_grant_role pm_revoke_role pm_roles
proof unfold_locales
  fix e c r a and s s' :: pm_state and q b
  show "(\<exists>s'. pm_grant_role e c r a s = Inr s') \<longleftrightarrow> authorizes e c \<and> holds (pm_roles s) Admin c"
    by (auto simp: pm_grant_role_def require_role_eq grant_role_def)
  show "(\<exists>s'. pm_revoke_role e c r a s = Inr s') \<longleftrightarrow> authorizes e c \<and> holds (pm_roles s) Admin c"
    by (auto simp: pm_revoke_role_def require_role_eq)
  show "pm_grant_role e c r a s = Inr s' \<Longrightarrow>
      holds (pm_roles s') q b \<longleftrightarrow> (q = r \<and> b = a) \<or> holds (pm_roles s) q b"
    by (auto simp: pm_grant_role_def bindE_eq_Inr holds_grant)
  show "pm_revoke_role e c r a s = Inr s' \<Longrightarrow>
      holds (pm_roles s') q b \<longleftrightarrow> holds (pm_roles s) q b \<and> \<not> (q = r \<and> b = a)"
    by (auto simp: pm_revoke_role_def bindE_eq_Inr holds_revoke)
qed

lemma farmer_page:
  assumes "pm_ok (pm_view s)"
  shows "get_farmer_policies farmer start limit s =
    Inr (map (\<lambda>i. the (get (pm_farmer_policy_at s) (farmer, i)))
      [start..<min (saturating_add_u32 start (min limit PM_MAX_PAGE_SIZE)) (index_size (pm_view s) farmer)])"
  unfolding get_farmer_policies_def view_index Let_def
  using pm_okD(11) [OF assms, of farmer] by (subst read_page_dense) auto

interpretation pm_pages: paged_index
  "\<lambda>s farmer i. get (pm_farmer_policy_at s) (farmer, i)" "\<lambda>s. index_size (pm_view s)"
  "\<lambda>s farmer start limit. get_farmer_policies farmer start limit s" PM_MAX_PAGE_SIZE "\<lambda>s. pm_ok (pm_view s)"
  by unfold_locales (auto simp: farmer_page PM_MAX_PAGE_SIZE_def dest: pm_okD(10))

lemma pm_listing:
  assumes ok: "pm_ok (pm_view s)"
  shows "set (pm_pages.listing s a) = {i. \<exists>p. get (pm_policy s) i = Some p \<and> p_farmer p = a}"
    and "distinct (pm_pages.listing s a)"
proof -
  let ?item = "\<lambda>j. get (pm_farmer_policy_at s) (a, j)"
  have stored: "\<exists>i. ?item j = Some i" if "j < index_size (pm_view s) a" for j
    using pm_okD(11) [OF ok, of a j] that by simp
  have of_farmer: "\<exists>p. get (pm_policy s) i = Some p \<and> p_farmer p = a" if "?item j = Some i" for i j
    using pm_okD(12) [OF ok, of a j i] that by simp
  show "set (pm_pages.listing s a) = {i. \<exists>p. get (pm_policy s) i = Some p \<and> p_farmer p = a}"
  proof (rule set_eqI, rule iffI)
    fix i
    assume "i \<in> set (pm_pages.listing s a)"
    then obtain j where "?item j = Some i" using stored by (fastforce simp: pm_pages.listing_def)
    then show "i \<in> {i. \<exists>p. get (pm_policy s) i = Some p \<and> p_farmer p = a}" using of_farmer by blast
  next
    fix i
    assume "i \<in> {i. \<exists>p. get (pm_policy s) i = Some p \<and> p_farmer p = a}"
    then obtain p where "get (pm_policy s) i = Some p" "p_farmer p = a" by blast
    then obtain j where j: "?item j = Some i" using pm_okD(13) [OF ok, of i p] by auto
    then have "j < index_size (pm_view s) a" using pm_okD(11) [OF ok, of a j] by simp
    with j show "i \<in> set (pm_pages.listing s a)"
      unfolding pm_pages.listing_def set_map by (intro image_eqI [of i _ j]) simp_all
  qed
  have "inj_on (\<lambda>j. the (?item j)) (set [0..<index_size (pm_view s) a])"
  proof (rule inj_onI)
    fix j k
    assume "j \<in> set [0..<index_size (pm_view s) a]" and "k \<in> set [0..<index_size (pm_view s) a]"
      and eq: "the (?item j) = the (?item k)"
    then obtain i where j: "?item j = Some i" and k: "?item k = Some i" using stored by fastforce
    obtain p where "get (pm_policy s) i = Some p" "p_farmer p = a" using of_farmer [OF j] by blast
    then show "j = k" using pm_okD(13) [OF ok, of i p] j k by auto
  qed
  then show "distinct (pm_pages.listing s a)" by (simp add: pm_pages.listing_def distinct_map)
qed

section \<open>A concrete run\<close>

text \<open>
  PolicyManager 100, administered by 11, with backend 14 and oracle 200 and the certificate
  contract 300; farmer 5 buys policy 1 from organisation 6 for 140 days and it is activated.
\<close>

definition sample_nfts :: nfts where
  "sample_nfts = [Address 300 \<mapsto> sample_nft_ready]"

definition sample_pm_new :: pm_state where
  "sample_pm_new = projr (pm_constructor sample_env (Address 11))"

definition sample_pm_backend :: pm_state where
  "sample_pm_backend = projr (pm_grant_role sample_env (Address 11) Backend (Address 14) sample_pm_new)"

definition sample_pm_oracle :: pm_state where
  "sample_pm_oracle = projr (pm_grant_role sample_env (Address 11) Oracle (Address 200) sample_pm_backend)"

definition sample_pm_ready :: pm_state where
  "sample_pm_ready = projr (set_policy_nft sample_env (Address 11) (Address 300) sample_pm_oracle)"

definition sample_pm_sold :: pm_state where
  "sample_pm_sold = snd (projr (create_policy sample_env (Address 14) (Address 5) 3 9000000 8000000
     5000000000 100000000 140 Drought (Address 6) sample_pm_ready))"

definition sample_policy :: policy where
  "sample_policy = new_policy sample_env 1 (Address 5) 3 9000000 8000000 5000000000 100000000 140 Drought (Address 6)"

lemma sample_pm_new: "pm_constructor sample_env (Address 11) = Inr sample_pm_new"
  by (simp add: sample_pm_new_def pm_constructor_def grant_role_def Let_def)

lemma sample_pm_backend:
  "pm_grant_role sample_env (Address 11) Backend (Address 14) sample_pm_new = Inr sample_pm_backend"
proof -
  have "holds (pm_roles sample_pm_new) Admin (Address 11)"
    by (simp add: pm_constructor_effect(3) [OF sample_pm_new])
  then have "\<exists>s'. pm_grant_role sample_env (Address 11) Backend (Address 14) sample_pm_new = Inr s'"
    using pm_access.grant_law sample_env_simps(2) by blast
  then show ?thesis unfolding sample_pm_backend_def by (metis sum.sel(2))
qed

lemma sample_pm_oracle:
  "pm_grant_role sample_env (Address 11) Oracle (Address 200) sample_pm_backend = Inr sample_pm_oracle"
proof -
  have "holds (pm_roles sample_pm_backend) Admin (Address 11)"
    by (simp add: pm_constructor_effect(3) [OF sample_pm_new] pm_access.grant_effect [OF sample_pm_backend])
  then have "\<exists>s'. pm_grant_role sample_env (Address 11) Oracle (Address 200) sample_pm_backend = Inr s'"
    using pm_access.grant_law sample_env_simps(2) by blast
  then show ?thesis unfolding sample_pm_oracle_def by (metis sum.sel(2))
qed

lemma sample_pm_roles:
  "holds (pm_roles sample_pm_oracle) r a \<longleftrightarrow>
     a = Address 11 \<and> (r = Admin \<or> r = Upgrader) \<or> a = Address 14 \<and> r = Backend \<or> a = Address 200 \<and> r = Oracle"
  using pm_constructor_effect(3) [OF sample_pm_new, of r a] pm_access.grant_effect [OF sample_pm_backend, of r a]
    pm_access.grant_effect [OF sample_pm_oracle, of r a] by blast

lemma set_policy_nft_effect:
  assumes "set_policy_nft e c a s = Inr s'"
  shows "pm_policy_nft s' = Some a" and "holds (pm_roles s') = holds (pm_roles s)"
    and "pm_events s' = pm_events s @ [PolicyNftSet a]"
  using assms by (auto simp: set_policy_nft_def bindE_eq_Inr Let_def)

lemma sample_pm_ready:
  "set_policy_nft sample_env (Address 11) (Address 300) sample_pm_oracle = Inr sample_pm_ready"
proof -
  have "\<exists>s'. set_policy_nft sample_env (Address 11) (Address 300) sample_pm_oracle = Inr s'"
    by (simp add: set_policy_nft_def require_role_eq Let_def sample_pm_roles)
  then show ?thesis unfolding sample_pm_ready_def by (metis sum.sel(2))
qed

lemma sample_pm_ready_roles:
  "holds (pm_roles sample_pm_ready) r a \<longleftrightarrow>
     a = Address 11 \<and> (r = Admin \<or> r = Upgrader) \<or> a = Address 14 \<and> r = Backend \<or> a = Address 200 \<and> r = Oracle"
  by (simp add: set_policy_nft_effect(2) [OF sample_pm_ready] sample_pm_roles)

lemma sample_pm_ready_view: "pm_view sample_pm_ready = pm_view sample_pm_new"
  using pm_admin_same(2) [OF sample_pm_backend] pm_admin_same(2) [OF sample_pm_oracle]
    pm_admin_same(1) [OF sample_pm_ready] by simp

lemma sample_pm_sold:
  "create_policy sample_env (Address 14) (Address 5) 3 9000000 8000000 5000000000 100000000 140 Drought
     (Address 6) sample_pm_ready = Inr (1, sample_pm_sold)"
  "pm_view sample_pm_sold = a_create sample_policy (pm_view sample_pm_new)"
  "pm_rest sample_pm_sold = (holds (pm_roles sample_pm_ready), Some (Address 300), pm_events sample_pm_ready @
     [PolicyCreated 1 (Address 5) 3 5000000000 100000000 1700000000 1712096000 Drought])"
proof -
  have count: "policy_counter sample_pm_ready = 0"
    using arg_cong [OF sample_pm_ready_view, of v_counter] pm_constructor_effect(6) [OF sample_pm_new] by simp
  have "has_room sample_env (Address 5) 5000000000 140 (Address 6) (pm_view sample_pm_ready)"
    by (simp add: sample_pm_ready_view pm_constructor_effect(6) [OF sample_pm_new] has_room_def open_slots_def
        active_of_def pending_of_def claims_of_def index_size_def exposure_of_def pm_constants u64_max_def
        u32_max_def i128_max_def i128_min_def)
  moreover have "sale_terms 9000000 8000000 5000000000 100000000 140 Drought"
    by (simp add: sale_terms_def pm_constants)
  ultimately have "\<exists>s'. create_policy sample_env (Address 14) (Address 5) 3 9000000 8000000 5000000000 100000000 140
        Drought (Address 6) sample_pm_ready = Inr (1, s') \<and>
      pm_view s' = a_create sample_policy (pm_view sample_pm_new) \<and>
      pm_rest s' = (holds (pm_roles sample_pm_ready), Some (Address 300), pm_events sample_pm_ready @
        [PolicyCreated 1 (Address 5) 3 5000000000 100000000 1700000000 1712096000 Drought])"
    using create_policy_ok [of sample_env "Address 14" sample_pm_ready 9000000 8000000 5000000000 100000000 140
        Drought "Address 5" "Address 6" 3]
    by (simp add: sample_pm_ready_roles count sample_policy_def sample_pm_ready_view
        set_policy_nft_effect(1) [OF sample_pm_ready] PM_SECONDS_PER_DAY_def)
  then show "create_policy sample_env (Address 14) (Address 5) 3 9000000 8000000 5000000000 100000000 140 Drought
     (Address 6) sample_pm_ready = Inr (1, sample_pm_sold)"
    and "pm_view sample_pm_sold = a_create sample_policy (pm_view sample_pm_new)"
    and "pm_rest sample_pm_sold = (holds (pm_roles sample_pm_ready), Some (Address 300), pm_events sample_pm_ready @
     [PolicyCreated 1 (Address 5) 3 5000000000 100000000 1700000000 1712096000 Drought])"
    by (auto simp: sample_pm_sold_def)
qed

lemma sample_pm_reachable:
  "pm_reachable 1700000000 (sample_nfts, sample_pm_ready)"
  "pm_reachable 1700000000 (sample_nfts, sample_pm_sold)"
proof -
  have later: "pm_reachable 1700000000 w \<Longrightarrow> pm_step sample_env w w' \<Longrightarrow> pm_reachable 1700000000 w'" for w w'
    using pm_next [of 1700000000 w sample_env w'] by (simp add: u64_max_def)
  obtain x where x: "nft_grant_role sample_env (Address 11) Minter (Address 100) sample_nft_new = Inr x"
      "set_policy_manager sample_env (Address 11) (Address 100) x = Inr sample_nft_ready"
    using sample_nft_ready(1) by blast
  have "pm_reachable 1700000000 (Map.empty, sample_pm_new)"
    using pm_start [OF sample_pm_new] by simp
  then have "pm_reachable 1700000000 ([Address 300 \<mapsto> sample_nft_new], sample_pm_new)"
    by (rule later) (rule nft_deploys [OF _ sample_nft_new], simp)
  then have "pm_reachable 1700000000 ([Address 300 \<mapsto> sample_nft_new, Address 300 \<mapsto> x], sample_pm_new)"
    by (rule later) (rule nft_moves [OF _ nft_step.step_grant [OF x(1)]], simp)
  then have "pm_reachable 1700000000 ([Address 300 \<mapsto> x, Address 300 \<mapsto> sample_nft_ready], sample_pm_new)"
    by (elim later) (simp only: fun_upd_upd, rule nft_moves [where a = "Address 300" and x = x and
        n = "[Address 300 \<mapsto> x]", simplified fun_upd_upd, OF _ nft_step.step_manager [OF x(2)]], simp)
  then have "pm_reachable 1700000000 (sample_nfts, sample_pm_new)" by (simp add: sample_nfts_def)
  then have "pm_reachable 1700000000 (sample_nfts, sample_pm_backend)"
    by (rule later) (rule do_grant [OF sample_pm_backend])
  then have "pm_reachable 1700000000 (sample_nfts, sample_pm_oracle)"
    by (rule later) (rule do_grant [OF sample_pm_oracle])
  then show ready: "pm_reachable 1700000000 (sample_nfts, sample_pm_ready)"
    by (rule later) (rule do_wire [OF sample_pm_ready])
  then show "pm_reachable 1700000000 (sample_nfts, sample_pm_sold)"
    by (rule later) (rule do_create [OF sample_pm_sold(1)])
qed

definition sample_world :: "nfts \<times> pm_state" where
  "sample_world = projr (activate_policy sample_env (Address 14) 1 (Address 6) ''Org'' ''NG'' sample_nfts sample_pm_sold)"

lemma sample_policy_stored: "get (pm_policy sample_pm_sold) 1 = Some sample_policy"
  using arg_cong [OF sample_pm_sold(2), of v_policy]
  by (simp add: a_create_def sample_policy_def new_policy_def)

lemma sample_activated:
  "activate_policy sample_env (Address 14) 1 (Address 6) ''Org'' ''NG'' sample_nfts sample_pm_sold = Inr sample_world"
proof -
  let ?q = "activated (timestamp sample_env) sample_policy"
  have "\<exists>n'. mint_for sample_env (Address 300) ?q (Address 6) ''Org'' ''NG'' sample_nft_ready = Inr (1, n')"
    unfolding mint_for_def sample_env_simps(3)
    using mint_policy_ok [of "subcall sample_env (Address 300)" "Address 100" sample_nft_ready "p_id ?q" "Address 6"]
    by (simp add: sample_nft_ready(2-5) distributor_size_def u32_max_def sample_policy_def new_policy_def
        del: One_nat_def)
  then obtain n' where mint: "mint_for sample_env (Address 300) ?q (Address 6) ''Org'' ''NG'' sample_nft_ready = Inr (1, n')" ..
  have ok: "pm_ok (pm_view sample_pm_sold)" using pm_reachable_ok [OF sample_pm_reachable(2)] by simp
  have "holds (pm_roles sample_pm_sold) Backend (Address 14)" and nft: "pm_policy_nft sample_pm_sold = Some (Address 300)"
    using sample_pm_sold(3) by (simp_all add: pm_rest_def sample_pm_ready_roles)
  then have "\<exists>n'' s'. activate_policy sample_env (Address 14) 1 (Address 6) ''Org'' ''NG'' sample_nfts sample_pm_sold = Inr (n'', s')"
    by (intro activate_policy_ok [OF ok _ _ nft _ sample_policy_stored _ _ _ mint])
       (simp_all add: sample_nfts_def sample_policy_def new_policy_def PM_SECONDS_PER_DAY_def u64_max_def)
  then show ?thesis unfolding sample_world_def by (metis sum.sel(2))
qed

lemma sample_activated_pair:
  "activate_policy sample_env (Address 14) 1 (Address 6) ''Org'' ''NG'' sample_nfts sample_pm_sold =
     Inr (fst sample_world, snd sample_world)"
  using sample_activated by (simp only: prod.collapse)

definition sample_active :: policy where
  "sample_active = activated (timestamp sample_env) sample_policy"

lemma sample_world:
  "pm_reachable 1700000000 sample_world"
  "pm_view (snd sample_world) = a_activate 1700000000 sample_policy (pm_view sample_pm_sold)"
  "get (pm_policy (snd sample_world)) 1 = Some sample_active"
  "pm_rest (snd sample_world) = (holds (pm_roles sample_pm_ready), Some (Address 300),
     pm_events sample_pm_sold @ [PolicyActivated 1 1700000000])"
  "nft_wired (Some (Address 300)) (fst sample_world)"
proof -
  have "pm_step sample_env (sample_nfts, sample_pm_sold) sample_world"
    using do_activate [of sample_env "Address 14" 1 "Address 6" "''Org''" "''NG''" sample_nfts sample_pm_sold
        "fst sample_world" "snd sample_world"] sample_activated by simp
  from pm_next [OF sample_pm_reachable(2) this] show "pm_reachable 1700000000 sample_world"
    by (simp add: u64_max_def)
  have ok: "pm_ok (pm_view sample_pm_sold)" using pm_reachable_ok [OF sample_pm_reachable(2)] by simp
  have call: "activate_policy sample_env (Address 14) 1 (Address 6) ''Org'' ''NG'' sample_nfts sample_pm_sold =
      Inr (fst sample_world, snd sample_world)" using sample_activated by simp
  from activate_policy_Inr [OF ok call] sample_policy_stored
  show view: "pm_view (snd sample_world) = a_activate 1700000000 sample_policy (pm_view sample_pm_sold)"
    and "nft_wired (Some (Address 300)) (fst sample_world)"
    and "pm_rest (snd sample_world) = (holds (pm_roles sample_pm_ready), Some (Address 300),
     pm_events sample_pm_sold @ [PolicyActivated 1 1700000000])"
    using sample_pm_sold(3) by (auto simp: nft_wired_def pm_rest_def)
  show "get (pm_policy (snd sample_world)) 1 = Some sample_active"
    using arg_cong [OF view, of v_policy]
    by (simp add: a_activate_def sample_active_def) (simp add: sample_policy_def new_policy_def)
qed

section \<open>The certificate contract of a closing call\<close>

text \<open>
  Deactivating the certificate is best effort only once the configured contract answers: the call
  that asks it whether the certificate exists is not a \<^verbatim>\<open>try_\<close> call. With an address configured
  where no contract is deployed, an active policy can be neither claimed, cancelled nor expired.
\<close>

lemma certificate_address_kept:
  "bump_policy e p s = Inr s' \<Longrightarrow> pm_policy_nft s' = pm_policy_nft s"
  "load_policy e i s = Inr (q, s') \<Longrightarrow> get (pm_policy s) i = Some q \<and> pm_policy_nft s' = pm_policy_nft s"
  "decrement_active e a k s = Inr s' \<Longrightarrow> pm_policy_nft s' = pm_policy_nft s"
  "release_org_exposure e a amount k s = Inr s' \<Longrightarrow> pm_policy_nft s' = pm_policy_nft s"
  by (auto simp: load_policy_def bump_policy_def decrement_active_def set_farmer_active_count_def
      release_org_exposure_def set_org_outstanding_def Let_def bindE_eq_Inr split: option.splits if_splits policy_status.splits)

lemma certificate_address_saved: "save_policy e p s = Inr s' \<Longrightarrow> pm_policy_nft s' = pm_policy_nft s"
  using certificate_address_kept(1) [of e p] by (auto simp: save_policy_def)

lemma deactivate_undeployed:
  "pm_policy_nft s = Some a \<Longrightarrow> n a = None \<Longrightarrow> deactivate_policy_nft e i n s = Inl (HostE NoContract)"
  by (simp add: deactivate_policy_nft_def)

lemma undeployed_certificate_blocks:
  assumes "get (pm_policy s) i = Some p" and "p_status p = Active"
    and "pm_policy_nft s = Some a" and "n a = None"
  shows "mark_as_claimed e c i n s \<noteq> Inr r" and "cancel_policy e c i n s \<noteq> Inr r"
    and "expire_policy e i n s \<noteq> Inr r"
proof -
  note kept = certificate_address_kept(2-4) certificate_address_saved
  show "mark_as_claimed e c i n s \<noteq> Inr r"
    using assms unfolding mark_as_claimed_def Let_def
    by (auto simp: bindE_eq_Inr deactivate_undeployed split: if_splits dest!: kept)
  show "cancel_policy e c i n s \<noteq> Inr r"
    using assms unfolding cancel_policy_def Let_def
    by (auto simp: bindE_eq_Inr deactivate_undeployed split: if_splits dest!: kept)
  show "expire_policy e i n s \<noteq> Inr r"
    using assms unfolding expire_policy_def Let_def
    by (auto simp: bindE_eq_Inr deactivate_undeployed split: if_splits dest!: kept)
qed

text \<open>An admin reaches such a state by one accepted call, whatever active policy the book holds.\<close>

lemma undeployed_certificate_reachable:
  assumes "pm_reachable t (n, s)" and "get (pm_policy s) i = Some p" and "p_status p = Active" and "n a = None"
    and "authorizes e c" and "holds (pm_roles s) Admin c" and "t \<le> timestamp e" and "timestamp e < u64_max"
  shows "\<exists>s'. set_policy_nft e c a s = Inr s' \<and> pm_reachable (timestamp e) (n, s') \<and>
    (\<forall>e' c' r. mark_as_claimed e' c' i n s' \<noteq> Inr r \<and> cancel_policy e' c' i n s' \<noteq> Inr r \<and> expire_policy e' i n s' \<noteq> Inr r)"
proof -
  obtain s' where call: "set_policy_nft e c a s = Inr s'"
    using assms(5,6) by (auto simp: set_policy_nft_def require_role_eq Let_def)
  have stored: "get (pm_policy s') i = Some p"
    using arg_cong [OF conjunct1 [OF pm_admin_same(1) [OF call]], of v_policy] assms(2) by simp
  have "pm_reachable (timestamp e) (n, s')"
    by (rule pm_next [OF assms(1) do_wire [OF call] assms(7,8)])
  then show ?thesis
    using call undeployed_certificate_blocks [where n = n, OF stored assms(3) set_policy_nft_effect(1) [OF call] assms(4)]
    by blast
qed

section \<open>Properties\<close>

text \<open>C17. In every reachable state a farmer's active and pending counts are exactly the numbers of
  active and of pending policies stored for the farmer, and an organisation's exposure is the total
  sum insured of its open policies; so the two counts together are the number of open policies of
  the farmer, which is at most three.\<close>

theorem counters_are_totals:
  assumes "pm_reachable t (n, s)"
  shows "int (get_farmer_active_count a s) = total (active_weight a) (get (pm_policy s)) \<and>
     int (farmer_pending_count a s) = total (pending_weight a) (get (pm_policy s)) \<and>
     org_outstanding_sum_insured org s = total (exposure_weight org) (get (pm_policy s)) \<and>
     farmer_active_count a s + farmer_pending_count a s =
       card {i. \<exists>p. get (pm_policy s) i = Some p \<and> p_farmer p = a \<and> is_open p} \<and>
     card {i. \<exists>p. get (pm_policy s) i = Some p \<and> p_farmer p = a \<and> is_open p} \<le> MAX_ACTIVE_POLICIES_PER_FARMER"
proof -
  have ok: "pm_ok (pm_view s)" using pm_reachable_ok [OF assms] by simp
  show ?thesis
    using pm_okD(4,5) [OF ok, of a] pm_okD(6) [OF ok, of org] pm_okD(9) [OF ok, of a] open_slots [OF ok, of a]
    by (simp add: get_farmer_active_count_def org_outstanding_sum_insured_def)
qed

theorem counters_are_totals_witness:
  "int (get_farmer_active_count (Address 5) (snd sample_world)) =
     total (active_weight (Address 5)) (get (pm_policy (snd sample_world)))"
  using counters_are_totals [of 1700000000 "fst sample_world" "snd sample_world"] sample_world(1) by simp

text \<open>C23. Refinement: \<open>create_policy\<close> sells exactly on the documented terms (sum insured, premium, 117 to
  365 days, coordinates, drought cover only) to an authorised backend, when the farmer has a free
  slot counting open policies and recent claims; then it adds one pending policy to the book and
  nothing else, and otherwise it fails.\<close>

theorem create_policy_refines:
  "(case create_policy e c farmer plot lat lon amount prem days cov org s of
      Inl _ \<Rightarrow> None | Inr (i, s') \<Rightarrow> Some (i, pm_view s')) =
   (if authorizes e c \<and> holds (pm_roles s) Backend c \<and> sale_terms lat lon amount prem days cov \<and>
       has_room e farmer amount days org (pm_view s)
    then Some (get_total_policies s + 1, a_create
      (new_policy e (get_total_policies s + 1) farmer plot lat lon amount prem days cov org) (pm_view s))
    else None)"
proof (cases "authorizes e c \<and> holds (pm_roles s) Backend c \<and> sale_terms lat lon amount prem days cov \<and>
       has_room e farmer amount days org (pm_view s)")
  case True
  then show ?thesis
    using create_policy_ok [of e c s lat lon amount prem days cov farmer org plot]
    by (auto simp: get_total_policies_def)
next
  case False
  then have "create_policy e c farmer plot lat lon amount prem days cov org s \<noteq> Inr r" for r
    using create_policy_needs [of e c farmer plot lat lon amount prem days cov org s r] by blast
  then show ?thesis
    using False by (cases "create_policy e c farmer plot lat lon amount prem days cov org s") auto
qed

text \<open>C18. Life cycle: whatever call runs, a stored policy stays as it is, or goes from pending to active
  with the same duration counted from now, or from an open status to claimed (by the oracle, in
  time), expired (by anyone, past its end) or cancelled (pending by backend or admin, active by
  admin only). Claimed, expired and cancelled policies never change again, and none is deleted.\<close>

theorem policy_life_cycle:
  assumes "pm_reachable t (n, s)" and "pm_step e (n, s) (n', s')" and "get (pm_policy s) i = Some p"
  shows "\<exists>p'. get (pm_policy s') i = Some p' \<and>
    (p' = p \<or>
     p_status p = Pending \<and> timestamp e \<le> p_end_date p \<and> p' = activated (timestamp e) p \<and>
       (\<exists>c. authorizes e c \<and> holds (pm_roles s) Backend c) \<or>
     (\<exists>st. may_close e s p st \<and> p' = p\<lparr>p_status := st\<rparr>))"
proof -
  have ok: "pm_ok (pm_view s)" using pm_reachable_ok [OF assms(1)] by simp
  have id: "p_id p = i" using pm_okD(3) [OF ok, of i p] assms(3) by simp
  have pol: "get (pm_policy s') = v_policy (pm_view s')" by simp
  from assms(2) ok show ?thesis
  proof (cases rule: pm_step_cases)
    case (Create farmer plot lat lon amount prem days cov org q c)
    have "i \<noteq> p_id q" using pm_okD(1) [OF ok, of i] assms(3) Create(5) by (simp add: new_policy_def)
    then show ?thesis using assms(3) unfolding pol Create(6) by (simp add: a_create_def)
  next
    case (Activate q c)
    show ?thesis
    proof (cases "i = p_id q")
      case True
      then have "q = p" using assms(3) Activate(3) by simp
      then have "get (pm_policy s') i = Some (activated (timestamp e) p)"
        unfolding pol Activate(7) by (simp add: a_activate_def id)
      then show ?thesis using Activate(1,2,4,5) \<open>q = p\<close> by blast
    next
      case False
      then show ?thesis using assms(3) unfolding pol Activate(7) by (simp add: a_activate_def)
    qed
  next
    case (Close q st)
    show ?thesis
    proof (cases "i = p_id q")
      case True
      then have "q = p" using assms(3) Close(1) by simp
      then have "get (pm_policy s') i = Some (p\<lparr>p_status := st\<rparr>)"
        unfolding pol Close(3) by (simp add: a_close_def id)
      then show ?thesis using Close(2) \<open>q = p\<close> by blast
    next
      case False
      then show ?thesis using assms(3) unfolding pol Close(3) by (simp add: a_close_def)
    qed
  next
    case (Count farmer c)
    then show ?thesis using assms(3) unfolding pol Count(4) by (simp add: a_claim_def)
  next
    case Same
    then show ?thesis using assms(3) unfolding pol by simp
  qed
qed

theorem policy_life_cycle_witness:
  "\<exists>p'. get (pm_policy (snd sample_world)) 1 = Some p' \<and> p_id sample_policy = 1"
proof -
  have step: "pm_step sample_env (sample_nfts, sample_pm_sold) (fst sample_world, snd sample_world)"
    by (rule do_activate [OF sample_activated_pair])
  show ?thesis
    using policy_life_cycle [OF sample_pm_reachable(2) step sample_policy_stored]
    by (auto simp: sample_policy_def new_policy_def)
qed

text \<open>C22. Rolling limit: in every reachable state, of the claims ever counted for a farmer at most three
  lie in any window of 365 days, wherever the window ends.\<close>

theorem three_claims_per_window:
  assumes "pm_reachable t (n, s)"
  shows "length (filter (\<lambda>at. at \<le> x \<and> x < at + CLAIM_WINDOW_SECS) (claim_log a (pm_events s))) \<le> 3"
proof -
  let ?ts = "claim_log a (pm_events s)"
  let ?P = "\<lambda>at. at \<le> x \<and> x < at + CLAIM_WINDOW_SECS"
  have log: "log_ok t ?ts" using pm_reachable_ok [OF assms] by (simp add: clock_ok_def)
  let ?S = "{k. k < length ?ts \<and> ?P (?ts ! k)}"
  have "card ?S \<le> 3"
  proof (cases "?S = {}")
    case True
    then show ?thesis by (simp only: card.empty)
  next
    case False
    have "finite ?S" by simp
    define m where "m = Min ?S"
    have m: "m \<in> ?S" using Min_in [OF \<open>finite ?S\<close> False] by (simp add: m_def)
    have "?S \<subseteq> {m..<m + 3}"
    proof
      fix k
      assume k: "k \<in> ?S"
      have "m \<le> k" using Min_le [OF \<open>finite ?S\<close> k] by (simp add: m_def)
      moreover have "k < m + 3"
      proof (rule ccontr)
        assume "\<not> k < m + 3"
        then have "?ts ! (m + 3) \<le> ?ts ! k"
          using log k by (auto simp: log_ok_def intro!: sorted_nth_mono)
        moreover have "?ts ! m + CLAIM_WINDOW_SECS \<le> ?ts ! (m + 3)"
          using log k \<open>\<not> k < m + 3\<close> by (simp add: log_ok_def)
        ultimately show False using m k by simp
      qed
      ultimately show "k \<in> {m..<m + 3}" by simp
    qed
    then show ?thesis using card_mono [of "{m..<m + 3}" ?S] by simp
  qed
  then show ?thesis by (simp add: length_filter_conv_card)
qed

theorem three_claims_per_window_witness:
  "length (filter (\<lambda>at. at \<le> 1700000000 \<and> 1700000000 < at + CLAIM_WINDOW_SECS)
     (claim_log (Address 5) (pm_events (snd sample_world)))) \<le> 3"
  using three_claims_per_window [of 1700000000 "fst sample_world" "snd sample_world"] sample_world(1) by simp

text \<open>The query and the counter agree: an authorised oracle's \<open>increment_claim_count\<close> goes through
  exactly when \<open>can_farmer_claim\<close> says so, and then only the farmer's own claim times change.\<close>

theorem can_farmer_claim_exact:
  "(case increment_claim_count e c farmer s of Inl _ \<Rightarrow> None | Inr s' \<Rightarrow> Some (pm_view s')) =
   (if authorizes e c \<and> holds (pm_roles s) Oracle c \<and> pm_can_farmer_claim e farmer s
    then Some (a_claim farmer (timestamp e) (pm_view s)) else None)"
proof (cases "authorizes e c \<and> holds (pm_roles s) Oracle c \<and> pm_can_farmer_claim e farmer s")
  case True
  then show ?thesis
    using increment_claim_count_ok [of e c s farmer] by (auto simp: pm_can_farmer_claim_def)
next
  case False
  then have "increment_claim_count e c farmer s \<noteq> Inr s'" for s'
    using increment_claim_count_needs [of e c farmer s s'] by (auto simp: pm_can_farmer_claim_def)
  then show ?thesis using False by (cases "increment_claim_count e c farmer s") auto
qed

text \<open>C26. Activation: a successful call makes a pending policy active, keeps its duration, keeps the
  organisation's exposure, and leaves an active certificate with the policy's terms for its farmer
  in the wired certificate contract.\<close>

theorem activation_insures:
  assumes "pm_reachable t (n, s)" and "activate_policy e c i d name region n s = Inr (n', s')"
  shows "\<exists>p q addr x cert. get (pm_policy s) i = Some p \<and> p_status p = Pending \<and>
     get (pm_policy s') i = Some q \<and> p_status q = Active \<and> p_start_date q = timestamp e \<and>
     p_end_date q - p_start_date q = p_end_date p - p_start_date p \<and>
     org_outstanding_sum_insured (p_org p) s' = org_outstanding_sum_insured (p_org p) s \<and>
     pm_policy_nft s = Some addr \<and> n' addr = Some x \<and> get (nft_certificate x) i = Some cert \<and>
     c_is_active cert \<and> c_farmer cert = p_farmer q \<and> c_sum_insured cert = p_sum_insured q \<and>
     c_end_date cert = p_end_date q \<and> get (nft_owner x) i = Some (p_farmer q)"
proof -
  have ok: "pm_ok (pm_view s)" using pm_reachable_ok [OF assms(1)] by simp
  from activate_policy_Inr [OF ok assms(2)] obtain p addr x x' where
    p: "pm_policy_nft s = Some addr" "n' = n(addr \<mapsto> x')" "get (pm_policy s) i = Some p" "p_status p = Pending"
    and mint: "mint_for e addr (activated (timestamp e) p) d name region x = Inr (i, x')"
    and view: "pm_view s' = a_activate (timestamp e) p (pm_view s)"
    by blast
  have id: "p_id p = i" using pm_okD(3) [OF ok, of i p] p(3) by simp
  note m = mint_policy_effect [OF mint [unfolded mint_for_def]]
  have "get (pm_policy s') i = Some (activated (timestamp e) p)"
    using arg_cong [OF view, of v_policy] id by (simp add: a_activate_def)
  moreover have "org_outstanding_sum_insured (p_org p) s' = org_outstanding_sum_insured (p_org p) s"
    using arg_cong [OF view, of "\<lambda>v. exposure_of v (p_org p)"]
    by (simp add: org_outstanding_sum_insured_def a_activate_def exposure_of_def)
  ultimately show ?thesis
    using p id m(7,9)
    by (intro exI [of _ p] exI [of _ "activated (timestamp e) p"] exI [of _ addr] exI [of _ x'])
       (simp add: fresh_certificate_def)
qed

theorem activation_insures_witness:
  "\<exists>q. get (pm_policy (snd sample_world)) 1 = Some q \<and> p_status q = Active \<and> p_start_date q = 1700000000"
proof -
  show ?thesis using activation_insures [OF sample_pm_reachable(2) sample_activated_pair] by auto
qed

text \<open>C35. Claiming is exact: on a reachable book wired to a deployed certificate contract,
  \<open>mark_as_claimed\<close> goes through exactly for an authorised oracle and a policy that
  \<open>is_policy_active\<close> reports, and it closes that policy as claimed: one active slot and the
  policy's exposure are released and nothing else in the book changes.\<close>

theorem mark_as_claimed_exact:
  assumes "pm_reachable t (n, s)" and "nft_wired (pm_policy_nft s) n"
  shows "((\<exists>n' s'. mark_as_claimed e c i n s = Inr (n', s')) \<longleftrightarrow>
            authorizes e c \<and> holds (pm_roles s) Oracle c \<and> is_policy_active e i s) \<and>
         (\<forall>n' s'. mark_as_claimed e c i n s = Inr (n', s') \<longrightarrow>
            pm_view s' = a_close Claimed (the (get (pm_policy s) i)) (pm_view s))"
proof -
  have ok: "pm_ok (pm_view s)" using pm_reachable_ok [OF assms(1)] by simp
  show ?thesis
  proof (intro conjI allI impI iffI)
    assume "\<exists>n' s'. mark_as_claimed e c i n s = Inr (n', s')"
    then obtain r where call: "mark_as_claimed e c i n s = Inr r" by blast
    then show "authorizes e c" "holds (pm_roles s) Oracle c" "is_policy_active e i s"
      using claim_guards [OF call] by (auto simp: is_policy_active_def)
  next
    assume "authorizes e c \<and> holds (pm_roles s) Oracle c \<and> is_policy_active e i s"
    then show "\<exists>n' s'. mark_as_claimed e c i n s = Inr (n', s')"
      using mark_as_claimed_ok [OF ok _ _ _ _ _ assms(2)]
      by (auto simp: is_policy_active_def split: option.splits)
  next
    fix n' s'
    assume "mark_as_claimed e c i n s = Inr (n', s')"
    from mark_as_claimed_Inr [OF ok this]
    show "pm_view s' = a_close Claimed (the (get (pm_policy s) i)) (pm_view s)" by force
  qed
qed

theorem mark_as_claimed_exact_witness:
  "\<exists>n' s'. mark_as_claimed sample_env (Address 200) 1 (fst sample_world) (snd sample_world) = Inr (n', s')"
proof -
  have "holds (pm_roles (snd sample_world)) Oracle (Address 200)" "pm_policy_nft (snd sample_world) = Some (Address 300)"
    using sample_world(4) by (simp_all add: pm_rest_def sample_pm_ready_roles)
  moreover have "is_policy_active sample_env 1 (snd sample_world)"
    by (simp add: is_policy_active_def sample_world(3) del: One_nat_def)
      (simp add: sample_active_def sample_policy_def new_policy_def)
  ultimately show ?thesis
    using mark_as_claimed_exact [of 1700000000 "fst sample_world" "snd sample_world" sample_env "Address 200" 1]
      sample_world(1,5) by (simp del: One_nat_def)
qed

text \<open>C36. Cancelling is exact: on a reachable book wired to a deployed certificate contract,
  \<open>cancel_policy\<close> goes through exactly for an authorised caller and an open policy when the caller
  is an admin, or a backend and the policy is still pending; it releases the policy's slot and
  exposure, whichever of the two open statuses the policy had.\<close>

theorem cancel_policy_exact:
  assumes "pm_reachable t (n, s)" and "nft_wired (pm_policy_nft s) n"
  shows "((\<exists>n' s'. cancel_policy e c i n s = Inr (n', s')) \<longleftrightarrow>
            authorizes e c \<and> (\<exists>p. get (pm_policy s) i = Some p \<and>
              (is_open p \<and> holds (pm_roles s) Admin c \<or> p_status p = Pending \<and> holds (pm_roles s) Backend c))) \<and>
         (\<forall>n' s'. cancel_policy e c i n s = Inr (n', s') \<longrightarrow>
            pm_view s' = a_close Cancelled (the (get (pm_policy s) i)) (pm_view s))"
proof -
  have ok: "pm_ok (pm_view s)" using pm_reachable_ok [OF assms(1)] by simp
  show ?thesis
  proof (intro conjI allI impI iffI)
    assume "\<exists>n' s'. cancel_policy e c i n s = Inr (n', s')"
    then obtain n' s' where call: "cancel_policy e c i n s = Inr (n', s')" by blast
    from cancel_policy_Inr [OF ok call] show "authorizes e c"
      and "\<exists>p. get (pm_policy s) i = Some p \<and>
        (is_open p \<and> holds (pm_roles s) Admin c \<or> p_status p = Pending \<and> holds (pm_roles s) Backend c)"
      by blast+
  next
    assume can: "authorizes e c \<and> (\<exists>p. get (pm_policy s) i = Some p \<and>
        (is_open p \<and> holds (pm_roles s) Admin c \<or> p_status p = Pending \<and> holds (pm_roles s) Backend c))"
    then show "\<exists>n' s'. cancel_policy e c i n s = Inr (n', s')"
      using cancel_policy_ok [OF ok _ _ _ _ assms(2)] by (auto simp: is_open_def)
  next
    fix n' s'
    assume "cancel_policy e c i n s = Inr (n', s')"
    from cancel_policy_Inr [OF ok this]
    show "pm_view s' = a_close Cancelled (the (get (pm_policy s) i)) (pm_view s)" by force
  qed
qed

theorem cancel_policy_exact_witness:
  "\<exists>n' s'. cancel_policy sample_env (Address 11) 1 (fst sample_world) (snd sample_world) = Inr (n', s')"
proof -
  have "holds (pm_roles (snd sample_world)) Admin (Address 11)" "pm_policy_nft (snd sample_world) = Some (Address 300)"
    using sample_world(4) by (simp_all add: pm_rest_def sample_pm_ready_roles)
  moreover have "is_open sample_active" by (simp add: is_open_def sample_active_def)
  ultimately show ?thesis
    using cancel_policy_exact [of 1700000000 "fst sample_world" "snd sample_world" sample_env "Address 11" 1]
      sample_world(1,3,5) by (simp del: One_nat_def)
qed

text \<open>C37. Expiry needs nobody's permission: on a reachable book wired to a deployed certificate contract,
  \<open>expire_policy\<close> goes through for every caller exactly when the policy is open and its cover is
  over, or it has expired already; a second call changes nothing.\<close>

theorem expire_policy_exact:
  assumes "pm_reachable t (n, s)" and "nft_wired (pm_policy_nft s) n"
  shows "((\<exists>n' s'. expire_policy e i n s = Inr (n', s')) \<longleftrightarrow>
            (\<exists>p. get (pm_policy s) i = Some p \<and>
              (p_status p = Expired \<or> is_open p \<and> p_end_date p < timestamp e))) \<and>
         (\<forall>n' s'. expire_policy e i n s = Inr (n', s') \<longrightarrow>
            (\<exists>p. get (pm_policy s') i = Some p \<and> p_status p = Expired) \<and>
            expire_policy e i n' s' = Inr (n', s'))"
proof -
  have ok: "pm_ok (pm_view s)" using pm_reachable_ok [OF assms(1)] by simp
  show ?thesis
  proof (intro conjI allI impI iffI)
    assume "\<exists>n' s'. expire_policy e i n s = Inr (n', s')"
    then show "\<exists>p. get (pm_policy s) i = Some p \<and>
        (p_status p = Expired \<or> is_open p \<and> p_end_date p < timestamp e)" using expire_guards by blast
  next
    assume "\<exists>p. get (pm_policy s) i = Some p \<and> (p_status p = Expired \<or> is_open p \<and> p_end_date p < timestamp e)"
    then show "\<exists>n' s'. expire_policy e i n s = Inr (n', s')" using expire_policy_ok [OF ok _ _ assms(2)] by blast
  next
    fix n' s'
    assume call: "expire_policy e i n s = Inr (n', s')"
    obtain p where p: "get (pm_policy s) i = Some p"
      and r: "p_status p = Expired \<and> n' = n \<and> s' = s \<or> pm_view s' = a_close Expired p (pm_view s)"
      using expire_policy_Inr [OF ok call] by blast
    have id: "p_id p = i" using pm_okD(3) [OF ok, of i p] p by simp
    obtain q where q: "get (pm_policy s') i = Some q" "p_status q = Expired" "p_id q = i"
    proof (cases "p_status p = Expired \<and> n' = n \<and> s' = s")
      case True
      with p id show thesis by (intro that [of p]) simp_all
    next
      case False
      then have view: "pm_view s' = a_close Expired p (pm_view s)" using r by blast
      show thesis using arg_cong [OF view, of v_policy] id
        by (intro that [of "p\<lparr>p_status := Expired\<rparr>"]) (simp_all add: a_close_def)
    qed
    then show "\<exists>p. get (pm_policy s') i = Some p \<and> p_status p = Expired" by blast
    from q show "expire_policy e i n' s' = Inr (n', s')" by (simp add: expire_policy_expired)
  qed
qed

text \<open>An environment after the end of the sample policy's cover.\<close>

definition sample_after :: env where
  "sample_after = sample_env\<lparr>timestamp := 1712096001\<rparr>"

theorem expire_policy_exact_witness:
  "\<exists>n' s'. expire_policy sample_after 1 (fst sample_world) (snd sample_world) = Inr (n', s')"
proof -
  have "pm_policy_nft (snd sample_world) = Some (Address 300)" using sample_world(4) by (simp add: pm_rest_def)
  moreover have "is_open sample_active" "p_end_date sample_active < timestamp sample_after"
    by (simp_all add: is_open_def sample_active_def sample_after_def)
      (simp add: sample_policy_def new_policy_def PM_SECONDS_PER_DAY_def)
  ultimately show ?thesis
    using expire_policy_exact [of 1700000000 "fst sample_world" "snd sample_world" sample_after 1]
      sample_world(1,3,5) by (simp del: One_nat_def)
qed

text \<open>C38. Reading a farmer's policies page by page, from the start with any positive page size, never fails
  and returns the id of every policy of the farmer exactly once.\<close>

theorem farmer_pages_complete:
  assumes "pm_reachable t (n, s)" and "0 < limit"
  shows "let pages = concat (map (\<lambda>k. projr (get_farmer_policies a (k * min limit PM_MAX_PAGE_SIZE) limit s))
             [0..<get_farmer_policy_count a s])
         in distinct pages \<and> set pages = {i. \<exists>p. get (pm_policy s) i = Some p \<and> p_farmer p = a} \<and>
            (\<forall>start. \<exists>ids. get_farmer_policies a start limit s = Inr ids \<and> length ids \<le> PM_MAX_PAGE_SIZE)"
proof -
  have ok: "pm_ok (pm_view s)" using pm_reachable_ok [OF assms(1)] by simp
  show ?thesis
    using pm_pages.pages_complete [OF ok assms(2), of a] pm_listing [OF ok, of a] farmer_page [OF ok]
      pm_pages.page_length [OF ok, of a _ limit]
    by (simp add: get_farmer_policy_count_def view_index Let_def)
qed

theorem farmer_pages_complete_witness:
  "\<exists>ids. get_farmer_policies (Address 5) 0 7 (snd sample_world) = Inr ids"
  using farmer_pages_complete [of 1700000000 "fst sample_world" "snd sample_world" 7 "Address 5"] sample_world(1)
  by (auto simp: Let_def)

text \<open>C25. Stored policies are well formed. Every policy of a reachable book carries its own id and the terms it
  was sold on: sum insured and premium within the limits, a plot on the globe, drought cover of 117
  to 365 whole days that ends inside 64-bit time, and dates in order and not in the future.\<close>

theorem stored_policies_well_formed:
  assumes "pm_reachable t w" and "get (pm_policy (snd w)) i = Some p"
  shows "p_id p = i \<and> 1 \<le> i \<and> i \<le> get_total_policies (snd w) \<and>
     MIN_SUM_INSURED \<le> p_sum_insured p \<and> p_sum_insured p \<le> MAX_SUM_INSURED \<and> 0 < p_premium p \<and>
     \<bar>p_lat_e6 p\<bar> \<le> MAX_LAT_E6 \<and> \<bar>p_lon_e6 p\<bar> \<le> MAX_LON_E6 \<and> p_coverage_type p = Drought \<and>
     (\<exists>days. MIN_DROUGHT_DURATION_DAYS \<le> days \<and> days \<le> MAX_DURATION_DAYS \<and>
        p_end_date p = p_start_date p + days * PM_SECONDS_PER_DAY) \<and>
     p_end_date p \<le> u64_max \<and> p_created_at p \<le> p_start_date p \<and> p_start_date p \<le> t"
proof -
  have ok: "pm_ok (pm_view (snd w))" and clock: "clock_ok t (snd w)" using pm_reachable_ok [OF assms(1)] by simp_all
  have p: "v_policy (pm_view (snd w)) i = Some p" using assms(2) by simp
  have "p_id p = i" "policy_ok p" using pm_okD(3) [OF ok p] by simp_all
  moreover have "1 \<le> i \<and> i \<le> get_total_policies (snd w)"
    using pm_okD(1) [OF ok, of i] p by (simp add: get_total_policies_def)
  moreover have "p_created_at p \<le> p_start_date p \<and> p_start_date p \<le> t"
    using clock assms(2) by (simp add: clock_ok_def)
  ultimately show ?thesis by (auto simp: policy_ok_def sale_terms_def)
qed

theorem stored_policies_well_formed_witness:
  "p_sum_insured sample_active \<le> MAX_SUM_INSURED \<and> p_end_date sample_active \<le> u64_max"
  using stored_policies_well_formed [OF sample_world(1) sample_world(3)] by simp

end
