(* ===== verification/SettlementAdapter.thy ===== *)
theory SettlementAdapter
  imports Roles PagedIndex
begin

text \<open>
  The obligation book of \<^verbatim>\<open>crates/settlement-adapter/src/lib.rs\<close>: its storage (one field per
  variant of \<open>DataKey\<close>), every entry point, its step relation and invariant, and the abstract
  state machine of an obligation (\<open>Owed\<close>, \<open>Funded\<close>, \<open>Settled\<close>) that the marks refine.
\<close>

section \<open>State\<close>

datatype sa_event =
    RoleGranted role address address
  | RoleRevoked role address address
  | PayoutReceiverSet "address option" address
  | ObligationRecorded nat nat address address int bytes32
  | ObligationFunded nat nat address address bytes32
  | ObligationSettled nat nat address address bytes32 int

record sa_state =
  sa_roles :: roles
  sa_payout_receiver :: "address option"
  sa_next_obligation_id :: "nat option"
  sa_obligation :: "(nat, obligation) storage"
  sa_obligation_of :: "(address \<times> nat, nat) storage"
  sa_org_count :: "(address, nat) storage"
  sa_org_at :: "(address \<times> nat, nat) storage"
  sa_instance_live :: nat
  sa_wasm :: "bytes32 option"
  sa_events :: "sa_event list"

definition SA_MAX_PAGE_SIZE :: nat where "SA_MAX_PAGE_SIZE = 50"

definition sa_deployed :: "env \<Rightarrow> sa_state" where
  "sa_deployed e =
     \<lparr>sa_roles = Map.empty, sa_payout_receiver = None, sa_next_obligation_id = None,
      sa_obligation = Map.empty, sa_obligation_of = Map.empty, sa_org_count = Map.empty,
      sa_org_at = Map.empty, sa_instance_live = fresh_live_until e, sa_wasm = None, sa_events = []\<rparr>"

definition sa_publish :: "sa_event \<Rightarrow> sa_state \<Rightarrow> sa_state" where
  "sa_publish ev s = s\<lparr>sa_events := sa_events s @ [ev]\<rparr>"

definition sa_touch :: "env \<Rightarrow> sa_state \<Rightarrow> sa_state" where
  "sa_touch e s = s\<lparr>sa_instance_live := touch_contract e (sa_instance_live s)\<rparr>"

section \<open>Administration\<close>

definition sa_constructor :: "env \<Rightarrow> address \<Rightarrow> error + sa_state" where
  "sa_constructor e admin =
     (let s = sa_deployed e in
      bindE (grant_role e Admin admin (sa_roles s)) (\<lambda>roles.
      bindE (grant_role e Upgrader admin roles) (\<lambda>roles.
      Inr (s\<lparr>sa_roles := roles, sa_next_obligation_id := Some 1\<rparr>))))"

definition set_payout_receiver :: "env \<Rightarrow> address \<Rightarrow> address \<Rightarrow> sa_state \<Rightarrow> error + sa_state" where
  "set_payout_receiver e caller payout_receiver s =
     (let s = sa_touch e s in
      bindE (require_role e caller Admin (sa_roles s)) (\<lambda>roles.
      let s = s\<lparr>sa_roles := roles\<rparr> in
      if payout_receiver = current_contract_address e then Inl (AdapterE InvalidPayoutReceiver)
      else
        let previous = sa_payout_receiver s;
            s = s\<lparr>sa_payout_receiver := Some payout_receiver\<rparr>
        in Inr (sa_publish (PayoutReceiverSet previous payout_receiver) s)))"

definition sa_grant_role :: "env \<Rightarrow> address \<Rightarrow> role \<Rightarrow> address \<Rightarrow> sa_state \<Rightarrow> error + sa_state" where
  "sa_grant_role e caller r who s =
     (let s = sa_touch e s in
      bindE (require_role e caller Admin (sa_roles s)) (\<lambda>roles.
      bindE (grant_role e r who roles) (\<lambda>roles.
      Inr (sa_publish (RoleGranted r who caller) (s\<lparr>sa_roles := roles\<rparr>)))))"

definition sa_revoke_role :: "env \<Rightarrow> address \<Rightarrow> role \<Rightarrow> address \<Rightarrow> sa_state \<Rightarrow> error + sa_state" where
  "sa_revoke_role e caller r who s =
     (let s = sa_touch e s in
      bindE (require_role e caller Admin (sa_roles s)) (\<lambda>roles.
      Inr (sa_publish (RoleRevoked r who caller) (s\<lparr>sa_roles := revoke_role e r who roles\<rparr>))))"

definition sa_has_role :: "env \<Rightarrow> role \<Rightarrow> address \<Rightarrow> sa_state \<Rightarrow> error + bool \<times> sa_state" where
  "sa_has_role e r who s =
     bindE (has_role e r who (sa_roles s)) (\<lambda>(b, roles). Inr (b, s\<lparr>sa_roles := roles\<rparr>))"

definition sa_upgrade :: "env \<Rightarrow> address \<Rightarrow> bytes32 \<Rightarrow> sa_state \<Rightarrow> error + sa_state" where
  "sa_upgrade e caller new_wasm_hash s =
     bindE (require_role e caller Upgrader (sa_roles s)) (\<lambda>roles.
     Inr (s\<lparr>sa_roles := roles, sa_wasm := Some new_wasm_hash\<rparr>))"

section \<open>Private helpers\<close>

definition extend_entries :: "env \<Rightarrow> obligation \<Rightarrow> sa_state \<Rightarrow> error + sa_state" where
  "extend_entries e ob s =
     bindE (extend_pending e (o_id ob) (sa_obligation s)) (\<lambda>m.
     let s = s\<lparr>sa_obligation := m\<rparr> in
     bindE (extend_pending e (o_payout_receiver ob, o_policy_id ob) (sa_obligation_of s)) (\<lambda>m.
     let s = s\<lparr>sa_obligation_of := m\<rparr> in
     bindE (extend_pending e (o_org ob, o_org_index ob) (sa_org_at s)) (\<lambda>m.
     let s = s\<lparr>sa_org_at := m\<rparr> in
     bindE (extend_shared e (o_org ob) None (sa_org_count s)) (\<lambda>m.
     Inr (s\<lparr>sa_org_count := m\<rparr>)))))"

definition load_obligation :: "nat \<Rightarrow> sa_state \<Rightarrow> error + obligation" where
  "load_obligation obligation_id s =
     (case get (sa_obligation s) obligation_id of
        None \<Rightarrow> Inl (AdapterE ObligationNotFound)
      | Some ob \<Rightarrow> Inr ob)"

definition begin_mark ::
  "env \<Rightarrow> address \<Rightarrow> nat \<Rightarrow> bytes32 \<Rightarrow> sa_state \<Rightarrow> error + obligation \<times> sa_state" where
  "begin_mark e caller obligation_id reference_hash s =
     (let s = sa_touch e s in
      bindE (require_auth e caller) (\<lambda>_.
      if reference_hash = 0 then Inl (AdapterE InvalidReference)
      else
        bindE (has_role e Funder caller (sa_roles s)) (\<lambda>(held, roles).
        let s = s\<lparr>sa_roles := roles\<rparr> in
        if \<not> held then Inl (CommonE Unauthorized)
        else bindE (load_obligation obligation_id s) (\<lambda>ob. Inr (ob, s)))))"

section \<open>Obligations\<close>

definition record_obligation ::
  "env \<Rightarrow> address \<Rightarrow> nat \<Rightarrow> address \<Rightarrow> int \<Rightarrow> bytes32 \<Rightarrow> sa_state \<Rightarrow> error + obligation \<times> sa_state" where
  "record_obligation e caller policy_id org amount determination_digest s =
     (let s = sa_touch e s in
      case sa_payout_receiver s of
        None \<Rightarrow> Inl (CommonE NotConfigured)
      | Some pr \<Rightarrow>
        if caller \<noteq> pr then Inl (AdapterE NotPayoutReceiver)
        else bindE (require_auth e caller) (\<lambda>_.
        if amount \<le> 0 then Inl (AdapterE adapter_error.InvalidAmount)
        else
        (case get (sa_obligation_of s) (caller, policy_id) of
          Some existing_id \<Rightarrow>
            bindE (load_obligation existing_id s) (\<lambda>ob.
            if o_org ob = org \<and> o_amount ob = amount \<and> o_determination_digest ob = determination_digest
            then Inr (ob, s)
            else Inl (AdapterE ObligationConflict))
        | None \<Rightarrow>
          (case sa_next_obligation_id s of
            None \<Rightarrow> Inl (CommonE NotInitialized)
          | Some i \<Rightarrow>
            if u64_max < i + 1 then Inl (AdapterE CounterOverflow)
            else
            let s = s\<lparr>sa_next_obligation_id := Some (i + 1)\<rparr>;
                org_index = unwrap_or 0 (get (sa_org_count s) org)
            in
            if u32_max < org_index + 1 then Inl (AdapterE CounterOverflow)
            else
            let ob = \<lparr>o_id = i, o_payout_receiver = caller, o_policy_id = policy_id, o_org = org,
                      o_amount = amount, o_determination_digest = determination_digest,
                      o_status = Owed, o_recorded_at = timestamp e, o_org_index = org_index,
                      o_funded_by = None, o_funded_at = 0, o_funding_reference = None,
                      o_settled_by = None, o_settled_at = 0, o_settlement_reference = None\<rparr>;
                s = s\<lparr>sa_obligation := put e i ob (sa_obligation s)\<rparr>;
                s = s\<lparr>sa_obligation_of := put e (caller, policy_id) i (sa_obligation_of s)\<rparr>;
                s = s\<lparr>sa_org_at := put e (org, org_index) i (sa_org_at s)\<rparr>;
                s = s\<lparr>sa_org_count := put e org (org_index + 1) (sa_org_count s)\<rparr>
            in
            bindE (extend_entries e ob s) (\<lambda>s.
            Inr (ob, sa_publish
              (ObligationRecorded i policy_id org caller amount determination_digest) s))))))"

definition mark_funded ::
  "env \<Rightarrow> address \<Rightarrow> nat \<Rightarrow> bytes32 \<Rightarrow> sa_state \<Rightarrow> error + obligation \<times> sa_state" where
  "mark_funded e caller obligation_id reference_hash s =
     bindE (begin_mark e caller obligation_id reference_hash s) (\<lambda>(ob, s).
     case o_status ob of
       Funded \<Rightarrow>
         if o_funding_reference ob = Some reference_hash then Inr (ob, s)
         else Inl (AdapterE ObligationAlreadyFunded)
     | Settled \<Rightarrow> Inl (AdapterE ObligationAlreadySettled)
     | Owed \<Rightarrow>
         let ob = ob\<lparr>o_status := Funded, o_funded_by := Some caller, o_funded_at := timestamp e,
                     o_funding_reference := Some reference_hash\<rparr>;
             s = s\<lparr>sa_obligation := put e obligation_id ob (sa_obligation s)\<rparr>
         in
         bindE (extend_entries e ob s) (\<lambda>s.
         Inr (ob, sa_publish
           (ObligationFunded obligation_id (o_policy_id ob) (o_org ob) caller reference_hash) s)))"

definition mark_settled ::
  "env \<Rightarrow> address \<Rightarrow> nat \<Rightarrow> bytes32 \<Rightarrow> sa_state \<Rightarrow> error + obligation \<times> sa_state" where
  "mark_settled e caller obligation_id reference_hash s =
     bindE (begin_mark e caller obligation_id reference_hash s) (\<lambda>(ob, s).
     if o_status ob = Settled then
       (if o_settlement_reference ob = Some reference_hash then Inr (ob, s)
        else Inl (AdapterE ObligationAlreadySettled))
     else
       let ob = ob\<lparr>o_status := Settled, o_settled_by := Some caller, o_settled_at := timestamp e,
                   o_settlement_reference := Some reference_hash\<rparr>;
           s = s\<lparr>sa_obligation := put e obligation_id ob (sa_obligation s)\<rparr>
       in
       bindE (extend_entries e ob s) (\<lambda>s.
       Inr (ob, sa_publish
         (ObligationSettled obligation_id (o_policy_id ob) (o_org ob) caller reference_hash
           (o_amount ob)) s)))"

section \<open>Views and keepers\<close>

definition adapter_payout_receiver :: "sa_state \<Rightarrow> address option" where
  "adapter_payout_receiver s = sa_payout_receiver s"

definition get_obligation :: "nat \<Rightarrow> sa_state \<Rightarrow> obligation option" where
  "get_obligation obligation_id s = get (sa_obligation s) obligation_id"

definition find_obligation :: "address \<Rightarrow> nat \<Rightarrow> sa_state \<Rightarrow> nat option" where
  "find_obligation payout_receiver policy_id s = get (sa_obligation_of s) (payout_receiver, policy_id)"

definition obligation_count :: "sa_state \<Rightarrow> error + nat" where
  "obligation_count s = sub_u (unwrap_or 1 (sa_next_obligation_id s)) 1"

definition org_obligation_count :: "address \<Rightarrow> sa_state \<Rightarrow> nat" where
  "org_obligation_count org s = unwrap_or 0 (get (sa_org_count s) org)"

definition get_org_obligations :: "address \<Rightarrow> nat \<Rightarrow> nat \<Rightarrow> sa_state \<Rightarrow> nat list" where
  "get_org_obligations org start limit s =
     (let count = unwrap_or 0 (get (sa_org_count s) org) in
      if count \<le> start then []
      else
        let end = min (saturating_add_u32 start (min limit SA_MAX_PAGE_SIZE)) count
        in collect_page (\<lambda>i. get (sa_org_at s) (org, i)) start end)"

definition extend_obligation_ttl :: "env \<Rightarrow> nat \<Rightarrow> sa_state \<Rightarrow> error + sa_state" where
  "extend_obligation_ttl e obligation_id s =
     (let s = sa_touch e s in
      case get (sa_obligation s) obligation_id of
        None \<Rightarrow> Inr s
      | Some ob \<Rightarrow> if o_status ob \<noteq> Settled then extend_entries e ob s else Inr s)"

definition sa_extend_contract_ttl :: "env \<Rightarrow> sa_state \<Rightarrow> error + sa_state" where
  "sa_extend_contract_ttl e s =
     Inr (s\<lparr>sa_instance_live := keep_contract_alive e (sa_instance_live s)\<rparr>)"

section \<open>Rent leaves the book alone\<close>

definition sa_rented :: "env \<Rightarrow> obligation \<Rightarrow> sa_state \<Rightarrow> sa_state" where
  "sa_rented e ob s =
     (let n = min PENDING_THRESHOLD_LEDGERS (max_ttl e); m = min PENDING_TARGET_LEDGERS (max_ttl e) in
      s\<lparr>sa_obligation := bumped e (o_id ob) n m (sa_obligation s),
        sa_obligation_of := bumped e (o_payout_receiver ob, o_policy_id ob) n m (sa_obligation_of s),
        sa_org_at := bumped e (o_org ob, o_org_index ob) n m (sa_org_at s),
        sa_org_count := kept e (o_org ob) (shared_need e None) (sa_org_count s)\<rparr>)"

lemma extend_entries_present:
  assumes "has (sa_obligation s) (o_id ob)"
    and "has (sa_obligation_of s) (o_payout_receiver ob, o_policy_id ob)"
    and "has (sa_org_at s) (o_org ob, o_org_index ob)" and "has (sa_org_count s) (o_org ob)"
  shows "extend_entries e ob s = Inr (sa_rented e ob s)"
  using assms by (simp add: extend_entries_def sa_rented_def Let_def)

lemma sa_rented_simps [simp]:
  "get (sa_obligation (sa_rented e ob s)) = get (sa_obligation s)"
  "get (sa_obligation_of (sa_rented e ob s)) = get (sa_obligation_of s)"
  "get (sa_org_at (sa_rented e ob s)) = get (sa_org_at s)"
  "get (sa_org_count (sa_rented e ob s)) = get (sa_org_count s)"
  "sa_roles (sa_rented e ob s) = sa_roles s"
  "sa_payout_receiver (sa_rented e ob s) = sa_payout_receiver s"
  "sa_next_obligation_id (sa_rented e ob s) = sa_next_obligation_id s"
  "sa_events (sa_rented e ob s) = sa_events s"
  by (simp_all add: sa_rented_def Let_def)

lemma sa_touch_simps [simp]:
  "sa_obligation (sa_touch e s) = sa_obligation s"
  "sa_obligation_of (sa_touch e s) = sa_obligation_of s"
  "sa_org_at (sa_touch e s) = sa_org_at s"
  "sa_org_count (sa_touch e s) = sa_org_count s"
  "sa_roles (sa_touch e s) = sa_roles s"
  "sa_payout_receiver (sa_touch e s) = sa_payout_receiver s"
  "sa_next_obligation_id (sa_touch e s) = sa_next_obligation_id s"
  "sa_events (sa_touch e s) = sa_events s"
  by (simp_all add: sa_touch_def)

lemma sa_publish_simps [simp]:
  "sa_obligation (sa_publish ev s) = sa_obligation s"
  "sa_obligation_of (sa_publish ev s) = sa_obligation_of s"
  "sa_org_at (sa_publish ev s) = sa_org_at s"
  "sa_org_count (sa_publish ev s) = sa_org_count s"
  "sa_roles (sa_publish ev s) = sa_roles s"
  "sa_payout_receiver (sa_publish ev s) = sa_payout_receiver s"
  "sa_next_obligation_id (sa_publish ev s) = sa_next_obligation_id s"
  "sa_events (sa_publish ev s) = sa_events s @ [ev]"
  by (simp_all add: sa_publish_def)

text \<open>The part of the state the obligations consist of.\<close>

definition same_obligations :: "sa_state \<Rightarrow> sa_state \<Rightarrow> bool" where
  "same_obligations s s' \<longleftrightarrow>
     get (sa_obligation s') = get (sa_obligation s) \<and>
     get (sa_obligation_of s') = get (sa_obligation_of s) \<and>
     get (sa_org_at s') = get (sa_org_at s) \<and>
     get (sa_org_count s') = get (sa_org_count s) \<and>
     sa_next_obligation_id s' = sa_next_obligation_id s"

section \<open>The invariant\<close>

definition org_size :: "sa_state \<Rightarrow> address \<Rightarrow> nat" where
  "org_size s a = unwrap_or 0 (get (sa_org_count s) a)"

text \<open>What the status of an obligation says about its attestations.\<close>

definition obligation_ok :: "obligation \<Rightarrow> bool" where
  "obligation_ok ob \<longleftrightarrow> 0 < o_amount ob \<and>
     (o_status ob = Owed \<longrightarrow> o_funding_reference ob = None) \<and>
     (o_status ob = Funded \<longrightarrow> o_funding_reference ob \<noteq> None) \<and>
     (o_settlement_reference ob \<noteq> None \<longleftrightarrow> o_status ob = Settled) \<and>
     (o_funding_reference ob \<noteq> None \<longleftrightarrow> o_funded_by ob \<noteq> None) \<and>
     (o_settlement_reference ob \<noteq> None \<longleftrightarrow> o_settled_by ob \<noteq> None) \<and>
     o_funding_reference ob \<noteq> Some 0 \<and> o_settlement_reference ob \<noteq> Some 0"

definition sa_inv :: "sa_state \<Rightarrow> bool" where
  "sa_inv s \<longleftrightarrow>
     (\<exists>n\<ge>1. n \<le> u64_max \<and> sa_next_obligation_id s = Some n \<and>
        (\<forall>i. get (sa_obligation s) i \<noteq> None \<longleftrightarrow> 1 \<le> i \<and> i < n)) \<and>
     (\<forall>i ob. get (sa_obligation s) i = Some ob \<longrightarrow>
        o_id ob = i \<and> obligation_ok ob \<and>
        get (sa_obligation_of s) (o_payout_receiver ob, o_policy_id ob) = Some i \<and>
        get (sa_org_at s) (o_org ob, o_org_index ob) = Some i) \<and>
     (\<forall>k i. get (sa_obligation_of s) k = Some i \<longrightarrow>
        (\<exists>ob. get (sa_obligation s) i = Some ob \<and> (o_payout_receiver ob, o_policy_id ob) = k)) \<and>
     (\<forall>k i. get (sa_org_at s) k = Some i \<longrightarrow>
        (\<exists>ob. get (sa_obligation s) i = Some ob \<and> (o_org ob, o_org_index ob) = k)) \<and>
     (\<forall>a. org_size s a \<le> u32_max) \<and>
     (\<forall>a j. get (sa_org_at s) (a, j) \<noteq> None \<longleftrightarrow> j < org_size s a)"

lemma sa_invD:
  assumes "sa_inv s"
  shows "\<exists>n\<ge>1. n \<le> u64_max \<and> sa_next_obligation_id s = Some n \<and>
           (\<forall>i. get (sa_obligation s) i \<noteq> None \<longleftrightarrow> 1 \<le> i \<and> i < n)"
    and "get (sa_obligation s) i = Some ob \<Longrightarrow>
        o_id ob = i \<and> obligation_ok ob \<and>
        get (sa_obligation_of s) (o_payout_receiver ob, o_policy_id ob) = Some i \<and>
        get (sa_org_at s) (o_org ob, o_org_index ob) = Some i"
    and "get (sa_obligation_of s) k = Some i \<Longrightarrow>
        \<exists>ob. get (sa_obligation s) i = Some ob \<and> (o_payout_receiver ob, o_policy_id ob) = k"
    and "get (sa_org_at s) k = Some i \<Longrightarrow>
        \<exists>ob. get (sa_obligation s) i = Some ob \<and> (o_org ob, o_org_index ob) = k"
    and "org_size s a \<le> u32_max"
    and "get (sa_org_at s) (a, j) \<noteq> None \<longleftrightarrow> j < org_size s a"
  using assms unfolding sa_inv_def by blast+

lemma sa_inv_same: "sa_inv s \<Longrightarrow> same_obligations s s' \<Longrightarrow> sa_inv s'"
  by (simp add: sa_inv_def same_obligations_def org_size_def)

text \<open>An obligation in the book has all four of its entries, so its rent call never traps.\<close>

lemma extend_entries_stored:
  assumes "sa_inv s" and "get (sa_obligation s) i = Some ob"
    and "o_id ob' = o_id ob" and "o_payout_receiver ob' = o_payout_receiver ob"
    and "o_policy_id ob' = o_policy_id ob" and "o_org ob' = o_org ob"
    and "o_org_index ob' = o_org_index ob"
    and same: "has (sa_obligation s') = has (sa_obligation s)"
      "sa_obligation_of s' = sa_obligation_of s" "sa_org_at s' = sa_org_at s" "sa_org_count s' = sa_org_count s"
  shows "extend_entries e ob' s' = Inr (sa_rented e ob' s')"
proof -
  note inv = sa_invD(2) [OF assms(1,2)]
  have "has (sa_org_count s) (o_org ob)"
    using sa_invD(6) [OF assms(1), of "o_org ob" "o_org_index ob"] inv
    by (cases "get (sa_org_count s) (o_org ob)") (auto simp: org_size_def has_iff)
  moreover have "has (sa_obligation s) (o_id ob)"
    and "has (sa_obligation_of s) (o_payout_receiver ob, o_policy_id ob)"
    and "has (sa_org_at s) (o_org ob, o_org_index ob)"
    using inv assms(2) by (simp_all add: has_iff)
  ultimately show ?thesis
    by (intro extend_entries_present) (simp_all add: assms(3-7) same)
qed

section \<open>What recording does\<close>

definition fresh_obligation ::
  "env \<Rightarrow> nat \<Rightarrow> address \<Rightarrow> nat \<Rightarrow> address \<Rightarrow> int \<Rightarrow> bytes32 \<Rightarrow> nat \<Rightarrow> obligation" where
  "fresh_obligation e i pr pid org amount digest idx =
     \<lparr>o_id = i, o_payout_receiver = pr, o_policy_id = pid, o_org = org, o_amount = amount,
      o_determination_digest = digest, o_status = Owed, o_recorded_at = timestamp e,
      o_org_index = idx, o_funded_by = None, o_funded_at = 0, o_funding_reference = None,
      o_settled_by = None, o_settled_at = 0, o_settlement_reference = None\<rparr>"

text \<open>The state after a new obligation was written.\<close>

definition sa_recorded :: "env \<Rightarrow> obligation \<Rightarrow> sa_state \<Rightarrow> sa_state" where
  "sa_recorded e ob s =
     sa_publish (ObligationRecorded (o_id ob) (o_policy_id ob) (o_org ob) (o_payout_receiver ob)
         (o_amount ob) (o_determination_digest ob))
       (sa_rented e ob
         (s\<lparr>sa_next_obligation_id := Some (o_id ob + 1),
            sa_obligation := put e (o_id ob) ob (sa_obligation s),
            sa_obligation_of := put e (o_payout_receiver ob, o_policy_id ob) (o_id ob) (sa_obligation_of s),
            sa_org_at := put e (o_org ob, o_org_index ob) (o_id ob) (sa_org_at s),
            sa_org_count := put e (o_org ob) (o_org_index ob + 1) (sa_org_count s)\<rparr>))"

lemma record_obligation_fresh:
  assumes "sa_payout_receiver s = Some caller" and "authorizes e caller" and "0 < amount"
    and "get (sa_obligation_of s) (caller, pid) = None" and "sa_next_obligation_id s = Some i"
    and "i < u64_max" and "org_size s org < u32_max"
  shows "record_obligation e caller pid org amount digest s =
    (let ob = fresh_obligation e i caller pid org amount digest (org_size s org)
     in Inr (ob, sa_recorded e ob (sa_touch e s)))"
  using assms
  by (simp add: record_obligation_def Let_def org_size_def fresh_obligation_def require_auth_def
      extend_entries_present sa_recorded_def)

lemma record_obligation_Inr:
  assumes "record_obligation e caller pid org amount digest s = Inr (ob, s')"
  shows "sa_payout_receiver s = Some caller \<and> authorizes e caller \<and> 0 < amount"
    and "(\<exists>i. get (sa_obligation_of s) (caller, pid) = Some i \<and> get (sa_obligation s) i = Some ob \<and>
            o_org ob = org \<and> o_amount ob = amount \<and> o_determination_digest ob = digest \<and>
            s' = sa_touch e s) \<or>
         (\<exists>i. get (sa_obligation_of s) (caller, pid) = None \<and> sa_next_obligation_id s = Some i \<and>
            i < u64_max \<and> org_size s org < u32_max \<and>
            ob = fresh_obligation e i caller pid org amount digest (org_size s org) \<and>
            s' = sa_recorded e ob (sa_touch e s))"
proof -
  show pre: "sa_payout_receiver s = Some caller \<and> authorizes e caller \<and> 0 < amount"
    using assms by (auto simp: record_obligation_def Let_def bindE_eq_Inr split: option.splits if_splits)
  show "(\<exists>i. get (sa_obligation_of s) (caller, pid) = Some i \<and> get (sa_obligation s) i = Some ob \<and>
            o_org ob = org \<and> o_amount ob = amount \<and> o_determination_digest ob = digest \<and>
            s' = sa_touch e s) \<or>
         (\<exists>i. get (sa_obligation_of s) (caller, pid) = None \<and> sa_next_obligation_id s = Some i \<and>
            i < u64_max \<and> org_size s org < u32_max \<and>
            ob = fresh_obligation e i caller pid org amount digest (org_size s org) \<and>
            s' = sa_recorded e ob (sa_touch e s))"
  proof (cases "get (sa_obligation_of s) (caller, pid)")
    case (Some i)
    with assms pre show ?thesis
      by (auto simp: record_obligation_def Let_def bindE_eq_Inr load_obligation_def
          split: option.splits if_splits)
  next
    case None
    obtain i where i: "sa_next_obligation_id s = Some i" "i < u64_max" "org_size s org < u32_max"
      using assms pre None
      by (auto simp: record_obligation_def Let_def org_size_def split: option.splits if_splits)
    then show ?thesis
      using assms pre None record_obligation_fresh [of s caller e amount pid i org digest]
      by (auto simp: Let_def)
  qed
qed

lemma sa_recorded_simps [simp]:
  "get (sa_obligation (sa_recorded e ob s)) = (get (sa_obligation s))(o_id ob \<mapsto> ob)"
  "get (sa_obligation_of (sa_recorded e ob s)) =
     (get (sa_obligation_of s))((o_payout_receiver ob, o_policy_id ob) \<mapsto> o_id ob)"
  "get (sa_org_at (sa_recorded e ob s)) = (get (sa_org_at s))((o_org ob, o_org_index ob) \<mapsto> o_id ob)"
  "get (sa_org_count (sa_recorded e ob s)) = (get (sa_org_count s))(o_org ob \<mapsto> o_org_index ob + 1)"
  "sa_next_obligation_id (sa_recorded e ob s) = Some (o_id ob + 1)"
  "sa_roles (sa_recorded e ob s) = sa_roles s"
  "sa_payout_receiver (sa_recorded e ob s) = sa_payout_receiver s"
  by (simp_all add: sa_recorded_def)

lemma sa_events_recorded:
  "sa_events (sa_recorded e ob s) = sa_events s @
     [ObligationRecorded (o_id ob) (o_policy_id ob) (o_org ob) (o_payout_receiver ob) (o_amount ob) (o_determination_digest ob)]"
  by (simp add: sa_recorded_def)

lemma fresh_obligation_simps [simp]:
  "o_id (fresh_obligation e i pr pid org amount digest idx) = i"
  "o_payout_receiver (fresh_obligation e i pr pid org amount digest idx) = pr"
  "o_policy_id (fresh_obligation e i pr pid org amount digest idx) = pid"
  "o_org (fresh_obligation e i pr pid org amount digest idx) = org"
  "o_amount (fresh_obligation e i pr pid org amount digest idx) = amount"
  "o_determination_digest (fresh_obligation e i pr pid org amount digest idx) = digest"
  "o_org_index (fresh_obligation e i pr pid org amount digest idx) = idx"
  "o_status (fresh_obligation e i pr pid org amount digest idx) = Owed"
  "0 < amount \<Longrightarrow> obligation_ok (fresh_obligation e i pr pid org amount digest idx)"
  by (simp_all add: fresh_obligation_def obligation_ok_def)

lemma sa_inv_recorded:
  assumes inv: "sa_inv s" and new: "get (sa_obligation_of s) (pr, pid) = None"
    and next_id: "sa_next_obligation_id s = Some i" and room: "i < u64_max" "org_size s org < u32_max"
    and pos: "0 < amount"
  shows "sa_inv (sa_recorded e (fresh_obligation e' i pr pid org amount digest (org_size s org)) s)"
proof -
  define ob where "ob = fresh_obligation e' i pr pid org amount digest (org_size s org)"
  note old = sa_invD [OF inv]
  have ids: "get (sa_obligation s) j \<noteq> None \<longleftrightarrow> 1 \<le> j \<and> j < i" and "1 \<le> i" for j
    using old(1) next_id by auto
  have free: "get (sa_obligation s) i = None" using ids [of i] by simp
  have slot: "get (sa_org_at s) (org, org_size s org) = None" using old(6) [of org "org_size s org"] by simp
  have ob: "o_id ob = i" "o_payout_receiver ob = pr" "o_policy_id ob = pid" "o_org ob = org"
    "o_org_index ob = org_size s org" "obligation_ok ob" using pos by (simp_all add: ob_def)
  let ?s = "sa_recorded e ob s"
  have size: "org_size ?s a = (if a = org then org_size s org + 1 else org_size s a)" for a
    by (simp add: org_size_def ob(4,5))
  have "sa_inv ?s"
    unfolding sa_inv_def
  proof (intro conjI)
    show "\<exists>n\<ge>1. n \<le> u64_max \<and> sa_next_obligation_id ?s = Some n \<and>
        (\<forall>j. get (sa_obligation ?s) j \<noteq> None \<longleftrightarrow> 1 \<le> j \<and> j < n)"
      using ids \<open>1 \<le> i\<close> room(1) by (intro exI [of _ "i + 1"]) (auto simp: ob(1) less_Suc_eq)
    show "\<forall>j x. get (sa_obligation ?s) j = Some x \<longrightarrow> o_id x = j \<and> obligation_ok x \<and>
        get (sa_obligation_of ?s) (o_payout_receiver x, o_policy_id x) = Some j \<and>
        get (sa_org_at ?s) (o_org x, o_org_index x) = Some j"
    proof (intro allI impI)
      fix j x
      assume x: "get (sa_obligation ?s) j = Some x"
      show "o_id x = j \<and> obligation_ok x \<and>
          get (sa_obligation_of ?s) (o_payout_receiver x, o_policy_id x) = Some j \<and>
          get (sa_org_at ?s) (o_org x, o_org_index x) = Some j"
      proof (cases "j = i")
        case True
        then show ?thesis using x ob by simp
      next
        case False
        then have "get (sa_obligation s) j = Some x" using x ob(1) by simp
        note stored = old(2) [OF this]
        then have "(o_payout_receiver x, o_policy_id x) \<noteq> (pr, pid)"
          and "(o_org x, o_org_index x) \<noteq> (org, org_size s org)" using new slot by auto
        with stored show ?thesis by (auto simp: ob)
      qed
    qed
    show "\<forall>k j. get (sa_obligation_of ?s) k = Some j \<longrightarrow>
        (\<exists>x. get (sa_obligation ?s) j = Some x \<and> (o_payout_receiver x, o_policy_id x) = k)"
    proof (intro allI impI)
      fix k j
      assume k: "get (sa_obligation_of ?s) k = Some j"
      show "\<exists>x. get (sa_obligation ?s) j = Some x \<and> (o_payout_receiver x, o_policy_id x) = k"
      proof (cases "k = (pr, pid)")
        case True
        then show ?thesis using k ob by simp
      next
        case False
        then have "get (sa_obligation_of s) k = Some j" using k ob by (simp split: if_splits)
        then obtain x where "get (sa_obligation s) j = Some x" and "(o_payout_receiver x, o_policy_id x) = k" using old(3) by blast
        moreover from this(1) have "j \<noteq> i" using free by auto
        ultimately show ?thesis using ob(1) by simp
      qed
    qed
    show "\<forall>k j. get (sa_org_at ?s) k = Some j \<longrightarrow>
        (\<exists>x. get (sa_obligation ?s) j = Some x \<and> (o_org x, o_org_index x) = k)"
    proof (intro allI impI)
      fix k j
      assume k: "get (sa_org_at ?s) k = Some j"
      show "\<exists>x. get (sa_obligation ?s) j = Some x \<and> (o_org x, o_org_index x) = k"
      proof (cases "k = (org, org_size s org)")
        case True
        then show ?thesis using k ob by simp
      next
        case False
        then have "get (sa_org_at s) k = Some j" using k ob by (simp split: if_splits)
        then obtain x where "get (sa_obligation s) j = Some x" and "(o_org x, o_org_index x) = k" using old(4) by blast
        moreover from this(1) have "j \<noteq> i" using free by auto
        ultimately show ?thesis using ob(1) by simp
      qed
    qed
    show "\<forall>a. org_size ?s a \<le> u32_max" using old(5) room(2) by (simp add: size)
    show "\<forall>a j. get (sa_org_at ?s) (a, j) \<noteq> None \<longleftrightarrow> j < org_size ?s a"
      using old(6) by (auto simp: size ob less_Suc_eq)
  qed
  then show ?thesis by (simp add: ob_def)
qed

section \<open>The life of one obligation\<close>

text \<open>
  The abstract specification: an attestation acts on one obligation, either refusing it or
  returning the obligation it becomes. The entry points of the contract implement exactly these
  two functions on the book (\<open>mark_funded_spec\<close>, \<open>mark_settled_spec\<close>).
\<close>

definition attest_funded :: "address \<Rightarrow> nat \<Rightarrow> bytes32 \<Rightarrow> obligation \<Rightarrow> adapter_error + obligation" where
  "attest_funded who now ref ob =
     (if o_funding_reference ob = Some ref \<and> o_status ob = Funded then Inr ob
      else if Settled \<le> o_status ob then Inl ObligationAlreadySettled
      else if Funded \<le> o_status ob then Inl ObligationAlreadyFunded
      else Inr (ob\<lparr>o_status := Funded, o_funded_by := Some who, o_funded_at := now,
                  o_funding_reference := Some ref\<rparr>))"

definition attest_settled :: "address \<Rightarrow> nat \<Rightarrow> bytes32 \<Rightarrow> obligation \<Rightarrow> adapter_error + obligation" where
  "attest_settled who now ref ob =
     (if o_settlement_reference ob = Some ref \<and> o_status ob = Settled then Inr ob
      else if Settled \<le> o_status ob then Inl ObligationAlreadySettled
      else Inr (ob\<lparr>o_status := Settled, o_settled_by := Some who, o_settled_at := now,
                  o_settlement_reference := Some ref\<rparr>))"

text \<open>The guards the two marks share, in the order the code has them.\<close>

definition mark_guard :: "env \<Rightarrow> address \<Rightarrow> nat \<Rightarrow> bytes32 \<Rightarrow> sa_state \<Rightarrow> error + obligation" where
  "mark_guard e caller i r s =
     (if \<not> authorizes e caller then Inl (HostE AuthFailed)
      else if r = 0 then Inl (AdapterE InvalidReference)
      else if \<not> holds (sa_roles s) Funder caller then Inl (CommonE Unauthorized)
      else case get (sa_obligation s) i of
             None \<Rightarrow> Inl (AdapterE ObligationNotFound) | Some ob \<Rightarrow> Inr ob)"

definition sa_checked :: "env \<Rightarrow> address \<Rightarrow> sa_state \<Rightarrow> sa_state" where
  "sa_checked e caller s =
     (sa_touch e s)\<lparr>sa_roles := used_role e Funder caller (sa_roles s)\<rparr>"

lemma begin_mark_eq:
  "begin_mark e caller i r s = bindE (mark_guard e caller i r s) (\<lambda>ob. Inr (ob, sa_checked e caller s))"
  by (simp add: begin_mark_def mark_guard_def require_auth_def has_role_eq load_obligation_def
      sa_checked_def Let_def split: option.split)

lemma sa_checked_simps [simp]:
  "sa_obligation (sa_checked e caller s) = sa_obligation s"
  "sa_obligation_of (sa_checked e caller s) = sa_obligation_of s"
  "sa_org_at (sa_checked e caller s) = sa_org_at s"
  "sa_org_count (sa_checked e caller s) = sa_org_count s"
  "holds (sa_roles (sa_checked e caller s)) = holds (sa_roles s)"
  "sa_payout_receiver (sa_checked e caller s) = sa_payout_receiver s"
  "sa_next_obligation_id (sa_checked e caller s) = sa_next_obligation_id s"
  "sa_events (sa_checked e caller s) = sa_events s"
  by (simp_all add: sa_checked_def)

lemma mark_guard_Inr:
  "mark_guard e caller i r s = Inr ob \<longleftrightarrow>
     authorizes e caller \<and> r \<noteq> 0 \<and> holds (sa_roles s) Funder caller \<and> get (sa_obligation s) i = Some ob"
  by (auto simp: mark_guard_def split: option.split)

text \<open>The state after an obligation moved forward.\<close>

definition sa_marked :: "env \<Rightarrow> obligation \<Rightarrow> sa_event \<Rightarrow> sa_state \<Rightarrow> sa_state" where
  "sa_marked e ob ev s =
     sa_publish ev (sa_rented e ob (s\<lparr>sa_obligation := put e (o_id ob) ob (sa_obligation s)\<rparr>))"

lemma sa_marked_simps [simp]:
  "get (sa_obligation (sa_marked e ob ev s)) = (get (sa_obligation s))(o_id ob \<mapsto> ob)"
  "get (sa_obligation_of (sa_marked e ob ev s)) = get (sa_obligation_of s)"
  "get (sa_org_at (sa_marked e ob ev s)) = get (sa_org_at s)"
  "get (sa_org_count (sa_marked e ob ev s)) = get (sa_org_count s)"
  "sa_next_obligation_id (sa_marked e ob ev s) = sa_next_obligation_id s"
  "sa_roles (sa_marked e ob ev s) = sa_roles s"
  "sa_payout_receiver (sa_marked e ob ev s) = sa_payout_receiver s"
  "sa_events (sa_marked e ob ev s) = sa_events s @ [ev]"
  by (simp_all add: sa_marked_def)

lemma mark_entries:
  assumes "sa_inv s" and "get (sa_obligation s) i = Some ob" and "o_id ob' = i"
    and "o_payout_receiver ob' = o_payout_receiver ob" and "o_policy_id ob' = o_policy_id ob"
    and "o_org ob' = o_org ob" and "o_org_index ob' = o_org_index ob"
  shows "extend_entries e ob' (sa_checked e caller s\<lparr>sa_obligation := put e i ob' (sa_obligation s)\<rparr>) =
    Inr (sa_rented e ob' (sa_checked e caller s\<lparr>sa_obligation := put e i ob' (sa_obligation s)\<rparr>))"
proof -
  have "has (put e i ob' (sa_obligation s)) = has (sa_obligation s)"
    using get_SomeD [OF assms(2)] by (auto simp: fun_eq_iff)
  then show ?thesis
    using assms sa_invD(2) [OF assms(1,2)]
    by (intro extend_entries_stored [OF assms(1,2)]) simp_all
qed

lemma mark_funded_eq:
  assumes "sa_inv s"
  shows "mark_funded e caller i r s =
    bindE (mark_guard e caller i r s) (\<lambda>ob.
      case attest_funded caller (timestamp e) r ob of
        Inl err \<Rightarrow> Inl (AdapterE err)
      | Inr ob' \<Rightarrow> Inr (ob', if ob' = ob then sa_checked e caller s
          else sa_marked e ob' (ObligationFunded i (o_policy_id ob) (o_org ob) caller r) (sa_checked e caller s)))"
proof (cases "mark_guard e caller i r s")
  case (Inr ob)
  then have stored: "get (sa_obligation s) i = Some ob" and "o_id ob = i"
    using sa_invD(2) [OF assms] by (auto simp: mark_guard_Inr)
  let ?ob = "ob\<lparr>o_status := Funded, o_funded_by := Some caller, o_funded_at := timestamp e,
      o_funding_reference := Some r\<rparr>"
  have "?ob \<noteq> ob" if "o_status ob = Owed"
  proof
    assume "?ob = ob"
    then have "o_status ?ob = o_status ob" by (rule arg_cong)
    with that show False by simp
  qed
  then show ?thesis
    using Inr \<open>o_id ob = i\<close> mark_entries [OF assms stored, of ?ob e caller]
    by (cases "o_status ob")
      (simp_all add: mark_funded_def begin_mark_eq attest_funded_def sa_marked_def Let_def)
qed (simp add: mark_funded_def begin_mark_eq)

lemma mark_settled_eq:
  assumes "sa_inv s"
  shows "mark_settled e caller i r s =
    bindE (mark_guard e caller i r s) (\<lambda>ob.
      case attest_settled caller (timestamp e) r ob of
        Inl err \<Rightarrow> Inl (AdapterE err)
      | Inr ob' \<Rightarrow> Inr (ob', if ob' = ob then sa_checked e caller s
          else sa_marked e ob' (ObligationSettled i (o_policy_id ob) (o_org ob) caller r (o_amount ob))
                 (sa_checked e caller s)))"
proof (cases "mark_guard e caller i r s")
  case (Inr ob)
  then have stored: "get (sa_obligation s) i = Some ob" and "o_id ob = i"
    using sa_invD(2) [OF assms] by (auto simp: mark_guard_Inr)
  let ?ob = "ob\<lparr>o_status := Settled, o_settled_by := Some caller, o_settled_at := timestamp e,
      o_settlement_reference := Some r\<rparr>"
  have "?ob \<noteq> ob" if "o_status ob \<noteq> Settled"
  proof
    assume "?ob = ob"
    then have "o_status ?ob = o_status ob" by (rule arg_cong)
    with that show False by simp
  qed
  then show ?thesis
    using Inr \<open>o_id ob = i\<close> mark_entries [OF assms stored, of ?ob e caller]
    by (cases "o_status ob")
      (simp_all add: mark_settled_def begin_mark_eq attest_settled_def sa_marked_def Let_def)
qed (simp add: mark_settled_def begin_mark_eq)

section \<open>Attestations\<close>

text \<open>What an attestation may change: it moves the status up and fills in its own fields.\<close>

definition advances :: "obligation \<Rightarrow> obligation \<Rightarrow> bool" where
  "advances ob ob' \<longleftrightarrow>
     o_id ob' = o_id ob \<and> o_payout_receiver ob' = o_payout_receiver ob \<and>
     o_policy_id ob' = o_policy_id ob \<and> o_org ob' = o_org ob \<and> o_amount ob' = o_amount ob \<and>
     o_determination_digest ob' = o_determination_digest ob \<and>
     o_recorded_at ob' = o_recorded_at ob \<and> o_org_index ob' = o_org_index ob \<and>
     o_status ob \<le> o_status ob' \<and>
     (o_funding_reference ob \<noteq> None \<longrightarrow>
        o_funding_reference ob' = o_funding_reference ob \<and> o_funded_by ob' = o_funded_by ob \<and>
        o_funded_at ob' = o_funded_at ob) \<and>
     (o_settlement_reference ob \<noteq> None \<longrightarrow>
        o_settlement_reference ob' = o_settlement_reference ob \<and> o_settled_by ob' = o_settled_by ob \<and>
        o_settled_at ob' = o_settled_at ob)"

lemma advances_refl [simp]: "advances ob ob"
  by (simp add: advances_def)

lemma advances_trans: "advances a b \<Longrightarrow> advances b c \<Longrightarrow> advances a c"
  using order_trans [of "o_status a" "o_status b" "o_status c"] by (simp add: advances_def)

lemma attest_funded_cases:
  assumes "attest_funded who now r ob = Inr ob'"
  obtains "ob' = ob" | "o_status ob = Owed"
    and "ob' = ob\<lparr>o_status := Funded, o_funded_by := Some who, o_funded_at := now,
                 o_funding_reference := Some r\<rparr>"
  using assms by (cases "o_status ob") (auto simp: attest_funded_def split: if_splits)

lemma attest_settled_cases:
  assumes "attest_settled who now r ob = Inr ob'"
  obtains "ob' = ob" | "o_status ob \<noteq> Settled"
    and "ob' = ob\<lparr>o_status := Settled, o_settled_by := Some who, o_settled_at := now,
                 o_settlement_reference := Some r\<rparr>"
  using assms by (cases "o_status ob") (auto simp: attest_settled_def split: if_splits)

lemma attest_funded_advances:
  assumes "attest_funded who now r ob = Inr ob'" and "obligation_ok ob" and "r \<noteq> 0"
  shows "advances ob ob'" and "obligation_ok ob'"
  by (cases rule: attest_funded_cases [OF assms(1)]; use assms(2,3) in \<open>simp add: advances_def obligation_ok_def\<close>)+

lemma attest_settled_advances:
  assumes "attest_settled who now r ob = Inr ob'" and "obligation_ok ob" and "r \<noteq> 0"
  shows "advances ob ob'" and "obligation_ok ob'"
  by (cases rule: attest_settled_cases [OF assms(1)]; use assms(2,3) in \<open>simp add: advances_def obligation_ok_def\<close>)+

text \<open>A mark either leaves the book alone or replaces one obligation by one it advances to.\<close>

definition book_advanced :: "obligation \<Rightarrow> obligation \<Rightarrow> sa_state \<Rightarrow> sa_state \<Rightarrow> bool" where
  "book_advanced ob ob' s s' \<longleftrightarrow>
     get (sa_obligation s) (o_id ob) = Some ob \<and> advances ob ob' \<and> obligation_ok ob' \<and>
     get (sa_obligation s') = (get (sa_obligation s))(o_id ob \<mapsto> ob') \<and>
     get (sa_obligation_of s') = get (sa_obligation_of s) \<and> get (sa_org_at s') = get (sa_org_at s) \<and>
     get (sa_org_count s') = get (sa_org_count s) \<and> sa_next_obligation_id s' = sa_next_obligation_id s"

lemma mark_advances:
  assumes inv: "sa_inv s"
    and call: "mark_funded e caller i r s = Inr (ob', s') \<or> mark_settled e caller i r s = Inr (ob', s')"
  shows "\<exists>ob. authorizes e caller \<and> holds (sa_roles s) Funder caller \<and> r \<noteq> 0 \<and> o_id ob = i \<and>
           book_advanced ob ob' s s'"
proof -
  have pre: "\<exists>ob. mark_guard e caller i r s = Inr ob \<and>
      (attest_funded caller (timestamp e) r ob = Inr ob' \<or> attest_settled caller (timestamp e) r ob = Inr ob') \<and>
      (s' = sa_checked e caller s \<and> ob' = ob \<or> (\<exists>ev. s' = sa_marked e ob' ev (sa_checked e caller s)))"
    using call
  proof
    assume "mark_funded e caller i r s = Inr (ob', s')"
    then obtain ob where ob: "mark_guard e caller i r s = Inr ob"
      and rest: "(case attest_funded caller (timestamp e) r ob of Inl err \<Rightarrow> Inl (AdapterE err)
        | Inr ob' \<Rightarrow> Inr (ob', if ob' = ob then sa_checked e caller s
            else sa_marked e ob' (ObligationFunded i (o_policy_id ob) (o_org ob) caller r) (sa_checked e caller s)))
        = Inr (ob', s')"
      unfolding mark_funded_eq [OF inv] by (rule bindE_InrE)
    from rest have "attest_funded caller (timestamp e) r ob = Inr ob'"
      and "s' = (if ob' = ob then sa_checked e caller s
            else sa_marked e ob' (ObligationFunded i (o_policy_id ob) (o_org ob) caller r) (sa_checked e caller s))"
      by (auto split: sum.splits)
    with ob show ?thesis by (cases "ob' = ob") auto
  next
    assume "mark_settled e caller i r s = Inr (ob', s')"
    then obtain ob where ob: "mark_guard e caller i r s = Inr ob"
      and rest: "(case attest_settled caller (timestamp e) r ob of Inl err \<Rightarrow> Inl (AdapterE err)
        | Inr ob' \<Rightarrow> Inr (ob', if ob' = ob then sa_checked e caller s
            else sa_marked e ob' (ObligationSettled i (o_policy_id ob) (o_org ob) caller r (o_amount ob))
              (sa_checked e caller s))) = Inr (ob', s')"
      unfolding mark_settled_eq [OF inv] by (rule bindE_InrE)
    from rest have "attest_settled caller (timestamp e) r ob = Inr ob'"
      and "s' = (if ob' = ob then sa_checked e caller s
            else sa_marked e ob' (ObligationSettled i (o_policy_id ob) (o_org ob) caller r (o_amount ob))
              (sa_checked e caller s))"
      by (auto split: sum.splits)
    with ob show ?thesis by (cases "ob' = ob") auto
  qed
  then obtain ob where ob: "mark_guard e caller i r s = Inr ob"
    and st: "s' = sa_checked e caller s \<and> ob' = ob \<or> (\<exists>ev. s' = sa_marked e ob' ev (sa_checked e caller s))"
    and att: "attest_funded caller (timestamp e) r ob = Inr ob' \<or> attest_settled caller (timestamp e) r ob = Inr ob'"
    by blast
  have stored: "get (sa_obligation s) i = Some ob" and "o_id ob = i" and "obligation_ok ob" and "r \<noteq> 0"
    and "authorizes e caller" and "holds (sa_roles s) Funder caller"
    using ob sa_invD(2) [OF inv] by (auto simp: mark_guard_Inr)
  moreover have adv: "advances ob ob'" "obligation_ok ob'"
    using att attest_funded_advances attest_settled_advances \<open>obligation_ok ob\<close> \<open>r \<noteq> 0\<close> by blast+
  moreover have "o_id ob' = i" using adv(1) \<open>o_id ob = i\<close> by (simp add: advances_def)
  moreover have "get (sa_obligation s') = (get (sa_obligation s))(o_id ob \<mapsto> ob')"
    using st stored \<open>o_id ob = i\<close> \<open>o_id ob' = i\<close> by auto
  ultimately show ?thesis
    using st by (intro exI [of _ ob]) (auto simp: book_advanced_def)
qed

lemma sa_inv_advanced:
  assumes inv: "sa_inv s" and adv: "book_advanced ob ob' s s'"
  shows "sa_inv s'"
proof -
  note old = sa_invD [OF inv]
  have stored: "get (sa_obligation s) (o_id ob) = Some ob"
    and new: "get (sa_obligation s') = (get (sa_obligation s))(o_id ob \<mapsto> ob')"
    and fields: "get (sa_obligation_of s') = get (sa_obligation_of s)" "get (sa_org_at s') = get (sa_org_at s)"
      "get (sa_org_count s') = get (sa_org_count s)" "sa_next_obligation_id s' = sa_next_obligation_id s"
    and ob': "o_id ob' = o_id ob" "o_payout_receiver ob' = o_payout_receiver ob"
      "o_policy_id ob' = o_policy_id ob" "o_org ob' = o_org ob" "o_org_index ob' = o_org_index ob"
      "obligation_ok ob'"
    using adv by (simp_all add: book_advanced_def advances_def)
  have size: "org_size s' = org_size s" by (simp add: fun_eq_iff org_size_def fields)
  have look: "get (sa_obligation s') j = (if j = o_id ob then Some ob' else get (sa_obligation s) j)" for j
    by (simp add: new)
  show ?thesis
    unfolding sa_inv_def fields size
  proof (intro conjI)
    show "\<exists>n\<ge>1. n \<le> u64_max \<and> sa_next_obligation_id s = Some n \<and>
        (\<forall>i. get (sa_obligation s') i \<noteq> None \<longleftrightarrow> 1 \<le> i \<and> i < n)"
    proof -
      have "get (sa_obligation s') i \<noteq> None \<longleftrightarrow> get (sa_obligation s) i \<noteq> None" for i
        using stored by (simp add: look)
      then show ?thesis using old(1) by simp
    qed
    show "\<forall>j x. get (sa_obligation s') j = Some x \<longrightarrow> o_id x = j \<and> obligation_ok x \<and>
        get (sa_obligation_of s) (o_payout_receiver x, o_policy_id x) = Some j \<and>
        get (sa_org_at s) (o_org x, o_org_index x) = Some j"
      using old(2) [OF stored] old(2) ob' by (simp add: look)
    show "\<forall>k j. get (sa_obligation_of s) k = Some j \<longrightarrow>
        (\<exists>x. get (sa_obligation s') j = Some x \<and> (o_payout_receiver x, o_policy_id x) = k)"
      using old(3) stored ob' by (metis look option.inject)
    show "\<forall>k j. get (sa_org_at s) k = Some j \<longrightarrow>
        (\<exists>x. get (sa_obligation s') j = Some x \<and> (o_org x, o_org_index x) = k)"
      using old(4) stored ob' by (metis look option.inject)
  qed (use old(5,6) in blast)+
qed

section \<open>Steps of the contract\<close>

inductive sa_step :: "env \<Rightarrow> sa_state \<Rightarrow> sa_state \<Rightarrow> bool" where
  step_record: "record_obligation e caller pid org amount digest s = Inr (ob, s') \<Longrightarrow> sa_step e s s'"
| step_funded: "mark_funded e caller i r s = Inr (ob, s') \<Longrightarrow> sa_step e s s'"
| step_settled: "mark_settled e caller i r s = Inr (ob, s') \<Longrightarrow> sa_step e s s'"
| step_rent: "extend_obligation_ttl e i s = Inr s' \<Longrightarrow> sa_step e s s'"
| step_keep: "sa_extend_contract_ttl e s = Inr s' \<Longrightarrow> sa_step e s s'"
| step_bind: "set_payout_receiver e caller pr s = Inr s' \<Longrightarrow> sa_step e s s'"
| step_grant: "sa_grant_role e caller r who s = Inr s' \<Longrightarrow> sa_step e s s'"
| step_revoke: "sa_revoke_role e caller r who s = Inr s' \<Longrightarrow> sa_step e s s'"
| step_has_role: "sa_has_role e r who s = Inr (b, s') \<Longrightarrow> sa_step e s s'"
| step_upgrade: "sa_upgrade e caller wasm s = Inr s' \<Longrightarrow> sa_step e s s'"

inductive sa_reachable :: "sa_state \<Rightarrow> bool" where
  sa_start: "sa_constructor e admin = Inr s \<Longrightarrow> sa_reachable s"
| sa_next: "sa_reachable s \<Longrightarrow> sa_step e s s' \<Longrightarrow> sa_reachable s'"

lemma same_obligations_admin:
  "sa_extend_contract_ttl e s = Inr s' \<Longrightarrow> same_obligations s s'"
  "set_payout_receiver e caller pr s = Inr s' \<Longrightarrow> same_obligations s s'"
  "sa_grant_role e caller r who s = Inr s' \<Longrightarrow> same_obligations s s'"
  "sa_revoke_role e caller r who s = Inr s' \<Longrightarrow> same_obligations s s'"
  "sa_has_role e r who s = Inr (b, s') \<Longrightarrow> same_obligations s s'"
  "sa_upgrade e caller wasm s = Inr s' \<Longrightarrow> same_obligations s s'"
  by (auto simp: same_obligations_def sa_extend_contract_ttl_def set_payout_receiver_def sa_grant_role_def
      sa_revoke_role_def sa_has_role_def sa_upgrade_def has_role_eq bindE_eq_Inr Let_def split: if_splits)

lemma same_obligations_rent:
  assumes "sa_inv s" and "extend_obligation_ttl e i s = Inr s'"
  shows "same_obligations s s'"
proof (cases "get (sa_obligation s) i")
  case None
  with assms(2) show ?thesis by (auto simp: extend_obligation_ttl_def same_obligations_def)
next
  case (Some ob)
  have "extend_entries e ob (sa_touch e s) = Inr (sa_rented e ob (sa_touch e s))"
    by (rule extend_entries_stored [OF assms(1) Some]) simp_all
  with assms(2) Some show ?thesis
    by (auto simp: extend_obligation_ttl_def same_obligations_def Let_def split: if_splits)
qed

lemma sa_step_cases:
  assumes "sa_step e s s'" and "sa_inv s"
  obtains (Record) caller pid org amount digest ob i where
      "sa_payout_receiver s = Some caller" and "authorizes e caller" and "0 < amount"
      and "get (sa_obligation_of s) (caller, pid) = None" and "sa_next_obligation_id s = Some i"
      and "i < u64_max" and "org_size s org < u32_max"
      and "ob = fresh_obligation e i caller pid org amount digest (org_size s org)"
      and "s' = sa_recorded e ob (sa_touch e s)"
    | (Mark) caller ob ob' where "authorizes e caller" and "holds (sa_roles s) Funder caller"
      and "book_advanced ob ob' s s'"
    | (Other) "same_obligations s s'"
  using assms(1)
proof (cases rule: sa_step.cases)
  case (step_record caller pid org amount digest ob)
  note r = record_obligation_Inr [OF step_record]
  from r(2) show thesis
  proof
    assume "\<exists>i. get (sa_obligation_of s) (caller, pid) = Some i \<and> get (sa_obligation s) i = Some ob \<and>
            o_org ob = org \<and> o_amount ob = amount \<and> o_determination_digest ob = digest \<and>
            s' = sa_touch e s"
    then show thesis by (auto intro: Other simp: same_obligations_def)
  qed (use r(1) Record in blast)
next
  case (step_funded caller i r ob)
  then show thesis using mark_advances [OF assms(2)] Mark by blast
next
  case (step_settled caller i r ob)
  then show thesis using mark_advances [OF assms(2)] Mark by blast
next
  case (step_rent i)
  then show thesis using same_obligations_rent [OF assms(2)] Other by blast
qed (erule same_obligations_admin [THEN Other])+

lemma sa_inv_step:
  assumes "sa_inv s" and "sa_step e s s'"
  shows "sa_inv s'"
  using assms(2,1)
proof (cases rule: sa_step_cases)
  case (Record caller pid org amount digest ob i)
  have "sa_inv (sa_touch e s)" using assms(1) by (rule sa_inv_same) (simp add: same_obligations_def)
  then show ?thesis
    using sa_inv_recorded [of "sa_touch e s" caller pid i org amount e e digest] Record
    by (simp add: org_size_def)
next
  case (Mark caller ob ob')
  then show ?thesis using assms(1) by (blast intro: sa_inv_advanced)
next
  case Other
  then show ?thesis using assms(1) by (blast intro: sa_inv_same)
qed

lemma sa_inv_constructor:
  assumes "sa_constructor e admin = Inr s"
  shows "sa_inv s"
  using assms
  by (auto simp: sa_constructor_def sa_deployed_def bindE_eq_Inr Let_def sa_inv_def org_size_def u64_max_def)

lemma sa_reachable_inv: "sa_reachable s \<Longrightarrow> sa_inv s"
  by (induction rule: sa_reachable.induct) (blast intro: sa_inv_constructor sa_inv_step)+

section \<open>Interfaces\<close>

interpretation sa_access: role_gated sa_grant_role sa_revoke_role sa_roles
proof unfold_locales
  fix e c r a and s s' :: sa_state and q b
  show "(\<exists>s'. sa_grant_role e c r a s = Inr s') \<longleftrightarrow> authorizes e c \<and> holds (sa_roles s) Admin c"
    by (auto simp: sa_grant_role_def require_role_eq grant_role_def Let_def)
  show "(\<exists>s'. sa_revoke_role e c r a s = Inr s') \<longleftrightarrow> authorizes e c \<and> holds (sa_roles s) Admin c"
    by (auto simp: sa_revoke_role_def require_role_eq Let_def)
  show "sa_grant_role e c r a s = Inr s' \<Longrightarrow>
      holds (sa_roles s') q b \<longleftrightarrow> (q = r \<and> b = a) \<or> holds (sa_roles s) q b"
    by (auto simp: sa_grant_role_def bindE_eq_Inr holds_grant Let_def)
  show "sa_revoke_role e c r a s = Inr s' \<Longrightarrow>
      holds (sa_roles s') q b \<longleftrightarrow> holds (sa_roles s) q b \<and> \<not> (q = r \<and> b = a)"
    by (auto simp: sa_revoke_role_def bindE_eq_Inr holds_revoke Let_def)
qed

lemma org_page:
  assumes "sa_inv s"
  shows "get_org_obligations org start limit s =
    map (\<lambda>i. the (get (sa_org_at s) (org, i)))
      [start..<min (saturating_add_u32 start (min limit SA_MAX_PAGE_SIZE)) (org_size s org)]"
  unfolding get_org_obligations_def org_size_def [symmetric] Let_def
  using sa_invD(6) [OF assms] by (subst collect_page_dense) auto

interpretation sa_pages: paged_index
  "\<lambda>s org i. get (sa_org_at s) (org, i)" org_size
  "\<lambda>s org start limit. Inr (get_org_obligations org start limit s)" SA_MAX_PAGE_SIZE sa_inv
  by unfold_locales (auto simp: org_page SA_MAX_PAGE_SIZE_def dest: sa_invD(5))

subsection \<open>What a recorder relies on\<close>

text \<open>
  The contract of the book toward the PayoutReceiver, which records in it and keys by its own
  address and the policy id.
\<close>

locale obligation_ledger =
  fixes enter :: "env \<Rightarrow> address \<Rightarrow> nat \<Rightarrow> address \<Rightarrow> int \<Rightarrow> bytes32 \<Rightarrow> 's \<Rightarrow> error + obligation \<times> 's"
    and owed :: "'s \<Rightarrow> address \<times> nat \<Rightarrow> obligation option"
    and sound :: "'s \<Rightarrow> bool"
  assumes record_sound: "sound s \<Longrightarrow> enter e pr pid org amount digest s = Inr (ob, s') \<Longrightarrow> sound s'"
    and record_stores: "sound s \<Longrightarrow> enter e pr pid org amount digest s = Inr (ob, s') \<Longrightarrow>
          owed s' = (owed s)((pr, pid) \<mapsto> ob)"
    and record_faithful: "sound s \<Longrightarrow> enter e pr pid org amount digest s = Inr (ob, s') \<Longrightarrow>
          o_payout_receiver ob = pr \<and> o_policy_id ob = pid \<and> o_org ob = org \<and> o_amount ob = amount \<and>
          o_determination_digest ob = digest \<and> 0 < amount"
    and record_stable: "sound s \<Longrightarrow> owed s (pr, pid) = Some ob0 \<Longrightarrow>
          enter e pr pid org amount digest s = Inr (ob, s') \<Longrightarrow> ob = ob0"
begin

text \<open>Recording is idempotent and a policy's obligation is never replaced.\<close>

lemma record_twice:
  assumes "sound s" and "enter e pr pid org amount digest s = Inr (ob, s1)"
    and "enter e' pr pid org' amount' digest' s1 = Inr (ob', s2)"
  shows "ob' = ob \<and> owed s2 = owed s1 \<and> org' = org \<and> amount' = amount \<and> digest' = digest"
proof -
  have s1: "sound s1" and at: "owed s1 (pr, pid) = Some ob"
    using record_sound [OF assms(1,2)] record_stores [OF assms(1,2)] by simp_all
  have "ob' = ob" using record_stable [OF s1 at assms(3)] .
  then show ?thesis
    using record_stores [OF s1 assms(3)] at record_faithful [OF assms(1,2)] record_faithful [OF s1 assms(3)]
    by (auto simp: fun_upd_idem)
qed

lemma record_other:
  "sound s \<Longrightarrow> enter e pr pid org amount digest s = Inr (ob, s') \<Longrightarrow> k \<noteq> (pr, pid) \<Longrightarrow> owed s' k = owed s k"
  by (simp add: record_stores)

end

definition obligation_for :: "sa_state \<Rightarrow> address \<times> nat \<Rightarrow> obligation option" where
  "obligation_for s k = Option.bind (get (sa_obligation_of s) k) (get (sa_obligation s))"

lemma obligation_for_iff:
  assumes "sa_inv s"
  shows "obligation_for s k = Some ob \<longleftrightarrow>
    (\<exists>i. get (sa_obligation s) i = Some ob \<and> (o_payout_receiver ob, o_policy_id ob) = k)"
  using sa_invD(2) [OF assms] sa_invD(3) [OF assms, of k] unfolding obligation_for_def
  by (cases "get (sa_obligation_of s) k") (fastforce simp: bind_eq_Some_conv)+

lemma record_obligation_step:
  "record_obligation e caller pid org amount digest s = Inr (ob, s') \<Longrightarrow> sa_inv s \<Longrightarrow> sa_inv s'"
  by (blast intro: sa_inv_step sa_step.intros)

interpretation sa_ledger: obligation_ledger record_obligation obligation_for sa_inv
proof unfold_locales
  fix e pr pid org amount digest and s s' :: sa_state and ob ob0
  assume inv: "sa_inv s" and call: "record_obligation e pr pid org amount digest s = Inr (ob, s')"
  note r = record_obligation_Inr [OF call]
  show "sa_inv s'" using record_obligation_step [OF call inv] .
  show "o_payout_receiver ob = pr \<and> o_policy_id ob = pid \<and> o_org ob = org \<and> o_amount ob = amount \<and>
      o_determination_digest ob = digest \<and> 0 < amount"
    using r sa_invD(3) [OF inv, of "(pr, pid)"] by auto
  show "obligation_for s' = (obligation_for s)((pr, pid) \<mapsto> ob)"
    using r(2)
  proof (elim disjE exE conjE)
    fix i
    assume "get (sa_obligation_of s) (pr, pid) = Some i" and "get (sa_obligation s) i = Some ob"
      and "s' = sa_touch e s"
    then show ?thesis by (auto simp: fun_eq_iff obligation_for_def)
  next
    fix i
    assume new: "get (sa_obligation_of s) (pr, pid) = None" "sa_next_obligation_id s = Some i"
      and ob: "ob = fresh_obligation e i pr pid org amount digest (org_size s org)"
      and s': "s' = sa_recorded e ob (sa_touch e s)"
    have "get (sa_obligation_of s) k \<noteq> Some i" for k
      using sa_invD(1,3) [OF inv] new(2) by (metis less_irrefl option.distinct(1) option.inject)
    then show ?thesis
      by (auto simp: fun_eq_iff obligation_for_def s' ob bind_eq_Some_conv split: option.splits bind_splits)
  qed
  show "obligation_for s (pr, pid) = Some ob0 \<Longrightarrow> ob = ob0"
    using r(2) by (auto simp: obligation_for_def)
qed

lemma record_obligation_iff:
  assumes inv: "sa_inv s"
  shows "(\<exists>r. record_obligation e caller pid org amount digest s = Inr r) =
     (sa_payout_receiver s = Some caller \<and> authorizes e caller \<and> 0 < amount \<and>
      (case obligation_for s (caller, pid) of
         Some ob \<Rightarrow> o_org ob = org \<and> o_amount ob = amount \<and> o_determination_digest ob = digest
       | None \<Rightarrow> (\<exists>n. obligation_count s = Inr n \<and> n + 1 < u64_max) \<and> org_obligation_count org s < u32_max))"
    (is "?ok = ?cond")
proof -
  obtain n where n: "1 \<le> n" "sa_next_obligation_id s = Some n" using sa_invD(1) [OF inv] by blast
  have count: "obligation_count s = Inr (n - 1)" using n by (simp add: obligation_count_def)
  have size: "org_obligation_count org s = org_size s org" by (simp add: org_obligation_count_def org_size_def)
  show ?thesis
  proof
    assume ?ok
    then obtain ob s' where call: "record_obligation e caller pid org amount digest s = Inr (ob, s')" by auto
    from record_obligation_Inr(2) [OF call] show ?cond
    proof (elim disjE exE conjE)
      fix i
      assume "get (sa_obligation_of s) (caller, pid) = Some i" "get (sa_obligation s) i = Some ob"
        "o_org ob = org" "o_amount ob = amount" "o_determination_digest ob = digest"
      then show ?cond using record_obligation_Inr(1) [OF call] by (simp add: obligation_for_def)
    next
      fix i
      assume "get (sa_obligation_of s) (caller, pid) = None" "sa_next_obligation_id s = Some i" "i < u64_max"
        "org_size s org < u32_max"
      then show ?cond using record_obligation_Inr(1) [OF call] n count size by (simp add: obligation_for_def)
    qed
  next
    assume cond: ?cond
    show ?ok
    proof (cases "get (sa_obligation_of s) (caller, pid)")
      case None
      then show ?thesis
        using cond n count size record_obligation_fresh [of s caller e amount pid n org digest]
        by (auto simp: obligation_for_def Let_def)
    next
      case (Some i)
      then obtain ob where "get (sa_obligation s) i = Some ob" using sa_invD(3) [OF inv Some] by blast
      with cond Some show ?thesis
        by (simp add: record_obligation_def obligation_for_def Let_def require_auth_def load_obligation_def)
    qed
  qed
qed

text \<open>The two branches of a call: the policy has an obligation, or gets one.\<close>

lemma record_known:
  assumes "sa_payout_receiver s = Some caller" and "authorizes e caller" and "0 < amount"
    and "obligation_for s (caller, pid) = Some old"
  shows "record_obligation e caller pid org amount digest s =
    (if o_org old = org \<and> o_amount old = amount \<and> o_determination_digest old = digest
     then Inr (old, sa_touch e s) else Inl (AdapterE ObligationConflict))"
  using assms by (auto simp: record_obligation_def obligation_for_def bind_eq_Some_conv Let_def require_auth_def
      load_obligation_def)

lemma record_effect:
  assumes inv: "sa_inv s" and call: "record_obligation e caller pid org amount digest s = Inr (ob, s')"
  shows "case obligation_for s (caller, pid) of
       Some old \<Rightarrow> ob = old \<and> same_obligations s s' \<and> sa_events s' = sa_events s
     | None \<Rightarrow> \<exists>n. obligation_count s = Inr n \<and> obligation_count s' = Inr (n + 1) \<and>
         ob = fresh_obligation e (n + 1) caller pid org amount digest (org_obligation_count org s) \<and>
         get (sa_obligation s') = (get (sa_obligation s))(n + 1 \<mapsto> ob) \<and>
         find_obligation caller pid s' = Some (n + 1) \<and>
         org_obligation_count org s' = org_obligation_count org s + 1 \<and>
         sa_events s' = sa_events s @ [ObligationRecorded (n + 1) pid org caller amount digest]"
  using record_obligation_Inr(2) [OF call]
proof (elim disjE exE conjE)
  fix i
  assume "get (sa_obligation_of s) (caller, pid) = Some i" "get (sa_obligation s) i = Some ob" "s' = sa_touch e s"
  then show ?thesis by (simp add: obligation_for_def same_obligations_def)
next
  fix i
  assume new: "get (sa_obligation_of s) (caller, pid) = None" "sa_next_obligation_id s = Some i"
    and ob: "ob = fresh_obligation e i caller pid org amount digest (org_size s org)"
    and s': "s' = sa_recorded e ob (sa_touch e s)"
  have i: "1 \<le> i" using sa_invD(1) [OF inv] new(2) by auto
  have "obligation_count s = Inr (i - 1)" "obligation_count s' = Inr (i - 1 + 1)" "i - 1 + 1 = i"
    using i new(2) by (simp_all add: obligation_count_def s' ob)
  then show ?thesis
    using new(1) by (auto simp: obligation_for_def find_obligation_def org_obligation_count_def org_size_def s' ob
        sa_events_recorded)
qed

text \<open>A book also says when it accepts a new obligation, and hands it out as owed.\<close>

locale obligation_book = obligation_ledger +
  fixes bound :: "'a \<Rightarrow> address option"
    and room :: "'a \<Rightarrow> address \<Rightarrow> bool"
  assumes enter_law: "sound s \<Longrightarrow> (\<exists>r. enter e pr pid org amount digest s = Inr r) =
      (bound s = Some pr \<and> authorizes e pr \<and> 0 < amount \<and>
       (case owed s (pr, pid) of
          Some ob \<Rightarrow> o_org ob = org \<and> o_amount ob = amount \<and> o_determination_digest ob = digest
        | None \<Rightarrow> room s org))"
    and fresh_owed: "sound s \<Longrightarrow> owed s (pr, pid) = None \<Longrightarrow>
      enter e pr pid org amount digest s = Inr (ob, s') \<Longrightarrow> o_status ob = Owed"
    and stays_bound: "sound s \<Longrightarrow> enter e pr pid org amount digest s = Inr (ob, s') \<Longrightarrow> bound s' = bound s"
begin

text \<open>Only the bound contract, signing for itself, records.\<close>

lemma enter_bound:
  "sound s \<Longrightarrow> enter e pr pid org amount digest s = Inr r \<Longrightarrow> bound s = Some pr \<and> authorizes e pr"
  using enter_law by blast

lemma stranger_cannot_enter: "sound s \<Longrightarrow> \<not> authorizes e pr \<Longrightarrow> enter e pr pid org amount digest s \<noteq> Inr r"
  using enter_bound by blast

end

definition has_obligation_room :: "sa_state \<Rightarrow> address \<Rightarrow> bool" where
  "has_obligation_room s org \<longleftrightarrow>
     (case obligation_count s of Inl _ \<Rightarrow> False | Inr n \<Rightarrow> n + 1 < u64_max) \<and> org_obligation_count org s < u32_max"

interpretation sa_book: obligation_book record_obligation obligation_for sa_inv adapter_payout_receiver has_obligation_room
proof unfold_locales
  fix e pr pid org amount digest and s s' :: sa_state and ob
  assume inv: "sa_inv s"
  show "(\<exists>r. record_obligation e pr pid org amount digest s = Inr r) =
      (adapter_payout_receiver s = Some pr \<and> authorizes e pr \<and> 0 < amount \<and>
       (case obligation_for s (pr, pid) of
          Some ob \<Rightarrow> o_org ob = org \<and> o_amount ob = amount \<and> o_determination_digest ob = digest
        | None \<Rightarrow> has_obligation_room s org))"
    unfolding record_obligation_iff [OF inv]
    by (auto simp: adapter_payout_receiver_def has_obligation_room_def split: sum.split option.split)
  assume call: "record_obligation e pr pid org amount digest s = Inr (ob, s')"
  note r = record_obligation_Inr(2) [OF call]
  show "adapter_payout_receiver s' = adapter_payout_receiver s"
    using r by (auto simp: adapter_payout_receiver_def sa_recorded_def)
  assume "obligation_for s (pr, pid) = None"
  with r show "o_status ob = Owed" by (auto simp: obligation_for_def fresh_obligation_def)
qed

section \<open>A concrete run\<close>

text \<open>
  Admin 11 binds PayoutReceiver 200 and makes 13 the funder; 200 records what is owed for
  policy 9 of organisation 6; 13 attests the funding.
\<close>

lemma sa_constructor_effect:
  assumes "sa_constructor e admin = Inr s"
  shows "holds (sa_roles s) r a \<longleftrightarrow> a = admin \<and> (r = Admin \<or> r = Upgrader)"
    and "get (sa_obligation_of s) = Map.empty" and "get (sa_org_count s) = Map.empty"
    and "sa_next_obligation_id s = Some 1"
  using assms
  by (auto simp: sa_constructor_def sa_deployed_def bindE_eq_Inr Let_def holds_def
      dest!: grant_role_Inr split: if_splits)

lemma set_payout_receiver_effect:
  assumes "set_payout_receiver e caller pr s = Inr s'"
  shows "authorizes e caller" and "holds (sa_roles s) Admin caller"
    and "pr \<noteq> current_contract_address e" and "sa_payout_receiver s' = Some pr"
    and "holds (sa_roles s') = holds (sa_roles s)"
  using assms by (auto simp: set_payout_receiver_def bindE_eq_Inr Let_def split: if_splits)

definition sample_sa_new :: sa_state where
  "sample_sa_new = projr (sa_constructor sample_env (Address 11))"

definition sample_sa_funder :: sa_state where
  "sample_sa_funder = projr (sa_grant_role sample_env (Address 11) Funder (Address 13) sample_sa_new)"

definition sample_sa_ready :: sa_state where
  "sample_sa_ready = projr (set_payout_receiver sample_env (Address 11) (Address 200) sample_sa_funder)"

definition sample_sa_recorded :: sa_state where
  "sample_sa_recorded =
     snd (projr (record_obligation sample_env (Address 200) 9 (Address 6) 450 77 sample_sa_ready))"

definition sample_sa_settled :: sa_state where
  "sample_sa_settled = snd (projr (mark_settled sample_env (Address 13) 1 5 sample_sa_recorded))"

lemma sample_sa_new: "sa_constructor sample_env (Address 11) = Inr sample_sa_new"
  by (simp add: sample_sa_new_def sa_constructor_def grant_role_def Let_def)

lemma sample_sa_funder:
  "sa_grant_role sample_env (Address 11) Funder (Address 13) sample_sa_new = Inr sample_sa_funder"
proof -
  have "holds (sa_roles sample_sa_new) Admin (Address 11)"
    by (simp add: sa_constructor_effect(1) [OF sample_sa_new])
  then have "\<exists>s'. sa_grant_role sample_env (Address 11) Funder (Address 13) sample_sa_new = Inr s'"
    using sa_access.grant_law sample_env_simps(2) by blast
  then show ?thesis unfolding sample_sa_funder_def by (metis sum.sel(2))
qed

lemma sample_sa_ready:
  "set_payout_receiver sample_env (Address 11) (Address 200) sample_sa_funder = Inr sample_sa_ready"
  "holds (sa_roles sample_sa_ready) Funder (Address 13)"
  "sa_payout_receiver sample_sa_ready = Some (Address 200)"
  "get (sa_obligation_of sample_sa_ready) = Map.empty"
  "get (sa_org_count sample_sa_ready) = Map.empty"
  "sa_next_obligation_id sample_sa_ready = Some 1"
proof -
  have "holds (sa_roles sample_sa_funder) Admin (Address 11)"
    by (simp add: sa_access.grant_effect [OF sample_sa_funder] sa_constructor_effect(1) [OF sample_sa_new])
  then have "\<exists>s'. set_payout_receiver sample_env (Address 11) (Address 200) sample_sa_funder = Inr s'"
    by (simp add: set_payout_receiver_def require_role_eq Let_def)
  then show r: "set_payout_receiver sample_env (Address 11) (Address 200) sample_sa_funder = Inr sample_sa_ready"
    unfolding sample_sa_ready_def by (metis sum.sel(2))
  show "holds (sa_roles sample_sa_ready) Funder (Address 13)"
    and "sa_payout_receiver sample_sa_ready = Some (Address 200)"
    by (simp_all add: set_payout_receiver_effect [OF r] sa_access.grant_effect [OF sample_sa_funder])
  have "same_obligations sample_sa_new sample_sa_ready"
    using same_obligations_admin(3) [OF sample_sa_funder] same_obligations_admin(2) [OF r]
    by (simp add: same_obligations_def)
  then show "get (sa_obligation_of sample_sa_ready) = Map.empty"
    and "get (sa_org_count sample_sa_ready) = Map.empty"
    and "sa_next_obligation_id sample_sa_ready = Some 1"
    using sa_constructor_effect [OF sample_sa_new] by (simp_all add: same_obligations_def)
qed

definition sample_obligation :: obligation where
  "sample_obligation = fresh_obligation sample_env 1 (Address 200) 9 (Address 6) 450 77 0"

lemma sample_sa_recorded:
  "record_obligation sample_env (Address 200) 9 (Address 6) 450 77 sample_sa_ready =
     Inr (sample_obligation, sample_sa_recorded)"
  "sample_sa_recorded = sa_recorded sample_env sample_obligation (sa_touch sample_env sample_sa_ready)"
proof -
  have "record_obligation sample_env (Address 200) 9 (Address 6) 450 77 sample_sa_ready =
     Inr (sample_obligation, sa_recorded sample_env sample_obligation (sa_touch sample_env sample_sa_ready))"
    using record_obligation_fresh [of sample_sa_ready "Address 200" sample_env 450 9 1 "Address 6" 77]
    by (simp add: sample_sa_ready(3-6) org_size_def Let_def sample_obligation_def u64_max_def u32_max_def)
  then show "record_obligation sample_env (Address 200) 9 (Address 6) 450 77 sample_sa_ready =
     Inr (sample_obligation, sample_sa_recorded)"
    and "sample_sa_recorded = sa_recorded sample_env sample_obligation (sa_touch sample_env sample_sa_ready)"
    by (simp_all add: sample_sa_recorded_def)
qed

lemma sample_sa_reachable: "sa_reachable sample_sa_ready" "sa_reachable sample_sa_recorded"
proof -
  have "sa_reachable sample_sa_funder"
    by (rule sa_next [OF sa_start [OF sample_sa_new] step_grant [OF sample_sa_funder]])
  then show ready: "sa_reachable sample_sa_ready"
    by (rule sa_next [OF _ step_bind [OF sample_sa_ready(1)]])
  show "sa_reachable sample_sa_recorded"
    by (rule sa_next [OF ready step_record [OF sample_sa_recorded(1)]])
qed

definition sample_settled :: obligation where
  "sample_settled = sample_obligation\<lparr>o_status := Settled, o_settled_by := Some (Address 13),
     o_settled_at := timestamp sample_env, o_settlement_reference := Some 5\<rparr>"

lemma sample_sa_settled:
  "mark_settled sample_env (Address 13) 1 5 sample_sa_recorded = Inr (sample_settled, sample_sa_settled)"
proof -
  have stored: "get (sa_obligation sample_sa_recorded) 1 = Some sample_obligation"
    by (simp add: sample_sa_recorded(2) sample_obligation_def)
  then have guard: "mark_guard sample_env (Address 13) 1 5 sample_sa_recorded = Inr sample_obligation"
    by (simp add: mark_guard_def sample_sa_recorded(2) sample_sa_ready(2))
  have "attest_settled (Address 13) (timestamp sample_env) 5 sample_obligation = Inr sample_settled"
    by (simp add: attest_settled_def sample_settled_def sample_obligation_def)
  then show ?thesis
    unfolding sample_sa_settled_def mark_settled_eq [OF sa_reachable_inv [OF sample_sa_reachable(2)]] guard
    by simp
qed

section \<open>Properties\<close>

text \<open>C27. In every reachable state the ids 1 to \<open>obligation_count\<close>, and no others, name an
  obligation; each obligation carries its id, a positive amount and attestations matching its
  status; \<open>find_obligation\<close> answers an id for a PayoutReceiver and a policy exactly when the obligation
  of that id is theirs; so no PayoutReceiver has two obligations for one policy.\<close>

theorem one_obligation_per_policy:
  assumes "sa_reachable s"
  shows "\<exists>n. obligation_count s = Inr n \<and>
      (\<forall>i. (1 \<le> i \<and> i \<le> n) = (\<exists>ob. get_obligation i s = Some ob \<and> o_id ob = i \<and> obligation_ok ob)) \<and>
      (\<forall>pr pid i. (find_obligation pr pid s = Some i) =
         (\<exists>ob. get_obligation i s = Some ob \<and> o_payout_receiver ob = pr \<and> o_policy_id ob = pid)) \<and>
      (\<forall>i j a b. get_obligation i s = Some a \<and> get_obligation j s = Some b \<and>
         o_payout_receiver a = o_payout_receiver b \<and> o_policy_id a = o_policy_id b \<longrightarrow> i = j)"
proof -
  note inv = sa_invD [OF sa_reachable_inv [OF assms]]
  obtain n where n: "1 \<le> n" "sa_next_obligation_id s = Some n"
    and ids: "\<And>i. get (sa_obligation s) i \<noteq> None \<longleftrightarrow> 1 \<le> i \<and> i < n"
    using inv(1) by blast
  have "obligation_count s = Inr (n - 1)" using n by (simp add: obligation_count_def)
  moreover have "(1 \<le> i \<and> i \<le> n - 1) = (\<exists>ob. get_obligation i s = Some ob \<and> o_id ob = i \<and> obligation_ok ob)" for i
    using ids [of i] inv(2) [of i] n(1) unfolding get_obligation_def by (cases "get (sa_obligation s) i") auto
  moreover have "(find_obligation pr pid s = Some i) =
      (\<exists>ob. get_obligation i s = Some ob \<and> o_payout_receiver ob = pr \<and> o_policy_id ob = pid)" for pr pid i
    unfolding find_obligation_def get_obligation_def using inv(2) [of i] inv(3) [of "(pr, pid)" i] by auto
  moreover have "i = j" if "get_obligation i s = Some a" "get_obligation j s = Some b"
    "o_payout_receiver a = o_payout_receiver b" "o_policy_id a = o_policy_id b" for i j a b
    using inv(2) that unfolding get_obligation_def by (metis option.inject)
  ultimately show ?thesis by blast
qed

theorem one_obligation_per_policy_witness:
  "find_obligation (Address 200) 9 sample_sa_recorded = Some 1 \<and>
   (\<exists>n. obligation_count sample_sa_recorded = Inr n \<and> 1 \<le> n)"
proof -
  from one_obligation_per_policy [OF sample_sa_reachable(2)] obtain n where n:
    "obligation_count sample_sa_recorded = Inr n"
    "\<forall>i. (1 \<le> i \<and> i \<le> n) = (\<exists>ob. get_obligation i sample_sa_recorded = Some ob \<and> o_id ob = i \<and> obligation_ok ob)"
    "\<forall>pr pid i. (find_obligation pr pid sample_sa_recorded = Some i) =
       (\<exists>ob. get_obligation i sample_sa_recorded = Some ob \<and> o_payout_receiver ob = pr \<and> o_policy_id ob = pid)"
    by (elim exE conjE) (rule that)
  have ob: "get_obligation 1 sample_sa_recorded = Some sample_obligation" "o_id sample_obligation = 1"
    "obligation_ok sample_obligation" "o_payout_receiver sample_obligation = Address 200" "o_policy_id sample_obligation = 9"
    by (simp_all add: get_obligation_def sample_sa_recorded(2) sample_obligation_def)
  then have "1 \<le> (1::nat) \<and> 1 \<le> n" using n(2) by blast
  then show ?thesis using n(1) ob n(3) by blast
qed

text \<open>C28. Whatever call runs on a reachable book, a recorded obligation stays, keeps its payer,
  policy, organisation, amount and digest, never moves back in \<open>Owed, Funded, Settled\<close>, keeps an
  attestation once made, and changes only if a holder of the Funder role authorised the call.\<close>

theorem obligation_only_advances:
  assumes "sa_reachable s" and "sa_step e s s'" and "get_obligation i s = Some ob"
  shows "\<exists>ob'. get_obligation i s' = Some ob' \<and> advances ob ob' \<and>
           (ob' = ob \<or> (\<exists>who. authorizes e who \<and> holds (sa_roles s) Funder who))"
proof -
  note inv = sa_reachable_inv [OF assms(1)]
  from assms(2) inv show ?thesis
  proof (cases rule: sa_step_cases)
    case (Record caller pid org amount digest ob1 j)
    then have "i \<noteq> j" using sa_invD(1) [OF inv] assms(3) by (auto simp: get_obligation_def)
    then show ?thesis using Record assms(3) by (simp add: get_obligation_def)
  next
    case (Mark caller ob1 ob2)
    then show ?thesis
      using assms(3) by (cases "i = o_id ob1") (auto simp: get_obligation_def book_advanced_def)
  next
    case Other
    then show ?thesis using assms(3) by (simp add: get_obligation_def same_obligations_def)
  qed
qed

theorem obligation_only_advances_witness:
  "\<exists>ob'. get_obligation 1 sample_sa_settled = Some ob' \<and> advances sample_obligation ob'"
proof -
  have "get_obligation 1 sample_sa_recorded = Some sample_obligation"
    by (simp add: get_obligation_def sample_sa_recorded(2) sample_obligation_def)
  from obligation_only_advances [OF sample_sa_reachable(2) step_settled [OF sample_sa_settled] this]
  show ?thesis by blast
qed

text \<open>C29. A call of \<open>record_obligation\<close> on a reachable book succeeds exactly when the bound
  PayoutReceiver authorised it with a positive amount and either the policy has the same
  obligation already, or it has none and the counters have room. For a policy that has an obligation
  a call with the same fields answers that obligation as it is now, with its attestations, and
  changes no obligation and publishes nothing; a call with any other field is refused as a conflict.
  For a policy that has none the answer is a new obligation with the next id and the next place of
  the organisation, owed, with the arguments as its fields; it is stored under that id only, found
  for the policy, counted once and published once. So the call is idempotent: after a success,
  repeating it whenever authorised answers the same obligation and changes nothing, and a different
  obligation for the policy is refused.\<close>

theorem record_obligation_exact:
  assumes "sa_reachable s"
  shows "(\<exists>r. record_obligation e caller pid org amount digest s = Inr r) =
     (sa_payout_receiver s = Some caller \<and> authorizes e caller \<and> 0 < amount \<and>
      (case obligation_for s (caller, pid) of
         Some ob \<Rightarrow> o_org ob = org \<and> o_amount ob = amount \<and> o_determination_digest ob = digest
       | None \<Rightarrow> (\<exists>n. obligation_count s = Inr n \<and> n + 1 < u64_max) \<and> org_obligation_count org s < u32_max)) \<and>
    (\<forall>ob s'. record_obligation e caller pid org amount digest s = Inr (ob, s') \<longrightarrow>
      (case obligation_for s (caller, pid) of
         Some old \<Rightarrow> ob = old \<and> same_obligations s s' \<and> sa_events s' = sa_events s
       | None \<Rightarrow> \<exists>n. obligation_count s = Inr n \<and> obligation_count s' = Inr (n + 1) \<and>
           ob = fresh_obligation e (n + 1) caller pid org amount digest (org_obligation_count org s) \<and>
           get (sa_obligation s') = (get (sa_obligation s))(n + 1 \<mapsto> ob) \<and>
           find_obligation caller pid s' = Some (n + 1) \<and>
           org_obligation_count org s' = org_obligation_count org s + 1 \<and>
           sa_events s' = sa_events s @ [ObligationRecorded (n + 1) pid org caller amount digest]) \<and>
      (\<forall>e'. authorizes e' caller \<longrightarrow> (\<exists>s''. record_obligation e' caller pid org amount digest s' = Inr (ob, s'') \<and>
         same_obligations s' s'' \<and> sa_events s'' = sa_events s')) \<and>
      (\<forall>e' org' amount' digest'. authorizes e' caller \<and> 0 < amount' \<and>
         (org', amount', digest') \<noteq> (org, amount, digest) \<longrightarrow>
         record_obligation e' caller pid org' amount' digest' s' = Inl (AdapterE ObligationConflict)))"
    (is "_ \<and> (\<forall>ob s'. ?call ob s' \<longrightarrow> ?effect ob s')")
proof (rule conjI [OF record_obligation_iff [OF sa_reachable_inv [OF assms]]], intro allI impI)
  fix ob s'
  note inv = sa_reachable_inv [OF assms]
  assume call: "record_obligation e caller pid org amount digest s = Inr (ob, s')"
  note pre = record_obligation_Inr(1) [OF call]
  have inv': "sa_inv s'" by (rule record_obligation_step [OF call inv])
  have bound: "sa_payout_receiver s' = Some caller"
    using sa_book.stays_bound [OF inv call] pre by (simp add: adapter_payout_receiver_def)
  have stored: "obligation_for s' (caller, pid) = Some ob" using sa_ledger.record_stores [OF inv call] by simp
  have fields: "o_org ob = org" "o_amount ob = amount" "o_determination_digest ob = digest" "0 < amount"
    using sa_ledger.record_faithful [OF inv call] by simp_all
  have "record_obligation e' caller pid org amount digest s' = Inr (ob, sa_touch e' s')"
    if "authorizes e' caller" for e'
    using record_known [OF bound that fields(4) stored, of org digest] fields by simp
  then have repeat_call: "\<forall>e'. authorizes e' caller \<longrightarrow>
      (\<exists>s''. record_obligation e' caller pid org amount digest s' = Inr (ob, s'') \<and>
         same_obligations s' s'' \<and> sa_events s'' = sa_events s')"
    by (fastforce simp: same_obligations_def)
  have conflict: "\<forall>e' org' amount' digest'. authorizes e' caller \<and> 0 < amount' \<and>
         (org', amount', digest') \<noteq> (org, amount, digest) \<longrightarrow>
         record_obligation e' caller pid org' amount' digest' s' = Inl (AdapterE ObligationConflict)"
    using record_known [OF bound _ _ stored] fields by simp
  show "?effect ob s'"
    by (rule conjI [OF record_effect [OF inv call] conjI [OF repeat_call conflict]])
qed

theorem record_obligation_exact_witness:
  "\<exists>s''. record_obligation sample_env (Address 200) 9 (Address 6) 450 77 sample_sa_recorded = Inr (sample_obligation, s'') \<and>
     same_obligations sample_sa_recorded s'' \<and> sa_events s'' = sa_events sample_sa_recorded"
proof -
  have "authorizes sample_env (Address 200)" using record_obligation_Inr(1) [OF sample_sa_recorded(1)] by simp
  then show ?thesis
    using record_obligation_exact [OF sample_sa_reachable(1), of sample_env "Address 200" 9 "Address 6" 450 77]
      sample_sa_recorded(1) by blast
qed

text \<open>C30. Refinement: on a reachable book \<open>mark_funded\<close> is its guards (signature, non-zero
  reference, Funder role, known id) followed by the abstract attestation on that one obligation:
  same answer, same error, and the book changes at that id only.\<close>

theorem mark_funded_refines:
  assumes "sa_reachable s"
  shows "map_sum id (\<lambda>(ob, s'). (ob, get (sa_obligation s'))) (mark_funded e caller i r s) =
    bindE (mark_guard e caller i r s) (\<lambda>ob. map_sum AdapterE
      (\<lambda>ob'. (ob', (get (sa_obligation s))(i \<mapsto> ob'))) (attest_funded caller (timestamp e) r ob))"
proof -
  note inv = sa_reachable_inv [OF assms]
  show ?thesis
  proof (cases "mark_guard e caller i r s")
    case (Inr ob)
    then have ob: "get (sa_obligation s) i = Some ob" "o_id ob = i"
      using sa_invD(2) [OF inv] by (auto simp: mark_guard_Inr)
    have "o_id ob' = i" if "attest_funded caller (timestamp e) r ob = Inr ob'" for ob'
      by (cases rule: attest_funded_cases [OF that]) (simp_all add: ob(2))
    then show ?thesis
      using ob by (auto simp: mark_funded_eq [OF inv] Inr fun_upd_idem split: sum.split)
  qed (simp add: mark_funded_eq [OF inv])
qed

theorem mark_funded_refines_witness:
  "map_sum id (\<lambda>(ob, s'). (ob, get (sa_obligation s'))) (mark_funded sample_env (Address 13) 1 5 sample_sa_recorded) =
   bindE (mark_guard sample_env (Address 13) 1 5 sample_sa_recorded) (\<lambda>ob. map_sum AdapterE
      (\<lambda>ob'. (ob', (get (sa_obligation sample_sa_recorded))(1 \<mapsto> ob')))
      (attest_funded (Address 13) (timestamp sample_env) 5 ob))"
  by (rule mark_funded_refines [OF sample_sa_reachable(2)])

text \<open>Refinement: the same for \<open>mark_settled\<close>, which also accepts an obligation that was
  never attested as funded, and answers a repeated reference without a change.\<close>

theorem mark_settled_refines:
  assumes "sa_reachable s"
  shows "map_sum id (\<lambda>(ob, s'). (ob, get (sa_obligation s'))) (mark_settled e caller i r s) =
    bindE (mark_guard e caller i r s) (\<lambda>ob. map_sum AdapterE
      (\<lambda>ob'. (ob', (get (sa_obligation s))(i \<mapsto> ob'))) (attest_settled caller (timestamp e) r ob))"
proof -
  note inv = sa_reachable_inv [OF assms]
  show ?thesis
  proof (cases "mark_guard e caller i r s")
    case (Inr ob)
    then have ob: "get (sa_obligation s) i = Some ob" "o_id ob = i"
      using sa_invD(2) [OF inv] by (auto simp: mark_guard_Inr)
    have "o_id ob' = i" if "attest_settled caller (timestamp e) r ob = Inr ob'" for ob'
      by (cases rule: attest_settled_cases [OF that]) (simp_all add: ob(2))
    then show ?thesis
      using ob by (auto simp: mark_settled_eq [OF inv] Inr fun_upd_idem split: sum.split)
  qed (simp add: mark_settled_eq [OF inv])
qed

theorem mark_settled_refines_witness:
  "map_sum id (\<lambda>(ob, s'). (ob, get (sa_obligation s'))) (mark_settled sample_env (Address 13) 1 5 sample_sa_recorded) =
   Inr (sample_settled, (get (sa_obligation sample_sa_recorded))(1 \<mapsto> sample_settled))"
proof -
  have "get (sa_obligation sample_sa_recorded) 1 = Some sample_obligation"
    by (simp add: sample_sa_recorded(2) sample_obligation_def)
  then have "mark_guard sample_env (Address 13) 1 5 sample_sa_recorded = Inr sample_obligation"
    by (simp add: mark_guard_def sample_sa_recorded(2) sample_sa_ready(2))
  moreover have "attest_settled (Address 13) (timestamp sample_env) 5 sample_obligation = Inr sample_settled"
    by (simp add: attest_settled_def sample_settled_def sample_obligation_def)
  ultimately show ?thesis
    using mark_settled_refines [OF sample_sa_reachable(2), of sample_env "Address 13" 1 5] by simp
qed

text \<open>Reading an organisation's index page by page with any positive page size returns, oldest
  first and without repeat, exactly the ids of its obligations.\<close>

theorem org_pages_complete:
  assumes "sa_reachable s" and "0 < limit"
  shows "let ids = concat (map (\<lambda>k. get_org_obligations org (k * min limit SA_MAX_PAGE_SIZE) limit s)
             [0..<org_obligation_count org s])
         in distinct ids \<and> set ids = {i. \<exists>ob. get_obligation i s = Some ob \<and> o_org ob = org}"
proof -
  note inv = sa_reachable_inv [OF assms(1)]
  let ?item = "\<lambda>j. get (sa_org_at s) (org, j)"
  have size: "org_obligation_count org s = org_size s org" by (simp add: org_obligation_count_def org_size_def)
  have stored: "\<exists>i. ?item j = Some i" if "j < org_size s org" for j
    using sa_invD(6) [OF inv] that by blast
  have pages: "concat (map (\<lambda>k. get_org_obligations org (k * min limit SA_MAX_PAGE_SIZE) limit s)
      [0..<org_obligation_count org s]) = sa_pages.listing s org"
    using sa_pages.pages_complete [OF inv assms(2), of org] by (simp add: size)
  have "inj_on (\<lambda>j. the (?item j)) (set [0..<org_size s org])"
  proof (rule inj_onI)
    fix j k
    assume "j \<in> set [0..<org_size s org]" and "k \<in> set [0..<org_size s org]" and eq: "the (?item j) = the (?item k)"
    then obtain i where j: "?item j = Some i" and k: "?item k = Some i" using stored by fastforce
    from sa_invD(4) [OF inv j] sa_invD(4) [OF inv k] show "j = k" by auto
  qed
  then have "distinct (sa_pages.listing s org)" by (simp add: sa_pages.listing_def distinct_map)
  moreover have "set (sa_pages.listing s org) = {i. \<exists>ob. get_obligation i s = Some ob \<and> o_org ob = org}"
  proof (rule set_eqI, rule iffI)
    fix i
    assume "i \<in> set (sa_pages.listing s org)"
    then obtain j where j: "?item j = Some i" using stored by (fastforce simp: sa_pages.listing_def)
    show "i \<in> {i. \<exists>ob. get_obligation i s = Some ob \<and> o_org ob = org}"
      using sa_invD(4) [OF inv j] by (auto simp: get_obligation_def)
  next
    fix i
    assume "i \<in> {i. \<exists>ob. get_obligation i s = Some ob \<and> o_org ob = org}"
    then obtain ob where ob: "get (sa_obligation s) i = Some ob" "o_org ob = org"
      by (auto simp: get_obligation_def)
    have "?item (o_org_index ob) = Some i" using sa_invD(2) [OF inv ob(1)] ob(2) by simp
    moreover from this have "o_org_index ob < org_size s org" using sa_invD(6) [OF inv] by blast
    ultimately show "i \<in> set (sa_pages.listing s org)"
      unfolding sa_pages.listing_def set_map by (intro image_eqI [of i _ "o_org_index ob"]) simp_all
  qed
  ultimately show ?thesis by (simp add: pages Let_def)
qed

theorem org_pages_complete_witness:
  "\<exists>ids. distinct ids \<and> set ids = {i. \<exists>ob. get_obligation i sample_sa_recorded = Some ob \<and> o_org ob = Address 6}"
  using org_pages_complete [OF sample_sa_reachable(2) zero_less_numeral [of "num.Bit0 num.One"], of "Address 6"]
  unfolding Let_def by (rule exI)

end
