(* ===== verification/Interfaces.thy ===== *)
theory Interfaces
  imports PolicyLife SettlementAdapter
begin

text \<open>
  The cross-contract interfaces of \<^verbatim>\<open>crates/shared/src/interfaces.rs\<close> that the PayoutReceiver
  calls through. Each client trait is a record of functions, one per method, on the callee's state;
  the PayoutReceiver is modelled over an arbitrary pair of such records, because on chain it calls
  whatever contract lives at its configured addresses. \<open>real_pm\<close> and \<open>real_adapter\<close> are the
  clients of the modelled contracts. The laws a policy manager promises its caller are the locales
  \<open>policy_source\<close> and \<open>claim_registry\<close>, interpreted on the policy book.
\<close>

section \<open>The client traits\<close>

record 'w pm_client =
  pmc_get_policy :: "env \<Rightarrow> nat \<Rightarrow> 'w \<Rightarrow> error + policy \<times> 'w"
  pmc_policy_exists :: "env \<Rightarrow> nat \<Rightarrow> 'w \<Rightarrow> error + bool \<times> 'w"
  pmc_can_farmer_claim :: "env \<Rightarrow> address \<Rightarrow> 'w \<Rightarrow> error + bool \<times> 'w"
  pmc_mark_as_claimed :: "env \<Rightarrow> address \<Rightarrow> nat \<Rightarrow> 'w \<Rightarrow> error + 'w"
  pmc_increment_claim_count :: "env \<Rightarrow> address \<Rightarrow> address \<Rightarrow> 'w \<Rightarrow> error + 'w"
  pmc_extend_policy_ttl :: "env \<Rightarrow> nat \<Rightarrow> 'w \<Rightarrow> error + 'w"
  pmc_extend_contract_ttl :: "env \<Rightarrow> 'w \<Rightarrow> error + 'w"

text \<open>
  Besides the four methods of the trait, the PayoutReceiver extends the rent of the adapter's
  instance through the host: the last field applies a change of horizon to it.
\<close>

record 'a adapter_client =
  adc_record_obligation ::
    "env \<Rightarrow> address \<Rightarrow> nat \<Rightarrow> address \<Rightarrow> int \<Rightarrow> bytes32 \<Rightarrow> 'a \<Rightarrow> error + obligation \<times> 'a"
  adc_payout_receiver :: "env \<Rightarrow> 'a \<Rightarrow> error + address option \<times> 'a"
  adc_find_obligation :: "env \<Rightarrow> address \<Rightarrow> nat \<Rightarrow> 'a \<Rightarrow> error + nat option \<times> 'a"
  adc_extend_obligation_ttl :: "env \<Rightarrow> nat \<Rightarrow> 'a \<Rightarrow> error + 'a"
  adc_instance_live :: "(nat \<Rightarrow> nat) \<Rightarrow> 'a \<Rightarrow> 'a"

section \<open>The modelled contracts as clients\<close>

definition real_pm :: "(nfts \<times> pm_state) pm_client" where
  "real_pm =
     \<lparr>pmc_get_policy = (\<lambda>e i w. bindE (pm_get_policy e i (snd w)) (\<lambda>(p, s). Inr (p, (fst w, s)))),
      pmc_policy_exists = (\<lambda>e i w. Inr (pm_policy_exists i (snd w), w)),
      pmc_can_farmer_claim = (\<lambda>e a w. Inr (pm_can_farmer_claim e a (snd w), w)),
      pmc_mark_as_claimed = (\<lambda>e c i w. mark_as_claimed e c i (fst w) (snd w)),
      pmc_increment_claim_count =
        (\<lambda>e c a w. bindE (increment_claim_count e c a (snd w)) (\<lambda>s. Inr (fst w, s))),
      pmc_extend_policy_ttl = (\<lambda>e i w. pm_extend_policy_ttl e i (fst w) (snd w)),
      pmc_extend_contract_ttl = (\<lambda>e w. pm_extend_contract_ttl e (fst w) (snd w))\<rparr>"

definition real_adapter :: "sa_state adapter_client" where
  "real_adapter =
     \<lparr>adc_record_obligation = record_obligation,
      adc_payout_receiver = (\<lambda>e a. Inr (adapter_payout_receiver a, a)),
      adc_find_obligation = (\<lambda>e pr i a. Inr (find_obligation pr i a, a)),
      adc_extend_obligation_ttl = extend_obligation_ttl,
      adc_instance_live = (\<lambda>f a. a\<lparr>sa_instance_live := f (sa_instance_live a)\<rparr>)\<rparr>"

lemma real_pm_simps [simp]:
  "pmc_get_policy real_pm e i w = bindE (pm_get_policy e i (snd w)) (\<lambda>(p, s). Inr (p, (fst w, s)))"
  "pmc_policy_exists real_pm e i w = Inr (pm_policy_exists i (snd w), w)"
  "pmc_can_farmer_claim real_pm e a w = Inr (pm_can_farmer_claim e a (snd w), w)"
  "pmc_mark_as_claimed real_pm e c i w = mark_as_claimed e c i (fst w) (snd w)"
  "pmc_increment_claim_count real_pm e c a w = bindE (increment_claim_count e c a (snd w)) (\<lambda>s. Inr (fst w, s))"
  "pmc_extend_policy_ttl real_pm e i w = pm_extend_policy_ttl e i (fst w) (snd w)"
  "pmc_extend_contract_ttl real_pm e w = pm_extend_contract_ttl e (fst w) (snd w)"
  by (simp_all add: real_pm_def)

lemma real_adapter_simps [simp]:
  "adc_record_obligation real_adapter = record_obligation"
  "adc_payout_receiver real_adapter e a = Inr (adapter_payout_receiver a, a)"
  "adc_find_obligation real_adapter e pr i a = Inr (find_obligation pr i a, a)"
  "adc_extend_obligation_ttl real_adapter = extend_obligation_ttl"
  "adc_instance_live real_adapter f a = a\<lparr>sa_instance_live := f (sa_instance_live a)\<rparr>"
  by (simp_all add: real_adapter_def)

section \<open>What a policy manager promises\<close>

text \<open>
  \<open>look\<close> reads a policy, \<open>claimer\<close> the holders of the claiming right, \<open>can\<close> the claim limit; \<open>sound\<close> is
  the manager's own invariant. Reads may pay rent, so they return a new state that looks the same.
\<close>

locale policy_source =
  fixes client :: "'w pm_client"
    and look :: "'w \<Rightarrow> nat \<Rightarrow> policy option"
    and claimer :: "'w \<Rightarrow> address \<Rightarrow> bool"
    and can :: "env \<Rightarrow> 'w \<Rightarrow> address \<Rightarrow> bool"
    and sound :: "'w \<Rightarrow> bool"
  assumes exists_law: "sound w \<Longrightarrow> pmc_policy_exists client e i w = Inr (look w i \<noteq> None, w)"
    and can_law: "sound w \<Longrightarrow> pmc_can_farmer_claim client e a w = Inr (can e w a, w)"
    and get_some: "sound w \<Longrightarrow> look w i = Some p \<Longrightarrow> \<exists>w'. pmc_get_policy client e i w = Inr (p, w')"
    and get_effect: "sound w \<Longrightarrow> pmc_get_policy client e i w = Inr (p, w') \<Longrightarrow>
        look w i = Some p \<and> sound w' \<and> look w' = look w \<and> claimer w' = claimer w \<and> (\<forall>e'. can e' w' = can e' w)"
    and mark_some: "sound w \<Longrightarrow> authorizes e c \<Longrightarrow> claimer w c \<Longrightarrow> look w i = Some p \<Longrightarrow>
        p_status p = Active \<Longrightarrow> timestamp e \<le> p_end_date p \<Longrightarrow> \<exists>w'. pmc_mark_as_claimed client e c i w = Inr w'"
    and mark_effect: "sound w \<Longrightarrow> pmc_mark_as_claimed client e c i w = Inr w' \<Longrightarrow>
        authorizes e c \<and> claimer w c \<and> sound w' \<and> claimer w' = claimer w \<and> (\<forall>e'. can e' w' = can e' w) \<and>
        (\<exists>p. look w i = Some p \<and> look w' = (look w)(i \<mapsto> p\<lparr>p_status := Claimed\<rparr>))"
    and count_effect: "sound w \<Longrightarrow> pmc_increment_claim_count client e c a w = Inr w' \<Longrightarrow>
        authorizes e c \<and> claimer w c \<and> sound w' \<and> claimer w' = claimer w \<and> look w' = look w"
begin

text \<open>A claimed policy stays readable, and it is the only one that changed.\<close>

lemma mark_then_get:
  assumes "sound w" and "pmc_mark_as_claimed client e c i w = Inr w'" and "look w j = Some p"
  shows "\<exists>q w''. pmc_get_policy client e' j w' = Inr (q, w'') \<and>
     (if j = i then q = p\<lparr>p_status := Claimed\<rparr> else q = p)"
proof -
  have "sound w'" and "look w' j = Some (if j = i then p\<lparr>p_status := Claimed\<rparr> else p)"
    using mark_effect [OF assms(1,2)] assms(3) by auto
  from get_some [OF this] show ?thesis by (cases "j = i") auto
qed

lemma mark_needs_oracle: "sound w \<Longrightarrow> \<not> claimer w c \<Longrightarrow> pmc_mark_as_claimed client e c i w \<noteq> Inr w'"
  using mark_effect by blast

end

text \<open>A registry also enforces the claim limit, exactly as its query answers.\<close>

locale claim_registry = policy_source +
  assumes count_law: "sound w \<Longrightarrow>
      (\<exists>w'. pmc_increment_claim_count client e c a w = Inr w') \<longleftrightarrow> authorizes e c \<and> claimer w c \<and> can e w a"
    and mark_law: "sound w \<Longrightarrow> pmc_mark_as_claimed client e c i w = Inr w' \<Longrightarrow>
      \<exists>p. look w i = Some p \<and> p_status p = Active \<and> timestamp e \<le> p_end_date p"
begin

text \<open>
  Settling a claim is the pair of the two writes. It goes through exactly for a claimer, an active
  policy and a farmer below the limit, and it cannot be repeated.
\<close>

definition settle :: "env \<Rightarrow> address \<Rightarrow> nat \<Rightarrow> address \<Rightarrow> 'a \<Rightarrow> error + 'a" where
  "settle e c i a w =
     bindE (pmc_mark_as_claimed client e c i w) (\<lambda>w. pmc_increment_claim_count client e c a w)"

lemma settle_exact:
  assumes "sound w"
  shows "(\<exists>w'. settle e c i a w = Inr w') \<longleftrightarrow> authorizes e c \<and> claimer w c \<and> can e w a \<and>
     (\<exists>p. look w i = Some p \<and> p_status p = Active \<and> timestamp e \<le> p_end_date p)"
proof
  assume "\<exists>w'. settle e c i a w = Inr w'"
  then obtain w1 w' where m: "pmc_mark_as_claimed client e c i w = Inr w1"
    and c: "pmc_increment_claim_count client e c a w1 = Inr w'" by (auto simp: settle_def bindE_eq_Inr)
  note eff = mark_effect [OF assms m]
  with c count_law [of w1 e c a] mark_law [OF assms m] show "authorizes e c \<and> claimer w c \<and> can e w a \<and>
     (\<exists>p. look w i = Some p \<and> p_status p = Active \<and> timestamp e \<le> p_end_date p)" by auto
next
  assume pre: "authorizes e c \<and> claimer w c \<and> can e w a \<and>
     (\<exists>p. look w i = Some p \<and> p_status p = Active \<and> timestamp e \<le> p_end_date p)"
  then obtain w1 where m: "pmc_mark_as_claimed client e c i w = Inr w1" using mark_some [OF assms] by blast
  have "\<exists>w'. pmc_increment_claim_count client e c a w1 = Inr w'"
    using mark_effect [OF assms m] pre count_law [of w1 e c a] by simp
  then show "\<exists>w'. settle e c i a w = Inr w'" by (simp add: settle_def m)
qed

lemma settle_effect:
  assumes "sound w" and "settle e c i a w = Inr w'"
  shows "sound w' \<and> claimer w' = claimer w \<and> (\<exists>p. look w i = Some p \<and> p_status p = Active \<and>
     timestamp e \<le> p_end_date p \<and> look w' = (look w)(i \<mapsto> p\<lparr>p_status := Claimed\<rparr>))"
proof -
  obtain w1 where m: "pmc_mark_as_claimed client e c i w = Inr w1"
    and c: "pmc_increment_claim_count client e c a w1 = Inr w'"
    using assms(2) by (auto simp: settle_def bindE_eq_Inr)
  note eff = mark_effect [OF assms(1) m]
  with count_effect [OF _ c] mark_law [OF assms(1) m] show ?thesis by auto
qed

lemma settle_once:
  assumes "sound w" and "settle e c i a w = Inr w'"
  shows "settle e' c' i a' w' \<noteq> Inr w''"
proof
  assume again: "settle e' c' i a' w' = Inr w''"
  have "sound w'" using settle_effect [OF assms] by simp
  with settle_effect [OF this again] settle_effect [OF assms] show False by auto
qed

end

section \<open>The policy book keeps the promises\<close>

definition pm_sound :: "nfts \<times> pm_state \<Rightarrow> bool" where
  "pm_sound w \<longleftrightarrow> pm_ok (pm_view (snd w)) \<and> nft_wired (pm_policy_nft (snd w)) (fst w)"

lemma rest_oracle: "pm_rest s' = (holds (pm_roles s), a, b) \<Longrightarrow> holds (pm_roles s') = holds (pm_roles s)"
  "pm_rest s' = (x, pm_policy_nft s, b) \<Longrightarrow> pm_policy_nft s' = pm_policy_nft s"
  by (simp_all add: pm_rest_def)

lemma can_of_view:
  "pm_can_farmer_claim e a s \<longleftrightarrow>
     length (filter (recent (timestamp e)) (claims_of (pm_view s) a)) < MAX_CLAIMS_PER_FARMER_PER_YEAR"
  by (simp add: pm_can_farmer_claim_def claims_in_window_eq)

lemma nft_closed_wired: "nft_closed e i w n n' sk \<Longrightarrow> nft_wired x n \<Longrightarrow> nft_wired x n'"
  by (auto simp: nft_closed_def nft_wired_def)

lemma can_same: "v_claims (pm_view s') = v_claims (pm_view s) \<Longrightarrow> pm_can_farmer_claim e a s' = pm_can_farmer_claim e a s"
  by (simp add: can_of_view claims_of_def)

lemma a_close_look:
  "v_policy (a_close st p v) = (v_policy v)(p_id p \<mapsto> p\<lparr>p_status := st\<rparr>)"
  "v_claims (a_close st p v) = v_claims v"
  by (simp_all add: a_close_def)

interpretation pm_registry: claim_registry real_pm "\<lambda>w. get (pm_policy (snd w))"
  "\<lambda>w. holds (pm_roles (snd w)) Oracle" "\<lambda>e w a. pm_can_farmer_claim e a (snd w)" pm_sound
proof unfold_locales
  fix w w' :: "nfts \<times> pm_state" and e c i a p
  assume sound: "pm_sound w"
  then have ok: "pm_ok (pm_view (snd w))" and wired: "nft_wired (pm_policy_nft (snd w)) (fst w)"
    by (simp_all add: pm_sound_def)
  show "pmc_policy_exists real_pm e i w = Inr (get (pm_policy (snd w)) i \<noteq> None, w)"
    by (simp add: pm_policy_exists_def has_iff)
  show "pmc_can_farmer_claim real_pm e a w = Inr (pm_can_farmer_claim e a (snd w), w)" by simp
  show "\<exists>w'. pmc_get_policy real_pm e i w = Inr (p, w')" if p: "get (pm_policy (snd w)) i = Some p"
    using load_policy_eq [OF p] pm_okD(3) [OF ok, of i p] p by (simp add: pm_get_policy_def)
  show "get (pm_policy (snd w)) i = Some p \<and> pm_sound w' \<and>
      get (pm_policy (snd w')) = get (pm_policy (snd w)) \<and>
      holds (pm_roles (snd w')) Oracle = holds (pm_roles (snd w)) Oracle \<and>
      (\<forall>e'. (\<lambda>a. pm_can_farmer_claim e' a (snd w')) = (\<lambda>a. pm_can_farmer_claim e' a (snd w)))"
    if call: "pmc_get_policy real_pm e i w = Inr (p, w')"
  proof -
    obtain s' where load: "load_policy e i (snd w) = Inr (p, s')" and w': "w' = (fst w, s')"
      using call by (auto simp: pm_get_policy_def bindE_eq_Inr)
    note same = pm_read_same [OF ok load]
    have "get (pm_policy s') = get (pm_policy (snd w))" using arg_cong [OF same(1), of v_policy] by simp
    with same load_policy_Inr [OF load] sound show ?thesis
      by (simp add: w' pm_sound_def can_of_view) (simp add: pm_rest_def)
  qed
  show "\<exists>w'. pmc_mark_as_claimed real_pm e c i w = Inr w'"
    if "authorizes e c" and "holds (pm_roles (snd w)) Oracle c" and "get (pm_policy (snd w)) i = Some p"
      and "p_status p = Active" and "timestamp e \<le> p_end_date p"
    using mark_as_claimed_ok [OF ok that wired] by auto
  show "authorizes e c \<and> holds (pm_roles (snd w)) Oracle c \<and> pm_sound w' \<and>
      holds (pm_roles (snd w')) Oracle = holds (pm_roles (snd w)) Oracle \<and>
      (\<forall>e'. (\<lambda>a. pm_can_farmer_claim e' a (snd w')) = (\<lambda>a. pm_can_farmer_claim e' a (snd w))) \<and>
      (\<exists>p. get (pm_policy (snd w)) i = Some p \<and>
         get (pm_policy (snd w')) = (get (pm_policy (snd w)))(i \<mapsto> p\<lparr>p_status := Claimed\<rparr>))"
    if call: "pmc_mark_as_claimed real_pm e c i w = Inr w'"
  proof -
    have "mark_as_claimed e c i (fst w) (snd w) = Inr (fst w', snd w')" using call by simp
    from mark_as_claimed_Inr [OF ok this] obtain q sk where
      q: "authorizes e c" "holds (pm_roles (snd w)) Oracle c" "get (pm_policy (snd w)) i = Some q" "p_status q = Active"
      and view: "pm_view (snd w') = a_close Claimed q (pm_view (snd w))"
      and nft: "nft_closed e i (pm_policy_nft (snd w)) (fst w) (fst w') sk"
      and rest: "pm_rest (snd w') = (holds (pm_roles (snd w)), pm_policy_nft (snd w), pm_events (snd w) @ sk @ [PolicyClaimed i (timestamp e)])"
      by blast
    have id: "p_id q = i" using pm_okD(3) [OF ok, of i q] q(3) by simp
    have "pm_ok (pm_view (snd w'))"
      unfolding view using pm_ok_close [OF ok, of i q Claimed] q id by (simp add: is_open_def)
    moreover have "get (pm_policy (snd w')) = (get (pm_policy (snd w)))(i \<mapsto> q\<lparr>p_status := Claimed\<rparr>)"
      using arg_cong [OF view, of v_policy] id by (simp add: a_close_look)
    ultimately show ?thesis
      using q rest_oracle [OF rest] nft_closed_wired [OF nft wired] rest
      by (auto simp: pm_sound_def rest_oracle intro!: ext can_same simp: view a_close_look simp flip: pm_view_sel(7))
  qed
  show "authorizes e c \<and> holds (pm_roles (snd w)) Oracle c \<and> pm_sound w' \<and>
      holds (pm_roles (snd w')) Oracle = holds (pm_roles (snd w)) Oracle \<and>
      get (pm_policy (snd w')) = get (pm_policy (snd w))"
    if call: "pmc_increment_claim_count real_pm e c a w = Inr w'"
  proof -
    obtain s' where inc: "increment_claim_count e c a (snd w) = Inr s'" and w': "w' = (fst w, s')"
      using call by (auto simp: bindE_eq_Inr)
    note needs = increment_claim_count_needs [OF inc]
    have eff: "pm_view s' = a_claim a (timestamp e) (pm_view (snd w))"
      "holds (pm_roles s') = holds (pm_roles (snd w))" "pm_policy_nft s' = pm_policy_nft (snd w)"
      using increment_claim_count_ok [OF needs] inc by (auto simp: pm_rest_def)
    then have "pm_ok (pm_view s')" using pm_ok_claim [OF ok] by simp
    moreover have "get (pm_policy s') = get (pm_policy (snd w))"
      using arg_cong [OF eff(1), of v_policy] by (simp add: a_claim_def)
    ultimately show ?thesis using needs eff(2,3) wired by (simp add: w' pm_sound_def)
  qed
  show "(\<exists>w'. pmc_increment_claim_count real_pm e c a w = Inr w') \<longleftrightarrow>
      authorizes e c \<and> holds (pm_roles (snd w)) Oracle c \<and> pm_can_farmer_claim e a (snd w)"
    using increment_claim_count_ok [of e c "snd w" a] increment_claim_count_needs [of e c a "snd w"]
    by (auto simp: bindE_eq_Inr pm_can_farmer_claim_def)
  show "\<exists>p. get (pm_policy (snd w)) i = Some p \<and> p_status p = Active \<and> timestamp e \<le> p_end_date p"
    if "pmc_mark_as_claimed real_pm e c i w = Inr w'"
    using claim_guards(3) that by auto
qed

end
