(* ===== verification/Drought.thy ===== *)
theory Drought
  imports Host
begin

text \<open>
  The rdi-1.0 drought index of \<^verbatim>\<open>crates/shared/src/drought.rs\<close>. The code computes on
  \<open>u128\<close> under checked arithmetic; the model keeps every check, and the lemmas show that the
  guards exclude each overflow, that the result is the methodology's formula, that it is a whole
  percent, and that it moves the right way with the rainfall. The repository's own test vectors
  are evaluated at the end.
\<close>

section \<open>Constants and the index\<close>

definition LGP_DAYS :: nat where "LGP_DAYS = 180"
definition MAX_CDD_W2_DAYS :: nat where "MAX_CDD_W2_DAYS = 40"
definition MAX_RAIN_E2 :: nat where "MAX_RAIN_E2 = 1000000000"
definition SEASON_WINDOW_SECS :: nat where "SEASON_WINDOW_SECS = 110 * 86400"
definition SECONDS_PER_DAY :: nat where "SECONDS_PER_DAY = 86400"
definition KY1_E2 :: nat where "KY1_E2 = 40"
definition KY2_E2 :: nat where "KY2_E2 = 150"

lemmas drought_constants =
  LGP_DAYS_def MAX_CDD_W2_DAYS_def MAX_RAIN_E2_def SEASON_WINDOW_SECS_def SECONDS_PER_DAY_def
  KY1_E2_def KY2_E2_def

definition min_u128 :: "nat \<Rightarrow> nat \<Rightarrow> nat" where
  "min_u128 a b = (if a < b then a else b)"

definition rdi_v1_drought_damage :: "nat \<Rightarrow> nat \<Rightarrow> nat \<Rightarrow> nat \<Rightarrow> error + nat option" where
  "rdi_v1_drought_damage w1 r1 w2 r2 =
     (if r1 = 0 \<or> r2 = 0 \<or> MAX_RAIN_E2 < w1 \<or> MAX_RAIN_E2 < w2 then Inr None
      else
        bindE (mul_u128 1000 w1) (\<lambda>x1.
        let s1 = min_u128 1000 (x1 div r1) in
        bindE (sub_u 100 (s1 div 10)) (\<lambda>d1.
        bindE (mul_u128 KY1_E2 d1) (\<lambda>y1.
        let g1 = min_u128 100 (y1 div 100) in
        bindE (mul_u128 1000 w2) (\<lambda>x2.
        let s2 = min_u128 1000 (x2 div r2) in
        bindE (sub_u 100 (s2 div 10)) (\<lambda>d2.
        bindE (mul_u128 KY2_E2 d2) (\<lambda>y2.
        let g2 = min_u128 100 (y2 div 100) in
        bindE (sub_u 100 g1) (\<lambda>a.
        bindE (sub_u 100 g2) (\<lambda>b.
        bindE (mul_u128 a b) (\<lambda>ab.
        let survival = ab div 100 in
        bindE (sub_u 100 survival) (\<lambda>dd. Inr (Some (dd mod 2 ^ 32)))))))))))))"

section \<open>The methodology's formula\<close>

text \<open>Damage of one window: the deficit in whole percent, weighted by \<open>Ky\<close>, capped at 100.\<close>

definition window_deficit :: "nat \<Rightarrow> nat \<Rightarrow> nat" where
  "window_deficit w r = 100 - min 1000 (1000 * w div r) div 10"

definition window_damage :: "nat \<Rightarrow> nat \<Rightarrow> nat \<Rightarrow> nat" where
  "window_damage ky w r = min 100 (ky * window_deficit w r div 100)"

definition drought_index :: "nat \<Rightarrow> nat \<Rightarrow> nat \<Rightarrow> nat \<Rightarrow> nat" where
  "drought_index w1 r1 w2 r2 =
     100 - (100 - window_damage 40 w1 r1) * (100 - window_damage 150 w2 r2) div 100"

lemma window_deficit_le: "window_deficit w r \<le> 100"
  by (simp add: window_deficit_def)

lemma window_damage_le: "window_damage ky w r \<le> 100"
  by (simp add: window_damage_def)

lemma drought_index_le: "drought_index w1 r1 w2 r2 \<le> 100"
  by (simp add: drought_index_def)

lemma min_u128_eq: "min_u128 a b = min a b"
  by (simp add: min_u128_def)

lemma survival_le: "(100 - a) * (100 - b) div 100 \<le> (100::nat)"
proof -
  have "(100 - a) * (100 - b) \<le> 100 * (100::nat)" by (rule mult_le_mono) simp_all
  then show ?thesis by (simp add: div_le_mono [of _ 10000 100, simplified])
qed

text \<open>The guards make every checked operation succeed, and the result is the formula.\<close>

lemma rdi_eq_index:
  assumes "r1 \<noteq> 0" and "r2 \<noteq> 0" and "w1 \<le> MAX_RAIN_E2" and "w2 \<le> MAX_RAIN_E2"
  shows "rdi_v1_drought_damage w1 r1 w2 r2 = Inr (Some (drought_index w1 r1 w2 r2))"
proof -
  have x: "mul_u128 1000 w1 = Inr (1000 * w1)" "mul_u128 1000 w2 = Inr (1000 * w2)"
    using assms by (simp_all add: u128_max_def MAX_RAIN_E2_def)
  have d: "sub_u 100 (min 1000 q div 10) = Inr (100 - min 1000 q div 10)" for q by simp
  have y: "mul_u128 KY1_E2 (window_deficit w r) = Inr (40 * window_deficit w r)"
    "mul_u128 KY2_E2 (window_deficit w r) = Inr (150 * window_deficit w r)" for w r
    using window_deficit_le [of w r] by (simp_all add: drought_constants u128_max_def)
  have g: "sub_u 100 (window_damage ky w r) = Inr (100 - window_damage ky w r)" for ky w r
    by (simp add: window_damage_le)
  have s: "mul_u128 (100 - a) (100 - b) = Inr ((100 - a) * (100 - b))" for a b
  proof -
    have "(100 - a) * (100 - b) \<le> 100 * 100" by (rule mult_le_mono) simp_all
    then show ?thesis by (simp add: u128_max_def)
  qed
  have small: "drought_index w1 r1 w2 r2 mod 2 ^ 32 = drought_index w1 r1 w2 r2"
    using drought_index_le [of w1 r1 w2 r2] by simp
  have t: "sub_u 100 ((100 - a) * (100 - b) div 100) = Inr (100 - (100 - a) * (100 - b) div 100)"
    for a b by (simp add: survival_le)
  show ?thesis
    unfolding rdi_v1_drought_damage_def min_u128_eq Let_def
    by (simp only: x bindE_Inr d window_deficit_def [symmetric] y window_damage_def [symmetric] g s t
        drought_index_def [symmetric] small) (use assms in auto)
qed

lemma rdi_None_iff:
  "rdi_v1_drought_damage w1 r1 w2 r2 = Inr None \<longleftrightarrow>
     r1 = 0 \<or> r2 = 0 \<or> MAX_RAIN_E2 < w1 \<or> MAX_RAIN_E2 < w2"
proof (cases "r1 = 0 \<or> r2 = 0 \<or> MAX_RAIN_E2 < w1 \<or> MAX_RAIN_E2 < w2")
  case True
  then show ?thesis by (simp only: rdi_v1_drought_damage_def if_True simp_thms)
next
  case False
  then show ?thesis using rdi_eq_index [of r1 r2 w1 w2] by auto
qed

lemma rdi_cases:
  "rdi_v1_drought_damage w1 r1 w2 r2 =
     (if r1 = 0 \<or> r2 = 0 \<or> MAX_RAIN_E2 < w1 \<or> MAX_RAIN_E2 < w2 then Inr None
      else Inr (Some (drought_index w1 r1 w2 r2)))"
  using rdi_None_iff [of w1 r1 w2 r2] rdi_eq_index [of r1 r2 w1 w2] by auto

section \<open>Direction: less rain, more damage\<close>

lemma window_deficit_antimono: "w \<le> w' \<Longrightarrow> window_deficit w' r \<le> window_deficit w r"
  unfolding window_deficit_def by (intro diff_le_mono2 div_le_mono min.mono) simp_all

lemma window_damage_antimono: "w \<le> w' \<Longrightarrow> window_damage ky w' r \<le> window_damage ky w r"
  unfolding window_damage_def
  by (intro min.mono div_le_mono mult_le_mono2 window_deficit_antimono) simp_all

lemma drought_index_antimono:
  assumes "w1 \<le> w1'" and "w2 \<le> w2'"
  shows "drought_index w1' r1 w2' r2 \<le> drought_index w1 r1 w2 r2"
  unfolding drought_index_def
  using assms by (intro diff_le_mono2 div_le_mono mult_le_mono window_damage_antimono)

lemma window_damage_surplus: "0 < r \<Longrightarrow> r \<le> w \<Longrightarrow> window_damage ky w r = 0"
proof -
  assume "0 < r" and "r \<le> w"
  then have "1000 * r div r \<le> 1000 * w div r" by (intro div_le_mono) simp
  then have "1000 \<le> 1000 * w div r" using \<open>0 < r\<close> by simp
  then have "min 1000 (1000 * w div r) = 1000" by (rule min.absorb1)
  then show ?thesis by (simp add: window_damage_def window_deficit_def)
qed

text \<open>A season at or above its reference rainfall in both windows has no damage.\<close>

lemma drought_index_surplus:
  "0 < r1 \<Longrightarrow> r1 \<le> w1 \<Longrightarrow> 0 < r2 \<Longrightarrow> r2 \<le> w2 \<Longrightarrow> drought_index w1 r1 w2 r2 = 0"
  by (simp add: drought_index_def window_damage_surplus)

text \<open>The first window alone never causes more than 40 percent.\<close>

lemma window_damage_first: "window_damage 40 w r \<le> 40"
  using window_deficit_le [of w r] by (simp add: window_damage_def)

lemma drought_index_first_window: "0 < r2 \<Longrightarrow> r2 \<le> w2 \<Longrightarrow> drought_index w1 r1 w2 r2 \<le> 40"
  using window_damage_first [of w1 r1] by (simp add: drought_index_def window_damage_surplus)

section \<open>The repository's canonical vector and edges\<close>

lemma canonical_vectors:
  "drought_index 20000 20000 12600 18000 = 45"
  "drought_index 12500 20000 3000 18000 = 100"
  "drought_index 99999 1 99999 1 = 0"
  "drought_index 0 1 0 1 = 100"
  "drought_index 10000 20000 13500 18000 = 50"
  "drought_index 31130 27260 16280 22305 = 42"
  by (simp_all add: drought_index_def window_damage_def window_deficit_def)

section \<open>Properties\<close>

text \<open>C21. The index is the methodology's formula. For every input the code returns without overflow: no value
  exactly when a reference is zero or a measured rainfall is out of range, and otherwise the
  published formula, a whole percent of at most 100. More rain never means more damage; a season at
  or above its reference in both windows has none; and a good second window limits it to 40.\<close>

theorem drought_index_sound:
  "rdi_v1_drought_damage w1 r1 w2 r2 =
     (if r1 = 0 \<or> r2 = 0 \<or> MAX_RAIN_E2 < w1 \<or> MAX_RAIN_E2 < w2 then Inr None
      else Inr (Some (100 -
        (100 - min 100 (KY1_E2 * (100 - min 1000 (1000 * w1 div r1) div 10) div 100)) *
        (100 - min 100 (KY2_E2 * (100 - min 1000 (1000 * w2 div r2) div 10) div 100)) div 100))) \<and>
   (\<forall>d. rdi_v1_drought_damage w1 r1 w2 r2 = Inr (Some d) \<longrightarrow>
      d \<le> 100 \<and>
      (\<forall>v1 v2 d'. w1 \<le> v1 \<and> w2 \<le> v2 \<and> rdi_v1_drought_damage v1 r1 v2 r2 = Inr (Some d') \<longrightarrow> d' \<le> d) \<and>
      (r1 \<le> w1 \<and> r2 \<le> w2 \<longrightarrow> d = 0) \<and> (r2 \<le> w2 \<longrightarrow> d \<le> 40))"
proof
  show "rdi_v1_drought_damage w1 r1 w2 r2 =
     (if r1 = 0 \<or> r2 = 0 \<or> MAX_RAIN_E2 < w1 \<or> MAX_RAIN_E2 < w2 then Inr None
      else Inr (Some (100 -
        (100 - min 100 (KY1_E2 * (100 - min 1000 (1000 * w1 div r1) div 10) div 100)) *
        (100 - min 100 (KY2_E2 * (100 - min 1000 (1000 * w2 div r2) div 10) div 100)) div 100)))"
    unfolding rdi_cases drought_index_def window_damage_def window_deficit_def KY1_E2_def KY2_E2_def ..
  show "\<forall>d. rdi_v1_drought_damage w1 r1 w2 r2 = Inr (Some d) \<longrightarrow>
      d \<le> 100 \<and>
      (\<forall>v1 v2 d'. w1 \<le> v1 \<and> w2 \<le> v2 \<and> rdi_v1_drought_damage v1 r1 v2 r2 = Inr (Some d') \<longrightarrow> d' \<le> d) \<and>
      (r1 \<le> w1 \<and> r2 \<le> w2 \<longrightarrow> d = 0) \<and> (r2 \<le> w2 \<longrightarrow> d \<le> 40)"
  proof (intro allI impI)
    fix d
    assume "rdi_v1_drought_damage w1 r1 w2 r2 = Inr (Some d)"
    then have d: "d = drought_index w1 r1 w2 r2" "0 < r1" "0 < r2" by (auto simp: rdi_cases split: if_splits)
    have more: "d' \<le> d" if "w1 \<le> v1 \<and> w2 \<le> v2 \<and> rdi_v1_drought_damage v1 r1 v2 r2 = Inr (Some d')" for v1 v2 d'
      using that drought_index_antimono [of w1 v1 w2 v2 r1 r2] by (auto simp: d rdi_cases split: if_splits)
    have "d \<le> 100" by (simp add: d(1) drought_index_le)
    moreover have "r1 \<le> w1 \<and> r2 \<le> w2 \<longrightarrow> d = 0" using d drought_index_surplus by simp
    moreover have "r2 \<le> w2 \<longrightarrow> d \<le> 40" using d drought_index_first_window by simp
    ultimately show "d \<le> 100 \<and>
      (\<forall>v1 v2 d'. w1 \<le> v1 \<and> w2 \<le> v2 \<and> rdi_v1_drought_damage v1 r1 v2 r2 = Inr (Some d') \<longrightarrow> d' \<le> d) \<and>
      (r1 \<le> w1 \<and> r2 \<le> w2 \<longrightarrow> d = 0) \<and> (r2 \<le> w2 \<longrightarrow> d \<le> 40)"
      using more by blast
  qed
qed

theorem drought_index_sound_witness:
  "rdi_v1_drought_damage 31130 27260 16280 22305 = Inr (Some 42) \<and>
   (\<exists>d. rdi_v1_drought_damage 31130 27260 20000 22305 = Inr (Some d) \<and> d \<le> 42)"
proof -
  have dry: "rdi_v1_drought_damage 31130 27260 16280 22305 = Inr (Some 42)"
    using rdi_eq_index [of 27260 22305 31130 16280] canonical_vectors(6) by (simp add: MAX_RAIN_E2_def)
  obtain d where d: "rdi_v1_drought_damage 31130 27260 20000 22305 = Inr (Some d)"
    using rdi_eq_index [of 27260 22305 31130 20000] by (auto simp: MAX_RAIN_E2_def)
  from drought_index_sound [of 31130 27260 16280 22305, THEN conjunct2, rule_format, OF dry]
  have "\<forall>v1 v2 d'. 31130 \<le> v1 \<and> 16280 \<le> v2 \<and> rdi_v1_drought_damage v1 27260 v2 22305 = Inr (Some d') \<longrightarrow> d' \<le> 42"
    by blast
  from this [rule_format, of 31130 20000 d] d dry show ?thesis by simp
qed

end
