(* ===== verification/Encoding.thy ===== *)
theory Encoding
  imports Types
begin

text \<open>
  The frozen byte layouts of \<^verbatim>\<open>crates/shared/src/encoding.rs\<close>. Every scalar is a 32-byte
  big-endian two's-complement word. The word builders keep the source's loops and are shown equal
  to padded big-endian digits, which decode back; from that follow the lengths of the layouts,
  that they determine every signed field, and the binding of a digest to its contract, network
  and fields for a hash without a collision on the two messages compared.
\<close>

section \<open>Big-endian bytes\<close>

definition be_bytes :: "nat \<Rightarrow> nat \<Rightarrow> byte list" where
  "be_bytes n v = map (\<lambda>i. word_of_nat (v div 256 ^ (n - 1 - i))) [0..<n]"

text \<open>\<open>u128::to_be_bytes\<close>, \<open>i128::to_be_bytes\<close> and \<open>BytesN::to_array\<close>.\<close>

definition u128_to_be_bytes :: "nat \<Rightarrow> byte list" where
  "u128_to_be_bytes v = be_bytes 16 v"

definition i128_to_be_bytes :: "int \<Rightarrow> byte list" where
  "i128_to_be_bytes v = be_bytes 16 (nat (v mod 2 ^ 128))"

definition to_array :: "bytes32 \<Rightarrow> byte list" where
  "to_array w = be_bytes 32 (unat w)"

definition be_value :: "byte list \<Rightarrow> nat" where
  "be_value bs = foldl (\<lambda>a b. a * 256 + unat b) 0 bs"

lemma length_be_bytes [simp]: "length (be_bytes n v) = n"
  by (simp add: be_bytes_def)

lemma be_bytes_Suc: "be_bytes (Suc n) v = be_bytes n (v div 256) @ [word_of_nat v]"
proof -
  have "v div 256 ^ (n - i) = v div 256 div 256 ^ (n - 1 - i)" if "i < n" for i
  proof -
    have "n - i = Suc (n - 1 - i)" using that by simp
    then show ?thesis by (simp add: div_mult2_eq)
  qed
  then show ?thesis by (simp add: be_bytes_def)
qed

lemma be_value_append1: "be_value (bs @ [b]) = be_value bs * 256 + unat b"
  by (simp add: be_value_def)

lemma be_value_be_bytes: "be_value (be_bytes n v) = v mod 256 ^ n"
proof (induction n arbitrary: v)
  case 0
  show ?case by (simp add: be_bytes_def be_value_def)
next
  case (Suc n)
  have "be_value (be_bytes (Suc n) v) = (v div 256) mod 256 ^ n * 256 + v mod 256"
    by (simp add: be_bytes_Suc be_value_append1 Suc.IH unat_of_nat)
  also have "\<dots> = v mod (256 * 256 ^ n)"
    by (subst mod_mult2_eq) linarith
  finally show ?case by simp
qed

lemma be_bytes_inj:
  assumes "be_bytes n v = be_bytes n w" and "v < 256 ^ n" and "w < 256 ^ n"
  shows "v = w"
proof -
  have "v mod 256 ^ n = w mod 256 ^ n" by (metis be_value_be_bytes assms(1))
  then show ?thesis by (simp only: mod_less assms(2,3))
qed

section \<open>The 32-byte words\<close>

definition word_from_i128 :: "int \<Rightarrow> byte list" where
  "word_from_i128 v =
     (let w = replicate 32 0;
          w = (if v < 0 then fold (\<lambda>i w. w[i := 255]) [0..<16] w else w);
          be = i128_to_be_bytes v
      in fold (\<lambda>i w. w[16 + i := be ! i]) [0..<16] w)"

definition word_from_u128 :: "nat \<Rightarrow> byte list" where
  "word_from_u128 v =
     (let w = replicate 32 0;
          be = u128_to_be_bytes v
      in fold (\<lambda>i w. w[16 + i := be ! i]) [0..<16] w)"

text \<open>The loops fill positions one after the other.\<close>

lemma fold_fill:
  assumes "length be = n" and "k \<le> n" and "length rest = n"
  shows "fold (\<lambda>i w. w[length pre + i := be ! i]) [0..<k] (pre @ rest) = pre @ take k be @ drop k rest"
  using assms
proof (induction k)
  case 0
  then show ?case by simp
next
  case (Suc k)
  then have "drop k rest = rest ! k # drop (Suc k) rest" by (simp add: Cons_nth_drop_Suc)
  moreover have "take (Suc k) be = take k be @ [be ! k]" using Suc.prems by (simp add: take_Suc_conv_app_nth)
  ultimately show ?case using Suc by (simp add: list_update_append)
qed

lemma fold_fill_all:
  assumes "length be = n" and "length rest = n"
  shows "fold (\<lambda>i w. w[length pre + i := be ! i]) [0..<n] (pre @ rest) = pre @ be"
  using fold_fill [of be n n rest pre] assms by simp

lemma fold_sign: "fold (\<lambda>i w. w[i := 255]) [0..<16] (replicate 32 0) = replicate 16 255 @ replicate 16 (0::byte)"
  by (simp add: upt_rec numeral_eq_Suc)

lemma word_from_u128_eq: "word_from_u128 v = replicate 16 0 @ be_bytes 16 v"
  using fold_fill_all [of "be_bytes 16 v" 16 "replicate 16 0" "replicate 16 0"]
  by (simp add: word_from_u128_def u128_to_be_bytes_def Let_def replicate_add [symmetric])

lemma word_from_i128_eq:
  "word_from_i128 v = replicate 16 (if v < 0 then 255 else 0) @ be_bytes 16 (nat (v mod 2 ^ 128))"
proof (cases "v < 0")
  case True
  then show ?thesis
    using fold_fill_all [of "be_bytes 16 (nat (v mod 2 ^ 128))" 16 "replicate 16 0" "replicate 16 255"]
    by (simp add: word_from_i128_def i128_to_be_bytes_def Let_def fold_sign)
next
  case False
  then show ?thesis
    using fold_fill_all [of "be_bytes 16 (nat (v mod 2 ^ 128))" 16 "replicate 16 0" "replicate 16 0"]
    by (simp add: word_from_i128_def i128_to_be_bytes_def Let_def replicate_add [symmetric])
qed

lemma length_word_from [simp]:
  "length (word_from_u128 v) = 32" "length (word_from_i128 i) = 32" "length (to_array h) = 32"
  by (simp_all add: word_from_u128_eq word_from_i128_eq to_array_def)

subsection \<open>Reading a word back\<close>

text \<open>The reader of the layout: the value of the low 16 bytes, with the sign of the high ones.\<close>

definition decode_u128 :: "byte list \<Rightarrow> nat" where
  "decode_u128 bs = be_value (drop 16 bs)"

definition decode_i128 :: "byte list \<Rightarrow> int" where
  "decode_i128 bs = int (be_value (drop 16 bs)) - (if hd bs = 255 then 2 ^ 128 else 0)"

lemma decode_word_from_u128: "v \<le> u128_max \<Longrightarrow> decode_u128 (word_from_u128 v) = v"
  by (simp add: decode_u128_def word_from_u128_eq be_value_be_bytes u128_max_def)

lemma decode_word_from_i128:
  assumes "i128_min \<le> v" and "v \<le> i128_max"
  shows "decode_i128 (word_from_i128 v) = v"
proof -
  have pow: "(256::nat) ^ 16 = 2 ^ 128" by simp
  have small: "nat (v mod 2 ^ 128) < 2 ^ 128" by (simp add: nat_less_iff)
  have low: "be_value (drop 16 (word_from_i128 v)) = nat (v mod 2 ^ 128)"
    using small by (simp add: word_from_i128_eq be_value_be_bytes)
  have sign: "hd (word_from_i128 v) = (if v < 0 then 255 else 0)"
    by (simp add: word_from_i128_eq)
  have "v mod 2 ^ 128 = (if v < 0 then v + 2 ^ 128 else v)"
  proof (cases "v < 0")
    case True
    have "(v + 2 ^ 128) mod 2 ^ 128 = v + 2 ^ 128"
      using True assms by (intro mod_pos_pos_trivial) (simp_all add: i128_min_def)
    with True show ?thesis by simp
  next
    case False
    with assms show ?thesis by (simp add: i128_max_def)
  qed
  moreover have "0 \<le> v mod 2 ^ 128" by simp
  ultimately show ?thesis using low sign by (simp add: decode_i128_def split: if_splits)
qed

lemma word_from_u128_inj:
  "word_from_u128 v = word_from_u128 w \<Longrightarrow> v \<le> u128_max \<Longrightarrow> w \<le> u128_max \<Longrightarrow> v = w"
  by (metis decode_word_from_u128)

lemma word_from_i128_inj:
  "word_from_i128 v = word_from_i128 w \<Longrightarrow> i128_min \<le> v \<Longrightarrow> v \<le> i128_max \<Longrightarrow>
     i128_min \<le> w \<Longrightarrow> w \<le> i128_max \<Longrightarrow> v = w"
  by (metis decode_word_from_i128)

lemma to_array_inj: "to_array g = to_array h \<longleftrightarrow> g = h"
proof
  assume "to_array g = to_array h"
  moreover have "unat g < 256 ^ 32" "unat h < 256 ^ 32"
    using unsigned_less [of g, where ?'a = nat] unsigned_less [of h, where ?'a = nat] by simp_all
  ultimately have "unat g = unat h" unfolding to_array_def by (rule be_bytes_inj)
  then show "g = h" by (simp add: word_unat_eq_iff)
qed simp

section \<open>Domain strings and the methodology's parameter hash\<close>

definition bytes_of_string :: "string \<Rightarrow> byte list" where
  "bytes_of_string s = map of_char s"

definition SCHEMA_VERSION :: "byte list" where "SCHEMA_VERSION = bytes_of_string ''1.0''"
definition KIND_CROP :: "byte list" where "KIND_CROP = bytes_of_string ''CROP_DAMAGE''"
definition METHODOLOGY_CROP :: "byte list" where
  "METHODOLOGY_CROP = bytes_of_string ''crop-dualindex-1.0''"
definition KIND_DROUGHT :: "byte list" where "KIND_DROUGHT = bytes_of_string ''CROP_DROUGHT''"
definition METHODOLOGY_DROUGHT_RDI_1_0 :: "byte list" where
  "METHODOLOGY_DROUGHT_RDI_1_0 = bytes_of_string ''crop-drought-rdi-1.0''"

definition DROUGHT_PARAMS_HASH_RDI_1_0 :: bytes32 where
  "DROUGHT_PARAMS_HASH_RDI_1_0 =
     0x2580afa0002f8ae349ad078ffea429049ab1c1146be2c56b82f3e45a7cc447cf"

definition DROUGHT_INPUTS_LEN :: nat where "DROUGHT_INPUTS_LEN = 13 * 32"
definition DROUGHT_PREIMAGE_LEN :: nat where
  "DROUGHT_PREIMAGE_LEN = 3 * 32 + 32 + 40 + 32 + 5 * 32"

definition keccak_of :: "env \<Rightarrow> byte list \<Rightarrow> byte list" where
  "keccak_of e s = to_array (keccak256 e s)"

lemma length_keccak_of [simp]: "length (keccak_of e s) = 32"
  by (simp add: keccak_of_def)

section \<open>CROP_DAMAGE\<close>

definition encode_inputs :: "crop_determination \<Rightarrow> byte list" where
  "encode_inputs d =
     word_from_u128 (cd_on_chain_policy_id d) @
     word_from_i128 (cd_latitude_e6 d) @
     word_from_i128 (cd_longitude_e6 d) @
     word_from_i128 (cd_sum_insured d) @
     word_from_i128 (cd_ndvi_scaled d) @
     word_from_u128 (cd_weather_present d) @
     word_from_i128 (cd_weather_temp_c_e2 d) @
     word_from_u128 (cd_weather_precip_e2 d) @
     word_from_u128 (cd_weather_humidity d) @
     word_from_u128 (cd_weather_wind_e2 d)"

definition encode_preimage ::
  "env \<Rightarrow> bytes32 \<Rightarrow> crop_determination \<Rightarrow> address \<Rightarrow> bytes32 \<Rightarrow> byte list" where
  "encode_preimage e inputs_hash d contract network_domain =
     keccak_of e SCHEMA_VERSION @
     keccak_of e KIND_CROP @
     keccak_of e METHODOLOGY_CROP @
     to_array network_domain @
     address_xdr e contract @
     to_array inputs_hash @
     word_from_u128 (cd_on_chain_policy_id d) @
     word_from_u128 (cd_damage_percent_bp d) @
     word_from_u128 (cd_weather_damage d) @
     word_from_u128 (cd_satellite_damage d) @
     word_from_i128 (cd_payout_amount d) @
     word_from_u128 (cd_assessed_at d)"

definition determination_digest ::
  "env \<Rightarrow> crop_determination \<Rightarrow> address \<Rightarrow> bytes32 \<Rightarrow> bytes32" where
  "determination_digest e d contract network_domain =
     (let inputs = encode_inputs d;
          inputs_hash = keccak256 e inputs;
          preimage = encode_preimage e inputs_hash d contract network_domain
      in keccak256 e preimage)"

section \<open>CROP_DROUGHT\<close>

definition encode_drought_inputs :: "drought_determination \<Rightarrow> byte list" where
  "encode_drought_inputs d =
     word_from_u128 (d_on_chain_policy_id d) @
     word_from_i128 (d_latitude_e6 d) @
     word_from_i128 (d_longitude_e6 d) @
     word_from_i128 (d_sum_insured d) @
     word_from_u128 (d_season_start_epoch d) @
     word_from_u128 (d_lgp_days d) @
     word_from_u128 (d_rain_w1_e2 d) @
     word_from_u128 (d_rain_ref_w1_e2 d) @
     word_from_u128 (d_rain_w2_e2 d) @
     word_from_u128 (d_rain_ref_w2_e2 d) @
     word_from_u128 (d_cdd_w2_days d) @
     to_array (d_source_hash d) @
     to_array (d_methodology_params_hash d)"

definition encode_drought_preimage ::
  "env \<Rightarrow> bytes32 \<Rightarrow> drought_determination \<Rightarrow> address \<Rightarrow> bytes32 \<Rightarrow> byte list" where
  "encode_drought_preimage e inputs_hash d contract network_domain =
     keccak_of e SCHEMA_VERSION @
     keccak_of e KIND_DROUGHT @
     keccak_of e METHODOLOGY_DROUGHT_RDI_1_0 @
     to_array network_domain @
     address_xdr e contract @
     to_array inputs_hash @
     word_from_u128 (d_on_chain_policy_id d) @
     word_from_u128 (d_damage_percent_bp d) @
     word_from_u128 (d_drought_damage d) @
     word_from_i128 (d_payout_amount d) @
     word_from_u128 (d_assessed_at d)"

definition drought_determination_digest ::
  "env \<Rightarrow> drought_determination \<Rightarrow> address \<Rightarrow> bytes32 \<Rightarrow> bytes32" where
  "drought_determination_digest e d contract network_domain =
     (let inputs = encode_drought_inputs d;
          inputs_hash = keccak256 e inputs;
          preimage = encode_drought_preimage e inputs_hash d contract network_domain
      in keccak256 e preimage)"

section \<open>Widths of the fields\<close>

text \<open>The ranges the Rust types give the fields of a determination.\<close>

definition drought_in_range :: "drought_determination \<Rightarrow> bool" where
  "drought_in_range d \<longleftrightarrow>
     d_on_chain_policy_id d \<le> u64_max \<and> d_damage_percent_bp d \<le> u32_max \<and>
     d_drought_damage d \<le> u32_max \<and>
     i128_min \<le> d_payout_amount d \<and> d_payout_amount d \<le> i128_max \<and> d_assessed_at d \<le> u64_max \<and>
     i128_min \<le> d_latitude_e6 d \<and> d_latitude_e6 d \<le> i128_max \<and>
     i128_min \<le> d_longitude_e6 d \<and> d_longitude_e6 d \<le> i128_max \<and>
     i128_min \<le> d_sum_insured d \<and> d_sum_insured d \<le> i128_max \<and>
     d_season_start_epoch d \<le> u64_max \<and> d_lgp_days d \<le> u32_max \<and>
     d_rain_w1_e2 d \<le> u128_max \<and> d_rain_ref_w1_e2 d \<le> u128_max \<and>
     d_rain_w2_e2 d \<le> u128_max \<and> d_rain_ref_w2_e2 d \<le> u128_max \<and> d_cdd_w2_days d \<le> u32_max"

definition crop_in_range :: "crop_determination \<Rightarrow> bool" where
  "crop_in_range d \<longleftrightarrow>
     cd_on_chain_policy_id d \<le> u64_max \<and> cd_damage_percent_bp d \<le> u32_max \<and>
     cd_weather_damage d \<le> u32_max \<and> cd_satellite_damage d \<le> u32_max \<and>
     i128_min \<le> cd_payout_amount d \<and> cd_payout_amount d \<le> i128_max \<and> cd_assessed_at d \<le> u64_max \<and>
     i128_min \<le> cd_latitude_e6 d \<and> cd_latitude_e6 d \<le> i128_max \<and>
     i128_min \<le> cd_longitude_e6 d \<and> cd_longitude_e6 d \<le> i128_max \<and>
     i128_min \<le> cd_sum_insured d \<and> cd_sum_insured d \<le> i128_max \<and>
     i128_min \<le> cd_ndvi_scaled d \<and> cd_ndvi_scaled d \<le> i128_max \<and>
     cd_weather_present d \<le> u32_max \<and>
     i128_min \<le> cd_weather_temp_c_e2 d \<and> cd_weather_temp_c_e2 d \<le> i128_max \<and>
     cd_weather_precip_e2 d \<le> u128_max \<and> cd_weather_humidity d \<le> u128_max \<and>
     cd_weather_wind_e2 d \<le> u128_max"

text \<open>A word determines a value of any unsigned type of at most 128 bits.\<close>

lemma u_le_u128: "v \<le> u64_max \<Longrightarrow> v \<le> u128_max" "v \<le> u32_max \<Longrightarrow> v \<le> u128_max"
  by (simp_all add: u32_max_def u64_max_def u128_max_def)

lemma word_u128_eq_iff:
  "v \<le> u128_max \<Longrightarrow> w \<le> u128_max \<Longrightarrow> word_from_u128 v = word_from_u128 w \<longleftrightarrow> v = w"
  using word_from_u128_inj by auto

lemma word_i128_eq_iff:
  "i128_min \<le> v \<Longrightarrow> v \<le> i128_max \<Longrightarrow> i128_min \<le> w \<Longrightarrow> w \<le> i128_max \<Longrightarrow>
     word_from_i128 v = word_from_i128 w \<longleftrightarrow> v = w"
  using word_from_i128_inj by auto

section \<open>The layouts\<close>

lemma length_encode_drought_inputs: "length (encode_drought_inputs d) = DROUGHT_INPUTS_LEN"
  by (simp add: encode_drought_inputs_def DROUGHT_INPUTS_LEN_def)

lemma length_encode_inputs: "length (encode_inputs d) = 10 * 32"
  by (simp add: encode_inputs_def)

lemma length_encode_drought_preimage:
  "length (encode_drought_preimage e h d c n) = 320 + length (address_xdr e c)"
  by (simp add: encode_drought_preimage_def)

lemma length_encode_preimage:
  "length (encode_preimage e h d c n) = 352 + length (address_xdr e c)"
  by (simp add: encode_preimage_def)

text \<open>The evidence bytes determine the evidence fields.\<close>

lemma encode_drought_inputs_fields:
  assumes "encode_drought_inputs d = encode_drought_inputs d'"
    and "drought_in_range d" and "drought_in_range d'"
  shows "d_on_chain_policy_id d = d_on_chain_policy_id d' \<and> d_latitude_e6 d = d_latitude_e6 d' \<and>
     d_longitude_e6 d = d_longitude_e6 d' \<and> d_sum_insured d = d_sum_insured d' \<and>
     d_season_start_epoch d = d_season_start_epoch d' \<and> d_lgp_days d = d_lgp_days d' \<and>
     d_rain_w1_e2 d = d_rain_w1_e2 d' \<and> d_rain_ref_w1_e2 d = d_rain_ref_w1_e2 d' \<and>
     d_rain_w2_e2 d = d_rain_w2_e2 d' \<and> d_rain_ref_w2_e2 d = d_rain_ref_w2_e2 d' \<and>
     d_cdd_w2_days d = d_cdd_w2_days d' \<and> d_source_hash d = d_source_hash d' \<and>
     d_methodology_params_hash d = d_methodology_params_hash d'"
  using assms unfolding drought_in_range_def
  by (simp add: encode_drought_inputs_def word_u128_eq_iff word_i128_eq_iff u_le_u128 to_array_inj)

text \<open>The preimage determines the network, the contract's bytes, the inputs hash and the results.\<close>

lemma encode_drought_preimage_fields:
  assumes "encode_drought_preimage e h d c n = encode_drought_preimage e h' d' c' n'"
    and "drought_in_range d" and "drought_in_range d'"
    and "length (address_xdr e c) = length (address_xdr e c')"
  shows "n = n' \<and> address_xdr e c = address_xdr e c' \<and> h = h' \<and>
     d_on_chain_policy_id d = d_on_chain_policy_id d' \<and>
     d_damage_percent_bp d = d_damage_percent_bp d' \<and> d_drought_damage d = d_drought_damage d' \<and>
     d_payout_amount d = d_payout_amount d' \<and> d_assessed_at d = d_assessed_at d'"
  using assms unfolding drought_in_range_def
  by (simp add: encode_drought_preimage_def word_u128_eq_iff word_i128_eq_iff u_le_u128 to_array_inj)

text \<open>
  The messages the two hashes of a digest are taken over. A hash that separates these
  messages makes the digest a commitment to everything in the determination.
\<close>

definition drought_messages ::
  "env \<Rightarrow> drought_determination \<Rightarrow> address \<Rightarrow> bytes32 \<Rightarrow> byte list set" where
  "drought_messages e d c n =
     {encode_drought_inputs d,
      encode_drought_preimage e (keccak256 e (encode_drought_inputs d)) d c n}"

definition crop_messages ::
  "env \<Rightarrow> crop_determination \<Rightarrow> address \<Rightarrow> bytes32 \<Rightarrow> byte list set" where
  "crop_messages e d c n =
     {encode_inputs d, encode_preimage e (keccak256 e (encode_inputs d)) d c n}"

section \<open>A hash to evaluate with\<close>

text \<open>The last 32 bytes of a message, read as a word: a hash under which the messages below differ.\<close>

lemma be_value_append: "be_value (xs @ ys) = be_value xs * 256 ^ length ys + be_value ys"
proof (induction ys rule: rev_induct)
  case (snoc y ys)
  have "be_value (xs @ ys @ [y]) = be_value (xs @ ys) * 256 + unat y"
    using be_value_append1 [of "xs @ ys" y] by simp
  with snoc show ?case by (simp add: be_value_append1 algebra_simps)
qed (simp add: be_value_def)

definition last_word :: "byte list \<Rightarrow> bytes32" where
  "last_word bs = word_of_nat (be_value bs)"

lemma last_word_append: "length ys = 32 \<Longrightarrow> last_word (xs @ ys) = last_word ys"
  by (simp only: last_word_def be_value_append word_of_nat_eq_iff take_bit_eq_mod) simp

lemma last_word_u128: "last_word (word_from_u128 v) = word_of_nat (v mod 2 ^ 128)"
proof -
  have "be_value (replicate 16 0 @ be_bytes 16 v) = be_value (be_bytes 16 v)"
    by (simp add: be_value_append) (simp add: be_value_def numeral_eq_Suc)
  then show ?thesis by (simp add: last_word_def word_from_u128_eq be_value_be_bytes)
qed

lemma last_word_array: "last_word (to_array h) = h"
proof -
  have "unat h < 256 ^ 32" using unsigned_less [of h, where ?'a = nat] by simp
  then show ?thesis by (simp add: last_word_def to_array_def be_value_be_bytes)
qed

definition last_word_env :: env where
  "last_word_env = sample_env\<lparr>keccak256 := last_word\<rparr>"

lemma last_word_messages:
  "last_word (encode_drought_inputs d) = d_methodology_params_hash d"
  "last_word (encode_drought_preimage e h d c n) = word_of_nat (d_assessed_at d mod 2 ^ 128)"
  "last_word (encode_inputs k) = word_of_nat (cd_weather_wind_e2 k mod 2 ^ 128)"
  "last_word (encode_preimage e h k c n) = word_of_nat (cd_assessed_at k mod 2 ^ 128)"
proof -
  have "last_word (encode_drought_inputs d) = last_word (to_array (d_methodology_params_hash d))"
    unfolding encode_drought_inputs_def append_assoc [symmetric] by (rule last_word_append) simp
  then show "last_word (encode_drought_inputs d) = d_methodology_params_hash d" by (simp add: last_word_array)
  have "last_word (encode_drought_preimage e h d c n) = last_word (word_from_u128 (d_assessed_at d))"
    unfolding encode_drought_preimage_def append_assoc [symmetric] by (rule last_word_append) simp
  then show "last_word (encode_drought_preimage e h d c n) = word_of_nat (d_assessed_at d mod 2 ^ 128)"
    by (simp add: last_word_u128)
  have "last_word (encode_inputs k) = last_word (word_from_u128 (cd_weather_wind_e2 k))"
    unfolding encode_inputs_def append_assoc [symmetric] by (rule last_word_append) simp
  then show "last_word (encode_inputs k) = word_of_nat (cd_weather_wind_e2 k mod 2 ^ 128)"
    by (simp add: last_word_u128)
  have "last_word (encode_preimage e h k c n) = last_word (word_from_u128 (cd_assessed_at k))"
    unfolding encode_preimage_def append_assoc [symmetric] by (rule last_word_append) simp
  then show "last_word (encode_preimage e h k c n) = word_of_nat (cd_assessed_at k mod 2 ^ 128)"
    by (simp add: last_word_u128)
qed

definition sample_season :: "nat \<Rightarrow> drought_determination" where
  "sample_season t =
     \<lparr>d_on_chain_policy_id = 1, d_damage_percent_bp = 4200, d_drought_damage = 42,
      d_payout_amount = 2100000000, d_assessed_at = t, d_latitude_e6 = 9000000,
      d_longitude_e6 = 8000000, d_sum_insured = 5000000000, d_season_start_epoch = 1699920000,
      d_lgp_days = 180, d_rain_w1_e2 = 31130, d_rain_ref_w1_e2 = 27260, d_rain_w2_e2 = 16280,
      d_rain_ref_w2_e2 = 22305, d_cdd_w2_days = 7, d_source_hash = 5,
      d_methodology_params_hash = DROUGHT_PARAMS_HASH_RDI_1_0\<rparr>"

section \<open>Properties\<close>

text \<open>The scalar words are a faithful format: each is 32 bytes, and every \<^verbatim>\<open>u128\<close> and every \<^verbatim>\<open>i128\<close> value,
  negative ones included, reads back from its word.\<close>

theorem words_roundtrip:
  assumes "u \<le> u128_max" and "i128_min \<le> i" and "i \<le> i128_max"
  shows "length (word_from_u128 u) = 32 \<and> decode_u128 (word_from_u128 u) = u \<and>
     length (word_from_i128 i) = 32 \<and> decode_i128 (word_from_i128 i) = i"
  using assms by (simp add: decode_word_from_u128 decode_word_from_i128)

theorem words_roundtrip_witness:
  "decode_u128 (word_from_u128 31130) = 31130 \<and> decode_i128 (word_from_i128 (- 1291850)) = - 1291850"
  using words_roundtrip [of 31130 "- 1291850"] by (simp add: u128_max_def i128_min_def i128_max_def)

text \<open>C20. A drought digest is a commitment. When the hash has no collision on the messages involved, equal
  digests mean the same determination in every field, the same receiving contract and the same
  network: a signature for one claim serves no other claim, contract or network.\<close>

theorem drought_digest_binds:
  assumes digest: "drought_determination_digest e d c n = drought_determination_digest e d' c' n'"
    and hash: "inj_on (keccak256 e) (drought_messages e d c n \<union> drought_messages e d' c' n')"
    and range: "drought_in_range d" "drought_in_range d'"
    and xdr: "length (address_xdr e c) = length (address_xdr e c')"
  shows "d = d' \<and> address_xdr e c = address_xdr e c' \<and> n = n'"
proof -
  have "encode_drought_preimage e (keccak256 e (encode_drought_inputs d)) d c n =
      encode_drought_preimage e (keccak256 e (encode_drought_inputs d')) d' c' n'"
    by (rule inj_onD [OF hash])
      (use digest in \<open>simp_all add: drought_determination_digest_def Let_def drought_messages_def\<close>)
  note results = encode_drought_preimage_fields [OF this range xdr]
  then have "keccak256 e (encode_drought_inputs d) = keccak256 e (encode_drought_inputs d')"
    by blast
  then have "encode_drought_inputs d = encode_drought_inputs d'"
    by (intro inj_onD [OF hash]) (simp_all add: drought_messages_def)
  note evidence = encode_drought_inputs_fields [OF this range]
  from results evidence show ?thesis by simp
qed

theorem drought_digest_binds_witness:
  "drought_determination_digest last_word_env (sample_season 1709424000) (Address 200) 7 \<noteq>
   drought_determination_digest last_word_env (sample_season 1709424001) (Address 200) 7"
proof
  let ?d = "sample_season 1709424000" and ?d' = "sample_season 1709424001" and ?e = last_word_env
  assume same: "drought_determination_digest ?e ?d (Address 200) 7 = drought_determination_digest ?e ?d' (Address 200) 7"
  have keccak: "keccak256 ?e = last_word" by (simp add: last_word_env_def)
  have inputs: "encode_drought_inputs ?d' = encode_drought_inputs ?d"
    by (simp add: encode_drought_inputs_def sample_season_def)
  have "inj_on (keccak256 ?e) (drought_messages ?e ?d (Address 200) 7 \<union> drought_messages ?e ?d' (Address 200) 7)"
    by (simp add: drought_messages_def inputs keccak inj_on_def last_word_messages)
      (simp add: sample_season_def DROUGHT_PARAMS_HASH_RDI_1_0_def)
  moreover have "drought_in_range ?d" "drought_in_range ?d'"
    by (simp_all add: drought_in_range_def sample_season_def u32_max_def u64_max_def u128_max_def i128_min_def i128_max_def)
  ultimately have "?d = ?d'" using drought_digest_binds [OF same] by blast
  then show False by (simp add: sample_season_def)
qed

text \<open>The methodologies are separate. When the hash has no collision on the messages involved, no drought
  digest equals a crop digest, for any two determinations: a signature for one methodology is never a
  signature for the other.\<close>

theorem digests_separate:
  assumes "inj_on (keccak256 e) (drought_messages e d c n \<union> crop_messages e k c n)"
  shows "drought_determination_digest e d c n \<noteq> determination_digest e k c n"
proof
  assume "drought_determination_digest e d c n = determination_digest e k c n"
  then have "encode_drought_preimage e (keccak256 e (encode_drought_inputs d)) d c n =
      encode_preimage e (keccak256 e (encode_inputs k)) k c n"
    by (intro inj_onD [OF assms])
      (simp_all add: drought_determination_digest_def determination_digest_def Let_def
        drought_messages_def crop_messages_def)
  then have "length (encode_drought_preimage e (keccak256 e (encode_drought_inputs d)) d c n) =
      length (encode_preimage e (keccak256 e (encode_inputs k)) k c n)" by simp
  then show False by (simp only: length_encode_drought_preimage length_encode_preimage)
qed

definition sample_crop :: crop_determination where
  "sample_crop =
     \<lparr>cd_on_chain_policy_id = 1, cd_damage_percent_bp = 4200, cd_weather_damage = 42, cd_satellite_damage = 42,
      cd_payout_amount = 2100000000, cd_assessed_at = 1709424002, cd_latitude_e6 = 9000000,
      cd_longitude_e6 = 8000000, cd_sum_insured = 5000000000, cd_ndvi_scaled = 0, cd_weather_present = 1,
      cd_weather_temp_c_e2 = 0, cd_weather_precip_e2 = 0, cd_weather_humidity = 0, cd_weather_wind_e2 = 3\<rparr>"

theorem digests_separate_witness:
  "drought_determination_digest last_word_env (sample_season 1709424000) (Address 200) 7 \<noteq>
   determination_digest last_word_env sample_crop (Address 200) 7"
proof (rule digests_separate)
  show "inj_on (keccak256 last_word_env) (drought_messages last_word_env (sample_season 1709424000) (Address 200) 7 \<union>
      crop_messages last_word_env sample_crop (Address 200) 7)"
    by (simp add: drought_messages_def crop_messages_def inj_on_def last_word_messages last_word_env_def)
      (simp add: sample_season_def sample_crop_def DROUGHT_PARAMS_HASH_RDI_1_0_def)
qed

end
