(* ===== verification/PayoutReceiver.thy ===== *)
theory PayoutReceiver
  imports Interfaces Drought Encoding "HOL-Library.Signed_Division"
begin

text \<open>
  The claim verifier of \<^verbatim>\<open>crates/payout-receiver/src/lib.rs\<close>: its storage (one field per
  variant of \<open>DataKey\<close>), every entry point and private step in the order of the source, over
  arbitrary clients \<open>pmc\<close> and \<open>adc\<close> of the PolicyManager and of the SettlementAdapters. The
  system state is the contract, the state behind the PolicyManager's address, and the adapters
  that exist by address. The lemmas are the success conditions of the private steps and the exact
  success condition and effect of the two submissions.
\<close>

section \<open>Constants\<close>

definition MIN_DAMAGE_THRESHOLD :: nat where "MIN_DAMAGE_THRESHOLD = 3000"
definition MAX_DAMAGE_PERCENTAGE :: nat where "MAX_DAMAGE_PERCENTAGE = 10000"
definition WEATHER_WEIGHT :: nat where "WEATHER_WEIGHT = 60"
definition SATELLITE_WEIGHT :: nat where "SATELLITE_WEIGHT = 40"
definition MAX_REPORT_AGE :: nat where "MAX_REPORT_AGE = 3600"
definition BASIS_POINTS :: int where "BASIS_POINTS = 10000"
definition WEIGHT_DENOMINATOR :: nat where "WEIGHT_DENOMINATOR = 100"
definition PLOT_COORD_TOLERANCE_E6 :: int where "PLOT_COORD_TOLERANCE_E6 = 1"
definition DAY_IN_LEDGERS :: nat where "DAY_IN_LEDGERS = 17280"
definition TEMP_BUMP :: nat where "TEMP_BUMP = 7 * DAY_IN_LEDGERS"
definition TEMP_THRESHOLD :: nat where "TEMP_THRESHOLD = TEMP_BUMP - DAY_IN_LEDGERS"

lemmas pr_constants =
  MIN_DAMAGE_THRESHOLD_def MAX_DAMAGE_PERCENTAGE_def WEATHER_WEIGHT_def SATELLITE_WEIGHT_def
  MAX_REPORT_AGE_def BASIS_POINTS_def WEIGHT_DENOMINATOR_def PLOT_COORD_TOLERANCE_E6_def
  DAY_IN_LEDGERS_def TEMP_BUMP_def TEMP_THRESHOLD_def

section \<open>State\<close>

datatype pr_event =
    AuthorizedSignerUpdated bytes65
  | DeterminationVerified nat bytes32
  | DamageReportReceived nat address nat int
  | ObligationRequested nat nat address int
  | SettlementAdapterUpdated address address
  | DroughtEvidenceRecorded nat nat nat bytes32
  | MethodologyEnabledSet methodology_kind bool

record pr_state =
  pr_roles :: roles
  pr_settlement_adapter :: "address option"
  pr_policy_manager :: "address option"
  pr_authorized_signer :: "bytes65 option"
  pr_network_domain :: "bytes32 option"
  pr_paused :: "bool option"
  pr_report :: "(nat, damage_report) storage"
  pr_policy_paid :: "(nat, bool) storage"
  pr_consumed :: "(bytes32, bool) storage"
  pr_methodology_enabled :: "methodology_kind \<rightharpoonup> bool"
  pr_instance_live :: nat
  pr_wasm :: "bytes32 option"
  pr_events :: "pr_event list"

record ('w, 'a) pr_sys =
  sys_pr :: pr_state
  sys_pm :: 'w
  sys_adapters :: "address \<rightharpoonup> 'a"

definition pr_deployed :: "env \<Rightarrow> pr_state" where
  "pr_deployed e =
     \<lparr>pr_roles = Map.empty, pr_settlement_adapter = None, pr_policy_manager = None,
      pr_authorized_signer = None, pr_network_domain = None, pr_paused = None,
      pr_report = Map.empty, pr_policy_paid = Map.empty, pr_consumed = Map.empty,
      pr_methodology_enabled = Map.empty, pr_instance_live = fresh_live_until e, pr_wasm = None,
      pr_events = []\<rparr>"

definition pr_publish :: "pr_event \<Rightarrow> pr_state \<Rightarrow> pr_state" where
  "pr_publish ev s = s\<lparr>pr_events := pr_events s @ [ev]\<rparr>"

definition pr_touch :: "env \<Rightarrow> pr_state \<Rightarrow> pr_state" where
  "pr_touch e s = s\<lparr>pr_instance_live := touch_contract e (pr_instance_live s)\<rparr>"

text \<open>\<^verbatim>\<open>if !c { panic_with_error!(..) }\<close>\<close>

definition ensure :: "bool \<Rightarrow> error \<Rightarrow> error + unit" where
  "ensure c err = (if c then Inr () else Inl err)"

lemma ensure_Inr [simp]: "ensure c err = Inr u \<longleftrightarrow> c"
  by (simp add: ensure_def)

lemma ensure_ok [simp]: "c \<Longrightarrow> ensure c err = Inr ()"
  by simp

section \<open>Administration\<close>

definition pr_constructor :: "env \<Rightarrow> address \<Rightarrow> address \<Rightarrow> address \<Rightarrow> error + pr_state" where
  "pr_constructor e settlement_adapter policy_manager admin =
     (let s = pr_deployed e in
      bindE (grant_role e Admin admin (pr_roles s)) (\<lambda>roles.
      bindE (grant_role e Upgrader admin roles) (\<lambda>roles.
      Inr (s\<lparr>pr_roles := roles, pr_settlement_adapter := Some settlement_adapter,
             pr_policy_manager := Some policy_manager, pr_paused := Some False\<rparr>))))"

definition set_authorized_signer :: "env \<Rightarrow> address \<Rightarrow> bytes65 \<Rightarrow> pr_state \<Rightarrow> error + pr_state" where
  "set_authorized_signer e caller pubkey s =
     bindE (require_role e caller Admin (pr_roles s)) (\<lambda>roles.
     Inr (pr_publish (AuthorizedSignerUpdated pubkey)
       (s\<lparr>pr_roles := roles, pr_authorized_signer := Some pubkey\<rparr>)))"

definition set_network_domain :: "env \<Rightarrow> address \<Rightarrow> bytes32 \<Rightarrow> pr_state \<Rightarrow> error + pr_state" where
  "set_network_domain e caller domain s =
     bindE (require_role e caller Admin (pr_roles s)) (\<lambda>roles.
     Inr (s\<lparr>pr_roles := roles, pr_network_domain := Some domain\<rparr>))"

definition pr_grant_role :: "env \<Rightarrow> address \<Rightarrow> role \<Rightarrow> address \<Rightarrow> pr_state \<Rightarrow> error + pr_state" where
  "pr_grant_role e caller r who s =
     bindE (require_role e caller Admin (pr_roles s)) (\<lambda>roles.
     bindE (grant_role e r who roles) (\<lambda>roles. Inr (s\<lparr>pr_roles := roles\<rparr>)))"

definition pr_revoke_role :: "env \<Rightarrow> address \<Rightarrow> role \<Rightarrow> address \<Rightarrow> pr_state \<Rightarrow> error + pr_state" where
  "pr_revoke_role e caller r who s =
     bindE (require_role e caller Admin (pr_roles s)) (\<lambda>roles.
     Inr (s\<lparr>pr_roles := revoke_role e r who roles\<rparr>))"

definition pr_has_role :: "env \<Rightarrow> role \<Rightarrow> address \<Rightarrow> pr_state \<Rightarrow> error + bool \<times> pr_state" where
  "pr_has_role e r who s =
     bindE (has_role e r who (pr_roles s)) (\<lambda>(b, roles). Inr (b, s\<lparr>pr_roles := roles\<rparr>))"

definition pr_upgrade :: "env \<Rightarrow> address \<Rightarrow> bytes32 \<Rightarrow> pr_state \<Rightarrow> error + pr_state" where
  "pr_upgrade e caller new_wasm_hash s =
     bindE (require_role e caller Upgrader (pr_roles s)) (\<lambda>roles.
     Inr (s\<lparr>pr_roles := roles, pr_wasm := Some new_wasm_hash\<rparr>))"

definition pause :: "env \<Rightarrow> address \<Rightarrow> pr_state \<Rightarrow> error + pr_state" where
  "pause e caller s =
     bindE (require_role e caller Admin (pr_roles s)) (\<lambda>roles.
     Inr (s\<lparr>pr_roles := roles, pr_paused := Some True\<rparr>))"

definition unpause :: "env \<Rightarrow> address \<Rightarrow> pr_state \<Rightarrow> error + pr_state" where
  "unpause e caller s =
     bindE (require_role e caller Admin (pr_roles s)) (\<lambda>roles.
     Inr (s\<lparr>pr_roles := roles, pr_paused := Some False\<rparr>))"

definition set_methodology_enabled ::
  "env \<Rightarrow> address \<Rightarrow> methodology_kind \<Rightarrow> bool \<Rightarrow> pr_state \<Rightarrow> error + pr_state" where
  "set_methodology_enabled e caller kind enabled s =
     bindE (require_role e caller Admin (pr_roles s)) (\<lambda>roles.
     Inr (pr_publish (MethodologyEnabledSet kind enabled)
       (s\<lparr>pr_roles := roles,
          pr_methodology_enabled := (pr_methodology_enabled s)(kind \<mapsto> enabled)\<rparr>)))"

definition methodology_enabled :: "methodology_kind \<Rightarrow> pr_state \<Rightarrow> bool" where
  "methodology_enabled kind s = unwrap_or False (pr_methodology_enabled s kind)"

definition is_methodology_enabled :: "methodology_kind \<Rightarrow> pr_state \<Rightarrow> bool" where
  "is_methodology_enabled kind s = methodology_enabled kind s"

definition network_domain :: "pr_state \<Rightarrow> error + bytes32" where
  "network_domain s =
     (case pr_network_domain s of Some d \<Rightarrow> Inr d | None \<Rightarrow> Inl (CommonE NotConfigured))"

definition siblings :: "pr_state \<Rightarrow> error + address \<times> address" where
  "siblings s =
     (case pr_settlement_adapter s of
        None \<Rightarrow> Inl (CommonE NotConfigured)
      | Some adapter \<Rightarrow>
          (case pr_policy_manager s of
             None \<Rightarrow> Inl (CommonE NotConfigured)
           | Some policy_manager \<Rightarrow> Inr (adapter, policy_manager)))"

definition settlement_adapter :: "pr_state \<Rightarrow> error + address" where
  "settlement_adapter s = bindE (siblings s) (\<lambda>(adapter, policy_manager). Inr adapter)"

section \<open>Calls into an adapter\<close>

definition adapter_call ::
  "(address \<rightharpoonup> 'a) \<Rightarrow> address \<Rightarrow> ('a \<Rightarrow> error + 'b \<times> 'a) \<Rightarrow> error + 'b \<times> (address \<rightharpoonup> 'a)" where
  "adapter_call ads addr f =
     (case ads addr of
        None \<Rightarrow> Inl (HostE NoContract)
      | Some a \<Rightarrow> bindE (f a) (\<lambda>(r, a'). Inr (r, ads(addr \<mapsto> a'))))"

definition set_settlement_adapter ::
  "'a adapter_client \<Rightarrow> env \<Rightarrow> address \<Rightarrow> address \<Rightarrow> ('w, 'a) pr_sys \<Rightarrow> error + ('w, 'a) pr_sys" where
  "set_settlement_adapter adc e caller adapter sys =
     bindE (require_role e caller Admin (pr_roles (sys_pr sys))) (\<lambda>roles.
     let s = pr_touch e ((sys_pr sys)\<lparr>pr_roles := roles\<rparr>);
         this = current_contract_address e
     in
     if adapter = this then Inl (PayoutE SettlementAdapterNotBound)
     else
       (case adapter_call (sys_adapters sys) adapter (adc_payout_receiver adc (subcall e adapter)) of
          Inr (Some pr, ads) \<Rightarrow>
            if pr = this then
              (case pr_settlement_adapter s of
                 None \<Rightarrow> Inl (CommonE NotConfigured)
               | Some previous \<Rightarrow>
                   Inr (sys\<lparr>sys_pr := pr_publish (SettlementAdapterUpdated previous adapter)
                              (s\<lparr>pr_settlement_adapter := Some adapter\<rparr>),
                            sys_adapters := ads\<rparr>))
            else Inl (PayoutE SettlementAdapterNotBound)
        | _ \<Rightarrow> Inl (PayoutE SettlementAdapterNotBound)))"

section \<open>Verification steps\<close>

definition begin_submission ::
  "env \<Rightarrow> address \<Rightarrow> methodology_kind \<Rightarrow> pr_state \<Rightarrow> error + bytes65 \<times> pr_state" where
  "begin_submission e caller kind s =
     bindE (require_role e caller Relayer (pr_roles s)) (\<lambda>roles.
     let s = s\<lparr>pr_roles := roles\<rparr> in
     if unwrap_or False (pr_paused s) then Inl (PausedE ContractPaused)
     else
     let s = pr_touch e s in
     case pr_authorized_signer s of
       None \<Rightarrow> Inl (PayoutE SignerNotConfigured)
     | Some signer \<Rightarrow>
         if \<not> methodology_enabled kind s then Inl (PayoutE MethodologyDisabled)
         else Inr (signer, s))"

definition open_policy ::
  "'w pm_client \<Rightarrow> env \<Rightarrow> address \<Rightarrow> nat \<Rightarrow> pr_state \<Rightarrow> 'w \<Rightarrow> error + policy \<times> 'w" where
  "open_policy pmc e pm policy_id s w =
     bindE (pmc_policy_exists pmc (subcall e pm) policy_id w) (\<lambda>(found, w).
     if \<not> found then Inl (PayoutE payout_error.PolicyDoesNotExist)
     else
     bindE (pmc_get_policy pmc (subcall e pm) policy_id w) (\<lambda>(policy, w).
     if p_status policy \<noteq> Active then Inl (PayoutE PolicyNotActive)
     else if p_end_date policy < timestamp e then Inl (PayoutE payout_error.PolicyExpired)
     else if unwrap_or False (get (pr_policy_paid s) policy_id) then Inl (PayoutE PolicyAlreadyPaid)
     else Inr (policy, w)))"

text \<open>\<^verbatim>\<open>checked_sub\<close> and \<^verbatim>\<open>checked_abs\<close> on \<^verbatim>\<open>i128\<close>: no value when the result is out of range.\<close>

definition checked_sub_i128 :: "int \<Rightarrow> int \<Rightarrow> int option" where
  "checked_sub_i128 a b = (if i128_min \<le> a - b \<and> a - b \<le> i128_max then Some (a - b) else None)"

definition checked_abs_i128 :: "int \<Rightarrow> int option" where
  "checked_abs_i128 a = (if a = i128_min then None else Some \<bar>a\<bar>)"

definition plot_off :: "int \<Rightarrow> int \<Rightarrow> bool" where
  "plot_off given insured =
     (case Option.bind (checked_sub_i128 given insured) checked_abs_i128 of
        None \<Rightarrow> True
      | Some d \<Rightarrow> PLOT_COORD_TOLERANCE_E6 < d)"

definition require_plot :: "policy \<Rightarrow> int \<Rightarrow> int \<Rightarrow> error + unit" where
  "require_plot policy lat_e6 lon_e6 =
     ensure (\<not> (plot_off lat_e6 (p_lat_e6 policy) \<or> plot_off lon_e6 (p_lon_e6 policy)))
       (PayoutE PlotLocationMismatch)"

text \<open>The multiplication is checked; Rust's division truncates towards zero.\<close>

definition require_payout :: "policy \<Rightarrow> nat \<Rightarrow> int \<Rightarrow> error + unit" where
  "require_payout policy bp payout =
     bindE (checked_i128 (p_sum_insured policy * int bp)) (\<lambda>product.
     ensure (payout = product sdiv BASIS_POINTS) (PayoutE InvalidPayoutCalculation))"

definition require_fresh_and_claimable ::
  "'w pm_client \<Rightarrow> env \<Rightarrow> address \<Rightarrow> policy \<Rightarrow> nat \<Rightarrow> 'w \<Rightarrow> error + 'w" where
  "require_fresh_and_claimable pmc e pm policy assessed_at w =
     (let now = timestamp e in
      if now < assessed_at then Inl (PayoutE ReportInFuture)
      else if saturating_add_u64 assessed_at MAX_REPORT_AGE < now then Inl (PayoutE ReportTooOld)
      else
      bindE (pmc_can_farmer_claim pmc (subcall e pm) (p_farmer policy) w) (\<lambda>(ok, w).
      if \<not> ok then Inl (PayoutE FarmerClaimLimitExceeded) else Inr w))"

definition require_unconsumed_and_signed ::
  "env \<Rightarrow> bytes32 \<Rightarrow> bytes64 \<Rightarrow> nat \<Rightarrow> bytes65 \<Rightarrow> pr_state \<Rightarrow> error + unit" where
  "require_unconsumed_and_signed e digest signature recovery_id authorized_signer s =
     (if has_temporary e (pr_consumed s) digest then Inl (PayoutE DeterminationAlreadyConsumed)
      else
        (case secp256k1_recover e digest signature recovery_id of
           None \<Rightarrow> Inl (HostE BadSignatureEncoding)
         | Some recovered \<Rightarrow>
             ensure (recovered = authorized_signer) (PayoutE InvalidSignature)))"

section \<open>Settlement\<close>

text \<open>The effects of \<open>settle_verified\<close> before its first call: replay marker, paid flag, report.\<close>

definition settle_effects ::
  "env \<Rightarrow> policy \<Rightarrow> damage_report \<Rightarrow> bytes32 \<Rightarrow> pr_state \<Rightarrow> error + pr_state" where
  "settle_effects e policy report preimage_hash s =
     (let policy_id = r_policy_id report;
          s = s\<lparr>pr_consumed := put_temporary e preimage_hash True (pr_consumed s)\<rparr>
      in
      bindE (extend_ttl e preimage_hash TEMP_THRESHOLD TEMP_BUMP (pr_consumed s)) (\<lambda>m.
      let s = s\<lparr>pr_consumed := m\<rparr>;
          s = s\<lparr>pr_policy_paid := put e policy_id True (pr_policy_paid s)\<rparr>
      in
      bindE (extend_for_policy e policy_id (p_end_date policy) (pr_policy_paid s)) (\<lambda>m.
      let s = s\<lparr>pr_policy_paid := m\<rparr>;
          s = s\<lparr>pr_report := put e policy_id report (pr_report s)\<rparr>
      in
      bindE (extend_for_policy e policy_id (p_end_date policy) (pr_report s)) (\<lambda>m.
      Inr (s\<lparr>pr_report := m\<rparr>)))))"

definition settle_verified ::
  "'w pm_client \<Rightarrow> 'a adapter_client \<Rightarrow> env \<Rightarrow> address \<Rightarrow> address \<Rightarrow> policy \<Rightarrow> damage_report \<Rightarrow> bytes32 \<Rightarrow>
     ('w, 'a) pr_sys \<Rightarrow> error + ('w, 'a) pr_sys" where
  "settle_verified pmc adc e pm adapter policy report preimage_hash sys =
     (let policy_id = r_policy_id report in
      bindE (settle_effects e policy report preimage_hash (sys_pr sys)) (\<lambda>s.
      let this = current_contract_address e in
      bindE (adapter_call (sys_adapters sys) adapter
        (adc_record_obligation adc (subcall e adapter) this policy_id (p_org policy)
          (r_payout_amount report) preimage_hash)) (\<lambda>(ob, ads).
      if o_payout_receiver ob \<noteq> this \<or> o_policy_id ob \<noteq> policy_id \<or> o_org ob \<noteq> p_org policy \<or>
         o_amount ob \<noteq> r_payout_amount report \<or> o_determination_digest ob \<noteq> preimage_hash \<or>
         o_status ob \<noteq> Owed
      then Inl (PayoutE ObligationNotRecorded)
      else
      bindE (pmc_mark_as_claimed pmc (subcall e pm) this policy_id (sys_pm sys)) (\<lambda>w.
      bindE (pmc_increment_claim_count pmc (subcall e pm) this (p_farmer policy) w) (\<lambda>w.
      let s = pr_publish (DeterminationVerified policy_id preimage_hash) s;
          s = pr_publish (DamageReportReceived policy_id (p_farmer policy)
                (r_damage_percentage report) (r_payout_amount report)) s;
          s = pr_publish (ObligationRequested policy_id (o_id ob) adapter (r_payout_amount report)) s
      in Inr (sys\<lparr>sys_pr := s, sys_pm := w, sys_adapters := ads\<rparr>))))))"

section \<open>The submissions\<close>

text \<open>The weighted damage in basis points that the sub-scores of a crop determination imply.\<close>

definition expected_bp :: "crop_determination \<Rightarrow> error + nat" where
  "expected_bp d =
     (if cd_weather_present d = 0 then mul_u32 (cd_satellite_damage d) WEIGHT_DENOMINATOR
      else bindE (mul_u32 WEATHER_WEIGHT (cd_weather_damage d)) (\<lambda>a.
           bindE (mul_u32 SATELLITE_WEIGHT (cd_satellite_damage d)) (\<lambda>b. add_u32 a b)))"

definition submit_determination ::
  "'w pm_client \<Rightarrow> 'a adapter_client \<Rightarrow> env \<Rightarrow> address \<Rightarrow> crop_determination \<Rightarrow> bytes64 \<Rightarrow> nat \<Rightarrow>
     ('w, 'a) pr_sys \<Rightarrow> error + ('w, 'a) pr_sys" where
  "submit_determination pmc adc e caller d signature recovery_id sys =
     bindE (begin_submission e caller CropDualIndex10 (sys_pr sys)) (\<lambda>(authorized_signer, s).
     bindE (ensure (\<not> MAX_DAMAGE_PERCENTAGE < cd_damage_percent_bp d) (PayoutE DamageExceedsMaximum)) (\<lambda>_.
     bindE (ensure (\<not> (100 < cd_weather_damage d \<or> 100 < cd_satellite_damage d))
       (PayoutE SubScoreOutOfRange)) (\<lambda>_.
     bindE (ensure (\<not> 1 < cd_weather_present d) (PayoutE InvalidWeatherFlag)) (\<lambda>_.
     bindE (ensure (\<not> (cd_weather_present d = 0 \<and> cd_weather_damage d \<noteq> 0))
       (PayoutE WeatherFlagDamageMismatch)) (\<lambda>_.
     bindE (expected_bp d) (\<lambda>bp.
     bindE (ensure (bp = cd_damage_percent_bp d) (PayoutE InvalidWeightedDamage)) (\<lambda>_.
     bindE (ensure (\<not> cd_damage_percent_bp d < MIN_DAMAGE_THRESHOLD) (PayoutE DamageBelowThreshold)) (\<lambda>_.
     bindE (siblings s) (\<lambda>(adapter, pm).
     bindE (open_policy pmc e pm (cd_on_chain_policy_id d) s (sys_pm sys)) (\<lambda>(policy, w).
     bindE (ensure (cd_sum_insured d = p_sum_insured policy) (PayoutE SumInsuredMismatch)) (\<lambda>_.
     bindE (ensure (p_coverage_type policy = Comprehensive)
       (PayoutE CoverageNotSettledByMethodology)) (\<lambda>_.
     bindE (require_plot policy (cd_latitude_e6 d) (cd_longitude_e6 d)) (\<lambda>_.
     bindE (require_payout policy (cd_damage_percent_bp d) (cd_payout_amount d)) (\<lambda>_.
     bindE (require_fresh_and_claimable pmc e pm policy (cd_assessed_at d) w) (\<lambda>w.
     bindE (network_domain s) (\<lambda>domain.
     let digest = determination_digest e d (current_contract_address e) domain in
     bindE (require_unconsumed_and_signed e digest signature recovery_id authorized_signer s) (\<lambda>_.
     let report = \<lparr>r_policy_id = cd_on_chain_policy_id d, r_damage_percentage = cd_damage_percent_bp d,
                   r_weather_damage = cd_weather_damage d, r_satellite_damage = cd_satellite_damage d,
                   r_payout_amount = cd_payout_amount d, r_assessed_at = cd_assessed_at d\<rparr>
     in settle_verified pmc adc e pm adapter policy report digest
          (sys\<lparr>sys_pr := s, sys_pm := w\<rparr>))))))))))))))))))"

definition submit_drought_determination ::
  "'w pm_client \<Rightarrow> 'a adapter_client \<Rightarrow> env \<Rightarrow> address \<Rightarrow> drought_determination \<Rightarrow> bytes64 \<Rightarrow> nat \<Rightarrow>
     ('w, 'a) pr_sys \<Rightarrow> error + ('w, 'a) pr_sys" where
  "submit_drought_determination pmc adc e caller d signature recovery_id sys =
     bindE (begin_submission e caller CropDroughtRdi10 (sys_pr sys)) (\<lambda>(authorized_signer, s).
     bindE (ensure (\<not> MAX_DAMAGE_PERCENTAGE < d_damage_percent_bp d) (PayoutE DamageExceedsMaximum)) (\<lambda>_.
     bindE (ensure (\<not> 100 < d_drought_damage d) (PayoutE DroughtScoreOutOfRange)) (\<lambda>_.
     bindE (ensure
       (\<not> (d_lgp_days d \<noteq> LGP_DAYS \<or> MAX_CDD_W2_DAYS < d_cdd_w2_days d \<or>
           d_rain_ref_w1_e2 d = 0 \<or> d_rain_ref_w2_e2 d = 0 \<or>
           MAX_RAIN_E2 < d_rain_w1_e2 d \<or> MAX_RAIN_E2 < d_rain_ref_w1_e2 d \<or>
           MAX_RAIN_E2 < d_rain_w2_e2 d \<or> MAX_RAIN_E2 < d_rain_ref_w2_e2 d \<or>
           d_season_start_epoch d mod SECONDS_PER_DAY \<noteq> 0 \<or>
           d_methodology_params_hash d \<noteq> DROUGHT_PARAMS_HASH_RDI_1_0))
       (PayoutE DroughtEvidenceInvalid)) (\<lambda>_.
     bindE (mul_u32 (d_drought_damage d) 100) (\<lambda>bp.
     bindE (ensure (d_damage_percent_bp d = bp) (PayoutE InvalidDroughtDamage)) (\<lambda>_.
     bindE (rdi_v1_drought_damage (d_rain_w1_e2 d) (d_rain_ref_w1_e2 d) (d_rain_w2_e2 d)
       (d_rain_ref_w2_e2 d)) (\<lambda>dd.
     bindE (ensure (dd = Some (d_drought_damage d)) (PayoutE InvalidDroughtDamage)) (\<lambda>_.
     bindE (ensure (\<not> d_damage_percent_bp d < MIN_DAMAGE_THRESHOLD) (PayoutE DamageBelowThreshold)) (\<lambda>_.
     bindE (siblings s) (\<lambda>(adapter, pm).
     bindE (open_policy pmc e pm (d_on_chain_policy_id d) s (sys_pm sys)) (\<lambda>(policy, w).
     bindE (ensure (p_coverage_type policy = Drought) (PayoutE CoverageNotSettledByMethodology)) (\<lambda>_.
     bindE (ensure (d_sum_insured d = p_sum_insured policy) (PayoutE SumInsuredMismatch)) (\<lambda>_.
     bindE (require_plot policy (d_latitude_e6 d) (d_longitude_e6 d)) (\<lambda>_.
     bindE (sub_u (p_start_date policy) (p_start_date policy mod SECONDS_PER_DAY)) (\<lambda>start_day.
     let window_end = d_season_start_epoch d + SEASON_WINDOW_SECS in
     bindE (ensure (window_end \<le> u64_max) (PayoutE EvidenceOutsideCoverWindow)) (\<lambda>_.
     bindE (ensure (\<not> (d_season_start_epoch d < start_day \<or> p_end_date policy < window_end))
       (PayoutE EvidenceOutsideCoverWindow)) (\<lambda>_.
     bindE (ensure (\<not> d_assessed_at d < window_end) (PayoutE SeasonNotComplete)) (\<lambda>_.
     bindE (require_payout policy (d_damage_percent_bp d) (d_payout_amount d)) (\<lambda>_.
     bindE (require_fresh_and_claimable pmc e pm policy (d_assessed_at d) w) (\<lambda>w.
     bindE (network_domain s) (\<lambda>domain.
     let digest = drought_determination_digest e d (current_contract_address e) domain in
     bindE (require_unconsumed_and_signed e digest signature recovery_id authorized_signer s) (\<lambda>_.
     let report = \<lparr>r_policy_id = d_on_chain_policy_id d, r_damage_percentage = d_damage_percent_bp d,
                   r_weather_damage = 0, r_satellite_damage = 0,
                   r_payout_amount = d_payout_amount d, r_assessed_at = d_assessed_at d\<rparr>;
         s = pr_publish (DroughtEvidenceRecorded (d_on_chain_policy_id d) (d_drought_damage d)
               (d_season_start_epoch d) (d_source_hash d)) s
     in settle_verified pmc adc e pm adapter policy report digest
          (sys\<lparr>sys_pr := s, sys_pm := w\<rparr>)))))))))))))))))))))))"

text \<open>The read-only query the oracle simulates to confirm its encoder.\<close>

definition pr_drought_determination_digest ::
  "env \<Rightarrow> drought_determination \<Rightarrow> pr_state \<Rightarrow> error + bytes32" where
  "pr_drought_determination_digest e d s =
     bindE (network_domain s) (\<lambda>domain.
     Inr (drought_determination_digest e d (current_contract_address e) domain))"

section \<open>Keepers and views\<close>

definition extend_for_policy_if ::
  "env \<Rightarrow> 'k \<Rightarrow> nat \<Rightarrow> ('k, 'v) storage \<Rightarrow> error + ('k, 'v) storage" where
  "extend_for_policy_if e k end_date st = (if has st k then extend_for_policy e k end_date st else Inr st)"

definition pr_extend_policy_ttl ::
  "'w pm_client \<Rightarrow> 'a adapter_client \<Rightarrow> env \<Rightarrow> nat \<Rightarrow> ('w, 'a) pr_sys \<Rightarrow> error + ('w, 'a) pr_sys" where
  "pr_extend_policy_ttl pmc adc e policy_id sys =
     (let s = pr_touch e (sys_pr sys) in
      bindE (siblings s) (\<lambda>(adapter, pm).
      bindE (pmc_get_policy pmc (subcall e pm) policy_id (sys_pm sys)) (\<lambda>(policy, w).
      bindE (extend_for_policy_if e policy_id (p_end_date policy) (pr_policy_paid s)) (\<lambda>m.
      let s = s\<lparr>pr_policy_paid := m\<rparr> in
      bindE (extend_for_policy_if e policy_id (p_end_date policy) (pr_report s)) (\<lambda>m.
      let s = s\<lparr>pr_report := m\<rparr>;
          ads = sys_adapters sys;
          this = current_contract_address e;
          ads = (case adapter_call ads adapter
                        (adc_find_obligation adc (subcall e adapter) this policy_id) of
                   Inr (Some i, ads1) \<Rightarrow>
                     (case adapter_call ads1 adapter
                            (\<lambda>a. bindE (adc_extend_obligation_ttl adc (subcall e adapter) i a)
                                   (\<lambda>a. Inr ((), a))) of
                        Inr (_, ads2) \<Rightarrow> ads2
                      | Inl _ \<Rightarrow> ads1)
                 | Inr (None, ads1) \<Rightarrow> ads1
                 | Inl _ \<Rightarrow> ads)
      in
      bindE (pmc_extend_policy_ttl pmc (subcall e pm) policy_id w) (\<lambda>w.
      Inr (sys\<lparr>sys_pr := s, sys_pm := w, sys_adapters := ads\<rparr>)))))))"

definition pr_extend_contract_ttl ::
  "'w pm_client \<Rightarrow> 'a adapter_client \<Rightarrow> env \<Rightarrow> ('w, 'a) pr_sys \<Rightarrow> error + ('w, 'a) pr_sys" where
  "pr_extend_contract_ttl pmc adc e sys =
     (let s = (sys_pr sys)\<lparr>pr_instance_live := keep_contract_alive e (pr_instance_live (sys_pr sys))\<rparr> in
      bindE (siblings s) (\<lambda>(adapter, pm).
      case sys_adapters sys adapter of
        None \<Rightarrow> Inl (HostE MissingEntry)
      | Some a \<Rightarrow>
          bindE (pmc_extend_contract_ttl pmc (subcall e pm) (sys_pm sys)) (\<lambda>w.
          Inr (sys\<lparr>sys_pr := s, sys_pm := w,
                   sys_adapters := (sys_adapters sys)
                     (adapter \<mapsto> adc_instance_live adc (keep_other_contract_alive e) a)\<rparr>))))"

definition get_report :: "nat \<Rightarrow> pr_state \<Rightarrow> damage_report" where
  "get_report policy_id s =
     unwrap_or \<lparr>r_policy_id = 0, r_damage_percentage = 0, r_weather_damage = 0,
                r_satellite_damage = 0, r_payout_amount = 0, r_assessed_at = 0\<rparr>
       (get (pr_report s) policy_id)"

definition is_policy_paid :: "nat \<Rightarrow> pr_state \<Rightarrow> bool" where
  "is_policy_paid policy_id s = unwrap_or False (get (pr_policy_paid s) policy_id)"

end
