(* ===== verification/PayoutChecks.thy ===== *)
theory PayoutChecks
  imports PayoutReceiver
begin

text \<open>
  What a submission checks and does. Each private step of the PayoutReceiver succeeds on an exact
  condition; together they give the exact success condition of the two submissions for arbitrary
  clients, split into what the determination says on its own, what it says of the policy, and what
  the contract's state and the signature must be.
\<close>

section \<open>The private steps\<close>

definition pr_begun :: "env \<Rightarrow> address \<Rightarrow> pr_state \<Rightarrow> pr_state" where
  "pr_begun e caller s = pr_touch e (s\<lparr>pr_roles := used_role e Relayer caller (pr_roles s)\<rparr>)"

definition may_submit :: "env \<Rightarrow> address \<Rightarrow> methodology_kind \<Rightarrow> pr_state \<Rightarrow> bool" where
  "may_submit e caller kind s \<longleftrightarrow>
     authorizes e caller \<and> holds (pr_roles s) Relayer caller \<and> pr_paused s \<noteq> Some True \<and>
     pr_authorized_signer s \<noteq> None \<and> is_methodology_enabled kind s"

lemma pr_begun_simps [simp]:
  "get (pr_policy_paid (pr_begun e c s)) = get (pr_policy_paid s)"
  "pr_policy_paid (pr_begun e c s) = pr_policy_paid s" "pr_report (pr_begun e c s) = pr_report s"
  "pr_consumed (pr_begun e c s) = pr_consumed s" "pr_events (pr_begun e c s) = pr_events s"
  "holds (pr_roles (pr_begun e c s)) = holds (pr_roles s)"
  "pr_settlement_adapter (pr_begun e c s) = pr_settlement_adapter s"
  "pr_policy_manager (pr_begun e c s) = pr_policy_manager s"
  "pr_network_domain (pr_begun e c s) = pr_network_domain s"
  "pr_authorized_signer (pr_begun e c s) = pr_authorized_signer s"
  "pr_paused (pr_begun e c s) = pr_paused s"
  "pr_methodology_enabled (pr_begun e c s) = pr_methodology_enabled s"
  by (simp_all add: pr_begun_def pr_touch_def)

lemma pr_publish_simps [simp]:
  "pr_policy_paid (pr_publish ev s) = pr_policy_paid s" "pr_report (pr_publish ev s) = pr_report s"
  "pr_consumed (pr_publish ev s) = pr_consumed s" "pr_events (pr_publish ev s) = pr_events s @ [ev]"
  "pr_roles (pr_publish ev s) = pr_roles s"
  "pr_settlement_adapter (pr_publish ev s) = pr_settlement_adapter s"
  "pr_policy_manager (pr_publish ev s) = pr_policy_manager s"
  "pr_network_domain (pr_publish ev s) = pr_network_domain s"
  "pr_authorized_signer (pr_publish ev s) = pr_authorized_signer s"
  "pr_paused (pr_publish ev s) = pr_paused s"
  "pr_methodology_enabled (pr_publish ev s) = pr_methodology_enabled s"
  by (simp_all add: pr_publish_def)

lemma unwrap_flag: "unwrap_or False x \<longleftrightarrow> x = Some True"
  by (cases x) simp_all

lemma if_Inl_eq_Inr: "(if c then Inl err else m) = Inr x \<longleftrightarrow> \<not> c \<and> m = Inr x"
  by simp

lemma begin_submission_Inr:
  "begin_submission e caller kind s = Inr (signer, s') \<longleftrightarrow>
     may_submit e caller kind s \<and> pr_authorized_signer s = Some signer \<and> s' = pr_begun e caller s"
  by (auto simp: begin_submission_def may_submit_def require_role_eq Let_def unwrap_flag
      is_methodology_enabled_def methodology_enabled_def pr_begun_def pr_touch_def split: option.splits)

lemma begin_submission_Inl:
  "(\<exists>x. begin_submission e caller kind s = Inl x) \<longleftrightarrow> \<not> may_submit e caller kind s"
proof -
  have "(\<exists>r. begin_submission e caller kind s = Inr r) \<longleftrightarrow> may_submit e caller kind s"
    unfolding split_paired_Ex begin_submission_Inr by (auto simp: may_submit_def)
  then show ?thesis by (cases "begin_submission e caller kind s") auto
qed

lemma open_policy_Inr:
  "open_policy pmc e pm i s w = Inr (p, w') \<longleftrightarrow>
     (\<exists>w1. pmc_policy_exists pmc (subcall e pm) i w = Inr (True, w1) \<and>
        pmc_get_policy pmc (subcall e pm) i w1 = Inr (p, w')) \<and>
     p_status p = Active \<and> timestamp e \<le> p_end_date p \<and> \<not> is_policy_paid i s"
  unfolding open_policy_def is_policy_paid_def bindE_eq_Inr split_paired_Ex prod.case if_Inl_eq_Inr not_less not_not
    sum.inject prod.inject
  by (rule iffI; elim exE conjE; simp) blast+

lemma open_policy_ok:
  assumes "pmc_policy_exists pmc (subcall e pm) i w = Inr (True, w1)"
    and "pmc_get_policy pmc (subcall e pm) i w1 = Inr (p, w')"
    and "p_status p = Active" and "timestamp e \<le> p_end_date p" and "\<not> is_policy_paid i s"
  shows "open_policy pmc e pm i s w = Inr (p, w')"
  unfolding open_policy_Inr using assms by blast

text \<open>The plot test is the distance test: an overflow is a mismatch, never a trap.\<close>

lemma plot_off_iff:
  assumes "i128_min \<le> x" and "x \<le> i128_max" and "\<bar>y\<bar> \<le> MAX_LON_E6"
  shows "\<not> plot_off x y \<longleftrightarrow> \<bar>x - y\<bar> \<le> 1"
  using assms
  by (auto simp: plot_off_def checked_sub_i128_def checked_abs_i128_def PLOT_COORD_TOLERANCE_E6_def
      i128_min_def i128_max_def MAX_LON_E6_def)

lemma not_plot_off: "\<not> plot_off x y \<Longrightarrow> \<bar>x - y\<bar> \<le> 1"
  by (auto simp: plot_off_def checked_sub_i128_def checked_abs_i128_def PLOT_COORD_TOLERANCE_E6_def
      split: if_splits)

lemma plot_near: "\<bar>x - y\<bar> \<le> 1 \<Longrightarrow> \<not> plot_off x y"
  by (auto simp: plot_off_def checked_sub_i128_def checked_abs_i128_def PLOT_COORD_TOLERANCE_E6_def
      i128_min_def i128_max_def)

lemma plot_off_eq: "plot_off x y \<longleftrightarrow> \<not> \<bar>x - y\<bar> \<le> 1"
  using plot_near not_plot_off by blast

lemma require_plot_Inr [simp]:
  "require_plot p lat lon = Inr u \<longleftrightarrow> \<bar>lat - p_lat_e6 p\<bar> \<le> 1 \<and> \<bar>lon - p_lon_e6 p\<bar> \<le> 1"
  by (simp add: require_plot_def plot_off_eq)

text \<open>The payout is the floor of the share for a policy's sum insured.\<close>

definition payout_share :: "policy \<Rightarrow> nat \<Rightarrow> int" where
  "payout_share p bp = p_sum_insured p * int bp sdiv BASIS_POINTS"

lemma require_payout_Inr [simp]:
  "require_payout p bp payout = Inr u \<longleftrightarrow>
     payout = payout_share p bp \<and> i128_min \<le> p_sum_insured p * int bp \<and> p_sum_insured p * int bp \<le> i128_max"
  by (auto simp: require_payout_def payout_share_def bindE_eq_Inr)

lemma payout_share_floor:
  assumes "0 \<le> p_sum_insured p"
  shows "payout_share p bp = p_sum_insured p * int bp div 10000"
  using assms by (simp add: payout_share_def BASIS_POINTS_def signed_divide_int_def sgn_if)

definition fresh :: "env \<Rightarrow> nat \<Rightarrow> bool" where
  "fresh e assessed_at \<longleftrightarrow>
     assessed_at \<le> timestamp e \<and> timestamp e \<le> saturating_add_u64 assessed_at MAX_REPORT_AGE"

lemma require_fresh_Inr:
  "require_fresh_and_claimable pmc e pm p t w = Inr w' \<longleftrightarrow>
     fresh e t \<and> pmc_can_farmer_claim pmc (subcall e pm) (p_farmer p) w = Inr (True, w')"
  by (auto simp: require_fresh_and_claimable_def fresh_def Let_def bindE_eq_Inr split: if_splits)

definition signed_by :: "env \<Rightarrow> bytes32 \<Rightarrow> bytes64 \<Rightarrow> nat \<Rightarrow> bytes65 option \<Rightarrow> bool" where
  "signed_by e digest sig rid signer \<longleftrightarrow> signer \<noteq> None \<and> secp256k1_recover e digest sig rid = signer"

lemma require_signed_Inr:
  "require_unconsumed_and_signed e digest sig rid signer s = Inr u \<longleftrightarrow>
     \<not> has_temporary e (pr_consumed s) digest \<and> secp256k1_recover e digest sig rid = Some signer"
  by (auto simp: require_unconsumed_and_signed_def split: option.splits if_splits)

lemma siblings_Inr [simp]:
  "siblings s = Inr (a, p) \<longleftrightarrow> pr_settlement_adapter s = Some a \<and> pr_policy_manager s = Some p"
  by (auto simp: siblings_def split: option.splits)

lemma network_domain_Inr [simp]: "network_domain s = Inr d \<longleftrightarrow> pr_network_domain s = Some d"
  by (simp add: network_domain_def split: option.splits)

lemma adapter_call_Inr:
  "adapter_call ads addr f = Inr (r, ads') \<longleftrightarrow>
     (\<exists>a a'. ads addr = Some a \<and> f a = Inr (r, a') \<and> ads' = ads(addr \<mapsto> a'))"
  by (auto simp: adapter_call_def bindE_eq_Inr split: option.splits)

section \<open>Settlement\<close>

text \<open>The contract after the effects: marker, flag and report written, rent paid.\<close>

definition settled_state :: "env \<Rightarrow> policy \<Rightarrow> damage_report \<Rightarrow> bytes32 \<Rightarrow> pr_state \<Rightarrow> pr_state" where
  "settled_state e p report h s =
     (let i = r_policy_id report;
          n = ledgers_until e (saturating_add_u64 (p_end_date p) POLICY_GRACE_SECS)
      in s\<lparr>pr_consumed := bumped e h TEMP_THRESHOLD TEMP_BUMP (put_temporary e h True (pr_consumed s)),
           pr_policy_paid := kept e i n (put e i True (pr_policy_paid s)),
           pr_report := kept e i n (put e i report (pr_report s))\<rparr>)"

lemma settle_effects_eq: "settle_effects e p report h s = Inr (settled_state e p report h s)"
  by (simp add: settle_effects_def settled_state_def Let_def)

lemma settled_state_simps [simp]:
  "get (pr_policy_paid (settled_state e p report h s)) = (get (pr_policy_paid s))(r_policy_id report \<mapsto> True)"
  "get (pr_report (settled_state e p report h s)) = (get (pr_report s))(r_policy_id report \<mapsto> report)"
  "pr_events (settled_state e p report h s) = pr_events s"
  "pr_roles (settled_state e p report h s) = pr_roles s"
  "pr_settlement_adapter (settled_state e p report h s) = pr_settlement_adapter s"
  "pr_policy_manager (settled_state e p report h s) = pr_policy_manager s"
  "pr_network_domain (settled_state e p report h s) = pr_network_domain s"
  "pr_authorized_signer (settled_state e p report h s) = pr_authorized_signer s"
  "pr_paused (settled_state e p report h s) = pr_paused s"
  "pr_methodology_enabled (settled_state e p report h s) = pr_methodology_enabled s"
  by (simp_all add: settled_state_def Let_def)

text \<open>The three events of a settlement, and the state that carries them.\<close>

definition settlement_events :: "policy \<Rightarrow> damage_report \<Rightarrow> bytes32 \<Rightarrow> nat \<Rightarrow> address \<Rightarrow> pr_event list" where
  "settlement_events p report h ob_id adapter =
     [DeterminationVerified (r_policy_id report) h,
      DamageReportReceived (r_policy_id report) (p_farmer p) (r_damage_percentage report) (r_payout_amount report),
      ObligationRequested (r_policy_id report) ob_id adapter (r_payout_amount report)]"

definition owes :: "env \<Rightarrow> policy \<Rightarrow> damage_report \<Rightarrow> bytes32 \<Rightarrow> obligation \<Rightarrow> bool" where
  "owes e p report h ob \<longleftrightarrow>
     o_payout_receiver ob = current_contract_address e \<and> o_policy_id ob = r_policy_id report \<and>
     o_org ob = p_org p \<and> o_amount ob = r_payout_amount report \<and> o_determination_digest ob = h \<and>
     o_status ob = Owed"

lemma settle_verified_Inr:
  "settle_verified pmc adc e pm adapter p report h sys = Inr sys' \<longleftrightarrow>
     (\<exists>a ob a' w w'. sys_adapters sys adapter = Some a \<and>
        adc_record_obligation adc (subcall e adapter) (current_contract_address e) (r_policy_id report)
          (p_org p) (r_payout_amount report) h a = Inr (ob, a') \<and> owes e p report h ob \<and>
        pmc_mark_as_claimed pmc (subcall e pm) (current_contract_address e) (r_policy_id report) (sys_pm sys) = Inr w \<and>
        pmc_increment_claim_count pmc (subcall e pm) (current_contract_address e) (p_farmer p) w = Inr w' \<and>
        sys' = sys\<lparr>sys_pr := (settled_state e p report h (sys_pr sys))
                     \<lparr>pr_events := pr_events (sys_pr sys) @ settlement_events p report h (o_id ob) adapter\<rparr>,
                   sys_pm := w', sys_adapters := (sys_adapters sys)(adapter \<mapsto> a')\<rparr>)"
  by (auto simp: settle_verified_def settle_effects_eq Let_def bindE_eq_Inr adapter_call_Inr owes_def
      settlement_events_def pr_publish_def split: if_splits)

section \<open>What a determination says\<close>

definition drought_claim :: "drought_determination \<Rightarrow> bool" where
  "drought_claim d \<longleftrightarrow>
     0 < d_rain_ref_w1_e2 d \<and> 0 < d_rain_ref_w2_e2 d \<and>
     d_rain_w1_e2 d \<le> MAX_RAIN_E2 \<and> d_rain_ref_w1_e2 d \<le> MAX_RAIN_E2 \<and>
     d_rain_w2_e2 d \<le> MAX_RAIN_E2 \<and> d_rain_ref_w2_e2 d \<le> MAX_RAIN_E2 \<and>
     d_lgp_days d = LGP_DAYS \<and> d_cdd_w2_days d \<le> MAX_CDD_W2_DAYS \<and>
     SECONDS_PER_DAY dvd d_season_start_epoch d \<and>
     d_methodology_params_hash d = DROUGHT_PARAMS_HASH_RDI_1_0 \<and>
     d_drought_damage d =
       drought_index (d_rain_w1_e2 d) (d_rain_ref_w1_e2 d) (d_rain_w2_e2 d) (d_rain_ref_w2_e2 d) \<and>
     d_damage_percent_bp d = 100 * d_drought_damage d \<and> 30 \<le> d_drought_damage d"

definition drought_matches :: "drought_determination \<Rightarrow> policy \<Rightarrow> bool" where
  "drought_matches d p \<longleftrightarrow>
     p_coverage_type p = Drought \<and> d_sum_insured d = p_sum_insured p \<and>
     \<bar>d_latitude_e6 d - p_lat_e6 p\<bar> \<le> 1 \<and> \<bar>d_longitude_e6 d - p_lon_e6 p\<bar> \<le> 1 \<and>
     p_start_date p div SECONDS_PER_DAY * SECONDS_PER_DAY \<le> d_season_start_epoch d \<and>
     d_season_start_epoch d + SEASON_WINDOW_SECS \<le> u64_max \<and>
     d_season_start_epoch d + SEASON_WINDOW_SECS \<le> p_end_date p \<and>
     d_season_start_epoch d + SEASON_WINDOW_SECS \<le> d_assessed_at d \<and>
     d_payout_amount d = payout_share p (d_damage_percent_bp d) \<and>
     i128_min \<le> p_sum_insured p * int (d_damage_percent_bp d) \<and>
     p_sum_insured p * int (d_damage_percent_bp d) \<le> i128_max"

definition drought_report :: "drought_determination \<Rightarrow> damage_report" where
  "drought_report d =
     \<lparr>r_policy_id = d_on_chain_policy_id d, r_damage_percentage = d_damage_percent_bp d,
      r_weather_damage = 0, r_satellite_damage = 0, r_payout_amount = d_payout_amount d,
      r_assessed_at = d_assessed_at d\<rparr>"

definition crop_claim :: "crop_determination \<Rightarrow> bool" where
  "crop_claim d \<longleftrightarrow>
     cd_weather_damage d \<le> 100 \<and> cd_satellite_damage d \<le> 100 \<and> cd_weather_present d \<le> 1 \<and>
     (cd_weather_present d = 0 \<longrightarrow> cd_weather_damage d = 0) \<and>
     cd_damage_percent_bp d =
       (if cd_weather_present d = 0 then 100 * cd_satellite_damage d
        else 60 * cd_weather_damage d + 40 * cd_satellite_damage d) \<and>
     MIN_DAMAGE_THRESHOLD \<le> cd_damage_percent_bp d"

definition crop_matches :: "crop_determination \<Rightarrow> policy \<Rightarrow> bool" where
  "crop_matches d p \<longleftrightarrow>
     p_coverage_type p = Comprehensive \<and> cd_sum_insured d = p_sum_insured p \<and>
     \<bar>cd_latitude_e6 d - p_lat_e6 p\<bar> \<le> 1 \<and> \<bar>cd_longitude_e6 d - p_lon_e6 p\<bar> \<le> 1 \<and>
     cd_payout_amount d = payout_share p (cd_damage_percent_bp d) \<and>
     i128_min \<le> p_sum_insured p * int (cd_damage_percent_bp d) \<and>
     p_sum_insured p * int (cd_damage_percent_bp d) \<le> i128_max"

definition crop_report :: "crop_determination \<Rightarrow> damage_report" where
  "crop_report d =
     \<lparr>r_policy_id = cd_on_chain_policy_id d, r_damage_percentage = cd_damage_percent_bp d,
      r_weather_damage = cd_weather_damage d, r_satellite_damage = cd_satellite_damage d,
      r_payout_amount = cd_payout_amount d, r_assessed_at = cd_assessed_at d\<rparr>"

lemma drought_claim_bounds:
  "drought_claim d \<Longrightarrow> 3000 \<le> d_damage_percent_bp d \<and> d_damage_percent_bp d \<le> 10000"
  using drought_index_le [of "d_rain_w1_e2 d" "d_rain_ref_w1_e2 d" "d_rain_w2_e2 d" "d_rain_ref_w2_e2 d"]
  by (auto simp: drought_claim_def)

lemma crop_claim_bounds:
  "crop_claim d \<Longrightarrow> 3000 \<le> cd_damage_percent_bp d \<and> cd_damage_percent_bp d \<le> 10000"
  by (auto simp: crop_claim_def MIN_DAMAGE_THRESHOLD_def)

section \<open>The drought submission\<close>

text \<open>The checks in the source's own words are \<open>drought_claim\<close>.\<close>

lemma drought_checks:
  "drought_claim d \<longleftrightarrow>
     \<not> MAX_DAMAGE_PERCENTAGE < d_damage_percent_bp d \<and> \<not> 100 < d_drought_damage d \<and>
     \<not> (d_lgp_days d \<noteq> LGP_DAYS \<or> MAX_CDD_W2_DAYS < d_cdd_w2_days d \<or>
        d_rain_ref_w1_e2 d = 0 \<or> d_rain_ref_w2_e2 d = 0 \<or>
        MAX_RAIN_E2 < d_rain_w1_e2 d \<or> MAX_RAIN_E2 < d_rain_ref_w1_e2 d \<or>
        MAX_RAIN_E2 < d_rain_w2_e2 d \<or> MAX_RAIN_E2 < d_rain_ref_w2_e2 d \<or>
        d_season_start_epoch d mod SECONDS_PER_DAY \<noteq> 0 \<or>
        d_methodology_params_hash d \<noteq> DROUGHT_PARAMS_HASH_RDI_1_0) \<and>
     mul_u32 (d_drought_damage d) 100 = Inr (d_damage_percent_bp d) \<and>
     rdi_v1_drought_damage (d_rain_w1_e2 d) (d_rain_ref_w1_e2 d) (d_rain_w2_e2 d) (d_rain_ref_w2_e2 d) =
       Inr (Some (d_drought_damage d)) \<and>
     \<not> d_damage_percent_bp d < MIN_DAMAGE_THRESHOLD"
  (is "_ \<longleftrightarrow> ?checks")
proof
  assume c: "drought_claim d"
  then have "d_drought_damage d \<le> 100" using drought_index_le by (simp add: drought_claim_def)
  with c show ?checks
    by (auto simp: drought_claim_def rdi_cases pr_constants u32_max_def dvd_eq_mod_eq_0)
next
  assume ?checks
  then show "drought_claim d"
    by (auto simp: drought_claim_def rdi_cases pr_constants dvd_eq_mod_eq_0 split: if_splits)
qed

text \<open>The same for what the determination says of the policy.\<close>

lemma start_of_day: "sub_u (t :: nat) (t mod SECONDS_PER_DAY) = Inr (t div SECONDS_PER_DAY * SECONDS_PER_DAY)"
  by (simp add: minus_mod_eq_div_mult)

definition drought_digest_of :: "env \<Rightarrow> drought_determination \<Rightarrow> pr_state \<Rightarrow> bytes32" where
  "drought_digest_of e d s =
     drought_determination_digest e d (current_contract_address e) (the (pr_network_domain s))"

definition drought_accepted ::
  "env \<Rightarrow> address \<Rightarrow> drought_determination \<Rightarrow> bytes64 \<Rightarrow> nat \<Rightarrow> pr_state \<Rightarrow> policy \<Rightarrow> bool" where
  "drought_accepted e caller d sig rid s p \<longleftrightarrow>
     may_submit e caller CropDroughtRdi10 s \<and> drought_claim d \<and> drought_matches d p \<and>
     fresh e (d_assessed_at d) \<and> pr_network_domain s \<noteq> None \<and>
     \<not> has_temporary e (pr_consumed s) (drought_digest_of e d s) \<and>
     signed_by e (drought_digest_of e d s) sig rid (pr_authorized_signer s)"

definition drought_begun :: "env \<Rightarrow> address \<Rightarrow> drought_determination \<Rightarrow> pr_state \<Rightarrow> pr_state" where
  "drought_begun e caller d s =
     pr_publish (DroughtEvidenceRecorded (d_on_chain_policy_id d) (d_drought_damage d)
       (d_season_start_epoch d) (d_source_hash d)) (pr_begun e caller s)"

lemma open_policy_begun [simp]: "open_policy pmc e pm i (pr_begun e' c s) w = open_policy pmc e pm i s w"
  unfolding open_policy_def pr_begun_simps ..

lemma submit_drought_Inr:
  "submit_drought_determination pmc adc e caller d sig rid sys = Inr sys' \<longleftrightarrow>
     (\<exists>adapter pm p w1 w2.
        pr_settlement_adapter (sys_pr sys) = Some adapter \<and> pr_policy_manager (sys_pr sys) = Some pm \<and>
        open_policy pmc e pm (d_on_chain_policy_id d) (sys_pr sys) (sys_pm sys) = Inr (p, w1) \<and>
        drought_accepted e caller d sig rid (sys_pr sys) p \<and>
        pmc_can_farmer_claim pmc (subcall e pm) (p_farmer p) w1 = Inr (True, w2) \<and>
        settle_verified pmc adc e pm adapter p (drought_report d) (drought_digest_of e d (sys_pr sys))
          (sys\<lparr>sys_pr := drought_begun e caller d (sys_pr sys), sys_pm := w2\<rparr>) = Inr sys')"
  (is "?call \<longleftrightarrow> ?conds")
proof
  assume ?call
  then show ?conds
    unfolding submit_drought_determination_def bindE_eq_Inr split_paired_Ex prod.case Let_def ensure_Inr
      begin_submission_Inr siblings_Inr require_plot_Inr require_payout_Inr require_fresh_Inr
      network_domain_Inr require_signed_Inr start_of_day
    apply (elim exE conjE)
    apply hypsubst
    unfolding pr_begun_simps open_policy_begun
    apply (intro exI conjI)
         apply assumption+
       apply (simp_all add: drought_accepted_def drought_checks drought_matches_def drought_digest_of_def
        signed_by_def drought_report_def drought_begun_def)
    done
next
  assume ?conds
  then obtain adapter pm p w1 w2 where
    addr: "pr_settlement_adapter (sys_pr sys) = Some adapter" "pr_policy_manager (sys_pr sys) = Some pm"
    and policy: "open_policy pmc e pm (d_on_chain_policy_id d) (sys_pr sys) (sys_pm sys) = Inr (p, w1)"
    and acc: "drought_accepted e caller d sig rid (sys_pr sys) p"
    and can: "pmc_can_farmer_claim pmc (subcall e pm) (p_farmer p) w1 = Inr (True, w2)"
    and settle: "settle_verified pmc adc e pm adapter p (drought_report d) (drought_digest_of e d (sys_pr sys))
          (sys\<lparr>sys_pr := drought_begun e caller d (sys_pr sys), sys_pm := w2\<rparr>) = Inr sys'"
    by blast
  obtain signer domain where signer: "pr_authorized_signer (sys_pr sys) = Some signer"
    and domain: "pr_network_domain (sys_pr sys) = Some domain"
    using acc by (auto simp: drought_accepted_def may_submit_def)
  have claim: "drought_claim d" and m: "drought_matches d p" using acc by (simp_all add: drought_accepted_def)
  note checks = claim [unfolded drought_checks]
  have calls: "begin_submission e caller CropDroughtRdi10 (sys_pr sys) = Inr (signer, pr_begun e caller (sys_pr sys))"
    "siblings (pr_begun e caller (sys_pr sys)) = Inr (adapter, pm)"
    "require_plot p (d_latitude_e6 d) (d_longitude_e6 d) = Inr ()"
    "require_payout p (d_damage_percent_bp d) (d_payout_amount d) = Inr ()"
    "require_fresh_and_claimable pmc e pm p (d_assessed_at d) w1 = Inr w2"
    "require_unconsumed_and_signed e (drought_digest_of e d (sys_pr sys)) sig rid signer
      (pr_begun e caller (sys_pr sys)) = Inr ()"
    "network_domain (pr_begun e caller (sys_pr sys)) = Inr domain"
    using acc signer domain addr m can
    by (simp_all add: begin_submission_Inr require_fresh_Inr require_signed_Inr drought_accepted_def
        signed_by_def drought_matches_def)
  have guards: "p_coverage_type p = Drought" "d_sum_insured d = p_sum_insured p"
    "d_season_start_epoch d + SEASON_WINDOW_SECS \<le> u64_max"
    "\<not> (d_season_start_epoch d < p_start_date p div SECONDS_PER_DAY * SECONDS_PER_DAY \<or>
        p_end_date p < d_season_start_epoch d + SEASON_WINDOW_SECS)"
    "\<not> d_assessed_at d < d_season_start_epoch d + SEASON_WINDOW_SECS"
    "drought_determination_digest e d (current_contract_address e) domain = drought_digest_of e d (sys_pr sys)"
    using m domain by (simp_all add: drought_matches_def drought_digest_of_def)
  from checks settle show ?call
    unfolding submit_drought_determination_def start_of_day Let_def drought_report_def drought_begun_def
    by (elim conjE) (simp only: calls guards policy open_policy_begun bindE_Inr prod.case ensure_ok
        not_False_eq_True simp_thms)
qed

section \<open>The crop submission\<close>

lemma expected_bp_eq:
  assumes "cd_weather_damage d \<le> 100" and "cd_satellite_damage d \<le> 100"
  shows "expected_bp d = Inr (if cd_weather_present d = 0 then 100 * cd_satellite_damage d
     else 60 * cd_weather_damage d + 40 * cd_satellite_damage d)"
proof -
  have "mul_u32 (cd_satellite_damage d) WEIGHT_DENOMINATOR = Inr (100 * cd_satellite_damage d)"
    "mul_u32 WEATHER_WEIGHT (cd_weather_damage d) = Inr (60 * cd_weather_damage d)"
    "mul_u32 SATELLITE_WEIGHT (cd_satellite_damage d) = Inr (40 * cd_satellite_damage d)"
    "add_u32 (60 * cd_weather_damage d) (40 * cd_satellite_damage d) =
       Inr (60 * cd_weather_damage d + 40 * cd_satellite_damage d)"
    using assms by (simp_all add: pr_constants u32_max_def)
  then show ?thesis by (simp only: expected_bp_def bindE_Inr split: if_split) simp
qed

lemma crop_checks:
  "crop_claim d \<longleftrightarrow>
     \<not> MAX_DAMAGE_PERCENTAGE < cd_damage_percent_bp d \<and>
     \<not> (100 < cd_weather_damage d \<or> 100 < cd_satellite_damage d) \<and>
     \<not> 1 < cd_weather_present d \<and>
     \<not> (cd_weather_present d = 0 \<and> cd_weather_damage d \<noteq> 0) \<and>
     expected_bp d = Inr (cd_damage_percent_bp d) \<and>
     \<not> cd_damage_percent_bp d < MIN_DAMAGE_THRESHOLD"
  (is "_ \<longleftrightarrow> ?checks")
proof (cases "cd_weather_damage d \<le> 100 \<and> cd_satellite_damage d \<le> 100")
  case True
  then show ?thesis using crop_claim_bounds [of d]
    by (auto simp: crop_claim_def expected_bp_eq MAX_DAMAGE_PERCENTAGE_def)
next
  case False
  then show ?thesis by (auto simp: crop_claim_def)
qed

definition crop_digest_of :: "env \<Rightarrow> crop_determination \<Rightarrow> pr_state \<Rightarrow> bytes32" where
  "crop_digest_of e d s =
     determination_digest e d (current_contract_address e) (the (pr_network_domain s))"

definition crop_accepted ::
  "env \<Rightarrow> address \<Rightarrow> crop_determination \<Rightarrow> bytes64 \<Rightarrow> nat \<Rightarrow> pr_state \<Rightarrow> policy \<Rightarrow> bool" where
  "crop_accepted e caller d sig rid s p \<longleftrightarrow>
     may_submit e caller CropDualIndex10 s \<and> crop_claim d \<and> crop_matches d p \<and>
     fresh e (cd_assessed_at d) \<and> pr_network_domain s \<noteq> None \<and>
     \<not> has_temporary e (pr_consumed s) (crop_digest_of e d s) \<and>
     signed_by e (crop_digest_of e d s) sig rid (pr_authorized_signer s)"

lemma submit_crop_Inr:
  "submit_determination pmc adc e caller d sig rid sys = Inr sys' \<longleftrightarrow>
     (\<exists>adapter pm p w1 w2.
        pr_settlement_adapter (sys_pr sys) = Some adapter \<and> pr_policy_manager (sys_pr sys) = Some pm \<and>
        open_policy pmc e pm (cd_on_chain_policy_id d) (sys_pr sys) (sys_pm sys) = Inr (p, w1) \<and>
        crop_accepted e caller d sig rid (sys_pr sys) p \<and>
        pmc_can_farmer_claim pmc (subcall e pm) (p_farmer p) w1 = Inr (True, w2) \<and>
        settle_verified pmc adc e pm adapter p (crop_report d) (crop_digest_of e d (sys_pr sys))
          (sys\<lparr>sys_pr := pr_begun e caller (sys_pr sys), sys_pm := w2\<rparr>) = Inr sys')"
  (is "?call \<longleftrightarrow> ?conds")
proof
  assume ?call
  then show ?conds
    unfolding submit_determination_def bindE_eq_Inr split_paired_Ex prod.case Let_def ensure_Inr
      begin_submission_Inr siblings_Inr require_plot_Inr require_payout_Inr require_fresh_Inr
      network_domain_Inr require_signed_Inr
    apply (elim exE conjE)
    apply hypsubst
    unfolding pr_begun_simps open_policy_begun
    apply (intro exI conjI)
         apply assumption+
       apply (simp_all add: crop_accepted_def crop_checks crop_matches_def crop_digest_of_def
        signed_by_def crop_report_def)
    done
next
  assume ?conds
  then obtain adapter pm p w1 w2 where
    addr: "pr_settlement_adapter (sys_pr sys) = Some adapter" "pr_policy_manager (sys_pr sys) = Some pm"
    and policy: "open_policy pmc e pm (cd_on_chain_policy_id d) (sys_pr sys) (sys_pm sys) = Inr (p, w1)"
    and acc: "crop_accepted e caller d sig rid (sys_pr sys) p"
    and can: "pmc_can_farmer_claim pmc (subcall e pm) (p_farmer p) w1 = Inr (True, w2)"
    and settle: "settle_verified pmc adc e pm adapter p (crop_report d) (crop_digest_of e d (sys_pr sys))
          (sys\<lparr>sys_pr := pr_begun e caller (sys_pr sys), sys_pm := w2\<rparr>) = Inr sys'"
    by blast
  obtain signer domain where signer: "pr_authorized_signer (sys_pr sys) = Some signer"
    and domain: "pr_network_domain (sys_pr sys) = Some domain"
    using acc by (auto simp: crop_accepted_def may_submit_def)
  have claim: "crop_claim d" and m: "crop_matches d p" using acc by (simp_all add: crop_accepted_def)
  note checks = claim [unfolded crop_checks]
  have calls: "begin_submission e caller CropDualIndex10 (sys_pr sys) = Inr (signer, pr_begun e caller (sys_pr sys))"
    "siblings (pr_begun e caller (sys_pr sys)) = Inr (adapter, pm)"
    "require_plot p (cd_latitude_e6 d) (cd_longitude_e6 d) = Inr ()"
    "require_payout p (cd_damage_percent_bp d) (cd_payout_amount d) = Inr ()"
    "require_fresh_and_claimable pmc e pm p (cd_assessed_at d) w1 = Inr w2"
    "require_unconsumed_and_signed e (crop_digest_of e d (sys_pr sys)) sig rid signer
      (pr_begun e caller (sys_pr sys)) = Inr ()"
    "network_domain (pr_begun e caller (sys_pr sys)) = Inr domain"
    using acc signer domain addr m can
    by (simp_all add: begin_submission_Inr require_fresh_Inr require_signed_Inr crop_accepted_def
        signed_by_def crop_matches_def)
  have guards: "p_coverage_type p = Comprehensive" "cd_sum_insured d = p_sum_insured p"
    "determination_digest e d (current_contract_address e) domain = crop_digest_of e d (sys_pr sys)"
    using m domain by (simp_all add: crop_matches_def crop_digest_of_def)
  from checks settle show ?call
    unfolding submit_determination_def Let_def crop_report_def
    by (elim conjE) (simp only: calls guards policy open_policy_begun bindE_Inr prod.case ensure_ok
        not_False_eq_True simp_thms)
qed

end
