(* ===== verification/Settlement.thy ===== *)
theory Settlement
  imports PayoutChecks
begin

text \<open>
  The PayoutReceiver between a policy manager that keeps the promises of \<open>claim_registry\<close> and an
  adapter that keeps those of \<open>obligation_book\<close>: the exact condition on which a submission goes
  through, and what it leaves behind in all three contracts. Both are proved once, over the two
  interfaces, and hold of the modelled contracts through the interpretation at the end.
\<close>

locale payout_system =
  claim_registry client look claimer can sound +
  book: obligation_book "adc_record_obligation adc" owed kept bound room
  for client :: "'w pm_client" and look claimer can sound
    and adc :: "'a adapter_client" and owed kept bound room
begin

text \<open>What the three contracts' states must be for policy \<open>p\<close> to be settled with this report.\<close>

definition settleable ::
  "env \<Rightarrow> address \<Rightarrow> policy \<Rightarrow> damage_report \<Rightarrow> bytes32 \<Rightarrow> 'w \<Rightarrow> 'a \<Rightarrow> bool" where
  "settleable e pm p report h w a \<longleftrightarrow>
     can (subcall e pm) w (p_farmer p) \<and> claimer w (current_contract_address e) \<and>
     bound a = Some (current_contract_address e) \<and> 0 < r_payout_amount report \<and>
     (case owed a (current_contract_address e, r_policy_id report) of
        Some ob \<Rightarrow> o_org ob = p_org p \<and> o_amount ob = r_payout_amount report \<and>
                   o_determination_digest ob = h \<and> o_status ob = Owed
      | None \<Rightarrow> room a (p_org p))"

lemma open_policy_iff:
  assumes "sound w"
  shows "(\<exists>w'. open_policy client e pm i s w = Inr (p, w')) \<longleftrightarrow>
     look w i = Some p \<and> p_status p = Active \<and> timestamp e \<le> p_end_date p \<and> \<not> is_policy_paid i s"
proof
  assume "\<exists>w'. open_policy client e pm i s w = Inr (p, w')"
  then obtain w' where "open_policy client e pm i s w = Inr (p, w')" ..
  then show "look w i = Some p \<and> p_status p = Active \<and> timestamp e \<le> p_end_date p \<and> \<not> is_policy_paid i s"
    unfolding open_policy_Inr exists_law [OF assms] using get_effect [OF assms, of _ i p] by auto
next
  assume pre: "look w i = Some p \<and> p_status p = Active \<and> timestamp e \<le> p_end_date p \<and> \<not> is_policy_paid i s"
  then obtain w' where "pmc_get_policy client (subcall e pm) i w = Inr (p, w')"
    using get_some [OF assms] by blast
  with pre exists_law [OF assms, of "subcall e pm" i]
  show "\<exists>w'. open_policy client e pm i s w = Inr (p, w')" by (intro exI open_policy_ok) auto
qed

lemma open_policy_effect:
  assumes "sound w" and "open_policy client e pm i s w = Inr (p, w')"
  shows "look w i = Some p \<and> sound w' \<and> look w' = look w \<and> claimer w' = claimer w \<and> (\<forall>e'. can e' w' = can e' w)"
  using assms(2) unfolding open_policy_Inr exists_law [OF assms(1)]
  using get_effect [OF assms(1), of _ i p] by auto

text \<open>Recording an obligation that is owed, as the PayoutReceiver checks it.\<close>

lemma record_owed_iff:
  assumes "kept a"
  shows "(\<exists>ob a'. adc_record_obligation adc (subcall e ad) (current_contract_address e) (r_policy_id report)
             (p_org p) (r_payout_amount report) h a = Inr (ob, a') \<and> owes e p report h ob) \<longleftrightarrow>
     bound a = Some (current_contract_address e) \<and> 0 < r_payout_amount report \<and>
     (case owed a (current_contract_address e, r_policy_id report) of
        Some ob \<Rightarrow> o_org ob = p_org p \<and> o_amount ob = r_payout_amount report \<and>
                   o_determination_digest ob = h \<and> o_status ob = Owed
      | None \<Rightarrow> room a (p_org p))"
    (is "(\<exists>ob a'. ?call ob a' \<and> _) \<longleftrightarrow> ?cond")
proof -
  let ?k = "(current_contract_address e, r_policy_id report)"
  note law = book.enter_law [OF assms, of "subcall e ad" "current_contract_address e" "r_policy_id report"
      "p_org p" "r_payout_amount report" h]
  have faithful: "owes e p report h ob \<longleftrightarrow> o_status ob = Owed" if "?call ob a'" for ob a'
    using book.record_faithful [OF assms that] by (auto simp: owes_def)
  have stable: "ob = ob0" if "owed a ?k = Some ob0" and "?call ob a'" for ob ob0 a'
    using book.record_stable [OF assms that] .
  have fresh: "o_status ob = Owed" if "owed a ?k = None" and "?call ob a'" for ob a'
    using book.fresh_owed [OF assms that] .
  show ?thesis
  proof
    assume "\<exists>ob a'. ?call ob a' \<and> owes e p report h ob"
    then obtain ob a' where call: "?call ob a'" and owes: "owes e p report h ob" by blast
    then have "\<exists>r. adc_record_obligation adc (subcall e ad) (current_contract_address e) (r_policy_id report)
             (p_org p) (r_payout_amount report) h a = Inr r" by blast
    then show ?cond
      using law faithful [OF call] owes stable [OF _ call] by (auto split: option.splits)
  next
    assume ?cond
    then obtain ob a' where call: "?call ob a'" using law by (auto split: option.splits)
    have "o_status ob = Owed"
      using fresh [OF _ call] stable [OF _ call] \<open>?cond\<close> by (cases "owed a ?k") auto
    then show "\<exists>ob a'. ?call ob a' \<and> owes e p report h ob" using call faithful [OF call] by blast
  qed
qed

lemma settle_iff:
  assumes w: "sound w" and a: "sys_adapters sys ad = Some a" and kept: "kept a" and pm: "sys_pm sys = w"
    and p: "look w (r_policy_id report) = Some p" "p_status p = Active" "timestamp e \<le> p_end_date p"
  shows "(\<exists>sys'. settle_verified client adc e pm ad p report h sys = Inr sys') \<and> can (subcall e pm) w (p_farmer p) \<longleftrightarrow>
     settleable e pm p report h w a"
proof -
  have "(\<exists>sys'. settle_verified client adc e pm ad p report h sys = Inr sys') \<longleftrightarrow>
    (\<exists>ob a'. adc_record_obligation adc (subcall e ad) (current_contract_address e) (r_policy_id report)
             (p_org p) (r_payout_amount report) h a = Inr (ob, a') \<and> owes e p report h ob) \<and>
    (\<exists>w'. settle (subcall e pm) (current_contract_address e) (r_policy_id report) (p_farmer p) w = Inr w')"
    by (auto simp: settle_verified_Inr a pm settle_def bindE_eq_Inr)
  then show ?thesis
    unfolding record_owed_iff [OF kept] settle_exact [OF w] settleable_def using p by auto
qed

text \<open>A submission goes through exactly when it is accepted and its policy can be settled.\<close>

lemma drought_settles:
  assumes w: "sound (sys_pm sys)"
    and addr: "pr_settlement_adapter (sys_pr sys) = Some ad" "pr_policy_manager (sys_pr sys) = Some pm"
    and a: "sys_adapters sys ad = Some a" "kept a"
  shows "(\<exists>sys'. submit_drought_determination client adc e caller d sig rid sys = Inr sys') \<longleftrightarrow>
    (\<exists>p. look (sys_pm sys) (d_on_chain_policy_id d) = Some p \<and> p_status p = Active \<and>
       timestamp e \<le> p_end_date p \<and> \<not> is_policy_paid (d_on_chain_policy_id d) (sys_pr sys) \<and>
       drought_accepted e caller d sig rid (sys_pr sys) p \<and>
       settleable e pm p (drought_report d) (drought_digest_of e d (sys_pr sys)) (sys_pm sys) a)"
    (is "?ok \<longleftrightarrow> (\<exists>p. ?cond p)")
proof
  let ?h = "drought_digest_of e d (sys_pr sys)"
  assume ?ok
  then obtain p w1 w2 sys' where
    op: "open_policy client e pm (d_on_chain_policy_id d) (sys_pr sys) (sys_pm sys) = Inr (p, w1)"
    and acc: "drought_accepted e caller d sig rid (sys_pr sys) p"
    and can: "pmc_can_farmer_claim client (subcall e pm) (p_farmer p) w1 = Inr (True, w2)"
    and settle: "settle_verified client adc e pm ad p (drought_report d) ?h
          (sys\<lparr>sys_pr := drought_begun e caller d (sys_pr sys), sys_pm := w2\<rparr>) = Inr sys'"
    unfolding submit_drought_Inr by (auto simp: addr)
  note eff = open_policy_effect [OF w op]
  have w2: "w2 = w1" "can (subcall e pm) w1 (p_farmer p)" using can can_law eff by auto
  have live: "p_status p = Active" "timestamp e \<le> p_end_date p" "\<not> is_policy_paid (d_on_chain_policy_id d) (sys_pr sys)"
    using op by (simp_all add: open_policy_Inr)
  have "settleable e pm p (drought_report d) ?h w1 a"
    using settle_iff [of w1 "sys\<lparr>sys_pr := drought_begun e caller d (sys_pr sys), sys_pm := w2\<rparr>" ad a
        "drought_report d" p e pm ?h] settle eff live a w2
    by (auto simp: drought_report_def)
  then have "settleable e pm p (drought_report d) ?h (sys_pm sys) a" using eff by (simp add: settleable_def)
  with live acc eff show "\<exists>p. ?cond p" by blast
next
  let ?h = "drought_digest_of e d (sys_pr sys)"
  assume "\<exists>p. ?cond p"
  then obtain p where p: "?cond p" ..
  then obtain w1 where op: "open_policy client e pm (d_on_chain_policy_id d) (sys_pr sys) (sys_pm sys) = Inr (p, w1)"
    using open_policy_iff [OF w] by blast
  note eff = open_policy_effect [OF w op]
  have s: "settleable e pm p (drought_report d) ?h w1 a" using p eff by (simp add: settleable_def)
  then have can: "pmc_can_farmer_claim client (subcall e pm) (p_farmer p) w1 = Inr (True, w1)"
    using can_law eff by (simp add: settleable_def)
  have "\<exists>sys'. settle_verified client adc e pm ad p (drought_report d) ?h
      (sys\<lparr>sys_pr := drought_begun e caller d (sys_pr sys), sys_pm := w1\<rparr>) = Inr sys'"
    using settle_iff [of w1 "sys\<lparr>sys_pr := drought_begun e caller d (sys_pr sys), sys_pm := w1\<rparr>" ad a
        "drought_report d" p e pm ?h] s eff p a by (simp add: drought_report_def)
  with op can p addr show ?ok unfolding submit_drought_Inr by blast
qed

text \<open>What a settlement leaves behind.\<close>

lemma settled_everywhere:
  assumes w: "sound (sys_pm sys)" and a: "sys_adapters sys ad = Some a" "kept a"
    and call: "settle_verified client adc e pm ad p report h sys = Inr sys'"
    and p: "look (sys_pm sys) (r_policy_id report) = Some p"
  shows "\<exists>a' ob. sys_adapters sys' = (sys_adapters sys)(ad \<mapsto> a') \<and> kept a' \<and> bound a' = bound a \<and>
    owed a' = (owed a)((current_contract_address e, r_policy_id report) \<mapsto> ob) \<and> owes e p report h ob \<and>
    sound (sys_pm sys') \<and> claimer (sys_pm sys') = claimer (sys_pm sys) \<and>
    look (sys_pm sys') = (look (sys_pm sys))(r_policy_id report \<mapsto> p\<lparr>p_status := Claimed\<rparr>) \<and>
    is_policy_paid (r_policy_id report) (sys_pr sys') \<and> get_report (r_policy_id report) (sys_pr sys') = report \<and>
    pr_events (sys_pr sys') = pr_events (sys_pr sys) @ settlement_events p report h (o_id ob) ad"
proof -
  from call obtain ob a' w1 w2 where
    rec: "adc_record_obligation adc (subcall e ad) (current_contract_address e) (r_policy_id report)
          (p_org p) (r_payout_amount report) h a = Inr (ob, a')" and owes: "owes e p report h ob"
    and m: "pmc_mark_as_claimed client (subcall e pm) (current_contract_address e) (r_policy_id report) (sys_pm sys) = Inr w1"
    and c: "pmc_increment_claim_count client (subcall e pm) (current_contract_address e) (p_farmer p) w1 = Inr w2"
    and sys': "sys' = sys\<lparr>sys_pr := (settled_state e p report h (sys_pr sys))
                     \<lparr>pr_events := pr_events (sys_pr sys) @ settlement_events p report h (o_id ob) ad\<rparr>,
                   sys_pm := w2, sys_adapters := (sys_adapters sys)(ad \<mapsto> a')\<rparr>"
    unfolding settle_verified_Inr by (auto simp: a)
  have "settle (subcall e pm) (current_contract_address e) (r_policy_id report) (p_farmer p) (sys_pm sys) = Inr w2"
    by (simp add: settle_def m c)
  note eff = settle_effect [OF w this]
  have "get (pr_policy_paid (sys_pr sys')) (r_policy_id report) = Some True"
    "get (pr_report (sys_pr sys')) (r_policy_id report) = Some report" by (simp_all add: sys')
  then show ?thesis
    using eff p owes book.record_sound [OF a(2) rec] book.record_stores [OF a(2) rec] book.stays_bound [OF a(2) rec]
    by (auto simp: sys' is_policy_paid_def get_report_def)
qed

end

interpretation real: payout_system real_pm "\<lambda>w. get (pm_policy (snd w))"
  "\<lambda>w. holds (pm_roles (snd w)) Oracle" "\<lambda>e w a. pm_can_farmer_claim e a (snd w)" pm_sound
  real_adapter obligation_for sa_inv adapter_payout_receiver has_obligation_room
  unfolding payout_system_def real_adapter_simps
  by (intro conjI pm_registry.claim_registry_axioms sa_book.obligation_book_axioms)

end
