(* ===== verification/PayoutLife.thy ===== *)
theory PayoutLife
  imports Settlement
begin

text \<open>
  The PayoutReceiver over time, with arbitrary clients: the policy manager and the adapters it
  calls may return anything and change in any way between and during calls. What is proved here
  needs no promise of theirs: a policy is settled at most once, for the amount of its stored report,
  and nothing settles while the contract is paused or the methodology disabled.
\<close>

section \<open>Steps\<close>

inductive pr_admin :: "env \<Rightarrow> pr_state \<Rightarrow> pr_state \<Rightarrow> bool" where
  adm_signer: "set_authorized_signer e c k s = Inr s' \<Longrightarrow> pr_admin e s s'"
| adm_domain: "set_network_domain e c h s = Inr s' \<Longrightarrow> pr_admin e s s'"
| adm_grant: "pr_grant_role e c r a s = Inr s' \<Longrightarrow> pr_admin e s s'"
| adm_revoke: "pr_revoke_role e c r a s = Inr s' \<Longrightarrow> pr_admin e s s'"
| adm_has_role: "pr_has_role e r a s = Inr (b, s') \<Longrightarrow> pr_admin e s s'"
| adm_upgrade: "pr_upgrade e c wasm s = Inr s' \<Longrightarrow> pr_admin e s s'"
| adm_pause: "pause e c s = Inr s' \<Longrightarrow> pr_admin e s s'"
| adm_unpause: "unpause e c s = Inr s' \<Longrightarrow> pr_admin e s s'"
| adm_methodology: "set_methodology_enabled e c k b s = Inr s' \<Longrightarrow> pr_admin e s s'"

text \<open>The entry points of the contract, and a step in which the rest of the world moves.\<close>

inductive pr_call ::
  "'w pm_client \<Rightarrow> 'a adapter_client \<Rightarrow> env \<Rightarrow> ('w, 'a) pr_sys \<Rightarrow> ('w, 'a) pr_sys \<Rightarrow> bool"
  for pmc :: "'w pm_client" and adc :: "'a adapter_client" where
  pr_administers: "pr_admin e (sys_pr sys) s' \<Longrightarrow> pr_call pmc adc e sys (sys\<lparr>sys_pr := s'\<rparr>)"
| pr_swaps: "set_settlement_adapter adc e c a sys = Inr sys' \<Longrightarrow> pr_call pmc adc e sys sys'"
| pr_settles_crop: "submit_determination pmc adc e c cd sig rid sys = Inr sys' \<Longrightarrow> pr_call pmc adc e sys sys'"
| pr_settles_drought: "submit_drought_determination pmc adc e c d sig rid sys = Inr sys' \<Longrightarrow> pr_call pmc adc e sys sys'"
| pr_rents: "pr_extend_policy_ttl pmc adc e i sys = Inr sys' \<Longrightarrow> pr_call pmc adc e sys sys'"
| pr_keeps: "pr_extend_contract_ttl pmc adc e sys = Inr sys' \<Longrightarrow> pr_call pmc adc e sys sys'"

inductive pr_step ::
  "'w pm_client \<Rightarrow> 'a adapter_client \<Rightarrow> env \<Rightarrow> ('w, 'a) pr_sys \<Rightarrow> ('w, 'a) pr_sys \<Rightarrow> bool"
  for pmc :: "'w pm_client" and adc :: "'a adapter_client" where
  pr_called: "pr_call pmc adc e sys sys' \<Longrightarrow> pr_step pmc adc e sys sys'"
| world_moves: "pr_step pmc adc e sys (sys\<lparr>sys_pm := w, sys_adapters := ads\<rparr>)"

inductive_cases pr_callE: "pr_call pmc adc e sys sys'"

inductive pr_reachable :: "'w pm_client \<Rightarrow> 'a adapter_client \<Rightarrow> ('w, 'a) pr_sys \<Rightarrow> bool"
  for pmc :: "'w pm_client" and adc :: "'a adapter_client" where
  pr_start: "pr_constructor e ad pm admin = Inr s \<Longrightarrow>
      pr_reachable pmc adc \<lparr>sys_pr = s, sys_pm = w, sys_adapters = ads\<rparr>"
| pr_next: "pr_reachable pmc adc sys \<Longrightarrow> pr_step pmc adc e sys sys' \<Longrightarrow> pr_reachable pmc adc sys'"

section \<open>What a step does to the settlements\<close>

text \<open>The settlements in the log: policy, obligation id, adapter, amount.\<close>

definition settlement_of :: "nat \<Rightarrow> pr_event \<Rightarrow> (nat \<times> address \<times> int) list" where
  "settlement_of i ev = (case ev of ObligationRequested j ob ad x \<Rightarrow> if j = i then [(ob, ad, x)] else [] | _ \<Rightarrow> [])"

definition settlements :: "nat \<Rightarrow> pr_state \<Rightarrow> (nat \<times> address \<times> int) list" where
  "settlements i s = concat (map (settlement_of i) (pr_events s))"

lemma settlement_of_simps [simp]:
  "settlement_of i (ObligationRequested j ob ad x) = (if j = i then [(ob, ad, x)] else [])"
  "settlement_of i (AuthorizedSignerUpdated k) = []" "settlement_of i (DeterminationVerified j h) = []"
  "settlement_of i (DamageReportReceived j f bp x) = []" "settlement_of i (SettlementAdapterUpdated a a') = []"
  "settlement_of i (DroughtEvidenceRecorded j n m h) = []" "settlement_of i (MethodologyEnabledSet kind on) = []"
  by (simp_all add: settlement_of_def)

text \<open>The records of a settlement, rent horizons erased.\<close>

definition pr_book :: "pr_state \<Rightarrow> (nat \<rightharpoonup> bool) \<times> (nat \<rightharpoonup> damage_report) \<times> (nat \<Rightarrow> (nat \<times> address \<times> int) list)" where
  "pr_book s = (get (pr_policy_paid s), get (pr_report s), \<lambda>i. settlements i s)"

lemma pr_admin_same: "pr_admin e s s' \<Longrightarrow> pr_book s' = pr_book s"
  by (induction rule: pr_admin.induct)
    (auto simp: set_authorized_signer_def set_network_domain_def pr_grant_role_def pr_revoke_role_def
      pr_has_role_def pr_upgrade_def pause_def unpause_def set_methodology_enabled_def pr_book_def settlements_def
      pr_publish_def bindE_eq_Inr)

lemma set_settlement_adapter_Inr:
  "set_settlement_adapter adc e c ad sys = Inr sys' \<longleftrightarrow>
     authorizes e c \<and> holds (pr_roles (sys_pr sys)) Admin c \<and> ad \<noteq> current_contract_address e \<and>
     (\<exists>a a' previous. sys_adapters sys ad = Some a \<and>
        adc_payout_receiver adc (subcall e ad) a = Inr (Some (current_contract_address e), a') \<and>
        pr_settlement_adapter (sys_pr sys) = Some previous \<and>
        sys' = sys\<lparr>sys_pr := pr_publish (SettlementAdapterUpdated previous ad)
            ((pr_touch e ((sys_pr sys)\<lparr>pr_roles := used_role e Admin c (pr_roles (sys_pr sys))\<rparr>))
              \<lparr>pr_settlement_adapter := Some ad\<rparr>),
          sys_adapters := (sys_adapters sys)(ad \<mapsto> a')\<rparr>)"
  by (auto simp: set_settlement_adapter_def require_role_eq Let_def adapter_call_def pr_touch_def
      split: option.splits sum.splits if_splits elim!: bindE_InrE simp: bindE_eq_Inl)

lemma pr_swap_same: "set_settlement_adapter adc e c ad sys = Inr sys' \<Longrightarrow> pr_book (sys_pr sys') = pr_book (sys_pr sys)"
  by (auto simp: set_settlement_adapter_Inr pr_book_def settlements_def pr_touch_def)

lemma extend_for_policy_if_get:
  "extend_for_policy_if e k t st = Inr st' \<Longrightarrow> get st' = get st"
  by (auto simp: extend_for_policy_if_def split: if_splits)

lemma pr_rent_same: "pr_extend_policy_ttl pmc adc e i sys = Inr sys' \<Longrightarrow> pr_book (sys_pr sys') = pr_book (sys_pr sys)"
  by (auto simp: pr_extend_policy_ttl_def Let_def bindE_eq_Inr pr_book_def settlements_def pr_touch_def
      dest!: extend_for_policy_if_get)

lemma pr_keep_same: "pr_extend_contract_ttl pmc adc e sys = Inr sys' \<Longrightarrow> pr_book (sys_pr sys') = pr_book (sys_pr sys)"
  by (auto simp: pr_extend_contract_ttl_def Let_def bindE_eq_Inr pr_book_def settlements_def split: option.splits)

text \<open>Both submissions settle one unpaid policy, with a report between 30 and 100 percent.\<close>

definition settles :: "nat \<Rightarrow> damage_report \<Rightarrow> pr_state \<Rightarrow> pr_state \<Rightarrow> bool" where
  "settles i report s s' \<longleftrightarrow>
     r_policy_id report = i \<and> \<not> is_policy_paid i s \<and>
     3000 \<le> r_damage_percentage report \<and> r_damage_percentage report \<le> 10000 \<and>
     (\<exists>ob ad. pr_book s' = ((get (pr_policy_paid s))(i \<mapsto> True), (get (pr_report s))(i \<mapsto> report),
        \<lambda>j. settlements j s @ (if j = i then [(ob, ad, r_payout_amount report)] else [])))"

lemma report_fields [simp]:
  "r_policy_id (drought_report d) = d_on_chain_policy_id d"
  "r_damage_percentage (drought_report d) = d_damage_percent_bp d"
  "r_payout_amount (drought_report d) = d_payout_amount d"
  "r_policy_id (crop_report k) = cd_on_chain_policy_id k"
  "r_damage_percentage (crop_report k) = cd_damage_percent_bp k"
  "r_payout_amount (crop_report k) = cd_payout_amount k"
  by (simp_all add: drought_report_def crop_report_def)

lemma drought_begun_simps [simp]:
  "pr_policy_paid (drought_begun e c d s) = pr_policy_paid s" "pr_report (drought_begun e c d s) = pr_report s"
  "pr_events (drought_begun e c d s) = pr_events s @ [DroughtEvidenceRecorded (d_on_chain_policy_id d)
     (d_drought_damage d) (d_season_start_epoch d) (d_source_hash d)]"
  by (simp_all add: drought_begun_def)

lemma settle_verified_book:
  assumes "settle_verified pmc adc e pm ad p report h sys = Inr sys'"
  shows "\<exists>ob. pr_book (sys_pr sys') =
    ((get (pr_policy_paid (sys_pr sys)))(r_policy_id report \<mapsto> True),
     (get (pr_report (sys_pr sys)))(r_policy_id report \<mapsto> report),
     \<lambda>j. settlements j (sys_pr sys) @ (if j = r_policy_id report then [(ob, ad, r_payout_amount report)] else []))"
  using assms unfolding settle_verified_Inr
  by (elim exE conjE) (rule exI, simp add: pr_book_def settlements_def settlement_events_def fun_eq_iff)

lemma drought_settles_one:
  assumes "submit_drought_determination pmc adc e c d sig rid sys = Inr sys'"
  shows "settles (d_on_chain_policy_id d) (drought_report d) (sys_pr sys) (sys_pr sys')"
proof -
  from assms obtain adapter pm p w1 w2 where
    op: "open_policy pmc e pm (d_on_chain_policy_id d) (sys_pr sys) (sys_pm sys) = Inr (p, w1)"
    and acc: "drought_accepted e c d sig rid (sys_pr sys) p"
    and settle: "settle_verified pmc adc e pm adapter p (drought_report d) (drought_digest_of e d (sys_pr sys))
          (sys\<lparr>sys_pr := drought_begun e c d (sys_pr sys), sys_pm := w2\<rparr>) = Inr sys'"
    unfolding submit_drought_Inr by blast
  have "\<not> is_policy_paid (d_on_chain_policy_id d) (sys_pr sys)" using op by (simp add: open_policy_Inr)
  moreover have "3000 \<le> d_damage_percent_bp d \<and> d_damage_percent_bp d \<le> 10000"
    using acc drought_claim_bounds by (simp add: drought_accepted_def)
  moreover obtain ob where "pr_book (sys_pr sys') =
    ((get (pr_policy_paid (sys_pr sys)))(d_on_chain_policy_id d \<mapsto> True),
     (get (pr_report (sys_pr sys)))(d_on_chain_policy_id d \<mapsto> drought_report d),
     \<lambda>j. settlements j (sys_pr sys) @
        (if j = d_on_chain_policy_id d then [(ob, adapter, r_payout_amount (drought_report d))] else []))"
    using settle_verified_book [OF settle] by (auto simp: settlements_def)
  ultimately show ?thesis
    unfolding settles_def by (intro conjI exI [of _ ob] exI [of _ adapter]) simp_all
qed

lemma crop_settles_one:
  assumes "submit_determination pmc adc e c d sig rid sys = Inr sys'"
  shows "settles (cd_on_chain_policy_id d) (crop_report d) (sys_pr sys) (sys_pr sys')"
proof -
  from assms obtain adapter pm p w1 w2 where
    op: "open_policy pmc e pm (cd_on_chain_policy_id d) (sys_pr sys) (sys_pm sys) = Inr (p, w1)"
    and acc: "crop_accepted e c d sig rid (sys_pr sys) p"
    and settle: "settle_verified pmc adc e pm adapter p (crop_report d) (crop_digest_of e d (sys_pr sys))
          (sys\<lparr>sys_pr := pr_begun e c (sys_pr sys), sys_pm := w2\<rparr>) = Inr sys'"
    unfolding submit_crop_Inr by blast
  have "\<not> is_policy_paid (cd_on_chain_policy_id d) (sys_pr sys)" using op by (simp add: open_policy_Inr)
  moreover have "3000 \<le> cd_damage_percent_bp d \<and> cd_damage_percent_bp d \<le> 10000"
    using acc crop_claim_bounds by (simp add: crop_accepted_def)
  moreover obtain ob where "pr_book (sys_pr sys') =
    ((get (pr_policy_paid (sys_pr sys)))(cd_on_chain_policy_id d \<mapsto> True),
     (get (pr_report (sys_pr sys)))(cd_on_chain_policy_id d \<mapsto> crop_report d),
     \<lambda>j. settlements j (sys_pr sys) @
        (if j = cd_on_chain_policy_id d then [(ob, adapter, r_payout_amount (crop_report d))] else []))"
    using settle_verified_book [OF settle] by (auto simp: settlements_def)
  ultimately show ?thesis
    unfolding settles_def by (intro conjI exI [of _ ob] exI [of _ adapter]) simp_all
qed

lemma pr_call_cases:
  assumes "pr_call pmc adc e sys sys'"
  obtains (Same) "pr_book (sys_pr sys') = pr_book (sys_pr sys)"
    | (Settle) i report where "settles i report (sys_pr sys) (sys_pr sys')"
  using assms
proof (cases rule: pr_call.cases)
  case (pr_administers s')
  then show thesis using Same pr_admin_same by simp
next
  case (pr_settles_crop c cd sig rid)
  then show thesis using Settle crop_settles_one by blast
next
  case (pr_settles_drought c d sig rid)
  then show thesis using Settle drought_settles_one by blast
next
  case (pr_swaps c a)
  show thesis by (rule Same) (rule pr_swap_same [OF pr_swaps])
next
  case (pr_rents i)
  show thesis by (rule Same) (rule pr_rent_same [OF pr_rents])
next
  case pr_keeps
  show thesis by (rule Same) (rule pr_keep_same [OF pr_keeps])
qed

lemma pr_step_cases:
  assumes "pr_step pmc adc e sys sys'"
  obtains (Same) "pr_book (sys_pr sys') = pr_book (sys_pr sys)"
    | (Settle) i report where "settles i report (sys_pr sys) (sys_pr sys')"
  using assms
proof (cases rule: pr_step.cases)
  case pr_called
  then show thesis by (cases rule: pr_call_cases) (fact Same Settle)+
next
  case (world_moves w ads)
  then show thesis by (intro Same) simp
qed

section \<open>The invariant\<close>

text \<open>
  A policy is paid exactly when one settlement of it was requested, for the amount of its report.
\<close>

definition pr_inv :: "pr_state \<Rightarrow> bool" where
  "pr_inv s \<longleftrightarrow>
     (\<forall>i. if is_policy_paid i s
          then (\<exists>r ob ad. get (pr_report s) i = Some r \<and> r_policy_id r = i \<and>
                  settlements i s = [(ob, ad, r_payout_amount r)] \<and>
                  3000 \<le> r_damage_percentage r \<and> r_damage_percentage r \<le> 10000)
          else settlements i s = [] \<and> get (pr_report s) i = None)"

lemma is_policy_paid_book: "is_policy_paid i s \<longleftrightarrow> fst (pr_book s) i = Some True"
  by (simp add: is_policy_paid_def pr_book_def unwrap_flag)

lemma pr_inv_same:
  assumes "pr_book s' = pr_book s" and "pr_inv s"
  shows "pr_inv s'"
proof -
  have "is_policy_paid i s' = is_policy_paid i s" "get (pr_report s') i = get (pr_report s) i"
    "settlements i s' = settlements i s" for i
    using assms(1) by (simp_all add: is_policy_paid_def pr_book_def fun_eq_iff)
  then show ?thesis using assms(2) by (simp only: pr_inv_def)
qed

lemma pr_inv_settles:
  assumes inv: "pr_inv s" and step: "settles i r s s'"
  shows "pr_inv s'"
proof -
  obtain ob ad where book: "pr_book s' = ((get (pr_policy_paid s))(i \<mapsto> True), (get (pr_report s))(i \<mapsto> r),
        \<lambda>j. settlements j s @ (if j = i then [(ob, ad, r_payout_amount r)] else []))"
    and r: "r_policy_id r = i" "\<not> is_policy_paid i s" "3000 \<le> r_damage_percentage r" "r_damage_percentage r \<le> 10000"
    using step by (auto simp: settles_def)
  have reads: "get (pr_policy_paid s') = (get (pr_policy_paid s))(i \<mapsto> True)" "get (pr_report s') = (get (pr_report s))(i \<mapsto> r)"
    "settlements j s' = settlements j s @ (if j = i then [(ob, ad, r_payout_amount r)] else [])" for j
    using book by (simp_all add: pr_book_def fun_eq_iff)
  have old: "settlements i s = []" using inv r(2) by (auto simp: pr_inv_def)
  show ?thesis
    unfolding pr_inv_def
  proof
    fix j
    show "if is_policy_paid j s'
          then \<exists>q ob ad. get (pr_report s') j = Some q \<and> r_policy_id q = j \<and>
                  settlements j s' = [(ob, ad, r_payout_amount q)] \<and>
                  3000 \<le> r_damage_percentage q \<and> r_damage_percentage q \<le> 10000
          else settlements j s' = [] \<and> get (pr_report s') j = None"
    proof (cases "j = i")
      case True
      then show ?thesis using old r by (simp add: is_policy_paid_def reads)
    next
      case False
      then have "is_policy_paid j s' \<longleftrightarrow> is_policy_paid j s" by (simp add: is_policy_paid_def reads)
      moreover note inv [unfolded pr_inv_def, rule_format, of j]
      ultimately show ?thesis using False by (simp only: reads fun_upd_apply if_False append_Nil2)
    qed
  qed
qed

lemma pr_constructor_effect:
  assumes "pr_constructor e ad pm admin = Inr s"
  shows "pr_inv s" and "holds (pr_roles s) r a \<longleftrightarrow> a = admin \<and> (r = Admin \<or> r = Upgrader)"
    and "pr_settlement_adapter s = Some ad" and "pr_policy_manager s = Some pm" and "pr_paused s = Some False"
    and "pr_policy_paid s = Map.empty" and "pr_consumed s = Map.empty" and "pr_authorized_signer s = None"
    and "pr_methodology_enabled s = Map.empty" and "pr_events s = []" and "pr_report s = Map.empty"
  using assms
  by (auto simp: pr_constructor_def pr_deployed_def bindE_eq_Inr Let_def holds_def pr_inv_def is_policy_paid_def
      settlements_def dest!: grant_role_Inr split: if_splits)

lemma pr_inv_step: "pr_step pmc adc e sys sys' \<Longrightarrow> pr_inv (sys_pr sys) \<Longrightarrow> pr_inv (sys_pr sys')"
  by (erule pr_step_cases) (auto intro: pr_inv_same pr_inv_settles)

lemma pr_reachable_inv: "pr_reachable pmc adc sys \<Longrightarrow> pr_inv (sys_pr sys)"
  by (induction rule: pr_reachable.induct) (auto intro: pr_inv_step pr_constructor_effect(1))

text \<open>A paid policy stays paid, with its report.\<close>

lemma paid_forever:
  assumes "pr_step pmc adc e sys sys'" and "is_policy_paid i (sys_pr sys)"
  shows "is_policy_paid i (sys_pr sys') \<and> get_report i (sys_pr sys') = get_report i (sys_pr sys)"
  using assms(1)
proof (cases rule: pr_step_cases)
  case Same
  then show ?thesis using assms(2) by (simp add: pr_book_def is_policy_paid_def get_report_def)
next
  case (Settle j r)
  then have "j \<noteq> i" using assms(2) by (auto simp: settles_def)
  with Settle show ?thesis
    using assms(2) by (auto simp: settles_def pr_book_def is_policy_paid_def get_report_def)
qed

section \<open>Access\<close>

interpretation pr_access: role_gated pr_grant_role pr_revoke_role pr_roles
proof unfold_locales
  fix e c r a and s s' :: pr_state and q b
  show "(\<exists>s'. pr_grant_role e c r a s = Inr s') \<longleftrightarrow> authorizes e c \<and> holds (pr_roles s) Admin c"
    by (auto simp: pr_grant_role_def require_role_eq grant_role_def)
  show "(\<exists>s'. pr_revoke_role e c r a s = Inr s') \<longleftrightarrow> authorizes e c \<and> holds (pr_roles s) Admin c"
    by (auto simp: pr_revoke_role_def require_role_eq)
  show "pr_grant_role e c r a s = Inr s' \<Longrightarrow>
      holds (pr_roles s') q b \<longleftrightarrow> (q = r \<and> b = a) \<or> holds (pr_roles s) q b"
    by (auto simp: pr_grant_role_def bindE_eq_Inr holds_grant)
  show "pr_revoke_role e c r a s = Inr s' \<Longrightarrow>
      holds (pr_roles s') q b \<longleftrightarrow> holds (pr_roles s) q b \<and> \<not> (q = r \<and> b = a)"
    by (auto simp: pr_revoke_role_def bindE_eq_Inr holds_revoke)
qed

end
