(* ===== verification/PayoutSample.thy ===== *)
theory PayoutSample
  imports PayoutLife
begin

text \<open>
  A concrete deployment of the whole system, used to show that the theorems about the
  PayoutReceiver have instances: PolicyManager 100 with the active policy 1 of \<open>sample_world\<close>,
  certificate contract 300, PayoutReceiver 200 administered by 11 with relayer 12, adapter 400 bound
  to it; and the season of the repository's own evidence run (rain 31130 of 27260 and 16280 of 22305,
  drought 42) signed and submitted after the end of its window. The properties of the PayoutReceiver
  for arbitrary clients follow.
\<close>

section \<open>The deployment\<close>

definition sample_pr_env :: env where
  "sample_pr_env = sample_env\<lparr>current_contract_address := Address 200\<rparr>"

definition sample_late :: env where
  "sample_late = sample_pr_env\<lparr>timestamp := 1709425000\<rparr>"

definition sample_drought :: drought_determination where
  "sample_drought =
     \<lparr>d_on_chain_policy_id = 1, d_damage_percent_bp = 4200, d_drought_damage = 42,
      d_payout_amount = 2100000000, d_assessed_at = 1709424000, d_latitude_e6 = 9000000,
      d_longitude_e6 = 8000000, d_sum_insured = 5000000000, d_season_start_epoch = 1699920000,
      d_lgp_days = 180, d_rain_w1_e2 = 31130, d_rain_ref_w1_e2 = 27260, d_rain_w2_e2 = 16280,
      d_rain_ref_w2_e2 = 22305, d_cdd_w2_days = 7, d_source_hash = 5,
      d_methodology_params_hash = DROUGHT_PARAMS_HASH_RDI_1_0\<rparr>"

definition sample_digest :: bytes32 where
  "sample_digest = drought_determination_digest sample_late sample_drought (Address 200) 7"

definition sample_signer :: bytes65 where "sample_signer = ucast sample_digest"

lemma sample_env_more [simp]:
  "authorizes sample_pr_env a" "current_contract_address sample_pr_env = Address 200"
  "authorizes sample_late a" "current_contract_address sample_late = Address 200"
  "timestamp sample_late = 1709425000" "max_ttl sample_late = 3110400"
  by (simp_all add: sample_pr_env_def sample_late_def)

text \<open>Deploy, appoint the relayer, set signer and domain, enable the drought methodology.\<close>

definition sample_pr_new :: pr_state where
  "sample_pr_new = projr (pr_constructor sample_pr_env (Address 400) (Address 100) (Address 11))"

definition sample_pr_relayer :: pr_state where
  "sample_pr_relayer = projr (pr_grant_role sample_pr_env (Address 11) Relayer (Address 12) sample_pr_new)"

definition sample_pr_signer :: pr_state where
  "sample_pr_signer = projr (set_authorized_signer sample_pr_env (Address 11) sample_signer sample_pr_relayer)"

definition sample_pr_domain :: pr_state where
  "sample_pr_domain = projr (set_network_domain sample_pr_env (Address 11) 7 sample_pr_signer)"

definition sample_pr_ready :: pr_state where
  "sample_pr_ready = projr (set_methodology_enabled sample_pr_env (Address 11) CropDroughtRdi10 True sample_pr_domain)"

lemma sample_pr_new:
  "pr_constructor sample_pr_env (Address 400) (Address 100) (Address 11) = Inr sample_pr_new"
  by (simp add: sample_pr_new_def pr_constructor_def grant_role_def Let_def)

lemma sample_pr_relayer:
  "pr_grant_role sample_pr_env (Address 11) Relayer (Address 12) sample_pr_new = Inr sample_pr_relayer"
proof -
  have "holds (pr_roles sample_pr_new) Admin (Address 11)" by (simp add: pr_constructor_effect(2) [OF sample_pr_new])
  then have "\<exists>s'. pr_grant_role sample_pr_env (Address 11) Relayer (Address 12) sample_pr_new = Inr s'"
    using pr_access.grant_law sample_env_more(1) by blast
  then show ?thesis unfolding sample_pr_relayer_def by (metis sum.sel(2))
qed

lemma pr_grant_role_effect:
  "pr_grant_role e c r a s = Inr s' \<Longrightarrow> \<exists>roles. s' = s\<lparr>pr_roles := roles\<rparr>"
  by (auto simp: pr_grant_role_def bindE_eq_Inr)

lemma sample_pr_relayer_roles:
  "holds (pr_roles sample_pr_relayer) r a \<longleftrightarrow>
     a = Address 11 \<and> (r = Admin \<or> r = Upgrader) \<or> r = Relayer \<and> a = Address 12"
  using pr_access.grant_effect [OF sample_pr_relayer, of r a] pr_constructor_effect(2) [OF sample_pr_new, of r a] by auto

lemma pr_config_Inr:
  "set_authorized_signer e c k s = Inr s' \<longleftrightarrow> authorizes e c \<and> holds (pr_roles s) Admin c \<and>
     s' = pr_publish (AuthorizedSignerUpdated k)
       (s\<lparr>pr_roles := used_role e Admin c (pr_roles s), pr_authorized_signer := Some k\<rparr>)"
  "set_network_domain e c h s = Inr s' \<longleftrightarrow> authorizes e c \<and> holds (pr_roles s) Admin c \<and>
     s' = s\<lparr>pr_roles := used_role e Admin c (pr_roles s), pr_network_domain := Some h\<rparr>"
  "set_methodology_enabled e c kind on s = Inr s' \<longleftrightarrow> authorizes e c \<and> holds (pr_roles s) Admin c \<and>
     s' = pr_publish (MethodologyEnabledSet kind on)
       (s\<lparr>pr_roles := used_role e Admin c (pr_roles s),
          pr_methodology_enabled := (pr_methodology_enabled s)(kind \<mapsto> on)\<rparr>)"
  by (auto simp: set_authorized_signer_def set_network_domain_def set_methodology_enabled_def require_role_eq)

lemma sample_pr_configured:
  "set_authorized_signer sample_pr_env (Address 11) sample_signer sample_pr_relayer = Inr sample_pr_signer"
  "set_network_domain sample_pr_env (Address 11) 7 sample_pr_signer = Inr sample_pr_domain"
  "set_methodology_enabled sample_pr_env (Address 11) CropDroughtRdi10 True sample_pr_domain = Inr sample_pr_ready"
proof -
  show a: "set_authorized_signer sample_pr_env (Address 11) sample_signer sample_pr_relayer = Inr sample_pr_signer"
    by (simp add: sample_pr_signer_def set_authorized_signer_def require_role_eq sample_pr_relayer_roles)
  have roles: "holds (pr_roles sample_pr_signer) = holds (pr_roles sample_pr_relayer)"
    by (simp add: a [unfolded pr_config_Inr, THEN conjunct2, THEN conjunct2])
  from roles show b: "set_network_domain sample_pr_env (Address 11) 7 sample_pr_signer = Inr sample_pr_domain"
    by (simp add: sample_pr_domain_def set_network_domain_def require_role_eq sample_pr_relayer_roles)
  have "holds (pr_roles sample_pr_domain) = holds (pr_roles sample_pr_relayer)"
    by (simp add: b [unfolded pr_config_Inr, THEN conjunct2, THEN conjunct2] roles)
  then show "set_methodology_enabled sample_pr_env (Address 11) CropDroughtRdi10 True sample_pr_domain = Inr sample_pr_ready"
    by (simp add: sample_pr_ready_def set_methodology_enabled_def require_role_eq sample_pr_relayer_roles)
qed

lemma sample_pr_ready:
  "holds (pr_roles sample_pr_ready) = holds (pr_roles sample_pr_relayer)"
  "pr_settlement_adapter sample_pr_ready = Some (Address 400)"
  "pr_policy_manager sample_pr_ready = Some (Address 100)"
  "pr_paused sample_pr_ready = Some False"
  "pr_authorized_signer sample_pr_ready = Some sample_signer"
  "pr_network_domain sample_pr_ready = Some 7"
  "is_methodology_enabled CropDroughtRdi10 sample_pr_ready"
  "pr_policy_paid sample_pr_ready = Map.empty" "pr_consumed sample_pr_ready = Map.empty"
proof -
  obtain roles where rel: "sample_pr_relayer = sample_pr_new\<lparr>pr_roles := roles\<rparr>"
    using pr_grant_role_effect [OF sample_pr_relayer] ..
  note new = pr_constructor_effect(3-9) [OF sample_pr_new]
  note eqs = sample_pr_configured [unfolded pr_config_Inr, THEN conjunct2, THEN conjunct2]
  show "holds (pr_roles sample_pr_ready) = holds (pr_roles sample_pr_relayer)" by (simp add: eqs)
  show "is_methodology_enabled CropDroughtRdi10 sample_pr_ready"
    by (simp add: eqs(3) is_methodology_enabled_def methodology_enabled_def)
  show "pr_settlement_adapter sample_pr_ready = Some (Address 400)"
    "pr_policy_manager sample_pr_ready = Some (Address 100)" "pr_paused sample_pr_ready = Some False"
    "pr_authorized_signer sample_pr_ready = Some sample_signer" "pr_network_domain sample_pr_ready = Some 7"
    "pr_policy_paid sample_pr_ready = Map.empty" "pr_consumed sample_pr_ready = Map.empty"
    by (simp_all add: eqs rel new)
qed

definition sample_sys :: "(nfts \<times> pm_state, sa_state) pr_sys" where
  "sample_sys = \<lparr>sys_pr = sample_pr_ready, sys_pm = sample_world, sys_adapters = [Address 400 \<mapsto> sample_sa_ready]\<rparr>"

lemma sample_sys_sel [simp]:
  "sys_pr sample_sys = sample_pr_ready" "sys_pm sample_sys = sample_world"
  "sys_adapters sample_sys = [Address 400 \<mapsto> sample_sa_ready]"
  by (simp_all add: sample_sys_def)

lemma sample_sys_reachable: "pr_reachable real_pm real_adapter sample_sys"
proof -
  let ?sys = "\<lambda>s. \<lparr>sys_pr = s, sys_pm = sample_world, sys_adapters = [Address 400 \<mapsto> sample_sa_ready]\<rparr>"
  have step: "pr_admin e s s' \<Longrightarrow> pr_reachable real_pm real_adapter (?sys s) \<Longrightarrow>
      pr_reachable real_pm real_adapter (?sys s')" for e s s'
    using pr_next [OF _ pr_called [OF pr_administers [of e "?sys s" s']]] by simp
  have "pr_reachable real_pm real_adapter (?sys sample_pr_new)" by (rule pr_start [OF sample_pr_new])
  then have "pr_reachable real_pm real_adapter (?sys sample_pr_relayer)" by (rule step [OF adm_grant [OF sample_pr_relayer]])
  then have "pr_reachable real_pm real_adapter (?sys sample_pr_signer)" by (rule step [OF adm_signer [OF sample_pr_configured(1)]])
  then have "pr_reachable real_pm real_adapter (?sys sample_pr_domain)" by (rule step [OF adm_domain [OF sample_pr_configured(2)]])
  then have "pr_reachable real_pm real_adapter (?sys sample_pr_ready)" by (rule step [OF adm_methodology [OF sample_pr_configured(3)]])
  then show ?thesis by (simp add: sample_sys_def)
qed

section \<open>The sample submission\<close>

lemma sample_active_fields:
  "p_id sample_active = 1" "p_farmer sample_active = Address 5" "p_org sample_active = Address 6"
  "p_status sample_active = Active" "p_sum_insured sample_active = 5000000000"
  "p_lat_e6 sample_active = 9000000" "p_lon_e6 sample_active = 8000000"
  "p_start_date sample_active = 1700000000" "p_end_date sample_active = 1712096000"
  "p_coverage_type sample_active = Drought"
  by (simp_all add: sample_active_def activated_def sample_policy_def new_policy_def PM_SECONDS_PER_DAY_def)

lemma sample_world_sound: "pm_sound sample_world"
  using pm_reachable_ok [OF sample_world(1)] sample_world(4,5)
  by (simp add: pm_sound_def pm_rest_def)

lemma sample_world_oracle:
  "holds (pm_roles (snd sample_world)) Oracle a \<longleftrightarrow> a = Address 200"
  using sample_world(4) sample_pm_ready_roles [of Oracle a] by (simp add: pm_rest_def)

lemma sample_world_claims: "claims_of (pm_view (snd sample_world)) a = []"
  unfolding sample_world(2) sample_pm_sold(2)
  by (simp add: a_activate_def a_create_def claims_of_def pm_constructor_effect(6) [OF sample_pm_new])

lemma sample_drought_claim: "drought_claim sample_drought"
  using canonical_vectors(6) by (simp add: drought_claim_def sample_drought_def drought_constants)

lemma sample_drought_matches: "drought_matches sample_drought sample_active"
  using payout_share_floor [of sample_active 4200]
  by (simp add: drought_matches_def sample_drought_def sample_active_fields drought_constants u64_max_def
      i128_min_def i128_max_def)

lemma sample_drought_digest: "drought_digest_of sample_late sample_drought sample_pr_ready = sample_digest"
  by (simp add: drought_digest_of_def sample_digest_def sample_pr_ready(6))

lemma sample_drought_accepted:
  "drought_accepted sample_late (Address 12) sample_drought 0 0 sample_pr_ready sample_active"
proof -
  have "may_submit sample_late (Address 12) CropDroughtRdi10 sample_pr_ready"
    using sample_pr_ready(1,4,5,7) by (simp add: may_submit_def sample_pr_relayer_roles)
  moreover have "signed_by sample_late sample_digest 0 0 (Some sample_signer)"
    by (simp add: signed_by_def sample_late_def sample_pr_env_def sample_env_def sample_signer_def)
  moreover have "fresh sample_late (d_assessed_at sample_drought)"
    by (simp add: fresh_def sample_drought_def saturating_add_u64_def MAX_REPORT_AGE_def u64_max_def)
  ultimately show ?thesis
    using sample_drought_claim sample_drought_matches sample_pr_ready(5,6,9)
    by (simp add: drought_accepted_def sample_drought_digest has_temporary_def live_entry_def)
qed

definition sample_paid :: "(nfts \<times> pm_state, sa_state) pr_sys" where
  "sample_paid = projr (submit_drought_determination real_pm real_adapter sample_late (Address 12)
     sample_drought 0 0 sample_sys)"

lemma sample_obligation_room: "obligation_for sample_sa_ready k = None" "has_obligation_room sample_sa_ready a"
  by (simp_all add: obligation_for_def sample_sa_ready(4) has_obligation_room_def obligation_count_def
      sample_sa_ready(6) org_obligation_count_def sample_sa_ready(5) sub_u_def u64_max_def u32_max_def)

lemma sample_paid:
  "submit_drought_determination real_pm real_adapter sample_late (Address 12) sample_drought 0 0 sample_sys =
     Inr sample_paid"
proof -
  have "real.settleable sample_late (Address 100) sample_active (drought_report sample_drought) sample_digest
      sample_world sample_sa_ready"
    unfolding real.settleable_def
    by (simp add: sample_world_oracle adapter_payout_receiver_def sample_sa_ready(3)
        sample_obligation_room can_of_view sample_world_claims MAX_CLAIMS_PER_FARMER_PER_YEAR_def)
      (simp add: sample_drought_def)
  then have "\<exists>sys'. submit_drought_determination real_pm real_adapter sample_late (Address 12) sample_drought 0 0
      sample_sys = Inr sys'"
    using real.drought_settles [of sample_sys "Address 400" "Address 100" sample_sa_ready sample_late
        "Address 12" sample_drought 0 0]
      sample_world_sound sa_reachable_inv [OF sample_sa_reachable(1)] sample_pr_ready(2,3,8) sample_world(3)
      sample_drought_accepted sample_active_fields(4,9) sample_drought_digest
    by (simp add: is_policy_paid_def sample_drought_def del: One_nat_def)
  then show ?thesis unfolding sample_paid_def by (metis sum.sel(2))
qed

section \<open>Properties for arbitrary clients\<close>

text \<open>C4. Soundness of a settlement, whatever the contracts it calls do. If a drought submission goes
  through, then every documented check held. A relayer sent it to an unpaused contract with the
  methodology enabled. The policy manager, asked in this order from its state before the call, said
  that the policy exists, what it is, and that its farmer has not reached the claim limit. That
  policy is active, in time, unpaid, drought cover, for the same sum insured, and its plot is within
  one microdegree of the measured one. The evidence is in bounds: positive references, no depth above
  the maximum, a 180-day growing period, at most its days of drought, a season starting at midnight,
  and the published parameters. The index recomputed from it is the damage, of at least 30 percent;
  the measured season lies inside the cover and was over when assessed; the report is at most an hour
  old; the payout is the exact share of the sum insured. The digest of exactly this determination for
  this contract and the stored network is not consumed, and the stored signer's key signed it.
  Afterwards the policy is paid and its report is stored.\<close>

theorem drought_submission_sound:
  assumes "submit_drought_determination pmc adc e c d sig rid sys = Inr sys'"
  shows "\<exists>pm p w1 w2 w3 domain signer digest.
    authorizes e c \<and> holds (pr_roles (sys_pr sys)) Relayer c \<and> pr_paused (sys_pr sys) \<noteq> Some True \<and>
    is_methodology_enabled CropDroughtRdi10 (sys_pr sys) \<and>
    pr_policy_manager (sys_pr sys) = Some pm \<and>
    pmc_policy_exists pmc (subcall e pm) (d_on_chain_policy_id d) (sys_pm sys) = Inr (True, w1) \<and>
    pmc_get_policy pmc (subcall e pm) (d_on_chain_policy_id d) w1 = Inr (p, w2) \<and>
    pmc_can_farmer_claim pmc (subcall e pm) (p_farmer p) w2 = Inr (True, w3) \<and>
    p_status p = Active \<and> timestamp e \<le> p_end_date p \<and>
    \<not> is_policy_paid (d_on_chain_policy_id d) (sys_pr sys) \<and>
    p_coverage_type p = Drought \<and> d_sum_insured d = p_sum_insured p \<and>
    \<bar>d_latitude_e6 d - p_lat_e6 p\<bar> \<le> 1 \<and> \<bar>d_longitude_e6 d - p_lon_e6 p\<bar> \<le> 1 \<and>
    0 < d_rain_ref_w1_e2 d \<and> 0 < d_rain_ref_w2_e2 d \<and>
    d_rain_w1_e2 d \<le> MAX_RAIN_E2 \<and> d_rain_ref_w1_e2 d \<le> MAX_RAIN_E2 \<and>
    d_rain_w2_e2 d \<le> MAX_RAIN_E2 \<and> d_rain_ref_w2_e2 d \<le> MAX_RAIN_E2 \<and>
    d_lgp_days d = LGP_DAYS \<and> d_cdd_w2_days d \<le> MAX_CDD_W2_DAYS \<and>
    SECONDS_PER_DAY dvd d_season_start_epoch d \<and>
    d_methodology_params_hash d = DROUGHT_PARAMS_HASH_RDI_1_0 \<and>
    d_drought_damage d = drought_index (d_rain_w1_e2 d) (d_rain_ref_w1_e2 d) (d_rain_w2_e2 d) (d_rain_ref_w2_e2 d) \<and>
    30 \<le> d_drought_damage d \<and> d_damage_percent_bp d = 100 * d_drought_damage d \<and>
    p_start_date p div SECONDS_PER_DAY * SECONDS_PER_DAY \<le> d_season_start_epoch d \<and>
    d_season_start_epoch d + SEASON_WINDOW_SECS \<le> p_end_date p \<and>
    d_season_start_epoch d + SEASON_WINDOW_SECS \<le> d_assessed_at d \<and>
    d_assessed_at d \<le> timestamp e \<and> timestamp e \<le> d_assessed_at d + MAX_REPORT_AGE \<and>
    d_payout_amount d = payout_share p (d_damage_percent_bp d) \<and>
    pr_network_domain (sys_pr sys) = Some domain \<and> pr_authorized_signer (sys_pr sys) = Some signer \<and>
    digest = drought_determination_digest e d (current_contract_address e) domain \<and>
    \<not> has_temporary e (pr_consumed (sys_pr sys)) digest \<and>
    secp256k1_recover e digest sig rid = Some signer \<and>
    is_policy_paid (d_on_chain_policy_id d) (sys_pr sys') \<and>
    get_report (d_on_chain_policy_id d) (sys_pr sys') = drought_report d"
proof -
  from assms obtain pm p w2 w3 where
    pm: "pr_policy_manager (sys_pr sys) = Some pm"
    and op: "open_policy pmc e pm (d_on_chain_policy_id d) (sys_pr sys) (sys_pm sys) = Inr (p, w2)"
    and acc: "drought_accepted e c d sig rid (sys_pr sys) p"
    and can: "pmc_can_farmer_claim pmc (subcall e pm) (p_farmer p) w2 = Inr (True, w3)"
    unfolding submit_drought_Inr by blast
  obtain w1 where get: "pmc_policy_exists pmc (subcall e pm) (d_on_chain_policy_id d) (sys_pm sys) = Inr (True, w1)"
      "pmc_get_policy pmc (subcall e pm) (d_on_chain_policy_id d) w1 = Inr (p, w2)"
    and live: "p_status p = Active" "timestamp e \<le> p_end_date p" "\<not> is_policy_paid (d_on_chain_policy_id d) (sys_pr sys)"
    using op unfolding open_policy_Inr by blast
  obtain domain signer where config: "pr_network_domain (sys_pr sys) = Some domain" "pr_authorized_signer (sys_pr sys) = Some signer"
    using acc by (auto simp: drought_accepted_def signed_by_def)
  have gates: "authorizes e c" "holds (pr_roles (sys_pr sys)) Relayer c" "pr_paused (sys_pr sys) \<noteq> Some True"
    "is_methodology_enabled CropDroughtRdi10 (sys_pr sys)"
    using acc by (simp_all add: drought_accepted_def may_submit_def)
  have sig: "\<not> has_temporary e (pr_consumed (sys_pr sys))
      (drought_determination_digest e d (current_contract_address e) domain)"
    "secp256k1_recover e (drought_determination_digest e d (current_contract_address e) domain) sig rid = Some signer"
    using acc config by (simp_all add: drought_accepted_def signed_by_def drought_digest_of_def)
  have checks: "drought_claim d" "drought_matches d p" "fresh e (d_assessed_at d)" using acc by (simp_all add: drought_accepted_def)
  have settled: "is_policy_paid (d_on_chain_policy_id d) (sys_pr sys') \<and>
      get_report (d_on_chain_policy_id d) (sys_pr sys') = drought_report d"
    using drought_settles_one [OF assms] by (auto simp: settles_def pr_book_def is_policy_paid_def get_report_def)
  show ?thesis
    apply (rule exI [of _ pm], rule exI [of _ p], rule exI [of _ w1], rule exI [of _ w2], rule exI [of _ w3],
        rule exI [of _ domain], rule exI [of _ signer],
        rule exI [of _ "drought_determination_digest e d (current_contract_address e) domain"])
    using pm get can live config gates sig settled checks
    by (simp add: drought_claim_def drought_matches_def fresh_def saturating_add_u64_def)
qed

theorem drought_submission_sound_witness:
  "is_policy_paid 1 (sys_pr sample_paid) \<and> get_report 1 (sys_pr sample_paid) = drought_report sample_drought"
proof -
  have "d_on_chain_policy_id sample_drought = 1" by (simp add: sample_drought_def)
  then show ?thesis using drought_submission_sound [OF sample_paid] by metis
qed

text \<open>C5. At most once, whatever the called contracts do, under either methodology and across any
  number of adapter swaps: in every reachable state a paid policy has exactly one requested
  obligation, for the amount of its stored report, and an unpaid policy has none.\<close>

theorem settled_at_most_once:
  assumes "pr_reachable pmc adc sys"
  shows "if is_policy_paid i (sys_pr sys)
     then \<exists>ob ad. settlements i (sys_pr sys) = [(ob, ad, r_payout_amount (get_report i (sys_pr sys)))] \<and>
            r_policy_id (get_report i (sys_pr sys)) = i \<and>
            MIN_DAMAGE_THRESHOLD \<le> r_damage_percentage (get_report i (sys_pr sys))
     else settlements i (sys_pr sys) = []"
  using pr_reachable_inv [OF assms, unfolded pr_inv_def, rule_format, of i]
  by (cases "is_policy_paid i (sys_pr sys)") (auto simp: get_report_def MIN_DAMAGE_THRESHOLD_def)

theorem settled_at_most_once_witness:
  "\<exists>ob ad. settlements 1 (sys_pr sample_paid) = [(ob, ad, 2100000000)]"
proof -
  have reach: "pr_reachable real_pm real_adapter sample_paid"
    by (rule pr_next [OF sample_sys_reachable pr_called [OF pr_settles_drought [OF sample_paid]]])
  have one: "d_on_chain_policy_id sample_drought = 1" by (simp add: sample_drought_def)
  have "is_policy_paid 1 (sys_pr sample_paid)" and "get_report 1 (sys_pr sample_paid) = drought_report sample_drought"
    using drought_settles_one [OF sample_paid, unfolded one]
    by (auto simp: settles_def pr_book_def is_policy_paid_def get_report_def simp del: One_nat_def)
  moreover have "r_payout_amount (drought_report sample_drought) = 2100000000" by (simp add: sample_drought_def)
  ultimately show ?thesis
    using settled_at_most_once [OF reach, of 1] by (simp only: if_True) blast
qed

text \<open>C6. Once a policy is paid it stays paid with the same report, and from then on no submission
  for it goes through, by either methodology, whatever else happens in between.\<close>

theorem paid_never_settles_again:
  assumes "is_policy_paid i (sys_pr sys)" and "(\<lambda>x y. \<exists>e. pr_step pmc adc e x y)\<^sup>*\<^sup>* sys later"
  shows "is_policy_paid i (sys_pr later) \<and> get_report i (sys_pr later) = get_report i (sys_pr sys) \<and>
    (d_on_chain_policy_id d = i \<longrightarrow> submit_drought_determination pmc adc e c d sig rid later \<noteq> Inr after) \<and>
    (cd_on_chain_policy_id k = i \<longrightarrow> submit_determination pmc adc e c k sig rid later \<noteq> Inr after)"
proof -
  from assms(2) have paid: "is_policy_paid i (sys_pr later) \<and> get_report i (sys_pr later) = get_report i (sys_pr sys)"
  proof (induction rule: rtranclp_induct)
    case base
    then show ?case using assms(1) by simp
  next
    case (step y z)
    then obtain e' where "pr_step pmc adc e' y z" by blast
    from paid_forever [OF this] step.IH show ?case by simp
  qed
  then show ?thesis
    using drought_settles_one [of pmc adc e c d sig rid later after]
      crop_settles_one [of pmc adc e c k sig rid later after] by (auto simp: settles_def)
qed

theorem paid_never_settles_again_witness:
  "\<forall>after. submit_drought_determination real_pm real_adapter sample_late (Address 12) sample_drought 0 0 sample_paid
     \<noteq> Inr after"
proof -
  have one: "d_on_chain_policy_id sample_drought = 1" by (simp add: sample_drought_def)
  have "is_policy_paid 1 (sys_pr sample_paid)"
    using drought_settles_one [OF sample_paid, unfolded one]
    by (auto simp: settles_def pr_book_def is_policy_paid_def simp del: One_nat_def)
  from paid_never_settles_again [OF this rtranclp.rtrancl_refl] one show ?thesis by blast
qed

text \<open>The gates answer with their own errors, before anything of the determination is looked at: for
  an authorised relayer a paused contract answers 318, an unconfigured signer 300, a disabled
  methodology 322, for both submissions.\<close>

theorem submission_gates:
  assumes "authorizes e c" and "holds (pr_roles (sys_pr sys)) Relayer c"
  shows "(pr_paused (sys_pr sys) = Some True \<longrightarrow>
      submit_drought_determination pmc adc e c d sig rid sys = Inl (PausedE ContractPaused) \<and>
      submit_determination pmc adc e c k sig rid sys = Inl (PausedE ContractPaused)) \<and>
    (pr_paused (sys_pr sys) \<noteq> Some True \<and> pr_authorized_signer (sys_pr sys) = None \<longrightarrow>
      submit_drought_determination pmc adc e c d sig rid sys = Inl (PayoutE SignerNotConfigured) \<and>
      submit_determination pmc adc e c k sig rid sys = Inl (PayoutE SignerNotConfigured)) \<and>
    (pr_paused (sys_pr sys) \<noteq> Some True \<and> pr_authorized_signer (sys_pr sys) \<noteq> None \<longrightarrow>
      (\<not> is_methodology_enabled CropDroughtRdi10 (sys_pr sys) \<longrightarrow>
        submit_drought_determination pmc adc e c d sig rid sys = Inl (PayoutE MethodologyDisabled)) \<and>
      (\<not> is_methodology_enabled CropDualIndex10 (sys_pr sys) \<longrightarrow>
        submit_determination pmc adc e c k sig rid sys = Inl (PayoutE MethodologyDisabled)))"
proof -
  have gate: "begin_submission e c kind (sys_pr sys) =
      (if pr_paused (sys_pr sys) = Some True then Inl (PausedE ContractPaused)
       else case pr_authorized_signer (sys_pr sys) of None \<Rightarrow> Inl (PayoutE SignerNotConfigured)
       | Some signer \<Rightarrow> if is_methodology_enabled kind (sys_pr sys)
           then Inr (signer, pr_begun e c (sys_pr sys)) else Inl (PayoutE MethodologyDisabled))" for kind
    using assms
    by (simp add: begin_submission_def require_role_eq Let_def unwrap_flag pr_begun_def pr_touch_def
        is_methodology_enabled_def methodology_enabled_def split: option.split)
  show ?thesis
    unfolding submit_drought_determination_def submit_determination_def gate by auto
qed

theorem submission_gates_witness:
  "\<forall>k sig rid. submit_determination real_pm real_adapter sample_late (Address 12) k sig rid sample_sys =
     Inl (PayoutE MethodologyDisabled)"
proof -
  obtain roles where rel: "sample_pr_relayer = sample_pr_new\<lparr>pr_roles := roles\<rparr>"
    using pr_grant_role_effect [OF sample_pr_relayer] ..
  have "\<not> is_methodology_enabled CropDualIndex10 sample_pr_ready"
    by (simp add: sample_pr_configured [unfolded pr_config_Inr, THEN conjunct2, THEN conjunct2] rel
        is_methodology_enabled_def methodology_enabled_def pr_constructor_effect(9) [OF sample_pr_new])
  moreover have "holds (pr_roles (sys_pr sample_sys)) Relayer (Address 12)"
    by (simp add: sample_pr_ready(1) sample_pr_relayer_roles)
  ultimately show ?thesis
    using submission_gates [of sample_late "Address 12" sample_sys] sample_pr_ready(4,5) by simp
qed

text \<open>The handshake: an adapter is accepted exactly from an authorised admin, when it is a contract
  other than this one that names this contract as its PayoutReceiver. The swap changes the adapter's
  address and nothing about what was settled.\<close>

theorem adapter_handshake:
  "((\<exists>sys'. set_settlement_adapter adc e c ad sys = Inr sys') \<longleftrightarrow>
     authorizes e c \<and> holds (pr_roles (sys_pr sys)) Admin c \<and> ad \<noteq> current_contract_address e \<and>
     pr_settlement_adapter (sys_pr sys) \<noteq> None \<and>
     (case sys_adapters sys ad of None \<Rightarrow> False
      | Some a \<Rightarrow> (case adc_payout_receiver adc (subcall e ad) a of
          Inr (Some pr, a') \<Rightarrow> pr = current_contract_address e | _ \<Rightarrow> False))) \<and>
   (\<forall>sys'. set_settlement_adapter adc e c ad sys = Inr sys' \<longrightarrow>
      pr_settlement_adapter (sys_pr sys') = Some ad \<and> sys_pm sys' = sys_pm sys \<and>
      (\<forall>i. is_policy_paid i (sys_pr sys') = is_policy_paid i (sys_pr sys) \<and>
           get_report i (sys_pr sys') = get_report i (sys_pr sys) \<and>
           settlements i (sys_pr sys') = settlements i (sys_pr sys)))"
proof (rule conjI)
  show "(\<exists>sys'. set_settlement_adapter adc e c ad sys = Inr sys') \<longleftrightarrow>
     authorizes e c \<and> holds (pr_roles (sys_pr sys)) Admin c \<and> ad \<noteq> current_contract_address e \<and>
     pr_settlement_adapter (sys_pr sys) \<noteq> None \<and>
     (case sys_adapters sys ad of None \<Rightarrow> False
      | Some a \<Rightarrow> (case adc_payout_receiver adc (subcall e ad) a of
          Inr (Some pr, a') \<Rightarrow> pr = current_contract_address e | _ \<Rightarrow> False))"
    by (auto simp: set_settlement_adapter_Inr split: option.splits sum.splits)
  show "\<forall>sys'. set_settlement_adapter adc e c ad sys = Inr sys' \<longrightarrow>
      pr_settlement_adapter (sys_pr sys') = Some ad \<and> sys_pm sys' = sys_pm sys \<and>
      (\<forall>i. is_policy_paid i (sys_pr sys') = is_policy_paid i (sys_pr sys) \<and>
           get_report i (sys_pr sys') = get_report i (sys_pr sys) \<and>
           settlements i (sys_pr sys') = settlements i (sys_pr sys))"
    by (auto simp: set_settlement_adapter_Inr is_policy_paid_def get_report_def settlements_def pr_touch_def)
qed

theorem adapter_handshake_witness:
  "\<exists>sys'. set_settlement_adapter real_adapter sample_late (Address 11) (Address 400) sample_sys = Inr sys'"
  using adapter_handshake [of real_adapter sample_late "Address 11" "Address 400" sample_sys]
  by (simp add: sample_pr_ready(1,2) sample_pr_relayer_roles adapter_payout_receiver_def sample_sa_ready(3))

end
