(* ===== verification/System.thy ===== *)
theory System
  imports PayoutSample
begin

text \<open>
  The contracts together: the PayoutReceiver \<open>this\<close> over the modelled PolicyManager and the modelled
  adapters, every contract taking steps of its own in any order. What is proved here crosses the
  contracts: their three records of a settlement agree, the claim limit never stands between an
  active policy and its payout, and a submission goes through exactly on its stated terms.
\<close>

section \<open>Steps of the system\<close>

type_synonym system = "(nfts \<times> pm_state, sa_state) pr_sys"

text \<open>
  A call into the PayoutReceiver runs at its address \<open>this\<close>. In the invocations of the other contracts
  nobody signs for \<open>this\<close>: a contract's authorisation comes from its own calls only, and those are
  the calls of the first rule.
\<close>

inductive sys_step :: "address \<Rightarrow> env \<Rightarrow> system \<Rightarrow> system \<Rightarrow> bool" for this :: address where
  on_receiver: "pr_call real_pm real_adapter e sys sys' \<Longrightarrow> current_contract_address e = this \<Longrightarrow>
     sys_step this e sys sys'"
| on_manager: "pm_step e (sys_pm sys) w \<Longrightarrow> \<not> authorizes e this \<Longrightarrow> sys_step this e sys (sys\<lparr>sys_pm := w\<rparr>)"
| on_adapter: "sys_adapters sys ad = Some a \<Longrightarrow> sa_step e a a' \<Longrightarrow> \<not> authorizes e this \<Longrightarrow>
     sys_step this e sys (sys\<lparr>sys_adapters := (sys_adapters sys)(ad \<mapsto> a')\<rparr>)"
| new_adapter: "sys_adapters sys ad = None \<Longrightarrow> sa_constructor e admin = Inr a \<Longrightarrow>
     sys_step this e sys (sys\<lparr>sys_adapters := (sys_adapters sys)(ad \<mapsto> a)\<rparr>)"

text \<open>
  What the deployment keeps to (\<^verbatim>\<open>scripts/deploy.sh\<close>): the PayoutReceiver is the only oracle of the
  policy manager, and the certificate contract wired to it exists.
\<close>

definition deployment_ok :: "address \<Rightarrow> system \<Rightarrow> bool" where
  "deployment_ok this sys \<longleftrightarrow>
     (\<forall>a. holds (pm_roles (snd (sys_pm sys))) Oracle a \<longrightarrow> a = this) \<and>
     nft_wired (pm_policy_nft (snd (sys_pm sys))) (fst (sys_pm sys))"

text \<open>
  A system starts when the PayoutReceiver is installed beside a policy book without claims and
  adapters that hold nothing of its. The clock is that of \<open>pm_reachable\<close>.
\<close>

definition claimed_policy :: "nat \<Rightarrow> system \<Rightarrow> policy option" where
  "claimed_policy i sys =
     (case get (pm_policy (snd (sys_pm sys))) i of
        Some p \<Rightarrow> if p_status p = Claimed then Some p else None | None \<Rightarrow> None)"

text \<open>What the adapters hold for the policy: obligation id, organisation and amount.\<close>

definition debt_of :: "obligation \<Rightarrow> nat \<times> address \<times> int" where
  "debt_of ob = (o_id ob, o_org ob, o_amount ob)"

definition debts :: "address \<Rightarrow> nat \<Rightarrow> system \<Rightarrow> address \<rightharpoonup> nat \<times> address \<times> int" where
  "debts this i sys ad =
     Option.bind (sys_adapters sys ad) (\<lambda>a. map_option debt_of (obligation_for a (this, i)))"

inductive sys_reachable :: "address \<Rightarrow> nat \<Rightarrow> system \<Rightarrow> bool" for this :: address where
  sys_start: "pr_constructor e ad pm admin = Inr s \<Longrightarrow> pm_reachable t w \<Longrightarrow>
     sys = \<lparr>sys_pr = s, sys_pm = w, sys_adapters = ads\<rparr> \<Longrightarrow> deployment_ok this sys \<Longrightarrow>
     (\<And>i. claimed_policy i sys = None) \<Longrightarrow> (\<And>a. claim_log a (pm_events (snd w)) = []) \<Longrightarrow>
     (\<And>ad a. ads ad = Some a \<Longrightarrow> sa_reachable a) \<Longrightarrow> (\<And>i. debts this i sys = Map.empty) \<Longrightarrow>
     sys_reachable this t sys"
| sys_next: "sys_reachable this t sys \<Longrightarrow> sys_step this e sys sys' \<Longrightarrow> t \<le> timestamp e \<Longrightarrow>
     timestamp e < u64_max \<Longrightarrow> deployment_ok this sys' \<Longrightarrow> sys_reachable this (timestamp e) sys'"

section \<open>The three records of a settlement\<close>

text \<open>
  For each policy: the receiver's paid flag with its request and report, the manager's claimed
  policy, and the adapters' debts. \<open>records\<close> collects them, \<open>records_agree\<close> says they tell one story.
\<close>

definition records where
  "records this i sys =
     (is_policy_paid i (sys_pr sys), settlements i (sys_pr sys), get_report i (sys_pr sys),
      claimed_policy i sys, debts this i sys)"

definition records_agree ::
  "bool \<times> (nat \<times> address \<times> int) list \<times> damage_report \<times> policy option \<times>
     (address \<rightharpoonup> nat \<times> address \<times> int) \<Rightarrow> bool" where
  "records_agree rec =
     (case rec of (paid, requests, report, claimed, owed) \<Rightarrow>
        if paid then
          (\<exists>p ad ob. claimed = Some p \<and>
             requests = [(ob, ad, r_payout_amount report)] \<and>
             owed = [ad \<mapsto> (ob, p_org p, r_payout_amount report)] \<and>
             r_payout_amount report = payout_share p (r_damage_percentage report))
        else requests = [] \<and> claimed = None \<and> owed = Map.empty)"

section \<open>Steps of the policy manager\<close>

text \<open>The slots and recent claims a farmer has in use at a time.\<close>

definition busy :: "nat \<Rightarrow> address \<Rightarrow> pm_view \<Rightarrow> nat" where
  "busy now a v = active_of v a + pending_of v a + length (filter (recent now) (claims_of v a))"

lemma recent_earlier: "recent now x \<Longrightarrow> t \<le> now \<Longrightarrow> recent t x"
  by (auto simp: recent_def)

lemma busy_later:
  assumes "t \<le> now"
  shows "busy now a v \<le> busy t a v"
proof -
  have "length (filter (recent now) xs) \<le> length (filter (recent t) xs)" for xs
    using assms by (induction xs) (auto dest: recent_earlier)
  then show ?thesis by (simp add: busy_def)
qed

lemma busy_create:
  "busy now a (a_create p v) = busy now a v + (if a = p_farmer p then 1 else 0)"
  by (simp add: busy_def a_create_def active_of_def pending_of_def claims_of_def)

lemma busy_activate:
  assumes "0 < pending_of v (p_farmer p)"
  shows "busy now a (a_activate t p v) = busy now a v"
  using assms by (simp add: busy_def a_activate_def active_of_def pending_of_def claims_of_def)

lemma busy_close:
  assumes "closable v p"
  shows "busy now a (a_close st p v) + (if a = p_farmer p then 1 else 0) = busy now a v"
  using assms by (auto simp: busy_def a_close_def active_of_def pending_of_def claims_of_def closable_def)

lemma busy_claim: "busy now a (a_claim farmer t v) \<le> busy now a v + (if a = farmer then 1 else 0)"
proof -
  have drop: "length (filter P (drop n ys)) \<le> length (filter P ys)" for n and P :: "nat \<Rightarrow> bool" and ys
    by (metis append_take_drop_id filter_append le_add2 length_append)
  have "length (filter (recent now) (drop n (xs @ [t]))) \<le> length (filter (recent now) xs) + 1" for n xs
    using drop [of "recent now" n "xs @ [t]"] by (simp split: if_splits)
  then have "length (filter (recent now) (pop_front_while m (xs @ [t]))) \<le> length (filter (recent now) xs) + 1" for m xs
    unfolding pop_front_while_eq .
  then show ?thesis by (simp add: busy_def a_claim_def active_of_def pending_of_def claims_of_def)
qed

lemma claimed_fun: "claimed_policy i sys = (case v_policy (pm_view (snd (sys_pm sys))) i of
    Some p \<Rightarrow> if p_status p = Claimed then Some p else None | None \<Rightarrow> None)"
  by (simp add: claimed_policy_def)

text \<open>
  Without an oracle among the signers, a step of the manager claims nothing and takes a slot only
  through a sale that has room.
\<close>

lemma manager_step:
  assumes step: "pm_step e w w'" and ok: "pm_ok (pm_view (snd w))"
    and nobody: "\<And>c. authorizes e c \<Longrightarrow> \<not> holds (pm_roles (snd w)) Oracle c"
  shows "(case v_policy (pm_view (snd w')) i of Some p \<Rightarrow> if p_status p = Claimed then Some p else None | None \<Rightarrow> None) =
      (case v_policy (pm_view (snd w)) i of Some p \<Rightarrow> if p_status p = Claimed then Some p else None | None \<Rightarrow> None)"
      (is "?claimed (pm_view (snd w')) = _")
    and "\<forall>a. busy (timestamp e) a (pm_view (snd w)) \<le> 3 \<Longrightarrow> busy (timestamp e) a (pm_view (snd w')) \<le> 3"
proof -
  obtain n s n' s' where w: "w = (n, s)" "w' = (n', s')" by (cases w, cases w')
  note step' = step [unfolded w]
  note ok' = ok [unfolded w, simplified]
  show "?claimed (pm_view (snd w')) = ?claimed (pm_view (snd w))"
    using step' ok'
  proof (cases rule: pm_step_cases)
    case (Create farmer plot lat lon amount prem days cov org p c)
    have "v_policy (pm_view s) (p_id p) = None"
      using pm_okD(1) [OF ok', of "p_id p"] by (auto simp: Create(5) new_policy_def policy_counter_def)
    then show ?thesis by (simp add: w Create(6) a_create_def) (simp add: Create(5) new_policy_def)
  next
    case (Activate p c)
    then show ?thesis by (auto simp: w a_activate_def activated_def)
  next
    case (Close p st)
    then have "st \<noteq> Claimed" and "p_status p \<noteq> Claimed"
      using nobody by (auto simp: may_close_def is_open_def w)
    then show ?thesis using Close by (auto simp: w a_close_def)
  next
    case (Count farmer c)
    then show ?thesis using nobody by (simp add: w)
  qed (simp add: w)
  assume room: "\<forall>a. busy (timestamp e) a (pm_view (snd w)) \<le> 3"
  show "busy (timestamp e) a (pm_view (snd w')) \<le> 3"
    using step' ok'
  proof (cases rule: pm_step_cases)
    case (Create farmer plot lat lon amount prem days cov org p c)
    have "busy (timestamp e) farmer (pm_view s) < 3"
      using Create(4) by (simp add: has_room_def open_slots_def busy_def MAX_ACTIVE_POLICIES_PER_FARMER_def)
    moreover have "p_farmer p = farmer" by (simp add: Create(5) new_policy_def)
    ultimately show ?thesis using room by (auto simp: w Create(6) busy_create)
  next
    case (Activate p c)
    have "0 < pending_of (pm_view s) (p_farmer p)"
      using open_closable(1) [OF ok', of "p_id p" p] Activate(3,4) by (auto simp: is_open_def closable_def)
    then show ?thesis using room by (simp add: w Activate(7) busy_activate)
  next
    case (Close p st)
    have "closable (pm_view s) p"
      using open_closable(1) [OF ok', of "p_id p" p] Close(1) may_close_open [OF Close(2)] by simp
    then show ?thesis using room busy_close [of "pm_view s" p "timestamp e" a st] by (simp add: w Close(3)) (metis add_leD1)
  next
    case (Count farmer c)
    then show ?thesis using nobody by (simp add: w)
  qed (use room in \<open>simp add: w\<close>)
qed

section \<open>Steps of the adapters\<close>

lemma debt_advanced: "advances ob ob' \<Longrightarrow> debt_of ob' = debt_of ob"
  by (simp add: advances_def debt_of_def)

lemma same_debts: "same_obligations a a' \<Longrightarrow> obligation_for a' = obligation_for a"
  by (rule ext) (simp add: same_obligations_def obligation_for_def)

text \<open>Nobody but \<open>this\<close> itself adds or changes what is held for it.\<close>

lemma adapter_step:
  assumes step: "sa_step e a a'" and inv: "sa_inv a" and not: "\<not> authorizes e this"
  shows "map_option debt_of (obligation_for a' (this, i)) = map_option debt_of (obligation_for a (this, i))"
proof -
  have marked: "map_option debt_of (obligation_for a' (this, i)) = map_option debt_of (obligation_for a (this, i))"
    if "book_advanced ob ob' a a'" for ob ob'
    using that
    by (cases "get (sa_obligation_of a) (this, i)") (auto simp: book_advanced_def obligation_for_def debt_advanced)
  from step show ?thesis
  proof (cases rule: sa_step.cases)
    case (step_record caller pid org amount digest ob)
    have "caller \<noteq> this" using sa_book.enter_bound [OF inv step_record] not by auto
    then show ?thesis by (simp add: sa_ledger.record_stores [OF inv step_record])
  next
    case (step_funded caller j r ob)
    then show ?thesis using mark_advances [OF inv] marked by blast
  next
    case (step_settled caller j r ob)
    then show ?thesis using mark_advances [OF inv] marked by blast
  next
    case (step_rent j)
    then show ?thesis by (simp add: same_debts [OF same_obligations_rent [OF inv]])
  qed (simp_all add: same_debts [OF same_obligations_admin(1)] same_debts [OF same_obligations_admin(2)]
      same_debts [OF same_obligations_admin(3)] same_debts [OF same_obligations_admin(4)]
      same_debts [OF same_obligations_admin(5)] same_debts [OF same_obligations_admin(6)])
qed

lemma debts_upd:
  assumes "sys_adapters sys ad = Some a" and "sys_adapters sys' = (sys_adapters sys)(ad \<mapsto> a')"
    and "map_option debt_of (obligation_for a' (this, i)) = map_option debt_of (obligation_for a (this, i))"
  shows "debts this i sys' = debts this i sys"
  using assms by (auto simp: debts_def fun_eq_iff)

section \<open>Calls into the receiver\<close>

text \<open>Steps of the manager inside one invocation.\<close>

definition pm_run :: "env \<Rightarrow> nfts \<times> pm_state \<Rightarrow> nfts \<times> pm_state \<Rightarrow> bool" where
  "pm_run e = (\<lambda>x y. \<exists>e'. timestamp e' = timestamp e \<and> pm_step e' x y)\<^sup>*\<^sup>*"

lemma pm_run_refl [simp]: "pm_run e w w"
  by (simp add: pm_run_def)

lemma pm_run_step: "pm_step (subcall e c) w w' \<Longrightarrow> pm_run e w' w'' \<Longrightarrow> pm_run e w w''"
  unfolding pm_run_def by (rule converse_rtranclp_into_rtranclp) (auto intro: exI [of _ "subcall e c"])

text \<open>A call that settles nothing: the manager's book looks the same, the adapters' books are the same.\<close>

definition quiet_call :: "env \<Rightarrow> system \<Rightarrow> system \<Rightarrow> bool" where
  "quiet_call e sys sys' \<longleftrightarrow>
     pr_book (sys_pr sys') = pr_book (sys_pr sys) \<and>
     pm_run e (sys_pm sys) (sys_pm sys') \<and> pm_view (snd (sys_pm sys')) = pm_view (snd (sys_pm sys)) \<and>
     (\<forall>ad. rel_option same_obligations (sys_adapters sys ad) (sys_adapters sys' ad))"

lemma same_obligations_refl [simp]: "same_obligations a a"
  by (simp add: same_obligations_def)

lemma adapters_quiet_refl [simp]: "rel_option same_obligations x x"
  by (cases x) simp_all

lemma adapters_quiet_upd:
  "ads adapter = Some a \<Longrightarrow> same_obligations a a' \<Longrightarrow> rel_option same_obligations (ads ad) ((ads(adapter \<mapsto> a')) ad)"
  by simp

lemma quiet_rents:
  assumes call: "pr_extend_policy_ttl real_pm real_adapter e i sys = Inr sys'"
    and ok: "pm_ok (pm_view (snd (sys_pm sys)))"
    and inv: "\<And>ad a. sys_adapters sys ad = Some a \<Longrightarrow> sa_inv a"
  shows "quiet_call e sys sys'"
proof -
  obtain n s where ns: "sys_pm sys = (n, s)" by (cases "sys_pm sys")
  from call obtain adapter pm p s1 n2 s2 where
    get: "pm_get_policy (subcall e pm) i s = Inr (p, s1)"
    and rent: "pm_extend_policy_ttl (subcall e pm) i n s1 = Inr (n2, s2)" and pm': "sys_pm sys' = (n2, s2)"
    and ads: "sys_adapters sys' =
      (case adapter_call (sys_adapters sys) adapter
              (adc_find_obligation real_adapter (subcall e adapter) (current_contract_address e) i) of
         Inr (Some j, ads1) \<Rightarrow>
           (case adapter_call ads1 adapter
                  (\<lambda>a. bindE (adc_extend_obligation_ttl real_adapter (subcall e adapter) j a) (\<lambda>a. Inr ((), a))) of
              Inr (_, ads2) \<Rightarrow> ads2 | Inl _ \<Rightarrow> ads1)
       | Inr (None, ads1) \<Rightarrow> ads1 | Inl _ \<Rightarrow> sys_adapters sys)"
    unfolding pr_extend_policy_ttl_def Let_def bindE_eq_Inr split_paired_Ex prod.case real_pm_simps ns fst_conv snd_conv
    by (auto simp: bindE_eq_Inr ns)
  note same = pm_read_same [OF _ get [unfolded pm_get_policy_def]]
  have ok': "pm_ok (pm_view s)" using ok ns by simp
  then have ok1: "pm_ok (pm_view s1)" using same(1) by simp
  have "pm_view s2 = pm_view s" using same(1) [OF ok'] pm_extend_policy_ttl_Inr(1) [OF ok1 rent] by simp
  moreover have "pm_step (subcall e pm) (n, s) (n, s1)" "pm_step (subcall e pm) (n, s1) (n2, s2)"
    using do_read [OF get] do_rent [OF rent] by simp_all
  moreover have "rel_option same_obligations (sys_adapters sys ad) (sys_adapters sys' ad)" for ad
  proof (cases "sys_adapters sys adapter")
    case None
    then show ?thesis using ads by (simp add: adapter_call_def)
  next
    case (Some a)
    show ?thesis
    proof (cases "find_obligation (current_contract_address e) i a")
      case None
      then show ?thesis using ads Some by (simp add: adapter_call_def map_upd_triv)
    next
      case find: (Some j)
      then show ?thesis
        using ads Some same_obligations_rent [OF inv [OF Some], of "subcall e adapter" j]
        by (cases "extend_obligation_ttl (subcall e adapter) j a") (simp_all add: adapter_call_def map_upd_triv)
    qed
  qed
  ultimately show ?thesis
    using pr_rent_same [OF call] pm_run_step [OF _ pm_run_step [OF _ pm_run_refl]]
    by (simp add: quiet_call_def ns pm')
qed

lemma quiet_keeps:
  assumes call: "pr_extend_contract_ttl real_pm real_adapter e sys = Inr sys'"
  shows "quiet_call e sys sys'"
proof -
  obtain n s where ns: "sys_pm sys = (n, s)" by (cases "sys_pm sys")
  from call obtain adapter pm a n2 s2 where a: "sys_adapters sys adapter = Some a"
    and keep: "pm_extend_contract_ttl (subcall e pm) n s = Inr (n2, s2)" and pm': "sys_pm sys' = (n2, s2)"
    and ads: "sys_adapters sys' = (sys_adapters sys)
       (adapter \<mapsto> a\<lparr>sa_instance_live := keep_other_contract_alive e (sa_instance_live a)\<rparr>)"
    by (auto simp: pr_extend_contract_ttl_def Let_def bindE_eq_Inr ns split: option.splits)
  have "same_obligations a (a\<lparr>sa_instance_live := keep_other_contract_alive e (sa_instance_live a)\<rparr>)"
    by (simp add: same_obligations_def)
  moreover have "pm_step (subcall e pm) (n, s) (n2, s2)" by (rule do_keep [OF keep])
  moreover have "pm_view s2 = pm_view s" using pm_keep_same [OF keep] by simp
  ultimately show ?thesis
    using pr_keep_same [OF call] a pm_run_step [OF _ pm_run_refl] by (simp add: quiet_call_def ns pm' ads)
qed

lemma quiet_swaps:
  assumes "set_settlement_adapter real_adapter e c ad sys = Inr sys'"
  shows "quiet_call e sys sys'"
  using assms pr_swap_same [OF assms]
  by (auto simp: set_settlement_adapter_Inr quiet_call_def map_upd_triv)

text \<open>A drought settlement: what each of the three contracts did.\<close>

definition settlement_at ::
  "env \<Rightarrow> drought_determination \<Rightarrow> policy \<Rightarrow> address \<Rightarrow> obligation \<Rightarrow> system \<Rightarrow> system \<Rightarrow> bool" where
  "settlement_at e d p ad ob sys sys' \<longleftrightarrow>
     (let i = d_on_chain_policy_id d; this = current_contract_address e; v = pm_view (snd (sys_pm sys)) in
      get (pm_policy (snd (sys_pm sys))) i = Some p \<and> p_status p = Active \<and> p_id p = i \<and>
      o_org ob = p_org p \<and> o_amount ob = d_payout_amount d \<and>
      d_payout_amount d = payout_share p (d_damage_percent_bp d) \<and>
      pm_run e (sys_pm sys) (sys_pm sys') \<and>
      pm_view (snd (sys_pm sys')) = a_claim (p_farmer p) (timestamp e) (a_close Claimed p v) \<and>
      (\<exists>a a'. sys_adapters sys ad = Some a \<and> sys_adapters sys' = (sys_adapters sys)(ad \<mapsto> a') \<and> sa_inv a' \<and>
         obligation_for a' = (obligation_for a)((this, i) \<mapsto> ob)) \<and>
      pr_book (sys_pr sys') = ((get (pr_policy_paid (sys_pr sys)))(i \<mapsto> True),
        (get (pr_report (sys_pr sys)))(i \<mapsto> drought_report d),
        \<lambda>j. settlements j (sys_pr sys) @ (if j = i then [(o_id ob, ad, d_payout_amount d)] else [])))"

lemma manager_settles:
  assumes ok: "pm_ok (pm_view (snd w))"
    and get: "pmc_get_policy real_pm (subcall e pm) i w = Inr (p, w1)"
    and mark: "pmc_mark_as_claimed real_pm (subcall e pm) c i w1 = Inr w2"
    and count: "pmc_increment_claim_count real_pm (subcall e pm) c (p_farmer p) w2 = Inr w3"
  shows "pm_run e w w3"
    and "pm_view (snd w3) = a_claim (p_farmer p) (timestamp e) (a_close Claimed p (pm_view (snd w)))"
    and "get (pm_policy (snd w)) i = Some p" and "p_id p = i"
proof -
  obtain n s where w: "w = (n, s)" by (cases w)
  obtain s1 where r: "pm_get_policy (subcall e pm) i s = Inr (p, s1)" and w1: "w1 = (n, s1)"
    using get by (auto simp: w bindE_eq_Inr)
  obtain n2 s2 where w2: "w2 = (n2, s2)" by (cases w2)
  obtain s3 where inc: "increment_claim_count (subcall e pm) c (p_farmer p) s2 = Inr s3" and w3: "w3 = (n2, s3)"
    using count by (auto simp: w2 bindE_eq_Inr)
  have m: "mark_as_claimed (subcall e pm) c i n s1 = Inr (n2, s2)" using mark by (simp add: w1 w2)
  have ok': "pm_ok (pm_view s)" using ok by (simp add: w)
  note same = pm_read_same [OF ok' r [unfolded pm_get_policy_def]]
  have p: "get (pm_policy s) i = Some p" using load_policy_Inr [OF r [unfolded pm_get_policy_def]] .
  have "get (pm_policy s1) = get (pm_policy s)" using arg_cong [OF same(1), of v_policy] by simp
  with p have view2: "pm_view s2 = a_close Claimed p (pm_view s)"
    using mark_as_claimed_Inr [OF _ m] same(1) ok' by force
  note needs = increment_claim_count_needs [OF inc]
  have "pm_view s3 = a_claim (p_farmer p) (timestamp e) (pm_view s2)"
    using increment_claim_count_ok [OF needs] inc by auto
  with view2 show "pm_view (snd w3) = a_claim (p_farmer p) (timestamp e) (a_close Claimed p (pm_view (snd w)))"
    by (simp add: w w3)
  show "pm_run e w w3"
    unfolding w w3
    by (rule pm_run_step [OF do_read [OF r]], rule pm_run_step [OF do_claim [OF m]],
        rule pm_run_step [OF do_count [OF inc]], simp)
  show "get (pm_policy (snd w)) i = Some p" using p by (simp add: w)
  show "p_id p = i" using pm_okD(3) [OF ok', of i p] p by simp
qed

lemma drought_settlement:
  assumes call: "submit_drought_determination real_pm real_adapter e c d sig rid sys = Inr sys'"
    and sound: "pm_sound (sys_pm sys)" and inv: "\<And>ad a. sys_adapters sys ad = Some a \<Longrightarrow> sa_inv a"
  shows "\<exists>p ad ob. settlement_at e d p ad ob sys sys' \<and> drought_accepted e c d sig rid (sys_pr sys) p \<and>
     pm_sound (sys_pm sys') \<and> holds (pm_roles (snd (sys_pm sys'))) Oracle = holds (pm_roles (snd (sys_pm sys))) Oracle"
proof -
  let ?i = "d_on_chain_policy_id d" and ?here = "current_contract_address e" and ?h = "drought_digest_of e d (sys_pr sys)"
  let ?sys = "\<lambda>w. sys\<lparr>sys_pr := drought_begun e c d (sys_pr sys), sys_pm := w\<rparr>"
  obtain ad pm p w1 w2 where
    op: "open_policy real_pm e pm ?i (sys_pr sys) (sys_pm sys) = Inr (p, w1)"
    and acc: "drought_accepted e c d sig rid (sys_pr sys) p"
    and can: "pmc_can_farmer_claim real_pm (subcall e pm) (p_farmer p) w1 = Inr (True, w2)"
    and settle: "settle_verified real_pm real_adapter e pm ad p (drought_report d) ?h (?sys w2) = Inr sys'"
    using call unfolding submit_drought_Inr by blast
  have w2: "w2 = w1" using can by simp
  have get: "pmc_get_policy real_pm (subcall e pm) ?i (sys_pm sys) = Inr (p, w1)" and act: "p_status p = Active"
    using op unfolding open_policy_Inr by (auto simp del: real_pm_simps(1))
  have sound1: "pm_sound w1" and look: "get (pm_policy (snd w1)) ?i = Some p"
    and oracle1: "holds (pm_roles (snd w1)) Oracle = holds (pm_roles (snd (sys_pm sys))) Oracle"
    using real.open_policy_effect [OF sound op] by auto
  obtain a where a: "sys_adapters sys ad = Some a" using settle by (auto simp: settle_verified_Inr)
  obtain a' ob where ob: "sys_adapters sys' = (sys_adapters sys)(ad \<mapsto> a')" "sa_inv a'"
      "obligation_for a' = (obligation_for a)((?here, ?i) \<mapsto> ob)" "owes e p (drought_report d) ?h ob"
      "pr_events (sys_pr sys') = pr_events (drought_begun e c d (sys_pr sys)) @ settlement_events p (drought_report d) ?h (o_id ob) ad"
      "pm_sound (sys_pm sys')" "holds (pm_roles (snd (sys_pm sys'))) Oracle = holds (pm_roles (snd w1)) Oracle"
    using real.settled_everywhere [of "?sys w2" ad a e pm p "drought_report d" ?h sys'] sound1 a inv [OF a] settle look w2
    by auto
  obtain w3 w4 where marks: "pmc_mark_as_claimed real_pm (subcall e pm) ?here ?i w1 = Inr w3"
      "pmc_increment_claim_count real_pm (subcall e pm) ?here (p_farmer p) w3 = Inr w4" "sys_pm sys' = w4"
    using settle unfolding settle_verified_Inr w2 by auto
  note m = manager_settles [OF _ get marks(1,2)]
  have ok: "pm_ok (pm_view (snd (sys_pm sys)))" using sound by (simp add: pm_sound_def)
  have requests: "settlements j (sys_pr sys') = settlements j (sys_pr sys) @
      (if j = ?i then [(o_id ob, ad, d_payout_amount d)] else [])" for j
    by (simp add: settlements_def ob(5) settlement_events_def)
  then have "pr_book (sys_pr sys') = ((get (pr_policy_paid (sys_pr sys)))(?i \<mapsto> True),
        (get (pr_report (sys_pr sys)))(?i \<mapsto> drought_report d),
        \<lambda>j. settlements j (sys_pr sys) @ (if j = ?i then [(o_id ob, ad, d_payout_amount d)] else []))"
    using settle_verified_book [OF settle] by (simp add: pr_book_def)
  then have "settlement_at e d p ad ob sys sys'"
    unfolding settlement_at_def Let_def
    using m [OF ok] a ob(1-4) act acc marks(3)
    by (intro conjI exI [of _ a] exI [of _ a'])
      (simp_all add: owes_def drought_accepted_def drought_matches_def)
  with acc ob(6,7) oracle1 show ?thesis by metis
qed

text \<open>Every policy of a consistent book is drought cover, so the retired methodology settles nothing.\<close>

lemma crop_closed:
  assumes "pm_sound (sys_pm sys)"
  shows "submit_determination real_pm real_adapter e c d sig rid sys \<noteq> Inr sys'"
proof
  assume "submit_determination real_pm real_adapter e c d sig rid sys = Inr sys'"
  then obtain pm p w1 where
    op: "open_policy real_pm e pm (cd_on_chain_policy_id d) (sys_pr sys) (sys_pm sys) = Inr (p, w1)"
    and acc: "crop_accepted e c d sig rid (sys_pr sys) p"
    unfolding submit_crop_Inr by blast
  have "get (pm_policy (snd (sys_pm sys))) (cd_on_chain_policy_id d) = Some p"
    using real.open_policy_effect [OF assms op] by simp
  then have "policy_ok p" using assms pm_okD(3) [of "pm_view (snd (sys_pm sys))" "cd_on_chain_policy_id d" p]
    by (simp add: pm_sound_def)
  then have "p_coverage_type p = Drought" by (auto simp: policy_ok_def sale_terms_def)
  with acc show False by (simp add: crop_accepted_def crop_matches_def)
qed

section \<open>The invariant of the system\<close>

definition pm_reached :: "nat \<Rightarrow> nfts \<times> pm_state \<Rightarrow> bool" where
  "pm_reached t w \<longleftrightarrow> (\<exists>t'\<le>t. pm_reachable t' w)"

definition sys_inv :: "address \<Rightarrow> nat \<Rightarrow> system \<Rightarrow> bool" where
  "sys_inv this t sys \<longleftrightarrow>
     pm_reached t (sys_pm sys) \<and> deployment_ok this sys \<and>
     (\<forall>ad a. sys_adapters sys ad = Some a \<longrightarrow> sa_inv a) \<and>
     (\<forall>a. busy t a (pm_view (snd (sys_pm sys))) \<le> 3) \<and>
     (\<forall>i. records_agree (records this i sys))"

lemma pm_reached_ok: "pm_reached t w \<Longrightarrow> pm_ok (pm_view (snd w))"
  unfolding pm_reached_def using pm_reachable_ok by blast

lemma pm_reached_later: "pm_reached t w \<Longrightarrow> t \<le> now \<Longrightarrow> pm_reached now w"
  unfolding pm_reached_def using le_trans by blast

lemma pm_reached_step: "pm_reached t w \<Longrightarrow> pm_step e w w' \<Longrightarrow> t \<le> timestamp e \<Longrightarrow> timestamp e < u64_max \<Longrightarrow> pm_reached (timestamp e) w'"
  unfolding pm_reached_def using pm_next le_trans by blast

lemma pm_reached_run:
  assumes "pm_run e w w'" and "pm_reached t w" and "t \<le> timestamp e" and "timestamp e < u64_max"
  shows "pm_reached (timestamp e) w'"
  using assms(1) unfolding pm_run_def
proof (induction rule: rtranclp_induct)
  case base
  then show ?case using assms(2,3) pm_reached_later by blast
next
  case (step x y)
  then obtain e' where "timestamp e' = timestamp e" "pm_step e' x y" by blast
  with pm_reached_step [OF step.IH] assms(4) show ?case by (metis order_refl)
qed

lemma sys_inv_sound: "sys_inv this t sys \<Longrightarrow> pm_sound (sys_pm sys)"
  unfolding sys_inv_def pm_sound_def deployment_ok_def using pm_reached_ok by blast

lemma records_same:
  assumes "pr_book (sys_pr sys') = pr_book (sys_pr sys)"
    and "claimed_policy i sys' = claimed_policy i sys" and "debts this i sys' = debts this i sys"
  shows "records this i sys' = records this i sys"
  using assms by (simp add: records_def pr_book_def is_policy_paid_def get_report_def fun_eq_iff)

lemma debts_quiet:
  assumes "\<And>ad. rel_option same_obligations (sys_adapters sys ad) (sys_adapters sys' ad)"
  shows "debts this i sys' = debts this i sys"
proof
  fix ad
  from assms [of ad] show "debts this i sys' ad = debts this i sys ad"
    by (cases rule: option.rel_cases) (simp_all add: debts_def same_debts)
qed

lemma inv_quiet:
  assumes inv: "sys_inv this t sys" and quiet: "quiet_call e sys sys'" and dep: "deployment_ok this sys'"
    and time: "t \<le> timestamp e" "timestamp e < u64_max"
  shows "sys_inv this (timestamp e) sys'"
proof -
  note q = quiet [unfolded quiet_call_def]
  have "claimed_policy i sys' = claimed_policy i sys" for i using q by (simp add: claimed_fun)
  then have "records this i sys' = records this i sys" for i
    using q records_same debts_quiet by blast
  moreover have "sa_inv a'" if a': "sys_adapters sys' ad = Some a'" for ad a'
  proof -
    have "rel_option same_obligations (sys_adapters sys ad) (sys_adapters sys' ad)" using q by blast
    then obtain a where "sys_adapters sys ad = Some a" "same_obligations a a'"
      using a' by (cases rule: option.rel_cases) auto
    then show ?thesis using inv sa_inv_same by (auto simp: sys_inv_def)
  qed
  moreover have "busy (timestamp e) a (pm_view (snd (sys_pm sys'))) \<le> 3" for a
    using q inv le_trans [OF busy_later [OF time(1)]] by (simp add: sys_inv_def)
  moreover have "pm_reached (timestamp e) (sys_pm sys')"
    using q inv pm_reached_run [OF _ _ time] unfolding sys_inv_def by blast
  ultimately show ?thesis using inv dep by (simp add: sys_inv_def)
qed

lemma records_settle:
  assumes s: "settlement_at e d p ad ob sys sys'"
    and agree: "\<And>i. records_agree (records (current_contract_address e) i sys)"
  shows "records_agree (records (current_contract_address e) i sys')"
proof -
  let ?j = "d_on_chain_policy_id d" and ?here = "current_contract_address e"
  note facts = s [unfolded settlement_at_def Let_def]
  have book: "pr_book (sys_pr sys') = ((get (pr_policy_paid (sys_pr sys)))(?j \<mapsto> True),
        (get (pr_report (sys_pr sys)))(?j \<mapsto> drought_report d),
        \<lambda>k. settlements k (sys_pr sys) @ (if k = ?j then [(o_id ob, ad, d_payout_amount d)] else []))"
    using facts by blast
  have reads: "get (pr_policy_paid (sys_pr sys')) = (get (pr_policy_paid (sys_pr sys)))(?j \<mapsto> True)"
    "get (pr_report (sys_pr sys')) = (get (pr_report (sys_pr sys)))(?j \<mapsto> drought_report d)"
    "settlements k (sys_pr sys') = settlements k (sys_pr sys) @ (if k = ?j then [(o_id ob, ad, d_payout_amount d)] else [])" for k
    using book by (simp_all add: pr_book_def fun_eq_iff)
  obtain a a' where a: "sys_adapters sys ad = Some a" "sys_adapters sys' = (sys_adapters sys)(ad \<mapsto> a')"
      "obligation_for a' = (obligation_for a)((?here, ?j) \<mapsto> ob)"
    using facts by blast
  have policies: "get (pm_policy (snd (sys_pm sys'))) = (get (pm_policy (snd (sys_pm sys))))(?j \<mapsto> p\<lparr>p_status := Claimed\<rparr>)"
  proof -
    have "pm_view (snd (sys_pm sys')) = a_claim (p_farmer p) (timestamp e) (a_close Claimed p (pm_view (snd (sys_pm sys))))"
      and "p_id p = ?j" using facts by blast+
    from arg_cong [OF this(1), of v_policy] this(2) show ?thesis by (simp add: a_claim_def a_close_look)
  qed
  show ?thesis
  proof (cases "i = ?j")
    case False
    have "debts ?here i sys' = debts ?here i sys"
      by (rule debts_upd [OF a(1,2)]) (simp add: a(3) False)
    then have "records ?here i sys' = records ?here i sys"
      using False by (simp add: records_def is_policy_paid_def get_report_def reads claimed_policy_def policies)
    then show ?thesis using agree [of i] by simp
  next
    case True
    have act: "get (pm_policy (snd (sys_pm sys))) ?j = Some p" "p_status p = Active" using facts by blast+
    then have "claimed_policy ?j sys = None" by (simp add: claimed_policy_def)
    then have old: "settlements ?j (sys_pr sys) = []" "debts ?here ?j sys = Map.empty"
      using agree [of ?j] by (auto simp: records_agree_def records_def split: if_splits)
    have "debts ?here ?j sys' x = [ad \<mapsto> debt_of ob] x" for x
    proof (cases "x = ad")
      case True
      then show ?thesis by (simp add: debts_def a)
    next
      case False
      then show ?thesis using fun_cong [OF old(2), of x] by (simp add: debts_def a)
    qed
    then have "debts ?here ?j sys' = [ad \<mapsto> (o_id ob, p_org p, d_payout_amount d)]"
      using facts by (simp add: fun_eq_iff debt_of_def)
    moreover have "d_payout_amount d = payout_share (p\<lparr>p_status := Claimed\<rparr>) (d_damage_percent_bp d)"
      using facts by (simp add: payout_share_def)
    ultimately show ?thesis
      using True old
      by (simp add: records_agree_def records_def is_policy_paid_def get_report_def reads claimed_policy_def policies)
  qed
qed

lemma busy_settle:
  assumes s: "settlement_at e d p ad ob sys sys'" and ok: "pm_ok (pm_view (snd (sys_pm sys)))"
  shows "busy (timestamp e) a (pm_view (snd (sys_pm sys'))) \<le> busy (timestamp e) a (pm_view (snd (sys_pm sys)))"
proof -
  note facts = s [unfolded settlement_at_def Let_def]
  have "closable (pm_view (snd (sys_pm sys))) p"
    using open_closable(1) [OF ok, of "d_on_chain_policy_id d" p] facts by (simp add: is_open_def)
  from busy_close [OF this, of "timestamp e" a Claimed]
  show ?thesis
    using facts busy_claim [of "timestamp e" a "p_farmer p" "timestamp e" "a_close Claimed p (pm_view (snd (sys_pm sys)))"]
    by auto
qed

lemma inv_settles:
  assumes inv: "sys_inv this t sys" and s: "settlement_at e d p ad ob sys sys'"
    and here: "current_contract_address e = this" and dep: "deployment_ok this sys'"
    and time: "t \<le> timestamp e" "timestamp e < u64_max"
  shows "sys_inv this (timestamp e) sys'"
proof -
  have ok: "pm_ok (pm_view (snd (sys_pm sys)))" using sys_inv_sound [OF inv] by (simp add: pm_sound_def)
  note facts = s [unfolded settlement_at_def Let_def]
  have "pm_reached (timestamp e) (sys_pm sys')"
    using facts inv pm_reached_run [OF _ _ time] unfolding sys_inv_def by blast
  moreover have "busy (timestamp e) a (pm_view (snd (sys_pm sys'))) \<le> 3" for a
    using inv le_trans [OF busy_settle [OF s ok] le_trans [OF busy_later [OF time(1)]]] by (simp add: sys_inv_def)
  moreover have "sa_inv x" if "sys_adapters sys' ad' = Some x" for ad' x
    using facts inv that by (auto simp: sys_inv_def split: if_splits)
  moreover have "records_agree (records this i sys')" for i
    using records_settle [OF s] inv by (simp add: here sys_inv_def)
  ultimately show ?thesis using dep by (simp add: sys_inv_def)
qed

lemma inv_manager:
  assumes inv: "sys_inv this t sys" and step: "pm_step e (sys_pm sys) w" and not: "\<not> authorizes e this"
    and dep: "deployment_ok this (sys\<lparr>sys_pm := w\<rparr>)" and time: "t \<le> timestamp e" "timestamp e < u64_max"
  shows "sys_inv this (timestamp e) (sys\<lparr>sys_pm := w\<rparr>)"
proof -
  let ?sys = "sys\<lparr>sys_pm := w\<rparr>"
  have ok: "pm_ok (pm_view (snd (sys_pm sys)))" using sys_inv_sound [OF inv] by (simp add: pm_sound_def)
  have nobody: "\<not> holds (pm_roles (snd (sys_pm sys))) Oracle c" if "authorizes e c" for c
    using inv not that by (auto simp: sys_inv_def deployment_ok_def)
  note m = manager_step [OF step ok nobody]
  have "claimed_policy i ?sys = claimed_policy i sys" for i
    using m(1) [of i] by (simp add: claimed_fun)
  then have "records this i ?sys = records this i sys" for i
    by (rule records_same [rotated]) (simp_all add: debts_def fun_eq_iff)
  moreover have "busy (timestamp e) a (pm_view (snd w)) \<le> 3" for a
    using inv le_trans [OF busy_later [OF time(1)]] by (intro m(2)) (auto simp: sys_inv_def)
  moreover have "pm_reached (timestamp e) w"
    using inv pm_reached_step [OF _ step time] unfolding sys_inv_def by blast
  ultimately show ?thesis using inv dep by (simp add: sys_inv_def)
qed

lemma inv_adapter:
  assumes inv: "sys_inv this t sys" and time: "t \<le> timestamp e"
    and dep: "deployment_ok this (sys\<lparr>sys_adapters := ads\<rparr>)"
    and adapters: "\<And>ad a. ads ad = Some a \<Longrightarrow> sa_inv a"
    and debts: "\<And>i. debts this i (sys\<lparr>sys_adapters := ads\<rparr>) = debts this i sys"
  shows "sys_inv this (timestamp e) (sys\<lparr>sys_adapters := ads\<rparr>)"
proof -
  have "records this i (sys\<lparr>sys_adapters := ads\<rparr>) = records this i sys" for i
    by (rule records_same) (simp_all add: debts claimed_policy_def)
  moreover have "busy (timestamp e) a (pm_view (snd (sys_pm sys))) \<le> 3" for a
    using inv le_trans [OF busy_later [OF time]] by (simp add: sys_inv_def)
  moreover have "pm_reached (timestamp e) (sys_pm sys)"
    using inv pm_reached_later [OF _ time] unfolding sys_inv_def by blast
  ultimately show ?thesis using inv dep adapters by (simp add: sys_inv_def)
qed

lemma sys_inv_step:
  assumes step: "sys_step this e sys sys'" and inv: "sys_inv this t sys" and dep: "deployment_ok this sys'"
    and time: "t \<le> timestamp e" "timestamp e < u64_max"
  shows "sys_inv this (timestamp e) sys'"
proof -
  have sa: "sa_inv a" if "sys_adapters sys ad = Some a" for ad a using inv that by (auto simp: sys_inv_def)
  note sound = sys_inv_sound [OF inv]
  have ok: "pm_ok (pm_view (snd (sys_pm sys)))" using sound by (simp add: pm_sound_def)
  note quiet = inv_quiet [OF inv _ dep time]
  from step show ?thesis
  proof (cases rule: sys_step.cases)
    case on_receiver
    from on_receiver(1) show ?thesis
    proof (cases rule: pr_call.cases)
      case (pr_administers s')
      then show ?thesis by (intro quiet) (simp add: quiet_call_def pr_admin_same)
    next
      case (pr_swaps c a)
      show ?thesis by (rule quiet) (rule quiet_swaps [OF pr_swaps])
    next
      case (pr_settles_crop c cd sig rid)
      then show ?thesis using crop_closed [OF sound] by blast
    next
      case (pr_settles_drought c d sig rid)
      obtain p ad ob where "settlement_at e d p ad ob sys sys'"
        using drought_settlement [OF pr_settles_drought sound] sa by blast
      then show ?thesis using inv_settles [OF inv _ on_receiver(2) dep time] by blast
    next
      case (pr_rents i)
      show ?thesis by (rule quiet) (rule quiet_rents [OF pr_rents ok sa])
    next
      case pr_keeps
      show ?thesis by (rule quiet) (rule quiet_keeps [OF pr_keeps])
    qed
  next
    case (on_manager w)
    then show ?thesis using inv_manager [OF inv _ _ _ time] dep by simp
  next
    case (on_adapter ad a a')
    have "debts this i sys' = debts this i sys" for i
      by (rule debts_upd [OF on_adapter(2), where a' = a']) (simp_all add: on_adapter(1) adapter_step [OF on_adapter(3) sa [OF on_adapter(2)] on_adapter(4)])
    then show ?thesis
      unfolding on_adapter(1) using dep sa sa_inv_step [OF sa on_adapter(3)] on_adapter(1,2)
      by (intro inv_adapter [OF inv time(1)]) (auto split: if_splits)
  next
    case (new_adapter ad admin a)
    have "debts this i sys' = debts this i sys" for i
      using new_adapter(2) sa_constructor_effect(2) [OF new_adapter(3)]
      by (auto simp: new_adapter(1) debts_def fun_eq_iff obligation_for_def)
    then show ?thesis
      unfolding new_adapter(1) using dep sa sa_inv_constructor [OF new_adapter(3)] new_adapter(1)
      by (intro inv_adapter [OF inv time(1)]) (auto split: if_splits)
  qed
qed

lemma sys_reachable_inv: "sys_reachable this t sys \<Longrightarrow> sys_inv this t sys"
proof (induction rule: sys_reachable.induct)
  case (sys_start e ad pm admin s t w sys ads)
  note reach = pm_reachable_ok [OF sys_start(2)]
  have "claims_of (pm_view (snd w)) a = []" for a
    using reach sys_start(6) by (simp add: clock_ok_def)
  then have "busy t a (pm_view (snd w)) \<le> 3" for a
    using pm_okD(9) [of "pm_view (snd w)" a] reach by (simp add: busy_def MAX_ACTIVE_POLICIES_PER_FARMER_def)
  moreover have "records_agree (records this i sys)" for i
    using sys_start(5) sys_start(8) pr_constructor_effect [OF sys_start(1)]
    by (simp add: records_def records_agree_def is_policy_paid_def settlements_def sys_start(3))
  ultimately show ?case
    using sys_start sa_reachable_inv by (auto simp: sys_inv_def pm_reached_def)
next
  case (sys_next t sys e sys')
  then show ?case using sys_inv_step by blast
qed

section \<open>What the invariant gives\<close>

lemma sys_pr_reachable: "sys_reachable this t sys \<Longrightarrow> pr_reachable real_pm real_adapter sys"
proof (induction rule: sys_reachable.induct)
  case (sys_start e ad pm admin s t w sys ads)
  then show ?case using pr_start by simp
next
  case (sys_next t sys e sys')
  have "pr_step real_pm real_adapter e sys sys'"
    using sys_next(2)
  proof (cases rule: sys_step.cases)
    case on_receiver
    then show ?thesis by (simp add: pr_called)
  next
    case (on_manager w)
    then show ?thesis using world_moves [of real_pm real_adapter e sys "sys_adapters sys"] by simp
  next
    case (on_adapter ad a a')
    then show ?thesis using world_moves [of real_pm real_adapter e sys _ "sys_pm sys"] by simp
  next
    case (new_adapter ad admin a)
    then show ?thesis using world_moves [of real_pm real_adapter e sys _ "sys_pm sys"] by simp
  qed
  with sys_next show ?case using pr_next by blast
qed

lemma paid_bounds:
  assumes "sys_reachable this t sys" and "is_policy_paid i (sys_pr sys)"
  shows "3000 \<le> r_damage_percentage (get_report i (sys_pr sys)) \<and> r_damage_percentage (get_report i (sys_pr sys)) \<le> 10000"
  using pr_reachable_inv [OF sys_pr_reachable [OF assms(1)], unfolded pr_inv_def, rule_format, of i] assms(2)
  by (auto simp: get_report_def)

lemma policy_terms:
  assumes "sys_inv this t sys" and "get (pm_policy (snd (sys_pm sys))) i = Some p"
  shows "policy_ok p" and "p_id p = i"
  using sys_inv_sound [OF assms(1)] assms(2) pm_okD(3) [of "pm_view (snd (sys_pm sys))" i p] by (simp_all add: pm_sound_def)

lemma share_bounds:
  assumes "policy_ok p" and "3000 \<le> bp" and "bp \<le> 10000"
  shows "p_sum_insured p * 3000 div 10000 \<le> payout_share p bp" and "payout_share p bp \<le> p_sum_insured p"
    and "0 < payout_share p bp"
proof -
  have sum: "MIN_SUM_INSURED \<le> p_sum_insured p" using assms(1) by (auto simp: policy_ok_def sale_terms_def)
  then have pos: "10 \<le> p_sum_insured p" by (simp add: MIN_SUM_INSURED_def)
  note share = payout_share_floor [of p bp]
  have low: "p_sum_insured p * 3000 \<le> p_sum_insured p * int bp" using assms(2) pos by (intro mult_left_mono) auto
  have high: "p_sum_insured p * int bp \<le> p_sum_insured p * 10000" using assms(3) pos by (intro mult_left_mono) auto
  show "p_sum_insured p * 3000 div 10000 \<le> payout_share p bp"
    using share pos zdiv_mono1 [OF low, of 10000] by simp
  show "payout_share p bp \<le> p_sum_insured p" using share pos zdiv_mono1 [OF high, of 10000] by simp
  have "0 < p_sum_insured p * 3000 div 10000" using pos by simp
  then show "0 < payout_share p bp" using share pos zdiv_mono1 [OF low, of 10000] by simp
qed

text \<open>An adapter's entry for the receiver is one of its debts.\<close>

lemma debts_find:
  assumes "sa_inv a" and "sys_adapters sys ad = Some a"
  shows "debts this i sys ad = Some x \<longleftrightarrow>
     (\<exists>n ob. find_obligation this i a = Some n \<and> get_obligation n a = Some ob \<and> o_id ob = n \<and> debt_of ob = x)"
    and "debts this i sys ad = None \<longleftrightarrow> find_obligation this i a = None"
proof -
  have found: "\<exists>ob. get (sa_obligation a) n = Some ob \<and> o_id ob = n" if "get (sa_obligation_of a) (this, i) = Some n" for n
    using sa_invD(2,3) [OF assms(1)] that by metis
  have eq: "debts this i sys ad = map_option debt_of (Option.bind (get (sa_obligation_of a) (this, i)) (get (sa_obligation a)))"
    by (simp add: debts_def assms(2) obligation_for_def)
  show "debts this i sys ad = Some x \<longleftrightarrow>
     (\<exists>n ob. find_obligation this i a = Some n \<and> get_obligation n a = Some ob \<and> o_id ob = n \<and> debt_of ob = x)"
    using found by (cases "get (sa_obligation_of a) (this, i)") (force simp: eq find_obligation_def get_obligation_def)+
  show "debts this i sys ad = None \<longleftrightarrow> find_obligation this i a = None"
    using found by (cases "get (sa_obligation_of a) (this, i)") (force simp: eq find_obligation_def)+
qed

lemma active_room:
  assumes inv: "sys_inv this t sys" and "t \<le> timestamp e"
    and p: "get (pm_policy (snd (sys_pm sys))) i = Some p" "p_status p = Active"
  shows "pm_can_farmer_claim e (p_farmer p) (snd (sys_pm sys))"
proof -
  let ?v = "pm_view (snd (sys_pm sys))"
  have "pm_ok ?v" using sys_inv_sound [OF inv] by (simp add: pm_sound_def)
  from open_closable(1) [OF this, of i p] p have "0 < active_of ?v (p_farmer p)"
    by (auto simp: closable_def is_open_def)
  moreover have "busy (timestamp e) (p_farmer p) ?v \<le> 3"
    using inv le_trans [OF busy_later [OF assms(2)]] by (simp add: sys_inv_def)
  ultimately show ?thesis
    unfolding can_of_view by (simp add: busy_def MAX_CLAIMS_PER_FARMER_PER_YEAR_def)
qed

section \<open>The sample deployment as a system\<close>

lemma sample_world_policies:
  "get (pm_policy (snd sample_world)) i = (if i = 1 then Some sample_active else None)"
proof -
  have "get (pm_policy (snd sample_world)) i = v_policy (pm_view (snd sample_world)) i" by simp
  also have "\<dots> = (if i = 1 then Some sample_active else None)"
    unfolding sample_world(2) sample_pm_sold(2)
    by (simp add: a_activate_def a_create_def pm_constructor_effect(6) [OF sample_pm_new] sample_active_def)
      (simp add: sample_policy_def new_policy_def)
  finally show ?thesis .
qed

lemma sample_sys_system: "sys_reachable (Address 200) 1700000000 sample_sys"
proof -
  let ?sys = "\<lambda>s. \<lparr>sys_pr = s, sys_pm = sample_world, sys_adapters = [Address 400 \<mapsto> sample_sa_ready]\<rparr>"
  have dep: "deployment_ok (Address 200) (?sys s)" for s
    using sample_world_sound by (simp add: deployment_ok_def sample_world_oracle pm_sound_def)
  have log: "claim_log a (pm_events (snd sample_world)) = []" for a
    using pm_reachable_ok [OF sample_world(1)] sample_world_claims [of a]
    by (cases "claim_log a (pm_events (snd sample_world))") (auto simp: clock_ok_def)
  have unclaimed: "claimed_policy i (?sys s) = None" for i s
    by (simp add: claimed_policy_def sample_world_policies sample_active_fields del: One_nat_def)
  have no_debts: "debts (Address 200) i (?sys s) = Map.empty" for i s
    by (auto simp: debts_def fun_eq_iff sample_obligation_room(1))
  have adapters: "[Address 400 \<mapsto> sample_sa_ready] ad = Some a \<Longrightarrow> sa_reachable a" for ad a
    using sample_sa_reachable(1) by (simp split: if_splits)
  note start = sys_start [OF sample_pr_new sample_world(1) refl dep unclaimed log adapters no_debts]
  have step: "pr_admin sample_pr_env s s' \<Longrightarrow> sys_reachable (Address 200) 1700000000 (?sys s) \<Longrightarrow>
      sys_reachable (Address 200) 1700000000 (?sys s')" for s s'
    using sys_next [OF _ on_receiver [OF pr_administers [of sample_pr_env "?sys s" s']], of "Address 200" 1700000000] dep
    by (simp add: u64_max_def sample_pr_env_def)
  have "sys_reachable (Address 200) 1700000000 (?sys sample_pr_relayer)"
    by (rule step [OF adm_grant [OF sample_pr_relayer] start])
  from step [OF adm_signer [OF sample_pr_configured(1)] this]
  have "sys_reachable (Address 200) 1700000000 (?sys sample_pr_domain)"
    using step [OF adm_domain [OF sample_pr_configured(2)]] by blast
  from step [OF adm_methodology [OF sample_pr_configured(3)] this] show ?thesis by (simp add: sample_sys_def)
qed

lemma sample_paid_system: "sys_reachable (Address 200) 1709425000 sample_paid"
proof -
  have sa: "sa_inv a" if "sys_adapters sample_sys ad = Some a" for ad a
    using that sa_reachable_inv [OF sample_sa_reachable(1)] by (simp split: if_splits)
  have "pm_sound (sys_pm sample_paid)"
    and "holds (pm_roles (snd (sys_pm sample_paid))) Oracle = holds (pm_roles (snd (sys_pm sample_sys))) Oracle"
    using drought_settlement [OF sample_paid] sample_world_sound sa by auto
  then have "deployment_ok (Address 200) sample_paid"
    by (simp add: deployment_ok_def sample_world_oracle pm_sound_def)
  then show ?thesis
    using sys_next [OF sample_sys_system on_receiver [OF pr_settles_drought [OF sample_paid]]] by (simp add: u64_max_def)
qed

end
