(* ===== verification/Access.thy ===== *)
theory Access
  imports System
begin

text \<open>
  Who may change who holds a role, for all four contracts. Each repeats the access control of
  \<^verbatim>\<open>crates/shared/src/roles.rs\<close>; its \<open>grant_role\<close> and \<open>revoke_role\<close> satisfy the locale \<open>role_gated\<close>.
  Here every other entry point is shown to leave the holders alone, so that whatever changes them
  was authorised by an admin.
\<close>

section \<open>The certificate contract\<close>

definition admin_acts :: "env \<Rightarrow> roles \<Rightarrow> roles \<Rightarrow> bool" where
  "admin_acts e old new \<longleftrightarrow> holds new = holds old \<or> (\<exists>c. authorizes e c \<and> holds old Admin c)"

lemma admin_acts_same [intro]: "holds new = holds old \<Longrightarrow> admin_acts e old new"
  by (simp add: admin_acts_def)

lemma admin_acts_refl [simp]: "admin_acts e old old"
  by (simp add: admin_acts_def)

lemma admin_acts_by [intro]: "authorizes e c \<and> holds old Admin c \<Longrightarrow> admin_acts e old new"
  by (auto simp: admin_acts_def)

lemma nft_step_access:
  assumes "nft_step e s s'"
  shows "admin_acts e (nft_roles s) (nft_roles s')"
  using assms
proof (cases rule: nft_step.cases)
  case step_mint
  then show ?thesis using mint_policy_effect(13) by blast
next
  case step_status
  then show ?thesis using update_policy_status_effect(7) by fastforce
next
  case step_transfer
  then show ?thesis using transfer_effect(10) by fastforce
next
  case step_rent
  then show ?thesis by (auto simp: nft_extend_policy_ttl_ok)
next
  case step_grant
  then show ?thesis using nft_access.grant_needs_admin by blast
next
  case step_revoke
  then show ?thesis using nft_access.revoke_needs_admin by blast
qed (auto simp: nft_extend_contract_ttl_def set_policy_manager_def nft_has_role_def has_role_eq bindE_eq_Inr Let_def
      nft_bump_instance_def nft_publish_def)

section \<open>The settlement adapter\<close>

lemma sa_step_access:
  assumes "sa_step e s s'" and inv: "sa_inv s"
  shows "admin_acts e (sa_roles s) (sa_roles s')"
  using assms(1)
proof (cases rule: sa_step.cases)
  case (step_record caller pid org amount digest ob)
  then show ?thesis using record_obligation_Inr(2) [OF step_record] by (auto simp: sa_recorded_def)
next
  case (step_funded caller i r ob)
  then obtain x where "(case attest_funded caller (timestamp e) r x of Inl err \<Rightarrow> Inl (AdapterE err)
      | Inr y \<Rightarrow> Inr (y, if y = x then sa_checked e caller s
          else sa_marked e y (ObligationFunded i (o_policy_id x) (o_org x) caller r) (sa_checked e caller s))) = Inr (ob, s')"
    unfolding mark_funded_eq [OF inv] bindE_eq_Inr by blast
  then show ?thesis
    by (cases "attest_funded caller (timestamp e) r x") (auto simp: sa_marked_def sa_checked_def)
next
  case (step_settled caller i r ob)
  then obtain x where "(case attest_settled caller (timestamp e) r x of Inl err \<Rightarrow> Inl (AdapterE err)
      | Inr y \<Rightarrow> Inr (y, if y = x then sa_checked e caller s
          else sa_marked e y (ObligationSettled i (o_policy_id x) (o_org x) caller r (o_amount x)) (sa_checked e caller s))) = Inr (ob, s')"
    unfolding mark_settled_eq [OF inv] bindE_eq_Inr by blast
  then show ?thesis
    by (cases "attest_settled caller (timestamp e) r x") (auto simp: sa_marked_def sa_checked_def)
next
  case (step_rent i)
  show ?thesis
  proof (cases "get (sa_obligation s) i")
    case None
    with step_rent show ?thesis by (auto simp: extend_obligation_ttl_def)
  next
    case (Some ob)
    have "extend_entries e ob (sa_touch e s) = Inr (sa_rented e ob (sa_touch e s))"
      by (rule extend_entries_stored [OF inv Some]) simp_all
    with step_rent Some show ?thesis by (auto simp: extend_obligation_ttl_def Let_def split: if_splits)
  qed
next
  case step_grant
  then show ?thesis using sa_access.grant_needs_admin by blast
next
  case step_revoke
  then show ?thesis using sa_access.revoke_needs_admin by blast
qed (auto simp: sa_extend_contract_ttl_def set_payout_receiver_def sa_has_role_def sa_upgrade_def has_role_eq
      bindE_eq_Inr Let_def split: if_splits)

section \<open>The policy manager\<close>

lemma rest_access: "pm_rest s' = (holds (pm_roles s), x, y) \<Longrightarrow> admin_acts e (pm_roles s) (pm_roles s')"
  by (auto simp: pm_rest_def)

lemma load_access: "load_policy e i s = Inr (p, s') \<Longrightarrow> pm_roles s' = pm_roles s"
  by (auto simp: load_policy_def bump_policy_def bindE_eq_Inr split: option.splits policy_status.splits)

lemma pm_step_access:
  assumes "pm_step e (n, s) (n', s')" and ok: "pm_ok (pm_view s)"
  shows "admin_acts e (pm_roles s) (pm_roles s')"
  using assms(1)
proof (cases rule: pm_step.cases)
  case (do_create c farmer plot lat lon amount prem days cov org i)
  show ?thesis
    using create_policy_ok [OF create_policy_needs [OF do_create(2)], where plot = plot] do_create(2) rest_access
    by (metis Inr_inject prod.inject)
next
  case do_activate
  then show ?thesis using activate_policy_Inr [OF ok] rest_access by metis
next
  case do_claim
  then show ?thesis using mark_as_claimed_Inr [OF ok] rest_access by metis
next
  case (do_count c farmer)
  then show ?thesis by (auto simp: increment_claim_count_def bindE_eq_Inr Let_def split: if_splits)
next
  case do_cancel
  then show ?thesis using cancel_policy_Inr [OF ok] rest_access by metis
next
  case do_expire
  then show ?thesis using expire_policy_Inr [OF ok] rest_access by (metis admin_acts_same)
next
  case do_rent
  then show ?thesis using pm_extend_policy_ttl_Inr(2) [OF ok] by (auto simp: pm_rest_def)
next
  case do_grant
  then show ?thesis using pm_access.grant_needs_admin by blast
next
  case do_revoke
  then show ?thesis using pm_access.revoke_needs_admin by blast
qed (auto dest!: load_access simp: pm_extend_contract_ttl_def policy_org_def pm_get_policy_def set_policy_nft_def pm_has_role_def pm_upgrade_def has_role_eq
      bindE_eq_Inr Let_def split: if_splits option.splits)

section \<open>The receiver\<close>

lemma pr_call_access:
  assumes "pr_call pmc adc e sys sys'"
  shows "admin_acts e (pr_roles (sys_pr sys)) (pr_roles (sys_pr sys'))"
  using assms
proof (cases rule: pr_call.cases)
  case (pr_administers s')
  from pr_administers(2) have "admin_acts e (pr_roles (sys_pr sys)) (pr_roles s')"
  proof (cases rule: pr_admin.cases)
    case adm_grant
    then show ?thesis using pr_access.grant_needs_admin by blast
  next
    case adm_revoke
    then show ?thesis using pr_access.revoke_needs_admin by blast
  qed (auto simp: set_authorized_signer_def set_network_domain_def pr_has_role_def has_role_eq pr_upgrade_def pause_def
      unpause_def set_methodology_enabled_def bindE_eq_Inr)
  then show ?thesis by (simp add: pr_administers(1))
next
  case (pr_swaps c a)
  then show ?thesis by (auto simp: set_settlement_adapter_Inr)
next
  case (pr_settles_crop c cd sig rid)
  then show ?thesis unfolding submit_crop_Inr settle_verified_Inr by (auto simp: pr_begun_def pr_touch_def)
next
  case (pr_settles_drought c d sig rid)
  then show ?thesis unfolding submit_drought_Inr settle_verified_Inr by (auto simp: drought_begun_def pr_begun_def pr_touch_def)
next
  case (pr_rents i)
  then show ?thesis by (auto simp: pr_extend_policy_ttl_def Let_def bindE_eq_Inr pr_touch_def)
next
  case pr_keeps
  then show ?thesis by (auto simp: pr_extend_contract_ttl_def Let_def bindE_eq_Inr split: option.splits)
qed

section \<open>Property\<close>

text \<open>C19. Roles change hands only through an admin. Whatever entry point of the four contracts is called, in
  whatever order and with whatever contracts behind it, if it changes who holds some role then the
  call was authorised by an address that held the admin role of that contract before it.\<close>

theorem roles_change_by_admin:
  "(pr_call pmc adc e sys sys' \<and> holds (pr_roles (sys_pr sys')) r a \<noteq> holds (pr_roles (sys_pr sys)) r a \<longrightarrow>
      (\<exists>c. authorizes e c \<and> holds (pr_roles (sys_pr sys)) Admin c)) \<and>
   (pm_reachable t w \<and> pm_step e w w' \<and> holds (pm_roles (snd w')) r a \<noteq> holds (pm_roles (snd w)) r a \<longrightarrow>
      (\<exists>c. authorizes e c \<and> holds (pm_roles (snd w)) Admin c)) \<and>
   (sa_reachable s \<and> sa_step e s s' \<and> holds (sa_roles s') r a \<noteq> holds (sa_roles s) r a \<longrightarrow>
      (\<exists>c. authorizes e c \<and> holds (sa_roles s) Admin c)) \<and>
   (nft_step e x x' \<and> holds (nft_roles x') r a \<noteq> holds (nft_roles x) r a \<longrightarrow>
      (\<exists>c. authorizes e c \<and> holds (nft_roles x) Admin c))"
proof (intro conjI impI; elim conjE)
  assume "pm_reachable t w" "pm_step e w w'" "holds (pm_roles (snd w')) r a \<noteq> holds (pm_roles (snd w)) r a"
  then show "\<exists>c. authorizes e c \<and> holds (pm_roles (snd w)) Admin c"
    using pm_step_access [of e "fst w" "snd w" "fst w'" "snd w'"] pm_reachable_ok [of t w] by (auto simp: admin_acts_def)
next
  assume "sa_reachable s" "sa_step e s s'" "holds (sa_roles s') r a \<noteq> holds (sa_roles s) r a"
  then show "\<exists>c. authorizes e c \<and> holds (sa_roles s) Admin c"
    using sa_step_access [of e s s'] sa_reachable_inv [of s] by (auto simp: admin_acts_def)
qed (auto simp: admin_acts_def dest!: pr_call_access nft_step_access)

theorem roles_change_by_admin_witness:
  "\<exists>s'. sa_step sample_env sample_sa_new s' \<and> \<not> holds (sa_roles sample_sa_new) Funder (Address 13) \<and>
     holds (sa_roles s') Funder (Address 13) \<and>
     (\<exists>c. authorizes sample_env c \<and> holds (sa_roles sample_sa_new) Admin c)"
proof -
  have moved: "sa_reachable sample_sa_new \<and> sa_step sample_env sample_sa_new sample_sa_funder"
    using sa_start [OF sample_sa_new] step_grant [OF sample_sa_funder] by blast
  moreover have old: "\<not> holds (sa_roles sample_sa_new) Funder (Address 13)"
    by (simp add: sa_constructor_effect(1) [OF sample_sa_new])
  moreover have "holds (sa_roles sample_sa_funder) Funder (Address 13)"
    by (simp add: sa_access.grant_effect [OF sample_sa_funder])
  ultimately show ?thesis
    using roles_change_by_admin [THEN conjunct2, THEN conjunct2, THEN conjunct1, of sample_sa_new sample_env
      sample_sa_funder Funder "Address 13"] by (intro exI [of _ sample_sa_funder]) simp
qed

end
