(* ===== verification/Rules.thy ===== *)
theory Rules
  imports Host
begin

text \<open>
  Ordered checks. A list of rules, each a condition and the error of its failure, has a first failing
  one; \<open>answers\<close> says that a call fails with the error of the first rule that does not hold and goes
  through when all hold. The lemmas follow the shape of the code: a sequence of calls, a guard with an early return.
\<close>

fun first_error :: "(bool \<times> 'e) list \<Rightarrow> 'e option" where
  "first_error [] = None"
| "first_error ((ok, err) # rules) = (if ok then first_error rules else Some err)"

definition answers :: "(bool \<times> 'e) list \<Rightarrow> 'e + 'a \<Rightarrow> bool" where
  "answers rules m \<longleftrightarrow> (case first_error rules of Some err \<Rightarrow> m = Inl err | None \<Rightarrow> \<exists>x. m = Inr x)"

lemma first_error_append:
  "first_error (xs @ ys) = (case first_error xs of None \<Rightarrow> first_error ys | Some err \<Rightarrow> Some err)"
  by (induction xs rule: first_error.induct) simp_all

lemma first_error_None: "first_error rules = None \<longleftrightarrow> (\<forall>r \<in> set rules. fst r)"
  by (induction rules rule: first_error.induct) auto

lemma first_error_member: "first_error rules = Some err \<Longrightarrow> (False, err) \<in> set rules"
  by (induction rules rule: first_error.induct) (auto split: if_splits)

lemma answers_Nil [simp]: "answers [] (Inr x)"
  by (simp add: answers_def)

lemma answers_bind:
  assumes "answers rules m" and "\<And>x. m = Inr x \<Longrightarrow> answers rules' (f x)"
  shows "answers (rules @ rules') (bindE m f)"
  using assms by (auto simp: answers_def first_error_append split: option.splits)

lemma answers_guard:
  assumes "bad \<longleftrightarrow> \<not> c" and "c \<Longrightarrow> answers rules m"
  shows "answers ((c, err) # rules) (if bad then Inl err else m)"
  using assms by (cases c) (simp_all add: answers_def)

lemma answers_Inl: "answers rules m \<Longrightarrow> m = Inl err \<longleftrightarrow> first_error rules = Some err"
  by (auto simp: answers_def split: option.splits)

lemma answers_Inr: "answers rules m \<Longrightarrow> (\<exists>x. m = Inr x) \<longleftrightarrow> first_error rules = None"
  by (auto simp: answers_def split: option.splits)

end
