(* ===== verification/Verdict.thy ===== *)
theory Verdict
  imports System Rules
begin

text \<open>
  What a refused determination answers. The checks of a drought submission are a list of rules in the
  order the receiver's documentation gives them, and the code is shown to answer to that list in every
  reachable state of the system. The middle of the submission is regrouped into the checks on the
  evidence, on the cover and on the signature, each of which answers to its own part of the list.
\<close>

lemma answers_ensure:
  assumes "c' \<longleftrightarrow> c" and "c \<Longrightarrow> answers rules m"
  shows "answers ((c, err) # rules) (bindE (ensure c' err) (\<lambda>_. m))"
  using assms by (cases c) (simp_all add: answers_def ensure_def)

lemma answers_last: "c' \<longleftrightarrow> c \<Longrightarrow> answers [(c, err)] (ensure c' err)"
  by (simp add: answers_def ensure_def)

section \<open>The checks of a drought submission\<close>

definition gate_rules :: "env \<Rightarrow> address \<Rightarrow> methodology_kind \<Rightarrow> pr_state \<Rightarrow> (bool \<times> error) list" where
  "gate_rules e c kind s =
     [(authorizes e c, HostE AuthFailed),
      (holds (pr_roles s) Relayer c, CommonE Unauthorized),
      (pr_paused s \<noteq> Some True, PausedE ContractPaused),
      (pr_authorized_signer s \<noteq> None, PayoutE SignerNotConfigured),
      (is_methodology_enabled kind s, PayoutE MethodologyDisabled)]"

definition evidence_valid :: "drought_determination \<Rightarrow> bool" where
  "evidence_valid d \<longleftrightarrow>
     d_lgp_days d = 180 \<and> d_cdd_w2_days d \<le> 40 \<and> 0 < d_rain_ref_w1_e2 d \<and> 0 < d_rain_ref_w2_e2 d \<and>
     d_rain_w1_e2 d \<le> 10 ^ 9 \<and> d_rain_ref_w1_e2 d \<le> 10 ^ 9 \<and> d_rain_w2_e2 d \<le> 10 ^ 9 \<and> d_rain_ref_w2_e2 d \<le> 10 ^ 9 \<and>
     86400 dvd d_season_start_epoch d \<and> d_methodology_params_hash d = DROUGHT_PARAMS_HASH_RDI_1_0"

definition evidence_rules :: "drought_determination \<Rightarrow> (bool \<times> error) list" where
  "evidence_rules d =
     [(d_damage_percent_bp d \<le> 10000, PayoutE DamageExceedsMaximum),
      (d_drought_damage d \<le> 100, PayoutE DroughtScoreOutOfRange),
      (evidence_valid d, PayoutE DroughtEvidenceInvalid),
      (d_damage_percent_bp d = d_drought_damage d * 100, PayoutE InvalidDroughtDamage),
      (d_drought_damage d =
         drought_index (d_rain_w1_e2 d) (d_rain_ref_w1_e2 d) (d_rain_w2_e2 d) (d_rain_ref_w2_e2 d),
       PayoutE InvalidDroughtDamage),
      (3000 \<le> d_damage_percent_bp d, PayoutE DamageBelowThreshold)]"

text \<open>The dates in seconds: 110 days from planting to the end of the second window.\<close>

definition open_rules :: "env \<Rightarrow> policy \<Rightarrow> (bool \<times> error) list" where
  "open_rules e p =
     [(p_status p = Active, PayoutE PolicyNotActive),
      (timestamp e \<le> p_end_date p, PayoutE payout_error.PolicyExpired)]"

definition cover_rules :: "drought_determination \<Rightarrow> policy \<Rightarrow> (bool \<times> error) list" where
  "cover_rules d p =
     [(d_sum_insured d = p_sum_insured p, PayoutE SumInsuredMismatch),
      (\<bar>d_latitude_e6 d - p_lat_e6 p\<bar> \<le> 1 \<and> \<bar>d_longitude_e6 d - p_lon_e6 p\<bar> \<le> 1, PayoutE PlotLocationMismatch),
      (p_start_date p div 86400 * 86400 \<le> d_season_start_epoch d \<and>
         d_season_start_epoch d + 110 * 86400 \<le> p_end_date p, PayoutE EvidenceOutsideCoverWindow),
      (d_season_start_epoch d + 110 * 86400 \<le> d_assessed_at d, PayoutE SeasonNotComplete),
      (d_payout_amount d = p_sum_insured p * int (d_damage_percent_bp d) div 10000, PayoutE InvalidPayoutCalculation)]"

definition fresh_rules :: "env \<Rightarrow> drought_determination \<Rightarrow> (bool \<times> error) list" where
  "fresh_rules e d =
     [(d_assessed_at d \<le> timestamp e, PayoutE ReportInFuture),
      (timestamp e \<le> d_assessed_at d + 3600, PayoutE ReportTooOld)]"

definition key_rules ::
  "env \<Rightarrow> bytes32 \<Rightarrow> bytes64 \<Rightarrow> nat \<Rightarrow> pr_state \<Rightarrow> (bool \<times> error) list" where
  "key_rules e digest sig rid s =
     [(\<not> has_temporary e (pr_consumed s) digest, PayoutE DeterminationAlreadyConsumed),
      (secp256k1_recover e digest sig rid \<noteq> None, HostE BadSignatureEncoding),
      (secp256k1_recover e digest sig rid = pr_authorized_signer s, PayoutE InvalidSignature)]"

text \<open>What is left when every check has passed: the adapter takes the obligation, the manager the claim.\<close>

definition booking_rules :: "env \<Rightarrow> policy \<Rightarrow> system \<Rightarrow> (bool \<times> error) list" where
  "booking_rules e p sys =
     (let this = current_contract_address e in
      (case Option.bind (pr_settlement_adapter (sys_pr sys)) (sys_adapters sys) of
         None \<Rightarrow> [(False, HostE NoContract)]
       | Some a \<Rightarrow>
           [(adapter_payout_receiver a \<noteq> None, CommonE NotConfigured),
            (adapter_payout_receiver a = Some this, AdapterE NotPayoutReceiver),
            (has_obligation_room a (p_org p), AdapterE CounterOverflow)]) @
      [(holds (pm_roles (snd (sys_pm sys))) Oracle this, CommonE Unauthorized)])"

definition policy_rules ::
  "env \<Rightarrow> drought_determination \<Rightarrow> bytes64 \<Rightarrow> nat \<Rightarrow> policy \<Rightarrow> system \<Rightarrow> (bool \<times> error) list" where
  "policy_rules e d sig rid p sys =
     open_rules e p @ cover_rules d p @ fresh_rules e d @
     [(pr_network_domain (sys_pr sys) \<noteq> None, CommonE NotConfigured)] @
     key_rules e (drought_digest_of e d (sys_pr sys)) sig rid (sys_pr sys) @
     booking_rules e p sys"

definition drought_rules ::
  "env \<Rightarrow> address \<Rightarrow> drought_determination \<Rightarrow> bytes64 \<Rightarrow> nat \<Rightarrow> system \<Rightarrow> (bool \<times> error) list" where
  "drought_rules e c d sig rid sys =
     gate_rules e c CropDroughtRdi10 (sys_pr sys) @
     evidence_rules d @
     (case get (pm_policy (snd (sys_pm sys))) (d_on_chain_policy_id d) of
        None \<Rightarrow> [(False, PayoutE payout_error.PolicyDoesNotExist)]
      | Some p \<Rightarrow> policy_rules e d sig rid p sys)"

section \<open>The steps answer to their rules\<close>

lemma gate_answers: "answers (gate_rules e c kind s) (begin_submission e c kind s)"
  by (auto simp: answers_def gate_rules_def begin_submission_def require_role_eq Let_def unwrap_flag
      is_methodology_enabled_def methodology_enabled_def pr_touch_def split: option.splits)

text \<open>The middle of the submission, regrouped.\<close>

definition evidence_check :: "drought_determination \<Rightarrow> error + unit" where
  "evidence_check d =
     bindE (ensure (\<not> MAX_DAMAGE_PERCENTAGE < d_damage_percent_bp d) (PayoutE DamageExceedsMaximum)) (\<lambda>_.
     bindE (ensure (\<not> 100 < d_drought_damage d) (PayoutE DroughtScoreOutOfRange)) (\<lambda>_.
     bindE (ensure
       (\<not> (d_lgp_days d \<noteq> LGP_DAYS \<or> MAX_CDD_W2_DAYS < d_cdd_w2_days d \<or>
           d_rain_ref_w1_e2 d = 0 \<or> d_rain_ref_w2_e2 d = 0 \<or>
           MAX_RAIN_E2 < d_rain_w1_e2 d \<or> MAX_RAIN_E2 < d_rain_ref_w1_e2 d \<or>
           MAX_RAIN_E2 < d_rain_w2_e2 d \<or> MAX_RAIN_E2 < d_rain_ref_w2_e2 d \<or>
           d_season_start_epoch d mod SECONDS_PER_DAY \<noteq> 0 \<or>
           d_methodology_params_hash d \<noteq> DROUGHT_PARAMS_HASH_RDI_1_0))
       (PayoutE DroughtEvidenceInvalid)) (\<lambda>_.
     bindE (mul_u32 (d_drought_damage d) 100) (\<lambda>bp.
     bindE (ensure (d_damage_percent_bp d = bp) (PayoutE InvalidDroughtDamage)) (\<lambda>_.
     bindE (rdi_v1_drought_damage (d_rain_w1_e2 d) (d_rain_ref_w1_e2 d) (d_rain_w2_e2 d)
       (d_rain_ref_w2_e2 d)) (\<lambda>dd.
     bindE (ensure (dd = Some (d_drought_damage d)) (PayoutE InvalidDroughtDamage)) (\<lambda>_.
     ensure (\<not> d_damage_percent_bp d < MIN_DAMAGE_THRESHOLD) (PayoutE DamageBelowThreshold))))))))"

definition cover_check :: "drought_determination \<Rightarrow> policy \<Rightarrow> error + unit" where
  "cover_check d policy =
     bindE (ensure (p_coverage_type policy = Drought) (PayoutE CoverageNotSettledByMethodology)) (\<lambda>_.
     bindE (ensure (d_sum_insured d = p_sum_insured policy) (PayoutE SumInsuredMismatch)) (\<lambda>_.
     bindE (require_plot policy (d_latitude_e6 d) (d_longitude_e6 d)) (\<lambda>_.
     bindE (sub_u (p_start_date policy) (p_start_date policy mod SECONDS_PER_DAY)) (\<lambda>start_day.
     bindE (ensure (d_season_start_epoch d + SEASON_WINDOW_SECS \<le> u64_max) (PayoutE EvidenceOutsideCoverWindow)) (\<lambda>_.
     bindE (ensure (\<not> (d_season_start_epoch d < start_day \<or>
         p_end_date policy < d_season_start_epoch d + SEASON_WINDOW_SECS)) (PayoutE EvidenceOutsideCoverWindow)) (\<lambda>_.
     bindE (ensure (\<not> d_assessed_at d < d_season_start_epoch d + SEASON_WINDOW_SECS) (PayoutE SeasonNotComplete)) (\<lambda>_.
     require_payout policy (d_damage_percent_bp d) (d_payout_amount d))))))))"

text \<open>The checks on the policy, on time and on the signature, and the settlement.\<close>

definition policy_path ::
  "'w pm_client \<Rightarrow> 'a adapter_client \<Rightarrow> env \<Rightarrow> address \<Rightarrow> address \<Rightarrow> drought_determination \<Rightarrow> bytes64 \<Rightarrow> nat \<Rightarrow> bytes65 \<Rightarrow>
     pr_state \<Rightarrow> ('w, 'a) pr_sys \<Rightarrow> error + ('w, 'a) pr_sys" where
  "policy_path pmc adc e adapter pm d sig rid signer s sys =
     bindE (open_policy pmc e pm (d_on_chain_policy_id d) s (sys_pm sys)) (\<lambda>(policy, w).
     bindE (cover_check d policy) (\<lambda>_.
     bindE (require_fresh_and_claimable pmc e pm policy (d_assessed_at d) w) (\<lambda>w.
     bindE (network_domain s) (\<lambda>domain.
     bindE (require_unconsumed_and_signed e (drought_determination_digest e d (current_contract_address e) domain)
         sig rid signer s) (\<lambda>_.
     settle_verified pmc adc e pm adapter policy (drought_report d)
       (drought_determination_digest e d (current_contract_address e) domain)
       (sys\<lparr>sys_pr := pr_publish (DroughtEvidenceRecorded (d_on_chain_policy_id d) (d_drought_damage d)
               (d_season_start_epoch d) (d_source_hash d)) s, sys_pm := w\<rparr>))))))"

lemma submit_drought_parts:
  "submit_drought_determination pmc adc e caller d sig rid sys =
     bindE (begin_submission e caller CropDroughtRdi10 (sys_pr sys)) (\<lambda>(signer, s).
     bindE (evidence_check d) (\<lambda>_.
     bindE (siblings s) (\<lambda>(adapter, pm). policy_path pmc adc e adapter pm d sig rid signer s sys)))"
  unfolding submit_drought_determination_def evidence_check_def cover_check_def policy_path_def bindE_assoc Let_def
    drought_report_def ..

lemma evidence_answers: "answers (evidence_rules d) (evidence_check d)"
  unfolding evidence_rules_def evidence_check_def
proof (rule answers_ensure, simp add: pr_constants not_less, rule answers_ensure, simp add: not_less, rule answers_ensure)
  show "(\<not> (d_lgp_days d \<noteq> LGP_DAYS \<or> MAX_CDD_W2_DAYS < d_cdd_w2_days d \<or>
           d_rain_ref_w1_e2 d = 0 \<or> d_rain_ref_w2_e2 d = 0 \<or>
           MAX_RAIN_E2 < d_rain_w1_e2 d \<or> MAX_RAIN_E2 < d_rain_ref_w1_e2 d \<or>
           MAX_RAIN_E2 < d_rain_w2_e2 d \<or> MAX_RAIN_E2 < d_rain_ref_w2_e2 d \<or>
           d_season_start_epoch d mod SECONDS_PER_DAY \<noteq> 0 \<or>
           d_methodology_params_hash d \<noteq> DROUGHT_PARAMS_HASH_RDI_1_0)) \<longleftrightarrow> evidence_valid d"
    by (auto simp: evidence_valid_def drought_constants dvd_eq_mod_eq_0)
  assume "d_drought_damage d \<le> 100" and valid: "evidence_valid d"
  then have mul: "mul_u32 (d_drought_damage d) 100 = Inr (d_drought_damage d * 100)" by (simp add: u32_max_def)
  have rdi: "rdi_v1_drought_damage (d_rain_w1_e2 d) (d_rain_ref_w1_e2 d) (d_rain_w2_e2 d) (d_rain_ref_w2_e2 d) =
      Inr (Some (drought_index (d_rain_w1_e2 d) (d_rain_ref_w1_e2 d) (d_rain_w2_e2 d) (d_rain_ref_w2_e2 d)))"
    using valid by (simp add: rdi_cases evidence_valid_def drought_constants)
  show "answers
     [(d_damage_percent_bp d = d_drought_damage d * 100, PayoutE InvalidDroughtDamage),
      (d_drought_damage d =
         drought_index (d_rain_w1_e2 d) (d_rain_ref_w1_e2 d) (d_rain_w2_e2 d) (d_rain_ref_w2_e2 d),
       PayoutE InvalidDroughtDamage),
      (3000 \<le> d_damage_percent_bp d, PayoutE DamageBelowThreshold)]
     (bindE (mul_u32 (d_drought_damage d) 100) (\<lambda>bp.
     bindE (ensure (d_damage_percent_bp d = bp) (PayoutE InvalidDroughtDamage)) (\<lambda>_.
     bindE (rdi_v1_drought_damage (d_rain_w1_e2 d) (d_rain_ref_w1_e2 d) (d_rain_w2_e2 d)
       (d_rain_ref_w2_e2 d)) (\<lambda>dd.
     bindE (ensure (dd = Some (d_drought_damage d)) (PayoutE InvalidDroughtDamage)) (\<lambda>_.
     ensure (\<not> d_damage_percent_bp d < MIN_DAMAGE_THRESHOLD) (PayoutE DamageBelowThreshold))))))"
    unfolding mul rdi bindE_Inr
    by (rule answers_ensure, simp, rule answers_ensure, force, rule answers_last, simp add: MIN_DAMAGE_THRESHOLD_def not_less)
qed

lemma open_answers:
  assumes w: "pm_sound w" and p: "get (pm_policy (snd w)) i = Some p"
    and unpaid: "p_status p = Active \<Longrightarrow> \<not> is_policy_paid i s"
  shows "answers (open_rules e p) (open_policy real_pm e pm i s w)"
proof -
  obtain w' where read: "pmc_get_policy real_pm (subcall e pm) i w = Inr (p, w')"
    using pm_registry.get_some [OF w p] by blast
  have found: "pmc_policy_exists real_pm (subcall e pm) i w = Inr (True, w)"
    using pm_registry.exists_law [OF w] p by simp
  show ?thesis
    unfolding open_policy_def found read bindE_Inr prod.case
    using unpaid by (auto simp: answers_def open_rules_def is_policy_paid_def)
qed

lemma open_absent:
  "get (pm_policy (snd w)) i = None \<Longrightarrow> open_policy real_pm e pm i s w = Inl (PayoutE payout_error.PolicyDoesNotExist)"
  by (simp add: open_policy_def pm_policy_exists_def has_def get_def)

lemma cover_answers:
  assumes ok: "policy_ok p" and bp: "d_damage_percent_bp d \<le> 10000"
  shows "answers (cover_rules d p) (cover_check d p)"
proof -
  have cover: "p_coverage_type p = Drought" and last: "p_end_date p \<le> u64_max"
    and ins: "0 \<le> p_sum_insured p" "p_sum_insured p \<le> MAX_SUM_INSURED"
    using ok policy_ok_sum [OF ok] by (auto simp: policy_ok_def sale_terms_def)
  have "p_sum_insured p * int (d_damage_percent_bp d) \<le> MAX_SUM_INSURED * 10000"
    using ins bp by (intro mult_mono) auto
  then have product: "checked_i128 (p_sum_insured p * int (d_damage_percent_bp d)) =
      Inr (p_sum_insured p * int (d_damage_percent_bp d))"
    using ins by (simp add: checked_i128_def i128_max_def i128_min_def MAX_SUM_INSURED_def order_trans [OF _ mult_nonneg_nonneg])
  have share: "p_sum_insured p * int (d_damage_percent_bp d) sdiv BASIS_POINTS =
      p_sum_insured p * int (d_damage_percent_bp d) div 10000"
    using payout_share_floor [OF ins(1)] by (simp add: payout_share_def)
  have secs: "SEASON_WINDOW_SECS = 110 * 86400" "SECONDS_PER_DAY = 86400" by (simp_all add: drought_constants)
  show ?thesis
    unfolding cover_check_def start_of_day
    unfolding bindE_Inr require_payout_def product share require_plot_def plot_off_eq secs
    using cover last by (auto simp: answers_def cover_rules_def ensure_def not_less split: if_splits)
qed

lemma fresh_answers:
  assumes "timestamp e \<le> u64_max" and "pm_can_farmer_claim (subcall e pm) (p_farmer p) (snd w)"
  shows "answers (fresh_rules e d) (require_fresh_and_claimable real_pm e pm p (d_assessed_at d) w)"
  using assms by (auto simp: answers_def fresh_rules_def require_fresh_and_claimable_def Let_def MAX_REPORT_AGE_def saturating_add_u64_def)

lemma key_answers:
  assumes "pr_authorized_signer s = Some signer"
  shows "answers (key_rules e digest sig rid s) (require_unconsumed_and_signed e digest sig rid signer (pr_begun e c s))"
  using assms
  by (auto simp: answers_def key_rules_def require_unconsumed_and_signed_def ensure_def split: option.split)

lemma signed_answers:
  assumes signer: "pr_authorized_signer s = Some signer"
    and k: "\<And>domain. pr_network_domain s = Some domain \<Longrightarrow> answers rules (k domain)"
  shows "answers ([(pr_network_domain s \<noteq> None, CommonE NotConfigured)] @
      key_rules e (drought_digest_of e d s) sig rid s @ rules)
    (bindE (network_domain (pr_begun e c s)) (\<lambda>domain.
     bindE (require_unconsumed_and_signed e (drought_determination_digest e d (current_contract_address e) domain)
         sig rid signer (pr_begun e c s)) (\<lambda>_. k domain)))"
proof (cases "pr_network_domain s")
  case None
  then show ?thesis by (simp add: network_domain_def answers_def)
next
  case (Some domain)
  have "answers (key_rules e (drought_digest_of e d s) sig rid s @ rules)
    (bindE (require_unconsumed_and_signed e (drought_digest_of e d s) sig rid signer (pr_begun e c s)) (\<lambda>_. k domain))"
    by (rule answers_bind [OF key_answers [OF signer] k [OF Some]])
  with Some show ?thesis by (simp add: network_domain_def answers_def drought_digest_of_def)
qed

text \<open>An adapter that holds nothing for the policy refuses it for its binding or for want of room only.\<close>

lemma record_answers:
  assumes inv: "sa_inv a" and new: "obligation_for a (this, i) = None" and amount: "0 < amount"
    and auth: "authorizes e this"
  shows "answers
     [(adapter_payout_receiver a \<noteq> None, CommonE NotConfigured),
      (adapter_payout_receiver a = Some this, AdapterE NotPayoutReceiver),
      (has_obligation_room a org, AdapterE CounterOverflow)]
     (record_obligation e this i org amount digest a)"
proof (cases "adapter_payout_receiver a = Some this \<and> has_obligation_room a org")
  case True
  then have "\<exists>r. record_obligation e this i org amount digest a = Inr r"
    unfolding sa_book.enter_law [OF inv] using new amount auth by simp
  with True show ?thesis by (auto simp: answers_def)
next
  case False
  obtain n where n: "1 \<le> n" "sa_next_obligation_id a = Some n" using sa_invD(1) [OF inv] by blast
  have "get (sa_obligation_of a) (this, i) = None"
    using new sa_invD(3) [OF inv, of "(this, i)"] by (cases "get (sa_obligation_of a) (this, i)") (auto simp: obligation_for_def)
  moreover have "has_obligation_room a org \<longleftrightarrow> n < u64_max \<and> org_obligation_count org a < u32_max"
    using n by (auto simp: has_obligation_room_def obligation_count_def sub_u_def)
  ultimately show ?thesis using False n amount auth
    by (auto simp: answers_def adapter_payout_receiver_def record_obligation_def Let_def require_auth_def
        org_obligation_count_def split: option.splits if_splits)
qed


lemma settle_answers:
  assumes w: "pm_sound w" and p: "get (pm_policy (snd w)) (r_policy_id report) = Some p" "p_status p = Active"
      "timestamp e \<le> p_end_date p"
    and can: "pm_can_farmer_claim (subcall e pm) (p_farmer p) (snd w)" and amount: "0 < r_payout_amount report"
    and ad: "pr_settlement_adapter (sys_pr sys) = Some ad"
    and sa: "\<And>a. sys_adapters sys ad = Some a \<Longrightarrow> sa_inv a \<and>
      obligation_for a (current_contract_address e, r_policy_id report) = None"
  shows "answers (booking_rules e p (sys\<lparr>sys_pm := w\<rparr>))
     (settle_verified real_pm real_adapter e pm ad p report h (sys\<lparr>sys_pr := s, sys_pm := w\<rparr>))"
proof (cases "sys_adapters sys ad")
  case None
  then show ?thesis
    using ad by (simp add: answers_def booking_rules_def Let_def settle_verified_def settle_effects_eq adapter_call_def)
next
  case (Some a)
  let ?here = "current_contract_address e"
  let ?entry = "record_obligation (subcall e ad) ?here (r_policy_id report) (p_org p) (r_payout_amount report) h a"
  have inv: "sa_inv a" and new: "obligation_for a (?here, r_policy_id report) = None" using sa [OF Some] by simp_all
  let ?marks = "bindE (pmc_mark_as_claimed real_pm (subcall e pm) ?here (r_policy_id report) w)
      (\<lambda>w. pmc_increment_claim_count real_pm (subcall e pm) ?here (p_farmer p) w)"
  have marks: "answers [(holds (pm_roles (snd w)) Oracle ?here, CommonE Unauthorized)] ?marks"
  proof (cases "holds (pm_roles (snd w)) Oracle ?here")
    case True
    then have "\<exists>w'. pm_registry.settle (subcall e pm) ?here (r_policy_id report) (p_farmer p) w = Inr w'"
      unfolding pm_registry.settle_exact [OF w] using p can by simp
    with True show ?thesis by (simp add: answers_def pm_registry.settle_def)
  next
    case False
    then show ?thesis by (simp add: answers_def mark_as_claimed_def require_role_eq)
  qed
  have rest: "answers [(holds (pm_roles (snd w)) Oracle ?here, CommonE Unauthorized)]
     (bindE (pmc_mark_as_claimed real_pm (subcall e pm) ?here (r_policy_id report) w) (\<lambda>w.
      bindE (pmc_increment_claim_count real_pm (subcall e pm) ?here (p_farmer p) w) (\<lambda>w. Inr (f w))))" for f
    using marks by (auto simp: answers_def bindE_def split: sum.splits if_splits)
  let ?f = "\<lambda>x w'. sys\<lparr>sys_pr := (settled_state e p report h s)
      \<lparr>pr_events := pr_events s @ settlement_events p report h (o_id (fst x)) ad\<rparr>,
      sys_pm := w', sys_adapters := (sys_adapters sys)(ad \<mapsto> snd x)\<rparr>"
  have code: "settle_verified real_pm real_adapter e pm ad p report h (sys\<lparr>sys_pr := s, sys_pm := w\<rparr>) =
    bindE ?entry (\<lambda>x. if \<not> owes e p report h (fst x) then Inl (PayoutE ObligationNotRecorded) else
      bindE (pmc_mark_as_claimed real_pm (subcall e pm) ?here (r_policy_id report) w) (\<lambda>w'.
      bindE (pmc_increment_claim_count real_pm (subcall e pm) ?here (p_farmer p) w') (\<lambda>w'. Inr (?f x w'))))"
    using Some by (simp add: settle_verified_def settle_effects_eq Let_def adapter_call_def bindE_assoc case_prod_unfold
        owes_def pr_publish_def settlement_events_def cong: if_cong del: real_pm_simps)
  have owes: "owes e p report h (fst x)" if "?entry = Inr x" for x
  proof -
    have "?entry = Inr (fst x, snd x)" using that by simp
    from sa_ledger.record_faithful [OF inv this] sa_book.fresh_owed [OF inv new this] show ?thesis by (simp add: owes_def)
  qed
  have "answers (booking_rules e p (sys\<lparr>sys_pm := w\<rparr>)) (settle_verified real_pm real_adapter e pm ad p report h
      (sys\<lparr>sys_pr := s, sys_pm := w\<rparr>))"
    unfolding code booking_rules_def Let_def
    using ad Some rest owes record_answers [OF inv new amount, of "subcall e ad"]
    by (auto intro!: answers_bind [of "[a, b, c]" for a b c, simplified])
  then show ?thesis .
qed

section \<open>The submission answers to its checks\<close>

lemma pr_configured_call:
  assumes "pr_call pmc adc e sys sys'"
    and "pr_settlement_adapter (sys_pr sys) \<noteq> None \<and> pr_policy_manager (sys_pr sys) \<noteq> None"
  shows "pr_settlement_adapter (sys_pr sys') \<noteq> None \<and> pr_policy_manager (sys_pr sys') \<noteq> None"
  using assms(1)
proof (cases rule: pr_call.cases)
  case (pr_administers s')
  from pr_administers(2) assms(2) have "pr_settlement_adapter s' \<noteq> None \<and> pr_policy_manager s' \<noteq> None"
    by (cases rule: pr_admin.cases)
      (auto simp: set_authorized_signer_def set_network_domain_def pr_grant_role_def pr_revoke_role_def pr_has_role_def
        pr_upgrade_def pause_def unpause_def set_methodology_enabled_def bindE_eq_Inr)
  then show ?thesis by (simp add: pr_administers(1))
next
  case (pr_swaps c a)
  then show ?thesis using assms(2) by (auto simp: set_settlement_adapter_Inr pr_touch_def)
next
  case (pr_settles_crop c cd sig rid)
  then show ?thesis unfolding submit_crop_Inr settle_verified_Inr by (auto simp: pr_begun_def pr_touch_def)
next
  case (pr_settles_drought c d sig rid)
  then show ?thesis
    unfolding submit_drought_Inr settle_verified_Inr by (auto simp: drought_begun_def pr_begun_def pr_touch_def)
next
  case (pr_rents i)
  then show ?thesis by (auto simp: pr_extend_policy_ttl_def Let_def bindE_eq_Inr pr_touch_def)
next
  case pr_keeps
  then show ?thesis by (auto simp: pr_extend_contract_ttl_def Let_def bindE_eq_Inr split: option.splits)
qed

lemma pr_configured:
  "pr_reachable pmc adc sys \<Longrightarrow> pr_settlement_adapter (sys_pr sys) \<noteq> None \<and> pr_policy_manager (sys_pr sys) \<noteq> None"
proof (induction rule: pr_reachable.induct)
  case (pr_start e ad pm admin s w ads)
  then show ?case by (auto simp: pr_constructor_def Let_def bindE_eq_Inr)
next
  case (pr_next sys e sys')
  from pr_next(2) show ?case
    by (cases rule: pr_step.cases) (use pr_configured_call [OF _ pr_next.IH] pr_next.IH in auto)
qed

lemma policy_path_absent:
  "get (pm_policy (snd (sys_pm sys))) (d_on_chain_policy_id d) = None \<Longrightarrow>
     policy_path real_pm adc e adapter pm d sig rid signer s sys = Inl (PayoutE payout_error.PolicyDoesNotExist)"
  by (simp add: policy_path_def open_absent)

lemma policy_path_answers:
  assumes inv: "sys_inv this t sys" and here: "current_contract_address e = this" and now: "t \<le> timestamp e"
    and ad: "pr_settlement_adapter (sys_pr sys) = Some ad" and signer: "pr_authorized_signer (sys_pr sys) = Some signer"
    and bp: "3000 \<le> d_damage_percent_bp d" "d_damage_percent_bp d \<le> 10000"
    and p: "get (pm_policy (snd (sys_pm sys))) (d_on_chain_policy_id d) = Some p"
  shows "answers (policy_rules e d sig rid p sys)
     (policy_path real_pm real_adapter e ad pm d sig rid signer (pr_begun e c (sys_pr sys)) sys)"
proof -
  let ?i = "d_on_chain_policy_id d" and ?s = "sys_pr sys" and ?b = "pr_begun e c (sys_pr sys)"
  note sound = sys_inv_sound [OF inv] and ok = policy_terms(1) [OF inv p]
  have agree: "records_agree (records this ?i sys)" using inv by (simp add: sys_inv_def)
  have unpaid: "\<not> is_policy_paid ?i ?s \<and> debts this ?i sys = Map.empty" if "p_status p = Active"
    using agree that p by (auto simp: records_def records_agree_def claimed_policy_def split: if_splits)
  show ?thesis
    unfolding policy_rules_def policy_path_def open_policy_begun
  proof (rule answers_bind [OF open_answers [OF sound p]])
    show "\<not> is_policy_paid ?i ?s" if "p_status p = Active" using unpaid that by blast
    fix x
    assume "open_policy real_pm e pm ?i ?s (sys_pm sys) = Inr x"
    then obtain w where x: "x = (p, w)" and op: "open_policy real_pm e pm ?i ?s (sys_pm sys) = Inr (p, w)"
      using real.open_policy_effect [OF sound, of e pm ?i ?s] p by (cases x) auto
    note eff = real.open_policy_effect [OF sound op]
    have act: "p_status p = Active" "timestamp e \<le> p_end_date p" using op by (simp_all add: open_policy_Inr)
    have last: "timestamp e \<le> u64_max" using act ok by (simp add: policy_ok_def)
    have can: "pm_can_farmer_claim (subcall e pm) (p_farmer p) (snd w)"
      using active_room [OF inv _ p act(1), of "subcall e pm"] now eff by (auto dest: fun_cong)
    have amount: "0 < d_payout_amount d" if "cover_check d p = Inr u" for u
    proof -
      have "first_error (cover_rules d p) = None" using answers_Inr [OF cover_answers [OF ok bp(2)]] that by blast
      then have "d_payout_amount d = p_sum_insured p * int (d_damage_percent_bp d) div 10000"
        unfolding first_error_None by (simp add: cover_rules_def)
      then have "d_payout_amount d = payout_share p (d_damage_percent_bp d)"
        using policy_ok_sum [OF ok] by (simp add: payout_share_floor)
      then show ?thesis using share_bounds(3) [OF ok bp] by simp
    qed
    have settle: "answers (booking_rules e p sys) (settle_verified real_pm real_adapter e pm ad p (drought_report d) h
       (sys\<lparr>sys_pr := s, sys_pm := w\<rparr>))" if "cover_check d p = Inr u" for h s u
    proof -
      have "answers (booking_rules e p (sys\<lparr>sys_pm := w\<rparr>)) (settle_verified real_pm real_adapter e pm ad p (drought_report d) h
         (sys\<lparr>sys_pr := s, sys_pm := w\<rparr>))"
      proof (rule settle_answers [OF _ _ act can _ ad])
        show "pm_sound w" "get (pm_policy (snd w)) (r_policy_id (drought_report d)) = Some p" using eff by simp_all
        show "0 < r_payout_amount (drought_report d)" using amount that by simp
        fix a
        assume "sys_adapters sys ad = Some a"
        then show "sa_inv a \<and> obligation_for a (current_contract_address e, r_policy_id (drought_report d)) = None"
          using inv unpaid [OF act(1)] by (auto simp: sys_inv_def here debts_def dest!: fun_cong [where x = ad])
      qed
      moreover have "booking_rules e p (sys\<lparr>sys_pm := w\<rparr>) = booking_rules e p sys"
        using eff by (simp add: booking_rules_def)
      ultimately show ?thesis by simp
    qed
    have path: "answers (cover_rules d p @ fresh_rules e d @ [(pr_network_domain ?s \<noteq> None, CommonE NotConfigured)] @
        key_rules e (drought_digest_of e d ?s) sig rid ?s @ booking_rules e p sys)
      (bindE (cover_check d p) (\<lambda>_. bindE (require_fresh_and_claimable real_pm e pm p (d_assessed_at d) w) (\<lambda>w'.
       bindE (network_domain ?b) (\<lambda>domain.
       bindE (require_unconsumed_and_signed e (drought_determination_digest e d (current_contract_address e) domain)
         sig rid signer ?b) (\<lambda>_. k w' domain)))))"
      if k: "\<And>u domain. cover_check d p = Inr u \<Longrightarrow> answers (booking_rules e p sys) (k w domain)" for k
    proof (rule answers_bind [OF cover_answers [OF ok bp(2)]], rule answers_bind [OF fresh_answers [OF last can]])
      fix u w'
      assume cover: "cover_check d p = Inr u"
      assume "require_fresh_and_claimable real_pm e pm p (d_assessed_at d) w = Inr w'"
      then have same: "w' = w" by (simp add: require_fresh_Inr)
      show "answers ([(pr_network_domain ?s \<noteq> None, CommonE NotConfigured)] @
        key_rules e (drought_digest_of e d ?s) sig rid ?s @ booking_rules e p sys)
       (bindE (network_domain ?b) (\<lambda>domain.
       bindE (require_unconsumed_and_signed e (drought_determination_digest e d (current_contract_address e) domain)
         sig rid signer ?b) (\<lambda>_. k w' domain)))"
        unfolding same by (rule signed_answers [OF signer]) (rule k [OF cover])
    qed
    show "answers (cover_rules d p @ fresh_rules e d @ [(pr_network_domain ?s \<noteq> None, CommonE NotConfigured)] @
        key_rules e (drought_digest_of e d ?s) sig rid ?s @ booking_rules e p sys)
      (case x of (policy, w) \<Rightarrow>
         bindE (cover_check d policy) (\<lambda>_. bindE (require_fresh_and_claimable real_pm e pm policy (d_assessed_at d) w) (\<lambda>w.
         bindE (network_domain ?b) (\<lambda>domain.
         bindE (require_unconsumed_and_signed e (drought_determination_digest e d (current_contract_address e) domain)
           sig rid signer ?b) (\<lambda>_.
         settle_verified real_pm real_adapter e pm ad policy (drought_report d)
           (drought_determination_digest e d (current_contract_address e) domain)
           (sys\<lparr>sys_pr := pr_publish (DroughtEvidenceRecorded (d_on_chain_policy_id d) (d_drought_damage d)
               (d_season_start_epoch d) (d_source_hash d)) ?b, sys_pm := w\<rparr>))))))"
      unfolding x prod.case by (rule path) (rule settle)
  qed
qed


theorem drought_answers:
  assumes inv: "sys_inv this t sys" and here: "current_contract_address e = this" and now: "t \<le> timestamp e"
    and ad: "pr_settlement_adapter (sys_pr sys) = Some ad" and pm: "pr_policy_manager (sys_pr sys) = Some pm"
  shows "answers (drought_rules e c d sig rid sys) (submit_drought_determination real_pm real_adapter e c d sig rid sys)"
  unfolding submit_drought_parts drought_rules_def
proof (rule answers_bind [OF gate_answers])
  fix x
  let ?p = "get (pm_policy (snd (sys_pm sys))) (d_on_chain_policy_id d)"
  assume "begin_submission e c CropDroughtRdi10 (sys_pr sys) = Inr x"
  then obtain signer where x: "x = (signer, pr_begun e c (sys_pr sys))"
    and signer: "pr_authorized_signer (sys_pr sys) = Some signer"
    by (cases x) (auto simp: begin_submission_Inr)
  have sib: "siblings (pr_begun e c (sys_pr sys)) = Inr (ad, pm)" using ad pm by simp
  show "answers (evidence_rules d @ (case ?p of None \<Rightarrow> [(False, PayoutE payout_error.PolicyDoesNotExist)]
      | Some p \<Rightarrow> policy_rules e d sig rid p sys))
    (case x of (signer, s) \<Rightarrow> bindE (evidence_check d) (\<lambda>_. bindE (siblings s) (\<lambda>(adapter, pm).
       policy_path real_pm real_adapter e adapter pm d sig rid signer s sys)))"
    unfolding x prod.case sib bindE_Inr
  proof (rule answers_bind [OF evidence_answers])
    fix u
    assume "evidence_check d = Inr u"
    then have "first_error (evidence_rules d) = None" using answers_Inr [OF evidence_answers] by blast
    then have bp: "3000 \<le> d_damage_percent_bp d" "d_damage_percent_bp d \<le> 10000"
      unfolding first_error_None by (simp_all add: evidence_rules_def)
    show "answers (case ?p of None \<Rightarrow> [(False, PayoutE payout_error.PolicyDoesNotExist)]
        | Some p \<Rightarrow> policy_rules e d sig rid p sys)
      (policy_path real_pm real_adapter e ad pm d sig rid signer (pr_begun e c (sys_pr sys)) sys)"
      using policy_path_answers [OF inv here now ad signer bp]
      by (cases ?p) (simp_all add: policy_path_absent answers_def)
  qed
qed

text \<open>The addresses the constructor set are there in every reachable state.\<close>

lemma sys_configured:
  assumes "sys_reachable this t sys"
  obtains ad pm where "pr_settlement_adapter (sys_pr sys) = Some ad" and "pr_policy_manager (sys_pr sys) = Some pm"
  using pr_configured [OF sys_pr_reachable [OF assms]] by blast

lemma reachable_answers:
  assumes "sys_reachable this t sys" and "current_contract_address e = this" and "t \<le> timestamp e"
  shows "answers (drought_rules e c d sig rid sys) (submit_drought_determination real_pm real_adapter e c d sig rid sys)"
  using sys_configured [OF assms(1)] drought_answers [OF sys_reachable_inv [OF assms(1)] assms(2,3)] by metis

text \<open>C3. The documented order. In every reachable state of the system a drought submission fails with the
  error of the first check that does not hold, and goes through when none fails. The checks, in order:
  relayer, not paused, signer set, methodology enabled; damage at most 100 percent, score at most 100,
  evidence in form, damage the score, the score the recomputed index, damage at least 30 percent;
  policy stored, active, in time; same sum insured, same plot, season inside the cover, season over,
  exact payout; report not from the future, at most an hour old; domain set, digest not consumed,
  signature well formed and the signer's; adapter deployed, bound, with room; oracle role.\<close>

theorem drought_check_order:
  assumes "sys_reachable this t sys" and "current_contract_address e = this" and "t \<le> timestamp e"
  shows "case submit_drought_determination real_pm real_adapter e c d sig rid sys of
      Inl err \<Rightarrow> first_error (drought_rules e c d sig rid sys) = Some err
    | Inr _ \<Rightarrow> first_error (drought_rules e c d sig rid sys) = None"
  using reachable_answers [OF assms, of c d sig rid] by (auto simp: answers_def split: option.splits)

text \<open>A policy the books have as paid is claimed, so that its status is what a further submission meets.\<close>

lemma paid_claimed:
  assumes "sys_reachable this t sys" and "is_policy_paid i (sys_pr sys)"
  obtains p where "get (pm_policy (snd (sys_pm sys))) i = Some p" and "p_status p = Claimed"
proof -
  have "records_agree (records this i sys)" using sys_reachable_inv [OF assms(1)] by (simp add: sys_inv_def)
  then have "claimed_policy i sys \<noteq> None" using assms(2) by (auto simp: records_def records_agree_def)
  then show thesis using that by (auto simp: claimed_policy_def split: option.splits if_splits)
qed

definition sleeping_errors :: "error list" where
  "sleeping_errors =
     [PayoutE PolicyAlreadyPaid, PayoutE FarmerClaimLimitExceeded, PayoutE ObligationNotRecorded,
      PayoutE CoverageNotSettledByMethodology, AdapterE ObligationConflict, AdapterE InvalidAmount,
      HostE ArithmeticOverflow]"

lemma sleeping_rules:
  "(False, err) \<in> set (drought_rules e c d sig rid sys) \<Longrightarrow> err \<notin> set sleeping_errors"
  by (auto simp: sleeping_errors_def drought_rules_def gate_rules_def evidence_rules_def policy_rules_def open_rules_def cover_rules_def
      fresh_rules_def key_rules_def booking_rules_def Let_def split: option.splits)

text \<open>C7. A second determination. In every reachable state of the system a submission for a paid policy
  fails; when the relayer and the evidence pass, it answers \<open>PolicyNotActive\<close> (308), because the
  manager has the policy claimed and the status is checked before the paid flag. No drought submission
  ever answers \<open>PolicyAlreadyPaid\<close> (310), nor the claim limit, a conflicting or missing obligation, a
  coverage that is not drought or an overflow: those guards hold whenever they are reached.\<close>

theorem second_determination_answers:
  assumes "sys_reachable this t sys" and "current_contract_address e = this" and "t \<le> timestamp e"
  shows "(is_policy_paid (d_on_chain_policy_id d) (sys_pr sys) \<longrightarrow>
      submit_drought_determination real_pm real_adapter e c d sig rid sys =
        Inl (case first_error (gate_rules e c CropDroughtRdi10 (sys_pr sys) @ evidence_rules d) of
               Some err \<Rightarrow> err | None \<Rightarrow> PayoutE PolicyNotActive)) \<and>
    (\<forall>err \<in> set sleeping_errors.
      submit_drought_determination real_pm real_adapter e c d sig rid sys \<noteq> Inl err)"
proof (intro conjI impI ballI)
  note ans = reachable_answers [OF assms, of c d sig rid]
  show "submit_drought_determination real_pm real_adapter e c d sig rid sys =
      Inl (case first_error (gate_rules e c CropDroughtRdi10 (sys_pr sys) @ evidence_rules d) of
        Some err \<Rightarrow> err | None \<Rightarrow> PayoutE PolicyNotActive)"
    if paid: "is_policy_paid (d_on_chain_policy_id d) (sys_pr sys)"
  proof (rule paid_claimed [OF assms(1) paid])
    fix p
    assume "get (pm_policy (snd (sys_pm sys))) (d_on_chain_policy_id d) = Some p" "p_status p = Claimed"
    then show ?thesis
      unfolding answers_Inl [OF ans]
      by (simp add: drought_rules_def policy_rules_def open_rules_def first_error_append split: option.split)
  qed
  fix err
  assume "err \<in> set sleeping_errors"
  with sleeping_rules first_error_member
  show "submit_drought_determination real_pm real_adapter e c d sig rid sys \<noteq> Inl err"
    unfolding answers_Inl [OF ans] by metis
qed

text \<open>A submission that went through left the gates as they were.\<close>

lemma gates_stay:
  assumes "submit_drought_determination pmc adc e c d sig rid sys = Inr sys'"
  shows "first_error (gate_rules e c CropDroughtRdi10 (sys_pr sys') @ evidence_rules d) = None"
proof -
  have gate: "first_error (gate_rules e c CropDroughtRdi10 (sys_pr sys)) = None"
    and evidence: "first_error (evidence_rules d) = None"
    using assms answers_Inr [OF gate_answers, of e c CropDroughtRdi10 "sys_pr sys"] answers_Inr [OF evidence_answers, of d]
    by (auto simp: submit_drought_parts bindE_eq_Inr)
  have "holds (pr_roles (sys_pr sys')) = holds (pr_roles (sys_pr sys))" "pr_paused (sys_pr sys') = pr_paused (sys_pr sys)"
    "pr_authorized_signer (sys_pr sys') = pr_authorized_signer (sys_pr sys)"
    "is_methodology_enabled k (sys_pr sys') = is_methodology_enabled k (sys_pr sys)" for k
    using assms unfolding submit_drought_Inr settle_verified_Inr
    by (auto simp: drought_begun_def pr_begun_def pr_touch_def is_methodology_enabled_def methodology_enabled_def)
  then have "gate_rules e c CropDroughtRdi10 (sys_pr sys') = gate_rules e c CropDroughtRdi10 (sys_pr sys)"
    by (simp add: gate_rules_def)
  with gate evidence show ?thesis by (simp add: first_error_append)
qed

theorem drought_check_order_witness:
  "first_error (drought_rules sample_late (Address 12) sample_drought 0 0 sample_sys) = None"
  using drought_check_order [OF sample_sys_system, of sample_late "Address 12" sample_drought 0 0] sample_paid by simp

theorem second_determination_answers_witness:
  "submit_drought_determination real_pm real_adapter sample_late (Address 12) sample_drought 0 0 sample_paid =
     Inl (PayoutE PolicyNotActive)"
proof -
  have one: "d_on_chain_policy_id sample_drought = 1" by (simp add: sample_drought_def)
  have "is_policy_paid 1 (sys_pr sample_paid)"
    using drought_settles_one [OF sample_paid, unfolded one]
    by (auto simp: settles_def pr_book_def is_policy_paid_def simp del: One_nat_def)
  then show ?thesis
    using second_determination_answers [OF sample_paid_system, of sample_late sample_drought "Address 12" 0 0] one
    by (simp add: gates_stay [OF sample_paid])
qed

end
