(* ===== verification/SaleVerdict.thy ===== *)
theory SaleVerdict
  imports PolicyLife Rules
begin

text \<open>
  What a refused sale answers: the checks of \<open>create_policy\<close> as a list of rules, and the proof that
  the code answers to it on every reachable book. The checked additions before the slot check never
  fail there, because the counts they add are bounded by the invariant of the book.
\<close>

section \<open>Exposure never overflows\<close>

lemma total_bounded:
  assumes "\<And>k v. m k = Some v \<Longrightarrow> w v \<le> bound" and "dom m \<subseteq> {1..n}" and "0 \<le> bound"
  shows "total w m \<le> int n * bound"
proof -
  have "total w m \<le> of_nat (card (dom m)) * bound"
    unfolding total_def using assms(1) by (intro sum_bounded_above) auto
  moreover have "card (dom m) \<le> n" using card_mono [OF _ assms(2)] by simp
  ultimately show ?thesis using assms(3) by (meson mult_right_mono of_nat_mono order_trans)
qed

text \<open>An organisation's exposure is far below the range of \<open>i128\<close>: at most the limit of a sale per id.\<close>

lemma exposure_bounded:
  assumes "pm_ok v"
  shows "0 \<le> exposure_of v org" and "exposure_of v org \<le> int u64_max * MAX_SUM_INSURED"
proof -
  note inv = pm_okD [OF assms]
  have sale: "0 \<le> p_sum_insured p \<and> p_sum_insured p \<le> MAX_SUM_INSURED" if "v_policy v i = Some p" for i p
    using inv(3) [OF that] policy_ok_sum [of p] by (auto simp: policy_ok_def sale_terms_def)
  have limit: "0 \<le> MAX_SUM_INSURED" by (simp add: MAX_SUM_INSURED_def)
  show "0 \<le> exposure_of v org"
    unfolding inv(6) by (rule total_nonneg) (use sale in \<open>auto simp: exposure_weight_def\<close>)
  have "exposure_of v org \<le> int (v_counter v) * MAX_SUM_INSURED"
    unfolding inv(6)
  proof (rule total_bounded)
    show "exposure_weight org p \<le> MAX_SUM_INSURED" if "v_policy v i = Some p" for i p
      using sale [OF that] limit by (simp add: exposure_weight_def)
    show "dom (v_policy v) \<subseteq> {1..v_counter v}" using inv(1) by (auto simp: dom_def)
  qed (rule limit)
  also have "\<dots> \<le> int u64_max * MAX_SUM_INSURED"
    using inv(2) limit by (intro mult_right_mono) simp_all
  finally show "exposure_of v org \<le> int u64_max * MAX_SUM_INSURED" .
qed

section \<open>The checks of a sale\<close>

definition sale_rules ::
  "env \<Rightarrow> address \<Rightarrow> address \<Rightarrow> int \<Rightarrow> int \<Rightarrow> int \<Rightarrow> int \<Rightarrow> nat \<Rightarrow> coverage_type \<Rightarrow> pm_state \<Rightarrow> (bool \<times> error) list" where
  "sale_rules e c farmer lat lon amount premium days cover s =
     [(authorizes e c, HostE AuthFailed),
      (holds (pm_roles s) Backend c, CommonE Unauthorized),
      (MIN_SUM_INSURED \<le> amount, PolicyE SumInsuredTooLow),
      (amount \<le> MAX_SUM_INSURED, PolicyE SumInsuredTooHigh),
      (0 < premium, PolicyE ZeroPremium),
      (30 \<le> days \<and> days \<le> 365, PolicyE InvalidDuration),
      (\<bar>lat\<bar> \<le> 90 * 10 ^ 6 \<and> \<bar>lon\<bar> \<le> 180 * 10 ^ 6, PolicyE InvalidCoordinates),
      (cover = Drought, PolicyE CoverageNotOffered),
      (117 \<le> days, PolicyE InvalidDuration),
      (open_slots e farmer (pm_view s) < 3, PolicyE TooManyActivePolicies),
      (get_total_policies s < u64_max \<and> timestamp e + days * 86400 \<le> u64_max \<and>
         index_size (pm_view s) farmer < u32_max, HostE ArithmeticOverflow)]"

lemma slots_added:
  assumes "pm_ok v"
  shows "add_u32 (active_of v a) (pending_of v a) = Inr (active_of v a + pending_of v a)"
    and "add_u32 (active_of v a + pending_of v a) (length (filter (recent (timestamp e)) (claims_of v a))) =
      Inr (open_slots e a v)"
proof -
  note inv = pm_okD [OF assms]
  have "length (filter P (claims_of v a)) \<le> 3" for P
    using order_trans [OF length_filter_le inv(14)] by (simp add: MAX_CLAIMS_PER_FARMER_PER_YEAR_def)
  then show "add_u32 (active_of v a + pending_of v a) (length (filter (recent (timestamp e)) (claims_of v a))) =
      Inr (open_slots e a v)"
    using le_trans [OF add_mono [OF inv(9) [of a]], of _ 3 u32_max]
    by (simp add: open_slots_def u32_max_def MAX_ACTIVE_POLICIES_PER_FARMER_def)
  show "add_u32 (active_of v a) (pending_of v a) = Inr (active_of v a + pending_of v a)"
    using inv(9) [of a] by (simp add: u32_max_def MAX_ACTIVE_POLICIES_PER_FARMER_def)
qed

text \<open>Once a slot is free only the machine's own limits are left.\<close>

lemma sale_overflows:
  assumes ok: "pm_ok (pm_view s)" and sale: "authorizes e c" "holds (pm_roles s) Backend c"
    and terms: "sale_terms lat lon amount premium days cover" and slot: "open_slots e farmer (pm_view s) < 3"
    and over: "\<not> (get_total_policies s < u64_max \<and> timestamp e + days * 86400 \<le> u64_max \<and>
      index_size (pm_view s) farmer < u32_max)"
  shows "create_policy e c farmer plot lat lon amount premium days cover org s = Inl (HostE ArithmeticOverflow)"
proof -
  have guards: "\<not> amount < MIN_SUM_INSURED" "\<not> MAX_SUM_INSURED < amount" "\<not> premium \<le> 0"
    "MIN_DURATION_DAYS \<le> days \<and> days \<le> MAX_DURATION_DAYS"
    "- MAX_LAT_E6 \<le> lat \<and> lat \<le> MAX_LAT_E6" "- MAX_LON_E6 \<le> lon \<and> lon \<le> MAX_LON_E6"
    "cover = Drought" "\<not> days < MIN_DROUGHT_DURATION_DAYS"
    using terms by (auto simp: sale_terms_def pm_constants)
  have open3: "\<not> MAX_ACTIVE_POLICIES_PER_FARMER \<le> open_slots e farmer (pm_view s)"
    using slot by (simp add: MAX_ACTIVE_POLICIES_PER_FARMER_def)
  have mul: "mul_u64 days 86400 = Inr (days * 86400)"
    using terms by (simp add: sale_terms_def pm_constants u64_max_def)
  have secs: "PM_SECONDS_PER_DAY = 86400" by (simp add: PM_SECONDS_PER_DAY_def)
  note begun = create_policy_def Let_def require_role_eq sale guards open3 secs mul slots_added [OF ok] claims_in_window_eq save_policy_eq view_index
  consider (ids) "\<not> policy_counter s < u64_max"
    | (ends) "policy_counter s < u64_max" "\<not> timestamp e + days * 86400 \<le> u64_max"
    | (index) "policy_counter s < u64_max" "timestamp e + days * 86400 \<le> u64_max" "\<not> index_size (pm_view s) farmer < u32_max"
    using over by (auto simp: get_total_policies_def)
  then show ?thesis
  proof cases
    case ids
    then show ?thesis by (simp add: begun add_u64_def checked_def)
  next
    case ends
    then show ?thesis by (simp add: begun add_u64_def checked_def)
  next
    case index
    then have "add_u32 (index_size (pm_view s) farmer) (Suc 0) = Inl (HostE ArithmeticOverflow)"
      by (simp add: add_u32_def checked_def)
    with index show ?thesis by (simp add: begun add_u64_def checked_def)
  qed
qed

theorem sale_answers:
  assumes ok: "pm_ok (pm_view s)"
  shows "answers (sale_rules e c farmer lat lon amount premium days cover s)
    (create_policy e c farmer plot lat lon amount premium days cover org s)"
proof (cases "authorizes e c \<and> holds (pm_roles s) Backend c \<and> sale_terms lat lon amount premium days cover \<and>
      open_slots e farmer (pm_view s) < 3")
  case True
  let ?fits = "get_total_policies s < u64_max \<and> timestamp e + days * 86400 \<le> u64_max \<and>
      index_size (pm_view s) farmer < u32_max"
  have rules: "first_error (sale_rules e c farmer lat lon amount premium days cover s) =
      (if ?fits then None else Some (HostE ArithmeticOverflow))"
    using True by (auto simp: sale_rules_def sale_terms_def pm_constants)
  show ?thesis
  proof (cases ?fits)
    case fits: True
    have "has_room e farmer amount days org (pm_view s)"
      using True fits exposure_bounded [OF ok, of org]
      by (auto simp: has_room_def sale_terms_def pm_constants get_total_policies_def u64_max_def i128_max_def i128_min_def)
    then obtain r where "create_policy e c farmer plot lat lon amount premium days cover org s = Inr r"
      using True create_policy_ok by blast
    then show ?thesis using fits rules by (simp add: answers_def)
  next
    case False
    then show ?thesis using True sale_overflows [OF ok] rules by (simp add: answers_def)
  qed
next
  case False
  then show ?thesis
    by (auto simp: answers_def sale_rules_def create_policy_def Let_def require_role_eq slots_added [OF ok] claims_in_window_eq
        sale_terms_def pm_constants)
qed

text \<open>C24. What a refused sale answers. In every reachable policy book \<open>create_policy\<close> fails with the error of
  the first check that does not hold, and sells when none fails: authorised, a backend, sum insured not
  too low, not too high, a premium, 30 to 365 days, coordinates on the globe, drought cover, at least
  117 days, fewer than three slots taken by open policies and recent claims. Past those only the ends
  of the machine's ranges are left (ids, dates, the farmer's index); the organisation's exposure and
  the slot counters cannot overflow.\<close>

theorem sale_check_order:
  assumes "pm_reachable t (n, s)"
  shows "case create_policy e c farmer plot lat lon amount premium days cover org s of
      Inl err \<Rightarrow> first_error (sale_rules e c farmer lat lon amount premium days cover s) = Some err
    | Inr _ \<Rightarrow> first_error (sale_rules e c farmer lat lon amount premium days cover s) = None"
  using sale_answers [of s e c farmer lat lon amount premium days cover plot org] pm_reachable_ok [OF assms]
  by (auto simp: answers_def split: option.splits)

theorem sale_check_order_witness:
  "create_policy sample_env (Address 14) (Address 5) 3 9000000 8000000 5000000000 100000000 100 Drought
     (Address 6) sample_pm_ready = Inl (PolicyE InvalidDuration)"
proof -
  have "holds (pm_roles sample_pm_ready) Backend (Address 14)" by (simp add: sample_pm_ready_roles)
  then show ?thesis
    using sale_check_order [OF sample_pm_reachable(1), of sample_env "Address 14" "Address 5" 9000000 8000000 5000000000
        100000000 100 Drought 3 "Address 6"]
    by (simp add: sale_rules_def pm_constants split: sum.splits)
qed

end
