(* ===== verification/Outcome.thy ===== *)
theory Outcome
  imports System
begin

text \<open>
  From a paid claim to its settlement: whatever has happened since to the roles, the adapters or the
  policy book, the obligation of a paid policy is there to be attested, and one call of a funder
  closes it.
\<close>

text \<open>A funder's settlement of a stored obligation either closes it or meets another settlement.\<close>

lemma funder_settles:
  assumes inv: "sa_inv a" and ob: "get_obligation n a = Some ob"
    and funder: "authorizes e c" "holds (sa_roles a) Funder c" "r \<noteq> 0"
  shows "case mark_settled e c n r a of
      Inr (ob', a') \<Rightarrow> o_status ob' = Settled \<and> o_settlement_reference ob' = Some r \<and> debt_of ob' = debt_of ob \<and>
        get_obligation n a' = Some ob'
    | Inl err \<Rightarrow> err = AdapterE ObligationAlreadySettled \<and> o_status ob = Settled"
proof -
  have "mark_guard e c n r a = Inr ob" using ob funder by (simp add: mark_guard_Inr get_obligation_def)
  moreover have "o_id ob = n" using sa_invD(2) [OF inv] ob by (simp add: get_obligation_def)
  ultimately show ?thesis
    using ob
    by (cases "o_status ob")
      (auto simp: mark_settled_eq [OF inv] attest_settled_def sa_marked_def get_obligation_def debt_of_def
        less_eq_obligation_status_def)
qed

text \<open>What an adapter holds for a paid policy.\<close>

lemma paid_debt:
  assumes "sys_reachable this t sys" and "is_policy_paid i (sys_pr sys)"
  obtains ad a n ob where "sys_adapters sys ad = Some a" and "sa_inv a" and "find_obligation this i a = Some n"
    and "get_obligation n a = Some ob" and "o_amount ob = r_payout_amount (get_report i (sys_pr sys))"
proof -
  note inv = sys_reachable_inv [OF assms(1)]
  have "records_agree (records this i sys)" using inv by (simp add: sys_inv_def)
  then obtain ad b org where owed: "debts this i sys = [ad \<mapsto> (b, org, r_payout_amount (get_report i (sys_pr sys)))]"
    using assms(2) by (auto simp: records_def records_agree_def)
  then have debt: "debts this i sys ad = Some (b, org, r_payout_amount (get_report i (sys_pr sys)))" by simp
  then obtain a where a: "sys_adapters sys ad = Some a" by (cases "sys_adapters sys ad") (simp_all add: debts_def)
  have sa: "sa_inv a" using inv a by (auto simp: sys_inv_def)
  from debt debts_find(1) [OF sa a] that [OF a sa] show thesis by (auto simp: debt_of_def)
qed

text \<open>C8. Every paid claim can be settled. In every reachable state of the system the obligation of a paid
  policy is held by an adapter, and any funder of that adapter settles it with one call and a non-zero
  reference, whether or not funding was attested, for exactly the amount of the report; the only other
  answer is that it already was settled.\<close>

theorem paid_claim_settles:
  assumes "sys_reachable this t sys" and "is_policy_paid i (sys_pr sys)"
  shows "\<exists>ad a n ob. sys_adapters sys ad = Some a \<and> find_obligation this i a = Some n \<and> get_obligation n a = Some ob \<and>
    (\<forall>e c r. authorizes e c \<and> holds (sa_roles a) Funder c \<and> r \<noteq> 0 \<longrightarrow>
       (case mark_settled e c n r a of
          Inr (ob', a') \<Rightarrow> get_obligation n a' = Some ob' \<and> o_status ob' = Settled \<and>
            o_settlement_reference ob' = Some r \<and> o_amount ob' = r_payout_amount (get_report i (sys_pr sys))
        | Inl err \<Rightarrow> err = AdapterE ObligationAlreadySettled \<and> o_status ob = Settled))"
proof (rule paid_debt [OF assms])
  fix ad a n ob
  assume a: "sys_adapters sys ad = Some a" "find_obligation this i a = Some n" and sa: "sa_inv a"
    and ob: "get_obligation n a = Some ob" "o_amount ob = r_payout_amount (get_report i (sys_pr sys))"
  have "case mark_settled e c n r a of
          Inr (ob', a') \<Rightarrow> get_obligation n a' = Some ob' \<and> o_status ob' = Settled \<and>
            o_settlement_reference ob' = Some r \<and> o_amount ob' = r_payout_amount (get_report i (sys_pr sys))
        | Inl err \<Rightarrow> err = AdapterE ObligationAlreadySettled \<and> o_status ob = Settled"
    if "authorizes e c \<and> holds (sa_roles a) Funder c \<and> r \<noteq> 0" for e c r
    using funder_settles [OF sa ob(1), of e c r] that ob(2) by (auto simp: debt_of_def split: sum.splits)
  then show ?thesis using a ob(1) by (intro exI [of _ ad] exI [of _ a] exI [of _ n] exI [of _ ob]) blast
qed

lemma submission_records:
  assumes "submit_drought_determination pmc adc e c d sig rid sys = Inr sys'"
  shows "\<exists>ad pm a p w ob a'. pr_settlement_adapter (sys_pr sys) = Some ad \<and> sys_adapters sys ad = Some a \<and>
    open_policy pmc e pm (d_on_chain_policy_id d) (sys_pr sys) (sys_pm sys) = Inr (p, w) \<and>
    adc_record_obligation adc (subcall e ad) (current_contract_address e) (d_on_chain_policy_id d) (p_org p)
      (d_payout_amount d) (drought_digest_of e d (sys_pr sys)) a = Inr (ob, a') \<and>
    sys_adapters sys' = (sys_adapters sys)(ad \<mapsto> a')"
proof -
  obtain ad p pm w1 w2 where ad: "pr_settlement_adapter (sys_pr sys) = Some ad"
    and op: "open_policy pmc e pm (d_on_chain_policy_id d) (sys_pr sys) (sys_pm sys) = Inr (p, w1)"
    and settle: "settle_verified pmc adc e pm ad p (drought_report d) (drought_digest_of e d (sys_pr sys))
      (sys\<lparr>sys_pr := drought_begun e c d (sys_pr sys), sys_pm := w2\<rparr>) = Inr sys'"
    using assms unfolding submit_drought_Inr by blast
  from settle obtain a ob a' where "sys_adapters sys ad = Some a"
    and "adc_record_obligation adc (subcall e ad) (current_contract_address e) (d_on_chain_policy_id d) (p_org p)
      (d_payout_amount d) (drought_digest_of e d (sys_pr sys)) a = Inr (ob, a')"
    and "sys_adapters sys' = (sys_adapters sys)(ad \<mapsto> a')"
    unfolding settle_verified_Inr by auto
  with ad op show ?thesis by blast
qed

text \<open>The adapter of the sample after the submission: the funder is still there, the obligation is owed.\<close>

lemma sample_paid_adapter:
  obtains a where "sys_adapters sample_paid = [Address 400 \<mapsto> a]" and "holds (sa_roles a) Funder (Address 13)"
    and "\<And>n ob. get_obligation n a = Some ob \<Longrightarrow> o_status ob = Owed"
proof -
  have fields: "d_on_chain_policy_id sample_drought = 1" "d_payout_amount sample_drought = 2100000000"
    by (simp_all add: sample_drought_def)
  have "\<exists>(p :: policy) h ob a. sys_adapters sample_paid = [Address 400 \<mapsto> a] \<and>
      record_obligation (subcall sample_late (Address 400)) (Address 200) 1 (p_org p) 2100000000 h sample_sa_ready = Inr (ob, a)"
    using submission_records [OF sample_paid] by (auto simp: fields sample_pr_ready(2) simp del: One_nat_def)
  then obtain p :: policy and h ob a where sys: "sys_adapters sample_paid = [Address 400 \<mapsto> a]"
    and rec: "record_obligation (subcall sample_late (Address 400)) (Address 200) 1 (p_org p) 2100000000 h sample_sa_ready = Inr (ob, a)"
    by blast
  have empty: "get (sa_obligation sample_sa_ready) = Map.empty"
    using sa_invD(1,2) [OF sa_reachable_inv [OF sample_sa_reachable(1)]] sample_sa_ready(4) by fastforce
  have a: "a = sa_recorded (subcall sample_late (Address 400)) ob (sa_touch (subcall sample_late (Address 400)) sample_sa_ready)"
    "o_status ob = Owed"
    using record_obligation_Inr(2) [OF rec] by (auto simp: sample_sa_ready(4))
  show thesis
  proof (rule that [OF sys])
    show "holds (sa_roles a) Funder (Address 13)" by (simp add: a(1) sample_sa_ready(2))
    show "o_status x = Owed" if "get_obligation n a = Some x" for n x
      using that a(2) by (simp add: a(1) get_obligation_def empty split: if_splits)
  qed
qed

theorem paid_claim_settles_witness:
  "\<exists>ad a n ob a'. sys_adapters sample_paid ad = Some a \<and> find_obligation (Address 200) 1 a = Some n \<and>
     mark_settled sample_env (Address 13) n 5 a = Inr (ob, a') \<and> o_status ob = Settled \<and> o_amount ob = 2100000000"
proof (rule sample_paid_adapter)
  fix b
  assume b: "sys_adapters sample_paid = [Address 400 \<mapsto> b]" "holds (sa_roles b) Funder (Address 13)"
    "\<And>n ob. get_obligation n b = Some ob \<Longrightarrow> o_status ob = Owed"
  have one: "d_on_chain_policy_id sample_drought = 1" by (simp add: sample_drought_def)
  have paid: "is_policy_paid 1 (sys_pr sample_paid)" "get_report 1 (sys_pr sample_paid) = drought_report sample_drought"
    using drought_settles_one [OF sample_paid, unfolded one]
    by (auto simp: settles_def pr_book_def is_policy_paid_def get_report_def simp del: One_nat_def)
  have amount: "r_payout_amount (drought_report sample_drought) = 2100000000" by (simp add: sample_drought_def)
  obtain ad a n ob where ob: "sys_adapters sample_paid ad = Some a" "find_obligation (Address 200) 1 a = Some n"
      "get_obligation n a = Some ob"
    and all: "\<forall>e c r. authorizes e c \<and> holds (sa_roles a) Funder c \<and> r \<noteq> 0 \<longrightarrow>
       (case mark_settled e c n r a of
          Inr (ob', a') \<Rightarrow> get_obligation n a' = Some ob' \<and> o_status ob' = Settled \<and>
            o_settlement_reference ob' = Some r \<and> o_amount ob' = r_payout_amount (get_report 1 (sys_pr sample_paid))
        | Inl err \<Rightarrow> err = AdapterE ObligationAlreadySettled \<and> o_status ob = Settled)"
    using paid_claim_settles [OF sample_paid_system paid(1)] by blast
  have "a = b" using ob(1) b(1) by (simp split: if_splits)
  then have "o_status ob = Owed" "holds (sa_roles a) Funder (Address 13)" using b(2) b(3) ob(3) by blast+
  then have "\<exists>ob' a'. mark_settled sample_env (Address 13) n 5 a = Inr (ob', a') \<and> o_status ob' = Settled \<and> o_amount ob' = 2100000000"
    using all [rule_format, of sample_env "Address 13" 5] paid(2) amount by (auto split: sum.splits simp del: One_nat_def)
  then show ?thesis using ob by blast
qed

end
