(* ===== verification/TestnetPolicyFixture.thy ===== *)
theory TestnetPolicyFixture
  imports PayoutSample
begin

text \<open>
  The stand-in of \<^verbatim>\<open>crates/testnet-policy-fixture/src/lib.rs\<close> for the PolicyManager: an admin
  injects policies, an oracle marks them claimed, nothing is checked. It keeps the promises of
  \<open>policy_source\<close> with a claim limit that always allows, but not those of \<open>claim_registry\<close>: it claims
  a policy again and again. What protects the evidence lane is the receiver alone.
\<close>

section \<open>State and entry points\<close>

record fx_state =
  fx_roles :: roles
  fx_policy :: "(nat, policy) storage"
  fx_claim_count :: "(address, nat) storage"
  fx_instance_live :: nat

definition MAINNET_NETWORK_ID :: bytes32 where
  "MAINNET_NETWORK_ID = 0x7ac33997544e3175d266bd022439b22cdb16508c01163f26e5cb2a3e1045a979"

definition fx_constructor :: "env \<Rightarrow> address \<Rightarrow> error + fx_state" where
  "fx_constructor e admin =
     (if network_id e = MAINNET_NETWORK_ID then Inl (HostE DeployRefused)
      else bindE (grant_role e Admin admin Map.empty) (\<lambda>roles.
        Inr \<lparr>fx_roles = roles, fx_policy = Map.empty, fx_claim_count = Map.empty,
             fx_instance_live = fresh_live_until e\<rparr>))"

definition fx_grant_role :: "env \<Rightarrow> address \<Rightarrow> role \<Rightarrow> address \<Rightarrow> fx_state \<Rightarrow> error + fx_state" where
  "fx_grant_role e caller r who s =
     bindE (require_role e caller Admin (fx_roles s)) (\<lambda>roles.
     bindE (grant_role e r who roles) (\<lambda>roles. Inr (s\<lparr>fx_roles := roles\<rparr>)))"

definition fx_has_role :: "env \<Rightarrow> role \<Rightarrow> address \<Rightarrow> fx_state \<Rightarrow> error + bool \<times> fx_state" where
  "fx_has_role e r who s =
     bindE (has_role e r who (fx_roles s)) (\<lambda>(b, roles). Inr (b, s\<lparr>fx_roles := roles\<rparr>))"

definition set_policy :: "env \<Rightarrow> address \<Rightarrow> policy \<Rightarrow> fx_state \<Rightarrow> error + fx_state" where
  "set_policy e caller policy s =
     bindE (require_role e caller Admin (fx_roles s)) (\<lambda>roles.
     let s = s\<lparr>fx_roles := roles, fx_instance_live := touch_contract e (fx_instance_live s)\<rparr>;
         key = p_id policy;
         s = s\<lparr>fx_policy := put e key policy (fx_policy s)\<rparr>
     in
     bindE (extend_shared e key None (fx_policy s)) (\<lambda>m. Inr (s\<lparr>fx_policy := m\<rparr>)))"

definition fx_policy_exists :: "nat \<Rightarrow> fx_state \<Rightarrow> bool" where
  "fx_policy_exists policy_id s = has (fx_policy s) policy_id"

definition fx_get_policy :: "nat \<Rightarrow> fx_state \<Rightarrow> error + policy" where
  "fx_get_policy policy_id s =
     (case get (fx_policy s) policy_id of
        None \<Rightarrow> Inl (PolicyE policy_error.PolicyDoesNotExist) | Some policy \<Rightarrow> Inr policy)"

definition fx_can_farmer_claim :: "address \<Rightarrow> fx_state \<Rightarrow> bool" where
  "fx_can_farmer_claim farmer s = True"

definition fx_mark_as_claimed :: "env \<Rightarrow> address \<Rightarrow> nat \<Rightarrow> fx_state \<Rightarrow> error + fx_state" where
  "fx_mark_as_claimed e caller policy_id s =
     bindE (require_role e caller Oracle (fx_roles s)) (\<lambda>roles.
     let s = s\<lparr>fx_roles := roles\<rparr> in
     bindE (fx_get_policy policy_id s) (\<lambda>policy.
     Inr (s\<lparr>fx_policy := put e policy_id (policy\<lparr>p_status := Claimed\<rparr>) (fx_policy s)\<rparr>)))"

definition fx_increment_claim_count :: "env \<Rightarrow> address \<Rightarrow> address \<Rightarrow> fx_state \<Rightarrow> error + fx_state" where
  "fx_increment_claim_count e caller farmer s =
     bindE (require_role e caller Oracle (fx_roles s)) (\<lambda>roles.
     let s = s\<lparr>fx_roles := roles\<rparr>; n = unwrap_or 0 (get (fx_claim_count s) farmer) in
     bindE (add_u32 n 1) (\<lambda>n.
     let s = s\<lparr>fx_claim_count := put e farmer n (fx_claim_count s)\<rparr> in
     bindE (extend_shared e farmer None (fx_claim_count s)) (\<lambda>m. Inr (s\<lparr>fx_claim_count := m\<rparr>))))"

definition claim_count :: "address \<Rightarrow> fx_state \<Rightarrow> nat" where
  "claim_count farmer s = unwrap_or 0 (get (fx_claim_count s) farmer)"

definition fx_extend_policy_ttl :: "env \<Rightarrow> nat \<Rightarrow> fx_state \<Rightarrow> error + fx_state" where
  "fx_extend_policy_ttl e policy_id s =
     (if has (fx_policy s) policy_id
      then bindE (extend_shared e policy_id None (fx_policy s)) (\<lambda>m. Inr (s\<lparr>fx_policy := m\<rparr>))
      else Inr s)"

definition fx_extend_contract_ttl :: "env \<Rightarrow> fx_state \<Rightarrow> error + fx_state" where
  "fx_extend_contract_ttl e s = Inr (s\<lparr>fx_instance_live := keep_contract_alive e (fx_instance_live s)\<rparr>)"

section \<open>The fixture as a policy manager\<close>

definition fixture_pm :: "fx_state pm_client" where
  "fixture_pm =
     \<lparr>pmc_get_policy = (\<lambda>e i s. bindE (fx_get_policy i s) (\<lambda>p. Inr (p, s))),
      pmc_policy_exists = (\<lambda>e i s. Inr (fx_policy_exists i s, s)),
      pmc_can_farmer_claim = (\<lambda>e a s. Inr (fx_can_farmer_claim a s, s)),
      pmc_mark_as_claimed = fx_mark_as_claimed,
      pmc_increment_claim_count = fx_increment_claim_count,
      pmc_extend_policy_ttl = fx_extend_policy_ttl,
      pmc_extend_contract_ttl = fx_extend_contract_ttl\<rparr>"

lemma fx_get_policy_Inr [simp]: "fx_get_policy i s = Inr p \<longleftrightarrow> get (fx_policy s) i = Some p"
  by (simp add: fx_get_policy_def split: option.splits)

lemma fx_mark_Inr:
  "fx_mark_as_claimed e c i s = Inr s' \<longleftrightarrow>
     authorizes e c \<and> holds (fx_roles s) Oracle c \<and>
     (\<exists>p. get (fx_policy s) i = Some p \<and>
        s' = s\<lparr>fx_roles := used_role e Oracle c (fx_roles s),
               fx_policy := put e i (p\<lparr>p_status := Claimed\<rparr>) (fx_policy s)\<rparr>)"
  by (auto simp: fx_mark_as_claimed_def bindE_eq_Inr Let_def)

lemma fx_count_Inr:
  "fx_increment_claim_count e c a s = Inr s' \<longleftrightarrow>
     authorizes e c \<and> holds (fx_roles s) Oracle c \<and> claim_count a s < u32_max \<and>
     s' = s\<lparr>fx_roles := used_role e Oracle c (fx_roles s),
            fx_claim_count := kept e a (shared_need e None) (put e a (claim_count a s + 1) (fx_claim_count s))\<rparr>"
  by (auto simp: fx_increment_claim_count_def bindE_eq_Inr Let_def claim_count_def u32_max_def)

interpretation fx_source: policy_source fixture_pm "\<lambda>s. get (fx_policy s)"
  "\<lambda>s. holds (fx_roles s) Oracle" "\<lambda>e s a. fx_can_farmer_claim a s" "\<lambda>s. True"
  by unfold_locales
    (auto simp: fixture_pm_def fx_policy_exists_def has_iff fx_mark_Inr fx_count_Inr bindE_eq_Inr
      fx_can_farmer_claim_def)

section \<open>A concrete run\<close>

text \<open>Admin 11 deploys the fixture, makes 200 its oracle and injects the sample policy.\<close>

definition sample_fx_new :: fx_state where
  "sample_fx_new = projr (fx_constructor sample_env (Address 11))"

definition sample_fx_oracle :: fx_state where
  "sample_fx_oracle = projr (fx_grant_role sample_env (Address 11) Oracle (Address 200) sample_fx_new)"

definition sample_fx_ready :: fx_state where
  "sample_fx_ready = projr (set_policy sample_env (Address 11) sample_active sample_fx_oracle)"

lemma fx_constructor_effect:
  "fx_constructor e admin = Inr s \<Longrightarrow> holds (fx_roles s) r a \<longleftrightarrow> r = Admin \<and> a = admin"
  "fx_constructor e admin = Inr s \<Longrightarrow> get (fx_policy s) = Map.empty \<and> get (fx_claim_count s) = Map.empty"
  by (auto simp: fx_constructor_def bindE_eq_Inr holds_def dest!: grant_role_Inr split: if_splits)

lemma fx_grant_Inr:
  "fx_grant_role e c r a s = Inr s' \<Longrightarrow> authorizes e c \<and> holds (fx_roles s) Admin c \<and>
     fx_policy s' = fx_policy s \<and> fx_claim_count s' = fx_claim_count s \<and>
     (\<forall>q b. holds (fx_roles s') q b \<longleftrightarrow> q = r \<and> b = a \<or> holds (fx_roles s) q b)"
  by (auto simp: fx_grant_role_def bindE_eq_Inr holds_grant)

lemma set_policy_Inr:
  "set_policy e c p s = Inr s' \<longleftrightarrow>
     authorizes e c \<and> holds (fx_roles s) Admin c \<and>
     s' = s\<lparr>fx_roles := used_role e Admin c (fx_roles s),
            fx_instance_live := touch_contract e (fx_instance_live s),
            fx_policy := kept e (p_id p) (shared_need e None) (put e (p_id p) p (fx_policy s))\<rparr>"
  by (auto simp: set_policy_def bindE_eq_Inr Let_def)

lemma sample_fx:
  "fx_constructor sample_env (Address 11) = Inr sample_fx_new"
  "fx_grant_role sample_env (Address 11) Oracle (Address 200) sample_fx_new = Inr sample_fx_oracle"
  "set_policy sample_env (Address 11) sample_active sample_fx_oracle = Inr sample_fx_ready"
proof -
  have "network_id sample_env \<noteq> MAINNET_NETWORK_ID" by (simp add: sample_env_def MAINNET_NETWORK_ID_def)
  then show new: "fx_constructor sample_env (Address 11) = Inr sample_fx_new"
    by (simp add: sample_fx_new_def fx_constructor_def grant_role_def)
  have "holds (fx_roles sample_fx_new) Admin (Address 11)" by (simp add: fx_constructor_effect(1) [OF new])
  then show ora: "fx_grant_role sample_env (Address 11) Oracle (Address 200) sample_fx_new = Inr sample_fx_oracle"
    by (simp add: sample_fx_oracle_def fx_grant_role_def require_role_eq grant_role_def)
  have "holds (fx_roles sample_fx_oracle) Admin (Address 11)"
    using fx_grant_Inr [OF ora] by (simp add: fx_constructor_effect(1) [OF new])
  then have "\<exists>s'. set_policy sample_env (Address 11) sample_active sample_fx_oracle = Inr s'"
    by (simp add: set_policy_Inr)
  then show "set_policy sample_env (Address 11) sample_active sample_fx_oracle = Inr sample_fx_ready"
    unfolding sample_fx_ready_def by (metis sum.sel(2))
qed

section \<open>Properties\<close>

text \<open>The fixture cannot be deployed on mainnet, whoever deploys it; everywhere else it starts empty with
  the deployer's admin as the only role.\<close>

theorem fixture_never_on_mainnet:
  "(network_id e = MAINNET_NETWORK_ID \<longrightarrow> fx_constructor e admin = Inl (HostE DeployRefused)) \<and>
   (network_id e \<noteq> MAINNET_NETWORK_ID \<longrightarrow> (\<exists>s. fx_constructor e admin = Inr s \<and>
      (\<forall>r a. fx_has_role e r a s = Inr (r = Admin \<and> a = admin, s\<lparr>fx_roles := used_role e r a (fx_roles s)\<rparr>)) \<and>
      (\<forall>i. \<not> fx_policy_exists i s) \<and> (\<forall>a. claim_count a s = 0)))"
  by (auto simp: fx_constructor_def grant_role_def fx_has_role_def has_role_eq fx_policy_exists_def claim_count_def
      holds_def)

theorem fixture_never_on_mainnet_witness:
  "fx_constructor (sample_env\<lparr>network_id := MAINNET_NETWORK_ID\<rparr>) (Address 11) = Inl (HostE DeployRefused) \<and>
   (\<exists>s. fx_constructor sample_env (Address 11) = Inr s \<and> claim_count (Address 5) s = 0)"
proof -
  have "network_id sample_env \<noteq> MAINNET_NETWORK_ID" by (simp add: sample_env_def MAINNET_NETWORK_ID_def)
  then show ?thesis
    using fixture_never_on_mainnet [of "sample_env\<lparr>network_id := MAINNET_NETWORK_ID\<rparr>" "Address 11"]
      fixture_never_on_mainnet [of sample_env "Address 11"] by auto
qed

text \<open>The fixture checks nothing about a claim: \<open>mark_as_claimed\<close> goes through exactly for an authorised
  oracle and a stored policy, whatever its status and the time, and a second call goes through as
  well; only a policy's status changes. Unlike the policy manager it gives no protection against a
  second claim.\<close>

theorem fixture_claims_anything:
  "((\<exists>s'. fx_mark_as_claimed e c i s = Inr s') \<longleftrightarrow>
      authorizes e c \<and> holds (fx_roles s) Oracle c \<and> fx_policy_exists i s) \<and>
   (\<forall>s'. fx_mark_as_claimed e c i s = Inr s' \<longrightarrow>
      (\<exists>p. fx_get_policy i s = Inr p \<and> fx_get_policy i s' = Inr (p\<lparr>p_status := Claimed\<rparr>)) \<and>
      (\<forall>j. j \<noteq> i \<longrightarrow> fx_get_policy j s' = fx_get_policy j s) \<and>
      (\<exists>s''. fx_mark_as_claimed e c i s' = Inr s''))"
  by (auto simp: fx_mark_Inr fx_policy_exists_def has_iff fx_get_policy_def)

theorem fixture_claims_anything_witness:
  "\<exists>s' s''. fx_mark_as_claimed sample_late (Address 200) 1 sample_fx_ready = Inr s' \<and>
     fx_mark_as_claimed sample_late (Address 200) 1 s' = Inr s''"
proof -
  have "holds (fx_roles sample_fx_ready) Oracle (Address 200)" and "fx_policy_exists 1 sample_fx_ready"
    using fx_grant_Inr [OF sample_fx(2)]
    by (simp_all add: sample_fx(3) [unfolded set_policy_Inr, THEN conjunct2, THEN conjunct2] fx_policy_exists_def
        sample_active_fields del: One_nat_def)
  then show ?thesis
    using fixture_claims_anything [of sample_late "Address 200" 1 sample_fx_ready] by (simp del: One_nat_def) blast
qed

end
