(* ===== verification/EvidenceSigner.thy ===== *)
theory EvidenceSigner
  imports PayoutSample "HOL-Library.Char_ord"
begin

text \<open>
  The host tool of \<^verbatim>\<open>crates/integration-tests/examples/evidence_signer.rs\<close> that builds, digests
  and signs the determination of the testnet evidence run: its hex and number parsing, the
  determination, the digest by the shared encoder, and the JSON it prints. A panic is \<open>None\<close>. The
  signature library and the parser of contract addresses are third-party code: a record of
  functions. The lemmas are the round trips of the argument formats and that the receiver accepts
  what the tool builds.
\<close>

section \<open>Hexadecimal and decimal text\<close>

definition hex_digit :: "nat \<Rightarrow> char" where
  "hex_digit n = ''0123456789abcdef'' ! n"

definition hex :: "byte list \<Rightarrow> string" where
  "hex b = concat (map (\<lambda>x. [hex_digit (unat x div 16), hex_digit (unat x mod 16)]) b)"

text \<open>\<^verbatim>\<open>char::to_digit\<close> and \<^verbatim>\<open>from_str_radix\<close> of the standard library, with its optional sign.\<close>

definition to_digit :: "nat \<Rightarrow> char \<Rightarrow> nat option" where
  "to_digit radix c =
     (let k = of_char c :: nat;
          d = (if 48 \<le> k \<and> k \<le> 57 then k - 48 else if 97 \<le> k \<and> k \<le> 122 then k - 87
               else if 65 \<le> k \<and> k \<le> 90 then k - 55 else radix)
      in if d < radix then Some d else None)"

fun parse_digits :: "nat \<Rightarrow> nat \<Rightarrow> nat \<Rightarrow> string \<Rightarrow> nat option" where
  "parse_digits radix bound acc [] = Some acc"
| "parse_digits radix bound acc (c # cs) =
     (case to_digit radix c of
        None \<Rightarrow> None
      | Some d \<Rightarrow> if acc * radix + d \<le> bound then parse_digits radix bound (acc * radix + d) cs else None)"

definition parse_unsigned :: "nat \<Rightarrow> nat \<Rightarrow> string \<Rightarrow> nat option" where
  "parse_unsigned radix bound s =
     (case s of
        [] \<Rightarrow> None
      | c # cs \<Rightarrow>
          if c = CHR ''+'' then (if cs = [] then None else parse_digits radix bound 0 cs)
          else parse_digits radix bound 0 s)"

definition parse_u64 :: "string \<Rightarrow> nat option" where
  "parse_u64 s = parse_unsigned 10 u64_max s"

definition parse_i128 :: "string \<Rightarrow> int option" where
  "parse_i128 s =
     (case s of
        [] \<Rightarrow> None
      | c # cs \<Rightarrow>
          if c = CHR ''-'' then
            (if cs = [] then None else map_option (\<lambda>n. - int n) (parse_digits 10 (2 ^ 127) 0 cs))
          else map_option int (parse_unsigned 10 (2 ^ 127 - 1) s))"

fun trim_start_matches_0x :: "string \<Rightarrow> string" where
  "trim_start_matches_0x (a # b # cs) =
     (if a = CHR ''0'' \<and> b = CHR ''x'' then trim_start_matches_0x cs else a # b # cs)"
| "trim_start_matches_0x cs = cs"

fun unhex_pairs :: "string \<Rightarrow> byte list option" where
  "unhex_pairs [] = Some []"
| "unhex_pairs [a] = None"
| "unhex_pairs (a # b # cs) =
     (case parse_unsigned 16 255 [a, b] of
        None \<Rightarrow> None
      | Some n \<Rightarrow> map_option (\<lambda>bs. word_of_nat n # bs) (unhex_pairs cs))"

definition unhex :: "string \<Rightarrow> byte list option" where
  "unhex s = unhex_pairs (trim_start_matches_0x s)"

text \<open>\<^verbatim>\<open>Display\<close> of the integers.\<close>

fun dec :: "nat \<Rightarrow> string" where
  "dec n = (if n < 10 then [hex_digit n] else dec (n div 10) @ [hex_digit (n mod 10)])"

definition dec_int :: "int \<Rightarrow> string" where
  "dec_int i = (if i < 0 then CHR ''-'' # dec (nat (- i)) else dec (nat i))"

declare dec.simps [simp del]

section \<open>The round trips\<close>

lemma hex_digits: "n < 16 \<Longrightarrow> hex_digit n \<in> set ''0123456789abcdef''"
  unfolding hex_digit_def by (rule nth_mem) simp

lemma to_digit_hex: "n < 16 \<Longrightarrow> n < radix \<Longrightarrow> to_digit radix (hex_digit n) = Some n"
proof -
  have all: "\<forall>k \<in> set [0..<16]. k < radix \<longrightarrow> to_digit radix (hex_digit k) = Some k"
    by (simp add: upt_rec_numeral upt_conv_Cons hex_digit_def to_digit_def)
  then show "n < 16 \<Longrightarrow> n < radix \<Longrightarrow> to_digit radix (hex_digit n) = Some n" by simp
qed

lemma hex_digit_no_sign:
  assumes "n < 16"
  shows "hex_digit n \<noteq> CHR ''+''" and "hex_digit n \<noteq> CHR ''-''" and "hex_digit n \<noteq> CHR ''x''"
  using hex_digits [OF assms] by auto

lemma unhex_pairs_hex: "unhex_pairs (hex bs) = Some bs"
proof (induction bs)
  case Nil
  then show ?case by (simp add: hex_def)
next
  case (Cons b bs)
  have b: "unat b < 256" using unsigned_less [of b, where ?'a = nat] by simp
  then have lt: "unat b div 16 < 16" "unat b mod 16 < 16" by simp_all
  have "parse_unsigned 16 255 [hex_digit (unat b div 16), hex_digit (unat b mod 16)] = Some (unat b)"
    using b by (simp add: parse_unsigned_def hex_digit_no_sign [OF lt(1)] to_digit_hex lt)
  with Cons.IH show ?case by (simp add: hex_def)
qed

lemma trim_hex: "trim_start_matches_0x (hex bs) = hex bs"
  by (cases bs) (simp_all add: hex_def hex_digit_no_sign)

lemma unhex_hex: "unhex (hex bs) = Some bs"
  by (simp add: unhex_def trim_hex unhex_pairs_hex)

lemma parse_digits_append:
  "parse_digits r m acc (s @ t) = Option.bind (parse_digits r m acc s) (\<lambda>a. parse_digits r m a t)"
  by (induction r m acc s rule: parse_digits.induct) (simp_all split: option.split)

lemma parse_digits_dec: "n \<le> m \<Longrightarrow> parse_digits 10 m 0 (dec n) = Some n"
proof (induction n rule: dec.induct)
  case (1 n)
  show ?case
  proof (cases "n < 10")
    case True
    then show ?thesis using 1(2) by (simp add: dec.simps [of n] to_digit_hex)
  next
    case False
    then have "parse_digits 10 m 0 (dec (n div 10)) = Some (n div 10)" using 1 by simp
    with False 1(2) show ?thesis
      by (simp add: dec.simps [of n] parse_digits_append to_digit_hex)
  qed
qed

lemma dec_Cons: "\<exists>d cs. d < 10 \<and> dec n = hex_digit d # cs"
proof (induction n rule: dec.induct)
  case (1 n)
  then show ?case by (cases "n < 10") (auto simp: dec.simps [of n])
qed

lemma parse_unsigned_dec: "n \<le> m \<Longrightarrow> parse_unsigned 10 m (dec n) = Some n"
proof -
  assume n: "n \<le> m"
  obtain d cs where d: "d < 10" "dec n = hex_digit d # cs" using dec_Cons by blast
  then have "hex_digit d \<noteq> CHR ''+''" by (simp add: hex_digit_no_sign)
  then show ?thesis using parse_digits_dec [OF n] d by (simp add: parse_unsigned_def)
qed

lemma parse_u64_dec: "n \<le> u64_max \<Longrightarrow> parse_u64 (dec n) = Some n"
  by (simp add: parse_u64_def parse_unsigned_dec)

lemma parse_i128_dec:
  assumes "i128_min \<le> i" and "i \<le> i128_max"
  shows "parse_i128 (dec_int i) = Some i"
proof (cases "i < 0")
  case True
  obtain d cs where d: "d < 10" "dec (nat (- i)) = hex_digit d # cs" using dec_Cons by blast
  have "nat (- i) \<le> 2 ^ 127" using assms(1) by (simp add: i128_min_def nat_le_iff)
  from parse_digits_dec [OF this] d True show ?thesis by (simp add: parse_i128_def dec_int_def)
next
  case False
  obtain d cs where d: "d < 10" "dec (nat i) = hex_digit d # cs" using dec_Cons by blast
  then have "hex_digit d \<noteq> CHR ''-''" by (simp add: hex_digit_no_sign)
  moreover have "nat i \<le> 2 ^ 127 - 1" using assms(2) by (simp add: i128_max_def nat_le_iff)
  ultimately show ?thesis using parse_unsigned_dec [of "nat i" "2 ^ 127 - 1"] d False
    by (simp add: parse_i128_def dec_int_def)
qed

section \<open>The tool\<close>

text \<open>
  The third-party part: \<^verbatim>\<open>k256\<close> (a secret key from its bytes, its uncompressed public key, a
  recoverable signature of a prehashed message) and the SDK's parser of contract addresses.
\<close>

record 'k signing_lib =
  from_slice :: "byte list \<Rightarrow> 'k option"
  encoded_point :: "'k \<Rightarrow> byte list"
  sign_prehash :: "'k \<Rightarrow> bytes32 \<Rightarrow> (bytes64 \<times> nat) option"
  address_from_str :: "string \<Rightarrow> address option"

definition SOURCE_HASH_ERA5_2022 :: bytes32 where
  "SOURCE_HASH_ERA5_2022 =
     0x207ca26b2454f0d08e04962f42008b73ba0a51744f2673e99a0ee9f5f56af842"

definition BP :: nat where "BP = 4200"

definition signing_key :: "'k signing_lib \<Rightarrow> string \<Rightarrow> 'k option" where
  "signing_key lib sk_hex = Option.bind (unhex sk_hex) (from_slice lib)"

definition arg :: "(string \<Rightarrow> 'a option) \<Rightarrow> string list \<Rightarrow> nat \<Rightarrow> 'a option" where
  "arg parse args i = (if i < length args then parse (args ! i) else None)"

text \<open>The determination of the real 2022 season, for the policy and the plot of the arguments.\<close>

definition evidence_determination ::
  "nat \<Rightarrow> nat \<Rightarrow> nat \<Rightarrow> int \<Rightarrow> int \<Rightarrow> int \<Rightarrow> int \<Rightarrow> drought_determination" where
  "evidence_determination policy_id season_start assessed_at lat lon sum_insured payout =
     \<lparr>d_on_chain_policy_id = policy_id, d_damage_percent_bp = BP, d_drought_damage = BP div 100,
      d_payout_amount = payout, d_assessed_at = assessed_at, d_latitude_e6 = lat, d_longitude_e6 = lon,
      d_sum_insured = sum_insured, d_season_start_epoch = season_start, d_lgp_days = 180,
      d_rain_w1_e2 = 31130, d_rain_ref_w1_e2 = 27260, d_rain_w2_e2 = 16280, d_rain_ref_w2_e2 = 22305,
      d_cdd_w2_days = 7, d_source_hash = SOURCE_HASH_ERA5_2022,
      d_methodology_params_hash = DROUGHT_PARAMS_HASH_RDI_1_0\<rparr>"

record evidence =
  ev_digest :: bytes32
  ev_signature :: bytes64
  ev_recovery_id :: nat
  ev_d :: drought_determination

text \<open>
  \<^verbatim>\<open>sign\<close> up to its output. The product \<^verbatim>\<open>sum_insured * BP\<close> is checked in the build the tool runs in.
\<close>

definition sign_evidence :: "'k signing_lib \<Rightarrow> env \<Rightarrow> string list \<Rightarrow> evidence option" where
  "sign_evidence lib e args =
     Option.bind (arg (signing_key lib) args 1) (\<lambda>sk.
     Option.bind (arg Some args 2) (\<lambda>contract.
     Option.bind (arg unhex args 3) (\<lambda>domain.
     if length domain \<noteq> 32 then None else
     Option.bind (arg parse_u64 args 4) (\<lambda>policy_id.
     Option.bind (arg parse_u64 args 5) (\<lambda>season_start.
     Option.bind (arg parse_u64 args 6) (\<lambda>assessed_at.
     Option.bind (arg parse_i128 args 7) (\<lambda>lat.
     Option.bind (arg parse_i128 args 8) (\<lambda>lon.
     Option.bind (arg parse_i128 args 9) (\<lambda>sum_insured.
     case checked_i128 (sum_insured * int BP) of Inl _ \<Rightarrow> None | Inr product \<Rightarrow>
     let payout = product sdiv 10000;
         d = evidence_determination policy_id season_start assessed_at lat lon sum_insured payout
     in
     Option.bind (address_from_str lib contract) (\<lambda>receiver.
     let digest = drought_determination_digest e d receiver (word_of_nat (be_value domain)) in
     Option.bind (sign_prehash lib sk digest) (\<lambda>(sig, recid).
     Some \<lparr>ev_digest = digest, ev_signature = sig, ev_recovery_id = recid, ev_d = d\<rparr>)))))))))))"

text \<open>The JSON object it prints. \<open>quoted\<close> puts a text in double quotes.\<close>

definition quoted :: "string \<Rightarrow> string" where
  "quoted s = [CHR 0x22] @ s @ [CHR 0x22]"

definition json_field :: "string \<Rightarrow> string \<Rightarrow> string" where
  "json_field name value = quoted name @ '':'' @ value"

fun join_comma :: "string list \<Rightarrow> string" where
  "join_comma [] = []"
| "join_comma [x] = x"
| "join_comma (x # xs) = x @ '','' @ join_comma xs"

definition evidence_json :: "evidence \<Rightarrow> string" where
  "evidence_json ev =
     (let d = ev_d ev in
      ''{'' @ join_comma
        [json_field ''digest'' (quoted (hex (to_array (ev_digest ev)))),
         json_field ''signature'' (quoted (hex (be_bytes 64 (unat (ev_signature ev))))),
         json_field ''recovery_id'' (dec (ev_recovery_id ev)),
         json_field ''d_cli'' (''{'' @ join_comma
           [json_field ''on_chain_policy_id'' (dec (d_on_chain_policy_id d)),
            json_field ''damage_percent_bp'' (dec BP),
            json_field ''drought_damage'' (dec (BP div 100)),
            json_field ''payout_amount'' (quoted (dec_int (d_payout_amount d))),
            json_field ''assessed_at'' (dec (d_assessed_at d)),
            json_field ''latitude_e6'' (quoted (dec_int (d_latitude_e6 d))),
            json_field ''longitude_e6'' (quoted (dec_int (d_longitude_e6 d))),
            json_field ''sum_insured'' (quoted (dec_int (d_sum_insured d))),
            json_field ''season_start_epoch'' (dec (d_season_start_epoch d)),
            json_field ''lgp_days'' ''180'',
            json_field ''rain_w1_e2'' (quoted ''31130''),
            json_field ''rain_ref_w1_e2'' (quoted ''27260''),
            json_field ''rain_w2_e2'' (quoted ''16280''),
            json_field ''rain_ref_w2_e2'' (quoted ''22305''),
            json_field ''cdd_w2_days'' ''7'',
            json_field ''source_hash'' (quoted (hex (to_array SOURCE_HASH_ERA5_2022))),
            json_field ''methodology_params_hash'' (quoted (hex (to_array DROUGHT_PARAMS_HASH_RDI_1_0)))]
          @ ''}'')]
      @ ''}'')"

definition sign :: "'k signing_lib \<Rightarrow> env \<Rightarrow> string list \<Rightarrow> string option" where
  "sign lib e args = map_option evidence_json (sign_evidence lib e args)"

datatype outcome = Panicked | UsageExit2 | PrintedLine string

definition run_signer :: "'k signing_lib \<Rightarrow> env \<Rightarrow> string list \<Rightarrow> outcome" where
  "run_signer lib e args =
     (let printed = (\<lambda>r. case r of None \<Rightarrow> Panicked | Some line \<Rightarrow> PrintedLine line) in
      case args of
        [] \<Rightarrow> UsageExit2
      | command # _ \<Rightarrow>
          if command = ''pubkey'' then
            printed (map_option (\<lambda>sk. hex (encoded_point lib sk)) (arg (signing_key lib) args 1))
          else if command = ''sign'' then printed (sign lib e args)
          else UsageExit2)"

section \<open>What it signs\<close>

lemma be_value_to_array: "word_of_nat (be_value (to_array w)) = w"
proof -
  have "unat w < 256 ^ 32" using unsigned_less [of w, where ?'a = nat] by simp
  then show ?thesis by (simp add: to_array_def be_value_be_bytes)
qed

lemma be_bytes_be_value: "be_bytes (length bs) (be_value bs) = bs"
proof (induction bs rule: rev_induct)
  case Nil
  show ?case by (simp add: be_bytes_def)
next
  case (snoc b bs)
  have "unat b < 256" using unsigned_less [of b, where ?'a = nat] by simp
  then have "(be_value bs * 256 + unat b) div 256 = be_value bs" by simp
  moreover have "(word_of_nat (be_value bs * 256 + unat b) :: byte) = b"
    by (simp only: word_unat_eq_iff unat_of_nat) (use \<open>unat b < 256\<close> in simp)
  ultimately show ?case by (simp only: length_append_singleton be_value_append1 be_bytes_Suc snoc.IH)
qed

text \<open>The 32 bytes of a parsed domain are the domain of the digest.\<close>

lemma to_array_be_value:
  assumes "length bs = 32"
  shows "to_array (word_of_nat (be_value bs)) = bs"
proof -
  have id: "be_bytes 32 (be_value bs) = bs" using be_bytes_be_value [of bs] assms by simp
  then have "be_value bs mod 256 ^ 32 = be_value bs" using be_value_be_bytes [of 32 "be_value bs"] by simp
  then have "be_value bs mod 2 ^ 256 = be_value bs" by simp
  then show ?thesis using id by (simp only: to_array_def unat_of_nat len_bit0 len_bit1 len_num1 id_def) simp
qed

lemma arg_nth: "i < length args \<Longrightarrow> arg parse args i = parse (args ! i)"
  by (simp add: arg_def)

text \<open>The canonical spelling of a call of the tool.\<close>

definition sign_command ::
  "byte list \<Rightarrow> string \<Rightarrow> bytes32 \<Rightarrow> nat \<Rightarrow> nat \<Rightarrow> nat \<Rightarrow> int \<Rightarrow> int \<Rightarrow> int \<Rightarrow> string list" where
  "sign_command sk contract domain policy_id season_start assessed_at lat lon sum_insured =
     [''sign'', hex sk, contract, hex (to_array domain), dec policy_id, dec season_start, dec assessed_at,
      dec_int lat, dec_int lon, dec_int sum_insured]"

lemma bind_SomeE: "Option.bind m f = Some y \<Longrightarrow> (\<And>x. m = Some x \<Longrightarrow> f x = Some y \<Longrightarrow> P) \<Longrightarrow> P"
  by (auto simp: bind_eq_Some_conv)

lemma guard_SomeE: "(if c then None else m) = Some y \<Longrightarrow> (\<not> c \<Longrightarrow> m = Some y \<Longrightarrow> P) \<Longrightarrow> P"
  by (simp split: if_splits)

text \<open>The determination of a successful run, and what it is a signature of.\<close>

lemma sign_evidence_Some:
  assumes "sign_evidence lib e args = Some ev"
  shows "\<exists>i season assessed lat lon ins receiver domain sk.
     parse_u64 (args ! 4) = Some i \<and> parse_u64 (args ! 5) = Some season \<and> parse_u64 (args ! 6) = Some assessed \<and>
     parse_i128 (args ! 7) = Some lat \<and> parse_i128 (args ! 8) = Some lon \<and> parse_i128 (args ! 9) = Some ins \<and>
     ev_d ev = evidence_determination i season assessed lat lon ins (ins * 4200 sdiv 10000) \<and>
     i128_min \<le> ins * 4200 \<and> ins * 4200 \<le> i128_max \<and>
     address_from_str lib (args ! 2) = Some receiver \<and> unhex (args ! 3) = Some (to_array domain) \<and>
     ev_digest ev = drought_determination_digest e (ev_d ev) receiver domain \<and>
     signing_key lib (args ! 1) = Some sk \<and>
     sign_prehash lib sk (ev_digest ev) = Some (ev_signature ev, ev_recovery_id ev)"
proof -
  let ?d = "\<lambda>i season assessed lat lon ins. evidence_determination i season assessed lat lon ins (ins * 4200 sdiv 10000)"
  obtain sk contract domain i season assessed lat lon ins where
    sk: "arg (signing_key lib) args 1 = Some sk" and contract: "arg Some args 2 = Some contract"
    and domain: "arg unhex args 3 = Some domain" and len: "length domain = 32"
    and parsed: "arg parse_u64 args 4 = Some i" "arg parse_u64 args 5 = Some season" "arg parse_u64 args 6 = Some assessed"
      "arg parse_i128 args 7 = Some lat" "arg parse_i128 args 8 = Some lon" "arg parse_i128 args 9 = Some ins"
    and rest: "(case checked_i128 (ins * int BP) of Inl _ \<Rightarrow> None | Inr product \<Rightarrow>
       let payout = product sdiv 10000; d = evidence_determination i season assessed lat lon ins payout in
       Option.bind (address_from_str lib contract) (\<lambda>receiver.
       let digest = drought_determination_digest e d receiver (word_of_nat (be_value domain)) in
       Option.bind (sign_prehash lib sk digest) (\<lambda>(sig, recid).
       Some \<lparr>ev_digest = digest, ev_signature = sig, ev_recovery_id = recid, ev_d = d\<rparr>))) = Some ev"
    using assms unfolding sign_evidence_def by (elim bind_SomeE guard_SomeE) (rule that; simp)
  have product: "i128_min \<le> ins * 4200 \<and> ins * 4200 \<le> i128_max"
    using rest by (simp add: BP_def checked_i128_def split: if_splits)
  let ?x = "?d i season assessed lat lon ins"
  obtain receiver sig recid where receiver: "address_from_str lib contract = Some receiver"
    and signed: "sign_prehash lib sk (drought_determination_digest e ?x receiver (word_of_nat (be_value domain))) = Some (sig, recid)"
    and ev: "ev = \<lparr>ev_digest = drought_determination_digest e ?x receiver (word_of_nat (be_value domain)),
       ev_signature = sig, ev_recovery_id = recid, ev_d = ?x\<rparr>"
    using rest product by (auto simp: BP_def checked_i128_def Let_def bind_eq_Some_conv)
  have args: "signing_key lib (args ! 1) = Some sk" "args ! 2 = contract" "unhex (args ! 3) = Some domain"
    "parse_u64 (args ! 4) = Some i" "parse_u64 (args ! 5) = Some season" "parse_u64 (args ! 6) = Some assessed"
    "parse_i128 (args ! 7) = Some lat" "parse_i128 (args ! 8) = Some lon" "parse_i128 (args ! 9) = Some ins"
    using sk contract domain parsed by (simp_all add: arg_def split: if_splits)
  show ?thesis
    by (rule exI [of _ i], rule exI [of _ season], rule exI [of _ assessed], rule exI [of _ lat], rule exI [of _ lon],
        rule exI [of _ ins], rule exI [of _ receiver], rule exI [of _ "word_of_nat (be_value domain)"], rule exI [of _ sk])
      (use args product in \<open>simp add: ev receiver signed to_array_be_value [OF len]\<close>)
qed

lemma evidence_claim:
  "drought_claim (evidence_determination i season assessed lat lon ins payout) \<longleftrightarrow> 86400 dvd season"
  using canonical_vectors(6)
  by (simp add: drought_claim_def evidence_determination_def BP_def drought_constants)

text \<open>A toy signer for the examples, and a call of the tool for the sample deployment.\<close>

definition sample_lib :: "nat signing_lib" where
  "sample_lib =
     \<lparr>from_slice = (\<lambda>bs. if length bs = 32 then Some (be_value bs) else None),
      encoded_point = (\<lambda>k. be_bytes 65 k), sign_prehash = (\<lambda>k h. Some (ucast h, 0)),
      address_from_str = (\<lambda>s. if s = ''C200'' then Some (Address 200) else None)\<rparr>"

definition sample_call :: "string list" where
  "sample_call = sign_command (replicate 32 1) ''C200'' 7 1 1699920000 1709424000 9000000 8000000 5000000000"

lemma sample_call_signs:
  "\<exists>ev. sign_evidence sample_lib sample_env sample_call = Some ev \<and>
     ev_d ev = evidence_determination 1 1699920000 1709424000 9000000 8000000 5000000000 2100000000"
proof -
  have "5000000000 * 4200 sdiv 10000 = (2100000000 :: int)" by (simp add: signed_divide_int_def)
  moreover have "arg (signing_key sample_lib) sample_call 1 = Some (be_value (replicate 32 1))"
    by (simp add: sample_call_def sign_command_def arg_def signing_key_def unhex_hex sample_lib_def)
  moreover have "arg Some sample_call 2 = Some ''C200''" "arg unhex sample_call 3 = Some (to_array 7)"
    "arg parse_u64 sample_call 4 = Some 1" "arg parse_u64 sample_call 5 = Some 1699920000"
    "arg parse_u64 sample_call 6 = Some 1709424000" "arg parse_i128 sample_call 7 = Some 9000000"
    "arg parse_i128 sample_call 8 = Some 8000000" "arg parse_i128 sample_call 9 = Some 5000000000"
    by (simp_all add: sample_call_def sign_command_def arg_def unhex_hex parse_u64_dec parse_i128_dec u64_max_def
        i128_min_def i128_max_def del: One_nat_def)
  ultimately show ?thesis
    by (simp add: sign_evidence_def BP_def Let_def checked_i128_def i128_min_def i128_max_def sample_lib_def
        del: One_nat_def)
qed

section \<open>Properties\<close>

text \<open>C40. The formats round-trip. Hexadecimal output reads back as the same bytes, decimal output as the same
  number, over the whole range of \<^verbatim>\<open>u64\<close> and \<^verbatim>\<open>i128\<close>; so the canonical spelling of a call is parsed back
  to exactly its values, and the tool signs the determination with those values, for that contract
  and network, and nothing else.\<close>

theorem evidence_call_roundtrip:
  assumes "from_slice lib sk_bytes = Some sk" and "address_from_str lib contract = Some receiver"
    and "policy_id \<le> u64_max" and "season \<le> u64_max" and "assessed \<le> u64_max"
    and "i128_min \<le> lat \<and> lat \<le> i128_max" and "i128_min \<le> lon \<and> lon \<le> i128_max"
    and "i128_min \<le> ins * 4200 \<and> ins * 4200 \<le> i128_max"
  shows "sign_evidence lib e (sign_command sk_bytes contract domain policy_id season assessed lat lon ins) =
     (let d = evidence_determination policy_id season assessed lat lon ins (ins * 4200 sdiv 10000);
          digest = drought_determination_digest e d receiver domain
      in map_option (\<lambda>(sig, recid). \<lparr>ev_digest = digest, ev_signature = sig, ev_recovery_id = recid, ev_d = d\<rparr>)
           (sign_prehash lib sk digest))"
proof -
  have ins: "i128_min \<le> ins" "ins \<le> i128_max" using assms(8) by (simp_all add: i128_min_def i128_max_def)
  show ?thesis
    using assms
    by (simp add: sign_evidence_def sign_command_def arg_def signing_key_def unhex_hex parse_u64_dec parse_i128_dec
        ins be_value_to_array BP_def Let_def checked_i128_def map_option_case split: option.split)
qed

theorem evidence_call_roundtrip_witness:
  "\<exists>ev. sign_evidence sample_lib sample_env sample_call = Some ev \<and> d_payout_amount (ev_d ev) = 2100000000"
proof -
  have "5000000000 * 4200 sdiv 10000 = (2100000000 :: int)" by (simp add: signed_divide_int_def)
  then show ?thesis
    unfolding sample_call_def
    by (subst evidence_call_roundtrip [where sk = "be_value (replicate 32 1)" and receiver = "Address 200"])
      (simp_all add: sample_lib_def u64_max_def i128_min_def i128_max_def Let_def evidence_determination_def)
qed

text \<open>C39. The receiver accepts what the tool builds. A successful run read every argument: it signed with
  the key of the first one, for the contract the second names and the network domain whose 32 bytes
  the third spells, the determination whose policy, season start, assessment time, coordinates and
  sum insured are the remaining ones. That is the 42 percent determination of its season: it passes
  every check of the receiver on the determination itself exactly when the season starts at
  midnight, its payout is the exact share of the sum insured it states, and the signed digest is the
  one the receiver at that contract rebuilds when it stores that network domain.\<close>

theorem evidence_accepted:
  assumes "sign_evidence lib e args = Some ev"
  shows "\<exists>sk receiver domain.
    signing_key lib (args ! 1) = Some sk \<and> address_from_str lib (args ! 2) = Some receiver \<and>
    unhex (args ! 3) = Some (to_array domain) \<and>
    parse_u64 (args ! 4) = Some (d_on_chain_policy_id (ev_d ev)) \<and>
    parse_u64 (args ! 5) = Some (d_season_start_epoch (ev_d ev)) \<and>
    parse_u64 (args ! 6) = Some (d_assessed_at (ev_d ev)) \<and>
    parse_i128 (args ! 7) = Some (d_latitude_e6 (ev_d ev)) \<and>
    parse_i128 (args ! 8) = Some (d_longitude_e6 (ev_d ev)) \<and>
    parse_i128 (args ! 9) = Some (d_sum_insured (ev_d ev)) \<and>
    sign_prehash lib sk (ev_digest ev) = Some (ev_signature ev, ev_recovery_id ev) \<and>
    (drought_claim (ev_d ev) \<longleftrightarrow> SECONDS_PER_DAY dvd d_season_start_epoch (ev_d ev)) \<and>
    rdi_v1_drought_damage (d_rain_w1_e2 (ev_d ev)) (d_rain_ref_w1_e2 (ev_d ev)) (d_rain_w2_e2 (ev_d ev))
      (d_rain_ref_w2_e2 (ev_d ev)) = Inr (Some 42) \<and>
    (\<forall>p. p_sum_insured p = d_sum_insured (ev_d ev) \<longrightarrow>
       require_payout p (d_damage_percent_bp (ev_d ev)) (d_payout_amount (ev_d ev)) = Inr ()) \<and>
    (\<forall>s e'. keccak256 e' = keccak256 e \<and> address_xdr e' = address_xdr e \<and>
       current_contract_address e' = receiver \<and> pr_network_domain s = Some domain \<longrightarrow>
       pr_drought_determination_digest e' (ev_d ev) s = Inr (ev_digest ev))"
proof -
  from sign_evidence_Some [OF assms] obtain i season assessed lat lon ins receiver domain sk where
    parsed: "parse_u64 (args ! 4) = Some i" "parse_u64 (args ! 5) = Some season" "parse_u64 (args ! 6) = Some assessed"
      "parse_i128 (args ! 7) = Some lat" "parse_i128 (args ! 8) = Some lon" "parse_i128 (args ! 9) = Some ins"
    and d: "ev_d ev = evidence_determination i season assessed lat lon ins (ins * 4200 sdiv 10000)"
    and range: "i128_min \<le> ins * 4200" "ins * 4200 \<le> i128_max"
    and names: "address_from_str lib (args ! 2) = Some receiver" "unhex (args ! 3) = Some (to_array domain)"
    and digest: "ev_digest ev = drought_determination_digest e (ev_d ev) receiver domain"
    and signed: "signing_key lib (args ! 1) = Some sk"
      "sign_prehash lib sk (ev_digest ev) = Some (ev_signature ev, ev_recovery_id ev)"
    by (elim exE conjE) (rule that)
  have same: "drought_determination_digest e' x c n = drought_determination_digest e x c n"
    if "keccak256 e' = keccak256 e" "address_xdr e' = address_xdr e" for e' x c n
    using that by (simp add: drought_determination_digest_def encode_drought_preimage_def keccak_of_def Let_def)
  have "rdi_v1_drought_damage 31130 27260 16280 22305 = Inr (Some 42)"
    using rdi_eq_index [of 27260 22305 31130 16280] canonical_vectors(6) by (simp add: MAX_RAIN_E2_def)
  then have rain: "rdi_v1_drought_damage (d_rain_w1_e2 (ev_d ev)) (d_rain_ref_w1_e2 (ev_d ev)) (d_rain_w2_e2 (ev_d ev))
      (d_rain_ref_w2_e2 (ev_d ev)) = Inr (Some 42)"
    by (simp add: d evidence_determination_def)
  have pay: "\<forall>p. p_sum_insured p = d_sum_insured (ev_d ev) \<longrightarrow>
      require_payout p (d_damage_percent_bp (ev_d ev)) (d_payout_amount (ev_d ev)) = Inr ()"
    using range by (simp add: d evidence_determination_def BP_def payout_share_def BASIS_POINTS_def)
  have claim: "drought_claim (ev_d ev) \<longleftrightarrow> SECONDS_PER_DAY dvd d_season_start_epoch (ev_d ev)"
    unfolding d evidence_claim by (simp add: evidence_determination_def SECONDS_PER_DAY_def)
  have "pr_drought_determination_digest e' (ev_d ev) s = Inr (ev_digest ev)"
    if "keccak256 e' = keccak256 e" "address_xdr e' = address_xdr e" "current_contract_address e' = receiver"
      "pr_network_domain s = Some domain" for s e'
    by (simp add: pr_drought_determination_digest_def network_domain_def that(3,4) same [OF that(1,2)] digest)
  then have rebuilt: "\<forall>s e'. keccak256 e' = keccak256 e \<and> address_xdr e' = address_xdr e \<and>
          current_contract_address e' = receiver \<and> pr_network_domain s = Some domain \<longrightarrow>
          pr_drought_determination_digest e' (ev_d ev) s = Inr (ev_digest ev)" by blast
  have read: "parse_u64 (args ! 4) = Some (d_on_chain_policy_id (ev_d ev))"
    "parse_u64 (args ! 5) = Some (d_season_start_epoch (ev_d ev))" "parse_u64 (args ! 6) = Some (d_assessed_at (ev_d ev))"
    "parse_i128 (args ! 7) = Some (d_latitude_e6 (ev_d ev))" "parse_i128 (args ! 8) = Some (d_longitude_e6 (ev_d ev))"
    "parse_i128 (args ! 9) = Some (d_sum_insured (ev_d ev))"
    by (simp_all add: d evidence_determination_def parsed)
  show ?thesis
    by (rule exI [of _ sk], rule exI [of _ receiver], rule exI [of _ domain], intro conjI)
      (rule signed names read claim rain pay rebuilt)+
qed

theorem evidence_accepted_witness:
  "\<exists>ev. sign_evidence sample_lib sample_env sample_call = Some ev \<and> drought_claim (ev_d ev)"
proof -
  obtain ev where ev: "sign_evidence sample_lib sample_env sample_call = Some ev"
    and d: "ev_d ev = evidence_determination 1 1699920000 1709424000 9000000 8000000 5000000000 2100000000"
    using sample_call_signs by blast
  have "SECONDS_PER_DAY dvd d_season_start_epoch (ev_d ev)"
    by (simp add: d evidence_determination_def SECONDS_PER_DAY_def)
  with evidence_accepted [OF ev] ev show ?thesis by blast
qed

end
