(* ===== verification/Keepers.thy ===== *)
theory Keepers
  imports Verdict
begin

text \<open>
  The keepers. One call of the PayoutReceiver that nobody has to sign extends the instances of all four
  contracts, and one call per policy extends what each of them stores for that policy. Both go through in every
  reachable state of the system, leave the books as they are, and on a host that follows the documented rent
  rule they leave every entry paid for as long as its class of rent asks, less the hysteresis of the code.
\<close>

section \<open>What an extension leaves\<close>

text \<open>The entry, if there is one, is paid for n more ledgers (or the network's limit), less one day.\<close>

definition lasts :: "env \<Rightarrow> nat \<Rightarrow> ('k, 'v) storage \<Rightarrow> 'k \<Rightarrow> bool" where
  "lasts e n st k \<longleftrightarrow> (\<forall>l. live_until st k = Some l \<longrightarrow>
     min n (max_ttl e) = 0 \<or> sequence e + min n (max_ttl e) \<le> l + DAY_LEDGERS)"

definition pending_lasts :: "env \<Rightarrow> ('k, 'v) storage \<Rightarrow> 'k \<Rightarrow> bool" where
  "pending_lasts e st k \<longleftrightarrow>
     (\<forall>l. live_until st k = Some l \<longrightarrow> sequence e + min PENDING_THRESHOLD_LEDGERS (max_ttl e) \<le> l)"

lemma subcall_host [simp]:
  "documented_extend_ttl (subcall e c) = documented_extend_ttl e" "ledgers_until (subcall e c) = ledgers_until e"
  "lasts (subcall e c) = lasts e" "pending_lasts (subcall e c) = pending_lasts e" "bumped (subcall e c) = bumped e"
  "keep_contract_alive (subcall e c) = keep_contract_alive e" "touch_contract (subcall e c) = touch_contract e"
  by (simp_all add: fun_eq_iff documented_extend_ttl_def ledgers_until_def lasts_def pending_lasts_def bumped_def keep_contract_alive_def
      touch_contract_def Let_def)

lemma subcall_kept [simp]:
  "shared_need (subcall e c) = shared_need e" "kept (subcall e c) = kept e" "kept_if (subcall e c) = kept_if e"
  by (intro ext; unfold shared_need_def kept_def kept_if_def subcall_simps subcall_host; rule refl)+

lemma kept_lasts:
  assumes "documented_extend_ttl e"
  shows "lasts e n (kept e k n st) k" and "lasts e n (kept_if e k n st) k"
proof -
  show kept: "lasts e n (kept e k n st) k"
  proof (cases "min n (max_ttl e) = 0")
    case False
    define m where "m = min n (max_ttl e)"
    have "m - DAY_LEDGERS \<le> m" by simp
    moreover have "m \<le> max_ttl e" unfolding m_def by (rule min.cobounded2)
    ultimately have *: "sequence e + (m - DAY_LEDGERS) \<le> host_extend_ttl e l (m - DAY_LEDGERS) m" for l
      by (rule documented_extend_ttlD(4) [OF assms])
    then have "sequence e + m \<le> host_extend_ttl e l (m - DAY_LEDGERS) m + DAY_LEDGERS" for l
      using * [of l] by linarith
    then show ?thesis using False
      by (auto simp: lasts_def kept_def Let_def live_until_def bumped_def m_def [symmetric])
  qed (simp add: lasts_def)
  show "lasts e n (kept_if e k n st) k"
    using kept by (auto simp: kept_if_def lasts_def live_until_def has_def)
qed

lemma lasts_absent: "\<not> has st k \<Longrightarrow> lasts e n st k"
  by (simp add: lasts_def live_until_def has_def split: option.splits)

lemma bumped_lasts:
  assumes "documented_extend_ttl e"
  shows "pending_lasts e (bumped e k (min PENDING_THRESHOLD_LEDGERS (max_ttl e)) (min PENDING_TARGET_LEDGERS (max_ttl e)) st) k"
  using documented_extend_ttlD(4) [OF assms rent_targets_ordered(4) min.cobounded2]
  by (auto simp: pending_lasts_def live_until_def bumped_def)

text \<open>The concrete deployment the theorems are applied to.\<close>

lemma sample_late_documented: "documented_extend_ttl sample_late"
  using sample_env_documented by (simp add: documented_extend_ttl_def sample_late_def sample_pr_env_def)

lemma sample_wired_adapter:
  "pr_settlement_adapter (sys_pr sample_sys) = Some (Address 400)" "sys_adapters sample_sys (Address 400) = Some sample_sa_ready"
  using sample_pr_ready by simp_all

section \<open>The contract keeper\<close>

text \<open>Paid for at least as long as the keeper's threshold.\<close>

definition kept_alive :: "env \<Rightarrow> nat \<Rightarrow> bool" where
  "kept_alive e live \<longleftrightarrow> sequence e + min KEEPER_THRESHOLD_LEDGERS (max_ttl e) \<le> live"

lemma kept_alive_other: "keep_other_contract_alive e = keep_contract_alive e"
  by (simp add: fun_eq_iff keep_other_contract_alive_def keep_contract_alive_def)

lemma keep_all:
  assumes inv: "sys_inv this t sys" and ad: "pr_settlement_adapter (sys_pr sys) = Some ad" "sys_adapters sys ad = Some a"
    and pm: "pr_policy_manager (sys_pr sys) = Some pm" and nft: "pm_policy_nft (snd (sys_pm sys)) = Some addr"
  obtains n sys' where "fst (sys_pm sys) addr = Some n" and "pr_extend_contract_ttl real_pm real_adapter e sys = Inr sys'"
    and "sys' = \<lparr>sys_pr = (sys_pr sys)\<lparr>pr_instance_live := keep_contract_alive e (pr_instance_live (sys_pr sys))\<rparr>,
      sys_pm = ((fst (sys_pm sys))(addr \<mapsto> n\<lparr>nft_instance_live := keep_contract_alive e (nft_instance_live n)\<rparr>),
        (snd (sys_pm sys))\<lparr>pm_instance_live := keep_contract_alive e (pm_instance_live (snd (sys_pm sys)))\<rparr>),
      sys_adapters = (sys_adapters sys)(ad \<mapsto> a\<lparr>sa_instance_live := keep_contract_alive e (sa_instance_live a)\<rparr>)\<rparr>"
proof -
  obtain n where n: "fst (sys_pm sys) addr = Some n"
    using inv nft unfolding sys_inv_def deployment_ok_def nft_wired_def by auto
  obtain pr pms ads where sys: "sys = \<lparr>sys_pr = pr, sys_pm = pms, sys_adapters = ads\<rparr>" by (cases sys) simp
  obtain ns s where pms: "pms = (ns, s)" by (cases pms) simp
  have sib: "siblings (pr\<lparr>pr_instance_live := l\<rparr>) = Inr (ad, pm)" for l using ad pm sys by simp
  show thesis
    using that [OF n] ad(2) nft n
    by (simp add: sys pms pr_extend_contract_ttl_def pm_extend_contract_ttl_def Let_def kept_alive_other sib del: siblings_Inr)
qed

text \<open>C32. The contract keeper. In every reachable state with a deployed adapter and a wired certificate
  contract, one call that nobody signs extends the instance of the receiver, the manager, the certificate contract
  and the adapter, each to at least the keeper's threshold on a host with the documented rent rule, exactly to its target
  where it was below the threshold and never to less than it had; nothing in the books moves.\<close>

theorem contract_keeper_reaches_all:
  assumes reach: "sys_reachable this t sys" and host: "documented_extend_ttl e"
    and ad: "pr_settlement_adapter (sys_pr sys) = Some ad" "sys_adapters sys ad = Some a"
    and nft: "pm_policy_nft (snd (sys_pm sys)) = Some addr"
  shows "\<exists>sys' n n' a'. pr_extend_contract_ttl real_pm real_adapter e sys = Inr sys' \<and> quiet_call e sys sys' \<and>
     fst (sys_pm sys) addr = Some n \<and> fst (sys_pm sys') addr = Some n' \<and> sys_adapters sys' ad = Some a' \<and>
     list_all (\<lambda>(old, new). kept_alive e new \<and> old \<le> new \<and>
         (\<not> kept_alive e old \<longrightarrow> new = sequence e + min KEEPER_TARGET_LEDGERS (max_ttl e)))
       [(pr_instance_live (sys_pr sys), pr_instance_live (sys_pr sys')),
        (pm_instance_live (snd (sys_pm sys)), pm_instance_live (snd (sys_pm sys'))),
        (nft_instance_live n, nft_instance_live n'), (sa_instance_live a, sa_instance_live a')]"
proof -
  have inv: "sys_inv this t sys" by (rule sys_reachable_inv [OF reach])
  obtain pm where pm: "pr_policy_manager (sys_pr sys) = Some pm" using pr_configured [OF sys_pr_reachable [OF reach]] by blast
  have live: "kept_alive e (keep_contract_alive e l) \<and> l \<le> keep_contract_alive e l \<and>
      (\<not> kept_alive e l \<longrightarrow> keep_contract_alive e l = sequence e + min KEEPER_TARGET_LEDGERS (max_ttl e))" for l
    using documented_extend_ttlD [OF host rent_targets_ordered(2) min.cobounded2, of l]
    by (auto simp: kept_alive_def keep_contract_alive_def)
  show ?thesis
  proof (rule keep_all [OF inv ad pm nft, of e])
    fix n sys'
    assume *: "fst (sys_pm sys) addr = Some n" "pr_extend_contract_ttl real_pm real_adapter e sys = Inr sys'"
      "sys' = \<lparr>sys_pr = (sys_pr sys)\<lparr>pr_instance_live := keep_contract_alive e (pr_instance_live (sys_pr sys))\<rparr>,
        sys_pm = ((fst (sys_pm sys))(addr \<mapsto> n\<lparr>nft_instance_live := keep_contract_alive e (nft_instance_live n)\<rparr>),
          (snd (sys_pm sys))\<lparr>pm_instance_live := keep_contract_alive e (pm_instance_live (snd (sys_pm sys)))\<rparr>),
        sys_adapters = (sys_adapters sys)(ad \<mapsto> a\<lparr>sa_instance_live := keep_contract_alive e (sa_instance_live a)\<rparr>)\<rparr>"
    then show ?thesis using quiet_keeps [OF *(2)] live by auto
  qed
qed


theorem contract_keeper_reaches_all_witness:
  "\<exists>sys'. pr_extend_contract_ttl real_pm real_adapter sample_late sample_sys = Inr sys' \<and>
     pr_book (sys_pr sys') = pr_book (sys_pr sample_sys)"
proof -
  have "pm_policy_nft (snd (sys_pm sample_sys)) = Some (Address 300)" using sample_world(4) by (simp add: pm_rest_def)
  then obtain sys' where "pr_extend_contract_ttl real_pm real_adapter sample_late sample_sys = Inr sys'"
    and "quiet_call sample_late sample_sys sys'"
    using contract_keeper_reaches_all [OF sample_sys_system sample_late_documented sample_wired_adapter] by blast
  then show ?thesis unfolding quiet_call_def by blast
qed

section \<open>The policy keeper\<close>

definition policy_need :: "env \<Rightarrow> nat \<Rightarrow> nat" where
  "policy_need e t = ledgers_until e (saturating_add_u64 t POLICY_GRACE_SECS)"

text \<open>What the manager stores for a policy, for its farmer and for its organisation.\<close>

definition manager_lasts :: "env \<Rightarrow> policy \<Rightarrow> pm_state \<Rightarrow> bool" where
  "manager_lasts e p s \<longleftrightarrow>
     (let need = policy_need e (p_end_date p); shared = shared_need e (Some (p_end_date p)) in
      lasts e need (pm_policy s) (p_id p) \<and> lasts e need (pm_pending_counted s) (p_id p) \<and>
      lasts e shared (pm_farmer_active s) (p_farmer p) \<and> lasts e shared (pm_farmer_pending s) (p_farmer p) \<and>
      lasts e shared (pm_farmer_policy_count s) (p_farmer p) \<and> lasts e shared (pm_org_outstanding s) (p_org p) \<and>
      lasts e (max (ledgers_until e (saturating_add_u64 (timestamp e) CLAIM_HISTORY_SECS)) SHARED_FLOOR_LEDGERS)
        (pm_claim_times s) (p_farmer p))"

lemma pm_rented_lasts: "documented_extend_ttl e \<Longrightarrow> manager_lasts e p (pm_rented e p s)"
  by (simp add: manager_lasts_def pm_rented_def Let_def policy_need_def pm_bump_instance_def kept_lasts)

text \<open>The certificate of the policy, its token and its owner.\<close>

definition certificate_lasts :: "env \<Rightarrow> nat \<Rightarrow> nft_state \<Rightarrow> bool" where
  "certificate_lasts e i n \<longleftrightarrow>
     (\<forall>t c. get (nft_policy_to_token n) i = Some t \<longrightarrow> get (nft_certificate n) t = Some c \<longrightarrow>
        (let need = policy_need e (c_end_date c) in
         lasts e need (nft_policy_to_token n) i \<and> lasts e need (nft_certificate n) t \<and> lasts e need (nft_owner n) t))"

lemma nft_rented_lasts:
  assumes "documented_extend_ttl e"
  shows "certificate_lasts e i (nft_rented e i n)"
  unfolding certificate_lasts_def nft_rented_simps
  by (auto simp: nft_rented_def nft_bump_instance_def Let_def policy_need_def kept_lasts [OF assms] lasts_absent)

text \<open>The obligation of the policy while it is not settled, with the entries of both its indexes.\<close>

definition obligation_lasts :: "env \<Rightarrow> address \<Rightarrow> nat \<Rightarrow> sa_state \<Rightarrow> bool" where
  "obligation_lasts e this i a \<longleftrightarrow>
     (\<forall>ob. obligation_for a (this, i) = Some ob \<longrightarrow> o_status ob \<noteq> Settled \<longrightarrow>
        pending_lasts e (sa_obligation a) (o_id ob) \<and> pending_lasts e (sa_obligation_of a) (this, i) \<and>
        pending_lasts e (sa_org_at a) (o_org ob, o_org_index ob) \<and>
        lasts e SHARED_FLOOR_LEDGERS (sa_org_count a) (o_org ob))"

lemma obligation_rented_lasts:
  assumes inv: "sa_inv a" and host: "documented_extend_ttl e" and j: "find_obligation this i a = Some j"
  shows "\<exists>a'. extend_obligation_ttl e j a = Inr a' \<and> obligation_lasts e this i a'"
proof -
  have *: "get (sa_obligation_of a) (this, i) = Some j" using j by (simp add: find_obligation_def)
  obtain ob where ob: "get (sa_obligation a) j = Some ob" "(o_payout_receiver ob, o_policy_id ob) = (this, i)"
    using sa_invD(3) [OF inv *] by blast
  have key: "o_payout_receiver ob = this" "o_policy_id ob = i" using ob(2) by simp_all
  have "extend_entries e ob (sa_touch e a) = Inr (sa_rented e ob (sa_touch e a))"
    by (rule extend_entries_stored [OF inv ob(1)]) simp_all
  moreover have "obligation_lasts e this i (sa_touch e a)" if "o_status ob = Settled"
    using that * ob(1) by (simp add: obligation_lasts_def obligation_for_def)
  moreover have "obligation_lasts e this i (sa_rented e ob (sa_touch e a))"
    using * ob(1)
    by (simp add: obligation_lasts_def obligation_for_def)
      (simp add: sa_rented_def Let_def key shared_need_def bumped_lasts [OF host] kept_lasts(1) [OF host])
  ultimately show ?thesis
    using ob(1) by (cases "o_status ob = Settled") (simp_all add: extend_obligation_ttl_def Let_def)
qed

lemma subcall_lasts [simp]:
  "policy_need (subcall e c) = policy_need e" "manager_lasts (subcall e c) = manager_lasts e"
  "certificate_lasts (subcall e c) = certificate_lasts e" "obligation_lasts (subcall e c) = obligation_lasts e"
  by (simp_all add: fun_eq_iff policy_need_def manager_lasts_def certificate_lasts_def obligation_lasts_def)

lemma kept_flag:
  "extend_for_policy_if e k t st = Inr (kept_if e k (policy_need e t) st)"
  by (simp add: extend_for_policy_if_def kept_if_def policy_need_def)

text \<open>What the receiver's two calls at the adapter leave there.\<close>

definition adapters_rented ::
  "env \<Rightarrow> address \<Rightarrow> nat \<Rightarrow> (address \<Rightarrow> sa_state option) \<Rightarrow> address \<Rightarrow> sa_state option" where
  "adapters_rented e ad i ads =
     (case adapter_call ads ad (adc_find_obligation real_adapter (subcall e ad) (current_contract_address e) i) of
        Inr (Some j, ads1) \<Rightarrow>
          (case adapter_call ads1 ad (\<lambda>a. bindE (adc_extend_obligation_ttl real_adapter (subcall e ad) j a) (\<lambda>a. Inr ((), a))) of
             Inr (_, ads2) \<Rightarrow> ads2 | Inl _ \<Rightarrow> ads1)
      | Inr (None, ads1) \<Rightarrow> ads1 | Inl _ \<Rightarrow> ads)"

lemma adapters_rented_eq:
  assumes "ads ad = Some a"
  shows "find_obligation (current_contract_address e) i a = None \<Longrightarrow> adapters_rented e ad i ads = ads"
    and "find_obligation (current_contract_address e) i a = Some j \<Longrightarrow>
      extend_obligation_ttl (subcall e ad) j a = Inr a' \<Longrightarrow> adapters_rented e ad i ads = ads(ad \<mapsto> a')"
  using assms by (simp_all add: adapters_rented_def adapter_call_def map_upd_triv)

lemma adapters_rented_last:
  assumes inv: "\<And>ad a. ads ad = Some a \<Longrightarrow> sa_inv a" and host: "documented_extend_ttl e"
    and a': "adapters_rented e ad i ads ad = Some a'"
  shows "obligation_lasts e (current_contract_address e) i a'"
proof (cases "ads ad")
  case None
  then show ?thesis using a' by (simp add: adapters_rented_def adapter_call_def)
next
  case (Some a)
  show ?thesis
  proof (cases "find_obligation (current_contract_address e) i a")
    case None
    with a' Some show ?thesis
      by (simp add: adapters_rented_eq obligation_lasts_def obligation_for_def find_obligation_def)
  next
    case (Some j)
    with obligation_rented_lasts [OF inv [OF \<open>ads ad = Some a\<close>], of "subcall e ad" "current_contract_address e" i j] host
      a' \<open>ads ad = Some a\<close> show ?thesis
      by (auto simp: adapters_rented_eq)
  qed
qed

text \<open>The whole call succeeds, and this is the system after it.\<close>

definition certificates_rented :: "env \<Rightarrow> nat \<Rightarrow> pm_state \<Rightarrow> nfts \<Rightarrow> nfts" where
  "certificates_rented e i s ns = (case pm_policy_nft s of None \<Rightarrow> ns
     | Some addr \<Rightarrow> (case ns addr of None \<Rightarrow> ns | Some n \<Rightarrow> ns(addr \<mapsto> nft_rented (subcall e addr) i n)))"

definition system_rented :: "env \<Rightarrow> address \<Rightarrow> address \<Rightarrow> policy \<Rightarrow> system \<Rightarrow> system" where
  "system_rented e ad pm p sys =
     (let i = p_id p; n = policy_need e (p_end_date p); pr = sys_pr sys; (ns, s) = sys_pm sys in
      \<lparr>sys_pr = (pr_touch e pr)\<lparr>pr_policy_paid := kept_if e i n (pr_policy_paid pr), pr_report := kept_if e i n (pr_report pr)\<rparr>,
       sys_pm = (certificates_rented (subcall e pm) i s ns, pm_rented (subcall e pm) p (policy_rented (subcall e pm) p s)),
       sys_adapters = adapters_rented e ad i (sys_adapters sys)\<rparr>)"

lemma rent_all:
  assumes p: "get (pm_policy (snd (sys_pm sys))) i = Some p" "p_id p = i"
    and wires: "pr_settlement_adapter (sys_pr sys) = Some ad" "pr_policy_manager (sys_pr sys) = Some pm"
  shows "pr_extend_policy_ttl real_pm real_adapter e i sys = Inr (system_rented e ad pm p sys)"
proof -
  obtain pr ns s ads where sys: "sys = \<lparr>sys_pr = pr, sys_pm = (ns, s), sys_adapters = ads\<rparr>"
    by (cases sys; cases "sys_pm sys") simp
  have p': "get (pm_policy s) i = Some p" using p(1) sys by simp
  have get: "pm_get_policy (subcall e pm) i s = Inr (p, policy_rented (subcall e pm) p s)"
    using p' p(2) by (simp add: pm_get_policy_def load_policy_eq)
  have rent: "pm_extend_policy_ttl (subcall e pm) i ns (policy_rented (subcall e pm) p s) =
      Inr (certificates_rented (subcall e pm) i s ns, pm_rented (subcall e pm) p (policy_rented (subcall e pm) p s))"
    using pm_extend_policy_ttl_eq [of "policy_rented (subcall e pm) p s" i p "subcall e pm" ns] p' p(2)
    by (simp add: certificates_rented_def)
  have sib: "siblings (pr_touch e pr) = Inr (ad, pm)" using wires sys by (simp add: pr_touch_def)
  have flags: "pr_policy_paid (pr_touch e pr) = pr_policy_paid pr" "pr_report (pr_touch e pr) = pr_report pr"
    by (simp_all add: pr_touch_def)
  show ?thesis
    unfolding pr_extend_policy_ttl_def Let_def sys pr_sys.select_convs sib adapters_rented_def [symmetric]
    by (simp add: get rent kept_flag flags system_rented_def Let_def p(2))
qed

text \<open>C31. The policy keeper. In every reachable state, one call that nobody signs pays the rent of a
  stored policy wherever it is stored, and the books stay as they are. On a host with the documented rent rule the
  policy, its flag and its report at the receiver, the counters of its farmer and its organisation, its certificate
  with token and owner, and its obligation with both indexes while it is unpaid then live as long as their class asks,
  less the one day of hysteresis.\<close>

theorem policy_keeper_reaches_all:
  assumes reach: "sys_reachable this t sys" and host: "documented_extend_ttl e"
    and p: "get (pm_policy (snd (sys_pm sys))) i = Some p"
  shows "\<exists>sys'. pr_extend_policy_ttl real_pm real_adapter e i sys = Inr sys' \<and> quiet_call e sys sys' \<and>
     manager_lasts e p (snd (sys_pm sys')) \<and>
     lasts e (policy_need e (p_end_date p)) (pr_policy_paid (sys_pr sys')) i \<and>
     lasts e (policy_need e (p_end_date p)) (pr_report (sys_pr sys')) i \<and>
     (\<forall>addr n. pm_policy_nft (snd (sys_pm sys)) = Some addr \<longrightarrow> fst (sys_pm sys') addr = Some n \<longrightarrow> certificate_lasts e i n) \<and>
     (\<forall>ad a. pr_settlement_adapter (sys_pr sys) = Some ad \<longrightarrow> sys_adapters sys' ad = Some a \<longrightarrow>
        obligation_lasts e (current_contract_address e) i a)"
proof -
  have inv: "sys_inv this t sys" by (rule sys_reachable_inv [OF reach])
  have ok: "pm_ok (pm_view (snd (sys_pm sys)))" and sa: "\<And>ad a. sys_adapters sys ad = Some a \<Longrightarrow> sa_inv a"
    using inv pm_reached_ok unfolding sys_inv_def by blast+
  obtain ad pm where wires: "pr_settlement_adapter (sys_pr sys) = Some ad" "pr_policy_manager (sys_pr sys) = Some pm"
    by (rule sys_configured [OF reach])
  have id: "p_id p = i" using pm_okD(3) [OF ok, of i p] p by simp
  let ?sys' = "system_rented e ad pm p sys"
  note call = rent_all [OF p id wires, of e]
  have quiet: "quiet_call e sys ?sys'" by (rule quiet_rents [OF call ok sa])
  obtain ns s where m: "sys_pm sys = (ns, s)" by (cases "sys_pm sys")
  have debt: "obligation_lasts e (current_contract_address e) i a" if "sys_adapters ?sys' ad = Some a" for a
    using adapters_rented_last [of "sys_adapters sys" e ad i a] sa host that by (simp add: system_rented_def Let_def m id)
  have "manager_lasts e p (snd (sys_pm ?sys'))"
    using pm_rented_lasts [of "subcall e pm" p] host by (simp add: system_rented_def Let_def m)
  moreover have "lasts e (policy_need e (p_end_date p)) (pr_policy_paid (sys_pr ?sys')) i"
    "lasts e (policy_need e (p_end_date p)) (pr_report (sys_pr ?sys')) i"
    using kept_lasts(2) [OF host] by (simp_all add: system_rented_def Let_def m id)
  moreover have "certificate_lasts e i n"
    if "pm_policy_nft (snd (sys_pm sys)) = Some addr" "fst (sys_pm ?sys') addr = Some n" for addr n
    using that nft_rented_lasts [of "subcall (subcall e pm) addr" i] host
    by (auto simp: system_rented_def Let_def certificates_rented_def m id split: option.splits)
  ultimately show ?thesis using call quiet debt wires(1) by (intro exI [of _ ?sys']) auto
qed

theorem policy_keeper_reaches_all_witness:
  "\<exists>sys'. pr_extend_policy_ttl real_pm real_adapter sample_late 1 sample_sys = Inr sys' \<and>
     manager_lasts sample_late sample_active (snd (sys_pm sys'))"
  using policy_keeper_reaches_all [OF sample_sys_system sample_late_documented, of 1 sample_active] sample_world(3) by auto

end
