(* ===== verification/IntegrationWorld.thy ===== *)
theory IntegrationWorld
  imports Verdict Outcome EvidenceSigner "HOL-Library.Monad_Syntax"
begin

text \<open>
  The harness of the integration tests (\<^verbatim>\<open>crates/integration-tests/src/lib.rs\<close>): its parameters, the
  deployment and wiring of the four contracts as \<^verbatim>\<open>scripts/deploy.sh\<close> does it, and the helpers the
  tests are written with. A test runs in the option monad: \<open>None\<close> is a panic, of an assertion or of a
  client call that fails. \<open>Address::generate\<close> is a parameter, the k-th address it returns; the
  signature library is that of \<open>EvidenceSigner\<close>.
\<close>

section \<open>Test parameters\<close>

definition PLANT :: nat where "PLANT = 1743465600"
definition NOW :: nat where "NOW = PLANT + 6 * 3600"
definition SUM_INSURED :: int where "SUM_INSURED = 10000000000"
definition PREMIUM :: int where "PREMIUM = 1000000000"
definition DAMAGE_BP :: nat where "DAMAGE_BP = 5000"
definition PAYOUT :: int where "PAYOUT = 5000000000"
definition DURATION_DAYS :: nat where "DURATION_DAYS = 150"
definition ASSESSED :: nat where "ASSESSED = PLANT + 117 * 86400"
definition PLOT_LAT_E6 :: int where "PLOT_LAT_E6 = - 1286389"
definition PLOT_LON_E6 :: int where "PLOT_LON_E6 = 36817223"

lemmas test_constants =
  PLANT_def NOW_def SUM_INSURED_def PREMIUM_def DAMAGE_BP_def PAYOUT_def DURATION_DAYS_def ASSESSED_def
  PLOT_LAT_E6_def PLOT_LON_E6_def

section \<open>Signing helpers\<close>

text \<open>\<^verbatim>\<open>BytesN::from_array(env, &[b; 32])\<close>.\<close>

definition bytes32_of :: "byte \<Rightarrow> bytes32" where
  "bytes32_of b = word_of_nat (be_value (replicate 32 b))"

definition sk_from :: "'k signing_lib \<Rightarrow> byte \<Rightarrow> 'k option" where
  "sk_from lib b = from_slice lib (replicate 32 b)"

definition pubkey65 :: "'k signing_lib \<Rightarrow> 'k \<Rightarrow> bytes65" where
  "pubkey65 lib sk = word_of_nat (be_value (encoded_point lib sk))"

definition sign_digest :: "'k signing_lib \<Rightarrow> 'k \<Rightarrow> bytes32 \<Rightarrow> (bytes64 \<times> nat) option" where
  "sign_digest lib sk digest = sign_prehash lib sk digest"

definition sign_for ::
  "'k signing_lib \<Rightarrow> env \<Rightarrow> 'k \<Rightarrow> address \<Rightarrow> bytes32 \<Rightarrow> drought_determination \<Rightarrow> (bytes64 \<times> nat) option" where
  "sign_for lib e sk pr_addr domain d = sign_digest lib sk (drought_determination_digest e d pr_addr domain)"

definition determination :: "nat \<Rightarrow> int \<Rightarrow> int \<Rightarrow> drought_determination" where
  "determination policy_id sum_insured payout =
     \<lparr>d_on_chain_policy_id = policy_id, d_damage_percent_bp = DAMAGE_BP, d_drought_damage = DAMAGE_BP div 100,
      d_payout_amount = payout, d_assessed_at = ASSESSED, d_latitude_e6 = PLOT_LAT_E6,
      d_longitude_e6 = PLOT_LON_E6, d_sum_insured = sum_insured, d_season_start_epoch = PLANT,
      d_lgp_days = 180, d_rain_w1_e2 = 10000, d_rain_ref_w1_e2 = 20000, d_rain_w2_e2 = 13500,
      d_rain_ref_w2_e2 = 18000, d_cdd_w2_days = 12, d_source_hash = bytes32_of 0x5c,
      d_methodology_params_hash = DROUGHT_PARAMS_HASH_RDI_1_0\<rparr>"

section \<open>The wired-up world\<close>

record 'k world =
  w_env :: env
  w_admin :: address
  w_pm :: address
  w_nft :: address
  w_adapter :: address
  w_pr :: address
  w_backend :: address
  w_farmer :: address
  w_distributor :: address
  w_org :: address
  w_relayer :: address
  w_sk :: 'k
  w_domain :: bytes32
  w_contracts :: system

text \<open>
  A client call is an invocation of a contract that its caller has signed. The mock of the test
  environment signs for everybody; no call of the tests asks for another signature than its caller's.
\<close>

definition signed_call :: "env \<Rightarrow> address \<Rightarrow> address \<Rightarrow> env" where
  "signed_call e contract caller = e\<lparr>current_contract_address := contract, authorizes := (\<lambda>a. a = caller)\<rparr>"

text \<open>A read or a keeper call, which nobody signs.\<close>

definition open_call :: "env \<Rightarrow> address \<Rightarrow> env" where
  "open_call e contract = e\<lparr>current_contract_address := contract, authorizes := (\<lambda>_. False)\<rparr>"

definition ok :: "error + 'a \<Rightarrow> 'a option" where
  "ok m = (case m of Inl _ \<Rightarrow> None | Inr x \<Rightarrow> Some x)"

definition must :: "bool \<Rightarrow> unit option" where
  "must b = (if b then Some () else None)"

definition set_timestamp :: "nat \<Rightarrow> 'k world \<Rightarrow> 'k world" where
  "set_timestamp t w = w\<lparr>w_env := (w_env w)\<lparr>timestamp := t\<rparr>\<rparr>"

definition deploy_with :: "'k signing_lib \<Rightarrow> (nat \<Rightarrow> address) \<Rightarrow> env \<Rightarrow> bool \<Rightarrow> 'k world option" where
  "deploy_with lib generate env do_bind = (
     let e = env\<lparr>timestamp := NOW\<rparr>;
         admin = generate 0; backend = generate 1; farmer = generate 2; distributor = generate 3;
         org = generate 4; relayer = generate 5;
         nft_addr = generate 6; pm_addr = generate 7; adapter_addr = generate 8; pr_addr = generate 9
     in do {
       nft \<leftarrow> ok (nft_constructor (signed_call e nft_addr admin) admin ''MicroCrop Policy'' ''MCP'');
       pm \<leftarrow> ok (pm_constructor (signed_call e pm_addr admin) admin);
       adapter \<leftarrow> ok (sa_constructor (signed_call e adapter_addr admin) admin);
       pr \<leftarrow> ok (pr_constructor (signed_call e pr_addr admin) adapter_addr pm_addr admin);
       pm \<leftarrow> ok (set_policy_nft (signed_call e pm_addr admin) admin nft_addr pm);
       nft \<leftarrow> ok (set_policy_manager (signed_call e nft_addr admin) admin pm_addr nft);
       adapter \<leftarrow> (if do_bind then ok (set_payout_receiver (signed_call e adapter_addr admin) admin pr_addr adapter)
                   else Some adapter);
       pm \<leftarrow> ok (pm_grant_role (signed_call e pm_addr admin) admin Backend backend pm);
       nft \<leftarrow> ok (nft_grant_role (signed_call e nft_addr admin) admin Minter pm_addr nft);
       pm \<leftarrow> ok (pm_grant_role (signed_call e pm_addr admin) admin Oracle pr_addr pm);
       adapter \<leftarrow> ok (sa_grant_role (signed_call e adapter_addr admin) admin Funder backend adapter);
       pr \<leftarrow> ok (pr_grant_role (signed_call e pr_addr admin) admin Relayer relayer pr);
       sk \<leftarrow> sk_from lib 0x11;
       pr \<leftarrow> ok (set_authorized_signer (signed_call e pr_addr admin) admin (pubkey65 lib sk) pr);
       let domain = bytes32_of 0xAB;
       pr \<leftarrow> ok (set_network_domain (signed_call e pr_addr admin) admin domain pr);
       pr \<leftarrow> ok (set_methodology_enabled (signed_call e pr_addr admin) admin CropDroughtRdi10 True pr);
       Some \<lparr>w_env = e, w_admin = admin, w_pm = pm_addr, w_nft = nft_addr, w_adapter = adapter_addr,
         w_pr = pr_addr, w_backend = backend, w_farmer = farmer, w_distributor = distributor, w_org = org,
         w_relayer = relayer, w_sk = sk, w_domain = domain,
         w_contracts = \<lparr>sys_pr = pr, sys_pm = ([nft_addr \<mapsto> nft], pm), sys_adapters = [adapter_addr \<mapsto> adapter]\<rparr>\<rparr>
     })"

definition deploy :: "'k signing_lib \<Rightarrow> (nat \<Rightarrow> address) \<Rightarrow> env \<Rightarrow> 'k world option" where
  "deploy lib generate env = deploy_with lib generate env True"

definition create_and_activate :: "'k world \<Rightarrow> (nat \<times> 'k world) option" where
  "create_and_activate w = (
     let e = signed_call (w_env w) (w_pm w) (w_backend w); (nfts, pm) = sys_pm (w_contracts w) in do {
       (policy_id, pm) \<leftarrow> ok (create_policy e (w_backend w) (w_farmer w) 7 PLOT_LAT_E6 PLOT_LON_E6
         SUM_INSURED PREMIUM DURATION_DAYS Drought (w_org w) pm);
       (nfts, pm) \<leftarrow> ok (activate_policy e (w_backend w) policy_id (w_distributor w) ''Acme Distributor''
         ''Rift Valley'' nfts pm);
       Some (policy_id, w\<lparr>w_contracts := (w_contracts w)\<lparr>sys_pm := (nfts, pm)\<rparr>\<rparr>)
     })"

definition at_assessment :: "'k world \<Rightarrow> 'k world" where
  "at_assessment w = (if timestamp (w_env w) < ASSESSED + 60 then set_timestamp (ASSESSED + 60) w else w)"

text \<open>A \<^verbatim>\<open>try_\<close> call: an error is returned and leaves the contracts as they were.\<close>

definition try_submit ::
  "drought_determination \<Rightarrow> bytes64 \<Rightarrow> nat \<Rightarrow> 'k world \<Rightarrow> (error + unit) \<times> 'k world" where
  "try_submit d sig recid w = (
     let w = at_assessment w in
     case submit_drought_determination real_pm real_adapter (signed_call (w_env w) (w_pr w) (w_relayer w))
         (w_relayer w) d sig recid (w_contracts w) of
       Inl err \<Rightarrow> (Inl err, w)
     | Inr sys \<Rightarrow> (Inr (), w\<lparr>w_contracts := sys\<rparr>))"

definition submit :: "'k signing_lib \<Rightarrow> drought_determination \<Rightarrow> 'k world \<Rightarrow> 'k world option" where
  "submit lib d w = (
     let w = at_assessment w in do {
       (sig, recid) \<leftarrow> sign_for lib (w_env w) (w_sk w) (w_pr w) (w_domain w) d;
       sys \<leftarrow> ok (submit_drought_determination real_pm real_adapter (signed_call (w_env w) (w_pr w) (w_relayer w))
         (w_relayer w) d sig recid (w_contracts w));
       Some (w\<lparr>w_contracts := sys\<rparr>)
     })"

text \<open>Reading a policy pays its rent, so a read returns the world after it.\<close>

definition read_policy :: "nat \<Rightarrow> 'k world \<Rightarrow> (policy \<times> 'k world) option" where
  "read_policy policy_id w = (
     let (nfts, pm) = sys_pm (w_contracts w) in do {
       (policy, pm) \<leftarrow> ok (pm_get_policy (open_call (w_env w) (w_pm w)) policy_id pm);
       Some (policy, w\<lparr>w_contracts := (w_contracts w)\<lparr>sys_pm := (nfts, pm)\<rparr>\<rparr>)
     })"

definition adapter_of :: "'k world \<Rightarrow> sa_state option" where
  "adapter_of w = sys_adapters (w_contracts w) (w_adapter w)"

definition assert_nothing_owed :: "nat \<Rightarrow> 'k world \<Rightarrow> 'k world option" where
  "assert_nothing_owed policy_id w = do {
     must (\<not> is_policy_paid policy_id (sys_pr (w_contracts w)));
     adapter \<leftarrow> adapter_of w;
     must (find_obligation (w_pr w) policy_id adapter = None);
     must (obligation_count adapter = Inr 0);
     (policy, w) \<leftarrow> read_policy policy_id w;
     must (p_status policy = Active);
     Some w
   }"

definition reference :: "byte \<Rightarrow> bytes32" where
  "reference b = bytes32_of b"

section \<open>What the wiring leaves\<close>

lemma signed_call_simps [simp]:
  "timestamp (signed_call e c a) = timestamp e" "current_contract_address (signed_call e c a) = c"
  "authorizes (signed_call e c a) b \<longleftrightarrow> b = a"
  "secp256k1_recover (signed_call e c a) = secp256k1_recover e"
  "drought_determination_digest (signed_call e c a) = drought_determination_digest e"
  "timestamp (open_call e c) = timestamp e" "\<not> authorizes (open_call e c) b"
  "current_contract_address (open_call e c) = c"
  "drought_determination_digest (open_call e c) = drought_determination_digest e"
  by (simp_all add: signed_call_def open_call_def drought_determination_digest_def fun_eq_iff keccak_of_def
      encode_drought_preimage_def)

lemma ok_simps [simp]: "ok (Inr x) = Some x" "ok (Inl err) = None"
  by (simp_all add: ok_def)

lemma must_simps [simp]: "must True = Some ()" "must False = None"
  by (simp_all add: must_def)

text \<open>
  The set-up calls read the ledger sequence and not the clock, so a test may set the clock back after
  its deployment (the 2022 season does).
\<close>

lemma host_clock:
  "put (e\<lparr>timestamp := t\<rparr>) = put e" "extend_role (e\<lparr>timestamp := t\<rparr>) = extend_role e"
  "touch_contract (e\<lparr>timestamp := t\<rparr>) = touch_contract e" "pm_bump_instance (e\<lparr>timestamp := t\<rparr>) = pm_bump_instance e"
  by (simp_all add: fun_eq_iff put_def extend_ttl_def bumped_def extend_role_def touch_contract_def pm_bump_instance_def
      Let_def split: option.split cong: if_cong)

lemma roles_clock:
  "grant_role (e\<lparr>timestamp := t\<rparr>) = grant_role e" "has_role (e\<lparr>timestamp := t\<rparr>) = has_role e"
  "require_role (e\<lparr>timestamp := t\<rparr>) = require_role e"
  by (simp_all add: fun_eq_iff grant_role_def has_role_def require_role_def require_auth_def host_clock Let_def cong: if_cong)

lemma set_up_clock:
  "pm_constructor (e\<lparr>timestamp := t\<rparr>) = pm_constructor e" "set_policy_nft (e\<lparr>timestamp := t\<rparr>) = set_policy_nft e"
  "pm_grant_role (e\<lparr>timestamp := t\<rparr>) = pm_grant_role e"
  "nft_constructor (e\<lparr>timestamp := t\<rparr>) = nft_constructor e" "set_policy_manager (e\<lparr>timestamp := t\<rparr>) = set_policy_manager e"
  "nft_grant_role (e\<lparr>timestamp := t\<rparr>) = nft_grant_role e"
  "pr_constructor (e\<lparr>timestamp := t\<rparr>) = pr_constructor e" "pr_grant_role (e\<lparr>timestamp := t\<rparr>) = pr_grant_role e"
  "set_authorized_signer (e\<lparr>timestamp := t\<rparr>) = set_authorized_signer e"
  "set_network_domain (e\<lparr>timestamp := t\<rparr>) = set_network_domain e"
  "set_methodology_enabled (e\<lparr>timestamp := t\<rparr>) = set_methodology_enabled e"
  by (simp_all add: fun_eq_iff pm_constructor_def set_policy_nft_def pm_grant_role_def pm_deployed_def nft_constructor_def
      set_policy_manager_def nft_grant_role_def nft_deployed_def pr_constructor_def pr_grant_role_def
      set_authorized_signer_def set_network_domain_def set_methodology_enabled_def pr_deployed_def pr_touch_def
      nft_bump_instance_def host_clock roles_clock Let_def cong: if_cong)

text \<open>The policy manager, with its certificate contract, backend and oracle.\<close>

lemma pm_wiring:
  assumes auth: "authorizes e admin"
  obtains s0 s1 s2 s where "pm_constructor e admin = Inr s0" and "set_policy_nft e admin nft s0 = Inr s1"
    and "pm_grant_role e admin Backend backend s1 = Inr s2" and "pm_grant_role e admin Oracle oracle s2 = Inr s"
    and "\<And>r a. holds (pm_roles s) r a \<longleftrightarrow> a = admin \<and> (r = Admin \<or> r = Upgrader) \<or> a = backend \<and> r = Backend \<or>
      a = oracle \<and> r = Oracle"
    and "pm_policy_nft s = Some nft" and "pm_view s = pm_view s0" and "\<And>a. claim_log a (pm_events s) = []"
proof -
  obtain s0 where s0: "pm_constructor e admin = Inr s0" by (simp add: pm_constructor_def grant_role_def Let_def)
  note new = pm_constructor_effect(3-) [OF s0]
  obtain s1 where s1: "set_policy_nft e admin nft s0 = Inr s1"
    using auth new(1) [of Admin admin] by (auto simp: set_policy_nft_def require_role_eq Let_def)
  have r1: "holds (pm_roles s1) = holds (pm_roles s0)" by (rule set_policy_nft_effect(2) [OF s1])
  have "holds (pm_roles s1) Admin admin" by (simp add: r1 new(1))
  then obtain s2 where s2: "pm_grant_role e admin Backend backend s1 = Inr s2" using pm_access.grant_law auth by blast
  have "holds (pm_roles s2) Admin admin" by (simp add: pm_access.grant_effect [OF s2] r1 new(1))
  then obtain s where s: "pm_grant_role e admin Oracle oracle s2 = Inr s" using pm_access.grant_law auth by blast
  have keeps: "pm_policy_nft s'' = pm_policy_nft s'" if "pm_grant_role e c r a s' = Inr s''" for c r a s' s''
    using that by (auto simp: pm_grant_role_def bindE_eq_Inr)
  show thesis
  proof (rule that [OF s0 s1 s2 s])
    show "holds (pm_roles s) r a \<longleftrightarrow> a = admin \<and> (r = Admin \<or> r = Upgrader) \<or> a = backend \<and> r = Backend \<or>
      a = oracle \<and> r = Oracle" for r a
      using new(1) [of r a] by (auto simp: pm_access.grant_effect [OF s] pm_access.grant_effect [OF s2] r1)
    show "pm_policy_nft s = Some nft" using set_policy_nft_effect(1) [OF s1] keeps [OF s2] keeps [OF s] by simp
    show "pm_view s = pm_view s0" using pm_admin_same(1) [OF s1] pm_admin_same(2) [OF s2] pm_admin_same(2) [OF s] by simp
    show "claim_log a (pm_events s) = []" for a
      using pm_admin_same(1) [OF s1] pm_admin_same(2) [OF s2] pm_admin_same(2) [OF s] new(3) by simp
  qed
qed

lemma nft_wiring:
  assumes auth: "authorizes e admin"
  obtains x0 x1 x where "nft_constructor e admin name symbol = Inr x0" and "set_policy_manager e admin pm x0 = Inr x1"
    and "nft_grant_role e admin Minter pm x1 = Inr x"
    and "\<And>r a. holds (nft_roles x) r a \<longleftrightarrow> a = admin \<and> r = Admin \<or> a = pm \<and> r = Minter"
    and "nft_policy_manager x = Some pm" and "same_book x0 x"
proof -
  obtain x0 where x0: "nft_constructor e admin name symbol = Inr x0"
    by (simp add: nft_constructor_def grant_role_def Let_def)
  note new = nft_constructor_effect(1) [OF x0]
  obtain x1 where x1: "set_policy_manager e admin pm x0 = Inr x1"
    using auth new [of Admin admin] by (auto simp: set_policy_manager_def require_role_eq Let_def)
  note eff = set_policy_manager_effect(3,4) [OF x1]
  have "holds (nft_roles x1) Admin admin" by (simp add: eff new)
  then obtain x where x: "nft_grant_role e admin Minter pm x1 = Inr x" using nft_access.grant_law auth by blast
  show thesis
  proof (rule that [OF x0 x1 x])
    show "holds (nft_roles x) r a \<longleftrightarrow> a = admin \<and> r = Admin \<or> a = pm \<and> r = Minter" for r a
      using new [of r a] by (auto simp: nft_access.grant_effect [OF x] eff)
    show "nft_policy_manager x = Some pm" using x eff by (auto simp: nft_grant_role_def bindE_eq_Inr)
    show "same_book x0 x" using same_book_admin(2) [OF x1] same_book_admin(3) [OF x] by (simp add: same_book_def)
  qed
qed

text \<open>The adapter, bound or not.\<close>

lemma sa_wiring:
  assumes auth: "authorizes e admin" and other: "pr \<noteq> current_contract_address e"
  obtains a0 a1 a where "sa_constructor e admin = Inr a0"
    and "(if b then ok (set_payout_receiver e admin pr a0) else Some a0) = Some a1"
    and "sa_grant_role e admin Funder funder a1 = Inr a" and "sa_reachable a"
    and "\<And>r x. holds (sa_roles a) r x \<longleftrightarrow> x = admin \<and> (r = Admin \<or> r = Upgrader) \<or> x = funder \<and> r = Funder"
    and "sa_payout_receiver a = (if b then Some pr else None)" and "get (sa_obligation a) = Map.empty"
    and "get (sa_obligation_of a) = Map.empty" and "get (sa_org_count a) = Map.empty" and "sa_next_obligation_id a = Some 1"
proof -
  obtain a0 where a0: "sa_constructor e admin = Inr a0" by (simp add: sa_constructor_def grant_role_def Let_def)
  note new = sa_constructor_effect [OF a0]
  have none: "sa_payout_receiver a0 = None" "get (sa_obligation a0) = Map.empty"
    using a0 by (auto simp: sa_constructor_def sa_deployed_def bindE_eq_Inr Let_def)
  obtain a1 where a1: "(if b then ok (set_payout_receiver e admin pr a0) else Some a0) = Some a1"
    and r1: "holds (sa_roles a1) = holds (sa_roles a0)" and p1: "sa_payout_receiver a1 = (if b then Some pr else None)"
    and same: "same_obligations a0 a1" and reach: "sa_reachable a1"
  proof (cases b)
    case True
    have "\<exists>s. set_payout_receiver e admin pr a0 = Inr s"
      using auth other new(1) [of Admin admin] by (simp add: set_payout_receiver_def require_role_eq Let_def)
    then obtain s where s: "set_payout_receiver e admin pr a0 = Inr s" ..
    show thesis
      by (rule that [of s]) (use True s set_payout_receiver_effect(4,5) [OF s] same_obligations_admin(2) [OF s]
          sa_next [OF sa_start [OF a0] step_bind [OF s]] in simp_all)
  next
    case False
    then show thesis using that [of a0] none(1) sa_start [OF a0] by (simp add: same_obligations_def)
  qed
  have "holds (sa_roles a1) Admin admin" by (simp add: r1 new(1))
  then obtain a where a: "sa_grant_role e admin Funder funder a1 = Inr a" using sa_access.grant_law auth by blast
  have keep: "sa_payout_receiver a = sa_payout_receiver a1" "same_obligations a1 a"
    using a same_obligations_admin(3) [OF a] by (auto simp: sa_grant_role_def bindE_eq_Inr Let_def)
  show thesis
  proof (rule that [OF a0 a1 a sa_next [OF reach step_grant [OF a]]])
    show "holds (sa_roles a) r x \<longleftrightarrow> x = admin \<and> (r = Admin \<or> r = Upgrader) \<or> x = funder \<and> r = Funder" for r x
      using new(1) [of r x] by (auto simp: sa_access.grant_effect [OF a] r1)
    show "sa_payout_receiver a = (if b then Some pr else None)" by (simp add: keep(1) p1)
  qed (use keep(2) same new(2-) none(2) in \<open>simp_all add: same_obligations_def\<close>)
qed

lemma pr_wiring:
  assumes auth: "authorizes e admin"
  obtains s0 s1 s2 s3 s where "pr_constructor e ad pm admin = Inr s0" and "pr_grant_role e admin Relayer relayer s0 = Inr s1"
    and "set_authorized_signer e admin key s1 = Inr s2" and "set_network_domain e admin domain s2 = Inr s3"
    and "set_methodology_enabled e admin CropDroughtRdi10 True s3 = Inr s"
    and "\<And>r a. holds (pr_roles s) r a \<longleftrightarrow> a = admin \<and> (r = Admin \<or> r = Upgrader) \<or> a = relayer \<and> r = Relayer"
    and "pr_settlement_adapter s = Some ad" and "pr_policy_manager s = Some pm" and "pr_paused s = Some False"
    and "pr_authorized_signer s = Some key" and "pr_network_domain s = Some domain"
    and "\<And>k. is_methodology_enabled k s \<longleftrightarrow> k = CropDroughtRdi10"
    and "pr_policy_paid s = Map.empty" and "pr_consumed s = Map.empty"
proof -
  obtain s0 where s0: "pr_constructor e ad pm admin = Inr s0" by (simp add: pr_constructor_def grant_role_def Let_def)
  note new = pr_constructor_effect(2-) [OF s0]
  have "holds (pr_roles s0) Admin admin" by (simp add: new(1))
  then obtain s1 where s1: "pr_grant_role e admin Relayer relayer s0 = Inr s1" using pr_access.grant_law auth by blast
  obtain roles where rel: "s1 = s0\<lparr>pr_roles := roles\<rparr>" using pr_grant_role_effect [OF s1] ..
  have adm: "holds (pr_roles s1) Admin admin" by (simp add: pr_access.grant_effect [OF s1] new(1))
  define s2 where "s2 = pr_publish (AuthorizedSignerUpdated key)
    (s1\<lparr>pr_roles := used_role e Admin admin (pr_roles s1), pr_authorized_signer := Some key\<rparr>)"
  have s2: "set_authorized_signer e admin key s1 = Inr s2" by (simp add: pr_config_Inr auth adm s2_def)
  define s3 where "s3 = s2\<lparr>pr_roles := used_role e Admin admin (pr_roles s2), pr_network_domain := Some domain\<rparr>"
  have s3: "set_network_domain e admin domain s2 = Inr s3" by (simp add: pr_config_Inr auth adm s2_def s3_def)
  define s where "s = pr_publish (MethodologyEnabledSet CropDroughtRdi10 True)
    (s3\<lparr>pr_roles := used_role e Admin admin (pr_roles s3),
        pr_methodology_enabled := (pr_methodology_enabled s3)(CropDroughtRdi10 \<mapsto> True)\<rparr>)"
  have s: "set_methodology_enabled e admin CropDroughtRdi10 True s3 = Inr s"
    by (simp add: pr_config_Inr auth adm s2_def s3_def s_def)
  show thesis
  proof (rule that [OF s0 s1 s2 s3 s])
    show "holds (pr_roles s) r a \<longleftrightarrow> a = admin \<and> (r = Admin \<or> r = Upgrader) \<or> a = relayer \<and> r = Relayer" for r a
      using new(1) [of r a] by (auto simp: s_def s3_def s2_def pr_access.grant_effect [OF s1])
    show "is_methodology_enabled k s \<longleftrightarrow> k = CropDroughtRdi10" for k
      by (simp add: is_methodology_enabled_def methodology_enabled_def s_def s3_def s2_def rel new)
  qed (simp_all add: s_def s3_def s2_def rel new)
qed

text \<open>
  The state of a world after its deployment. Who holds which role and which contract is wired to which
  stays the same in every test but those that change it; the rest of a contract's state moves.
\<close>

definition manager_wired :: "'k world \<Rightarrow> nfts \<times> pm_state \<Rightarrow> bool" where
  "manager_wired w m \<longleftrightarrow>
     (\<forall>r a. holds (pm_roles (snd m)) r a \<longleftrightarrow> a = w_admin w \<and> (r = Admin \<or> r = Upgrader) \<or> a = w_backend w \<and> r = Backend \<or>
        a = w_pr w \<and> r = Oracle) \<and> pm_policy_nft (snd m) = Some (w_nft w) \<and>
     (\<exists>x. fst m = [w_nft w \<mapsto> x] \<and> nft_policy_manager x = Some (w_pm w) \<and>
        (\<forall>r a. holds (nft_roles x) r a \<longleftrightarrow> a = w_admin w \<and> r = Admin \<or> a = w_pm w \<and> r = Minter))"

definition adapter_wired :: "'k world \<Rightarrow> address option \<Rightarrow> (address \<Rightarrow> sa_state option) \<Rightarrow> bool" where
  "adapter_wired w pr ads \<longleftrightarrow>
     (\<exists>ad. ads = [w_adapter w \<mapsto> ad] \<and> sa_payout_receiver ad = pr \<and>
        (\<forall>r a. holds (sa_roles ad) r a \<longleftrightarrow> a = w_admin w \<and> (r = Admin \<or> r = Upgrader) \<or> a = w_backend w \<and> r = Funder))"

definition receiver_wired :: "'k signing_lib \<Rightarrow> 'k world \<Rightarrow> pr_state \<Rightarrow> bool" where
  "receiver_wired lib w pr \<longleftrightarrow>
     (\<forall>r a. holds (pr_roles pr) r a \<longleftrightarrow> a = w_admin w \<and> (r = Admin \<or> r = Upgrader) \<or> a = w_relayer w \<and> r = Relayer) \<and>
     pr_settlement_adapter pr = Some (w_adapter w) \<and> pr_policy_manager pr = Some (w_pm w) \<and> pr_paused pr = Some False \<and>
     pr_authorized_signer pr = Some (pubkey65 lib (w_sk w)) \<and> pr_network_domain pr = Some (w_domain w) \<and>
     (\<forall>k. is_methodology_enabled k pr \<longleftrightarrow> k = CropDroughtRdi10)"

definition actors :: "'k world \<Rightarrow> address list" where
  "actors w = [w_admin w, w_backend w, w_farmer w, w_distributor w, w_org w, w_relayer w, w_nft w, w_pm w, w_adapter w, w_pr w]"

definition wired :: "'k signing_lib \<Rightarrow> address option \<Rightarrow> 'k world \<Rightarrow> bool" where
  "wired lib pr w \<longleftrightarrow>
     distinct (actors w) \<and> (\<exists>t \<le> timestamp (w_env w). sys_reachable (w_pr w) t (w_contracts w)) \<and>
     manager_wired w (sys_pm (w_contracts w)) \<and> adapter_wired w pr (sys_adapters (w_contracts w)) \<and>
     receiver_wired lib w (sys_pr (w_contracts w))"

text \<open>A world in which nothing has been sold or settled.\<close>

definition blank :: "'k world \<Rightarrow> bool" where
  "blank w \<longleftrightarrow> (let c = w_contracts w in
     pm_view (snd (sys_pm c)) = \<lparr>v_policy = Map.empty, v_counter = 0, v_policy_count = Map.empty, v_policy_at = Map.empty,
       v_active = Map.empty, v_pending = Map.empty, v_claims = Map.empty, v_counted = Map.empty, v_outstanding = Map.empty\<rparr> \<and>
     (\<forall>x. fst (sys_pm c) (w_nft w) = Some x \<longrightarrow> get (nft_certificate x) = Map.empty \<and>
        get (nft_policy_to_token x) = Map.empty \<and> get (nft_owner x) = Map.empty \<and> get (nft_distributor_count x) = Map.empty) \<and>
     (\<forall>ad. adapter_of w = Some ad \<longrightarrow> get (sa_obligation ad) = Map.empty \<and> get (sa_obligation_of ad) = Map.empty \<and>
        get (sa_org_count ad) = Map.empty \<and> sa_next_obligation_id ad = Some 1) \<and>
     pr_policy_paid (sys_pr c) = Map.empty \<and> pr_consumed (sys_pr c) = Map.empty)"

lemma deployed_manager:
  assumes now: "timestamp e = t" "timestamp e' = t" "t < u64_max"
    and pm: "pm_constructor e admin = Inr s0" "set_policy_nft e admin nft s0 = Inr s1"
      "pm_grant_role e admin Backend backend s1 = Inr s2" "pm_grant_role e admin Oracle oracle s2 = Inr s"
    and nft: "nft_constructor e' admin name symbol = Inr x0" "set_policy_manager e' admin a x0 = Inr x1"
      "nft_grant_role e' admin Minter a x1 = Inr x"
  shows "pm_reachable t ([nft \<mapsto> x], s)"
proof -
  have later: "pm_reachable t w \<Longrightarrow> pm_step e w w' \<Longrightarrow> pm_reachable t w'"
    "pm_reachable t w \<Longrightarrow> pm_step e' w w' \<Longrightarrow> pm_reachable t w'" for w w'
    using pm_next [of t w e w'] pm_next [of t w e' w'] now by simp_all
  have "pm_reachable t (Map.empty, s0)" using pm_start [OF pm(1)] now by simp
  then have "pm_reachable t ([nft \<mapsto> x0], s0)" by (rule later) (rule nft_deploys [OF _ nft(1)], simp)
  moreover have "pm_step e' ([nft \<mapsto> x0], s0) ([nft \<mapsto> x1], s0)"
    using nft_moves [where n = "[nft \<mapsto> x0]" and a = nft, OF _ nft_step.step_manager [OF nft(2)]] by simp
  moreover have "pm_step e' ([nft \<mapsto> x1], s0) ([nft \<mapsto> x], s0)"
    using nft_moves [where n = "[nft \<mapsto> x1]" and a = nft, OF _ nft_step.step_grant [OF nft(3)]] by simp
  ultimately have "pm_reachable t ([nft \<mapsto> x], s0)" using later by blast
  then show ?thesis using later do_wire [OF pm(2)] do_grant [OF pm(3)] do_grant [OF pm(4)] by blast
qed

lemma deployed_receiver:
  assumes now: "timestamp e = t" "t < u64_max" "current_contract_address e = this"
    and pr: "pr_constructor e ad pm admin = Inr s0" "pr_grant_role e admin Relayer relayer s0 = Inr s1"
      "set_authorized_signer e admin key s1 = Inr s2" "set_network_domain e admin domain s2 = Inr s3"
      "set_methodology_enabled e admin kind True s3 = Inr s"
    and start: "\<And>s. pr_constructor e ad pm admin = Inr s \<Longrightarrow>
      sys_reachable this t \<lparr>sys_pr = s, sys_pm = w, sys_adapters = ads\<rparr> \<and>
      deployment_ok this \<lparr>sys_pr = s, sys_pm = w, sys_adapters = ads\<rparr>"
  shows "sys_reachable this t \<lparr>sys_pr = s, sys_pm = w, sys_adapters = ads\<rparr>"
proof -
  let ?sys = "\<lambda>s. \<lparr>sys_pr = s, sys_pm = w, sys_adapters = ads\<rparr>"
  have dep: "deployment_ok this (?sys s)" for s using start [OF pr(1)] by (simp add: deployment_ok_def)
  have step: "sys_reachable this t (?sys r')" if "pr_admin e r r'" "sys_reachable this t (?sys r)" for r r'
    using sys_next [OF that(2) on_receiver [OF pr_administers [of e "?sys r" r']]] that(1) dep now by simp
  show ?thesis
    using step [OF adm_methodology [OF pr(5)]] step [OF adm_domain [OF pr(4)]] step [OF adm_signer [OF pr(3)]]
      step [OF adm_grant [OF pr(2)]] start [OF pr(1)] by blast
qed

text \<open>Every deployment of the tests goes through, and leaves a blank world, wired whatever the clock is set to.\<close>

lemma deploy_with_ok:
  assumes fresh: "inj generate" and key: "sk_from lib 0x11 = Some sk"
  shows "\<exists>w. deploy_with lib generate e b = Some w \<and>
     (\<forall>t < u64_max. wired lib (if b then Some (w_pr w) else None) (set_timestamp t w)) \<and> blank w \<and>
     w_env w = e\<lparr>timestamp := NOW\<rparr> \<and>
     w_sk w = sk \<and> w_domain w = bytes32_of 0xAB \<and> w_pr w = generate 9 \<and> generate 10 \<notin> set (actors w)"
proof -
  let ?e = "e\<lparr>timestamp := NOW\<rparr>" and ?admin = "generate 0"
  have neq: "generate i = generate j \<longleftrightarrow> i = j" for i j using fresh by (simp add: inj_eq)
  obtain s0 s1 s2 s where pm: "pm_constructor (signed_call ?e (generate 7) ?admin) ?admin = Inr s0"
      "set_policy_nft (signed_call ?e (generate 7) ?admin) ?admin (generate 6) s0 = Inr s1"
      "pm_grant_role (signed_call ?e (generate 7) ?admin) ?admin Backend (generate 1) s1 = Inr s2"
      "pm_grant_role (signed_call ?e (generate 7) ?admin) ?admin Oracle (generate 9) s2 = Inr s"
    and pm_roles: "\<And>r a. holds (pm_roles s) r a \<longleftrightarrow> a = ?admin \<and> (r = Admin \<or> r = Upgrader) \<or>
      a = generate 1 \<and> r = Backend \<or> a = generate 9 \<and> r = Oracle"
    and pm_state: "pm_policy_nft s = Some (generate 6)" "pm_view s = pm_view s0" "\<And>a. claim_log a (pm_events s) = []"
    by (rule pm_wiring [of "signed_call ?e (generate 7) ?admin" ?admin "generate 6" "generate 1" "generate 9"]) simp_all
  obtain x0 x1 x where nft: "nft_constructor (signed_call ?e (generate 6) ?admin) ?admin ''MicroCrop Policy'' ''MCP'' = Inr x0"
      "set_policy_manager (signed_call ?e (generate 6) ?admin) ?admin (generate 7) x0 = Inr x1"
      "nft_grant_role (signed_call ?e (generate 6) ?admin) ?admin Minter (generate 7) x1 = Inr x"
    and nft_roles: "\<And>r a. holds (nft_roles x) r a \<longleftrightarrow> a = ?admin \<and> r = Admin \<or> a = generate 7 \<and> r = Minter"
    and nft_state: "nft_policy_manager x = Some (generate 7)" "same_book x0 x"
    by (rule nft_wiring [of "signed_call ?e (generate 6) ?admin" ?admin "''MicroCrop Policy''" "''MCP''" "generate 7"]) simp_all
  obtain a0 a1 a where sa: "sa_constructor (signed_call ?e (generate 8) ?admin) ?admin = Inr a0"
      "(if b then ok (set_payout_receiver (signed_call ?e (generate 8) ?admin) ?admin (generate 9) a0) else Some a0) = Some a1"
      "sa_grant_role (signed_call ?e (generate 8) ?admin) ?admin Funder (generate 1) a1 = Inr a" "sa_reachable a"
    and sa_roles: "\<And>r x. holds (sa_roles a) r x \<longleftrightarrow> x = ?admin \<and> (r = Admin \<or> r = Upgrader) \<or> x = generate 1 \<and> r = Funder"
    and sa_state: "sa_payout_receiver a = (if b then Some (generate 9) else None)" "get (sa_obligation a) = Map.empty"
      "get (sa_obligation_of a) = Map.empty" "get (sa_org_count a) = Map.empty" "sa_next_obligation_id a = Some 1"
    by (rule sa_wiring [of "signed_call ?e (generate 8) ?admin" ?admin "generate 9" b "generate 1"]) (simp_all add: neq)
  obtain r0 r1 r2 r3 r where pr: "pr_constructor (signed_call ?e (generate 9) ?admin) (generate 8) (generate 7) ?admin = Inr r0"
      "pr_grant_role (signed_call ?e (generate 9) ?admin) ?admin Relayer (generate 5) r0 = Inr r1"
      "set_authorized_signer (signed_call ?e (generate 9) ?admin) ?admin (pubkey65 lib sk) r1 = Inr r2"
      "set_network_domain (signed_call ?e (generate 9) ?admin) ?admin (bytes32_of 0xAB) r2 = Inr r3"
      "set_methodology_enabled (signed_call ?e (generate 9) ?admin) ?admin CropDroughtRdi10 True r3 = Inr r"
    and pr_roles: "\<And>q a. holds (pr_roles r) q a \<longleftrightarrow> a = ?admin \<and> (q = Admin \<or> q = Upgrader) \<or> a = generate 5 \<and> q = Relayer"
    and pr_state: "pr_settlement_adapter r = Some (generate 8)" "pr_policy_manager r = Some (generate 7)" "pr_paused r = Some False"
      "pr_authorized_signer r = Some (pubkey65 lib sk)" "pr_network_domain r = Some (bytes32_of 0xAB)"
      "\<And>k. is_methodology_enabled k r \<longleftrightarrow> k = CropDroughtRdi10" "pr_policy_paid r = Map.empty" "pr_consumed r = Map.empty"
    by (rule pr_wiring [of "signed_call ?e (generate 9) ?admin" ?admin "generate 8" "generate 7" "generate 5" "pubkey65 lib sk"
          "bytes32_of 0xAB"]) simp_all
  let ?c = "\<lparr>sys_pr = r, sys_pm = ([generate 6 \<mapsto> x], s), sys_adapters = [generate 8 \<mapsto> a]\<rparr>"
  note view0 = pm_constructor_effect(6) [OF pm(1)]
  have reach: "sys_reachable (generate 9) t ?c" if now: "t < u64_max" for t
  proof -
    let ?t = "e\<lparr>timestamp := t\<rparr>"
    have call: "signed_call ?e c a = (signed_call ?t c a)\<lparr>timestamp := NOW\<rparr>" for c a by (simp add: signed_call_def)
    note pm = pm [unfolded call set_up_clock] and nft = nft [unfolded call set_up_clock]
      and pr = pr [unfolded call set_up_clock]
    show ?thesis
    proof (rule deployed_receiver [OF _ now _ pr])
      fix q
      assume q: "pr_constructor (signed_call ?t (generate 9) ?admin) (generate 8) (generate 7) ?admin = Inr q"
      let ?start = "\<lparr>sys_pr = q, sys_pm = ([generate 6 \<mapsto> x], s), sys_adapters = [generate 8 \<mapsto> a]\<rparr>"
      have dep: "deployment_ok (generate 9) ?start"
        by (simp add: deployment_ok_def pm_roles neq pm_state(1) nft_wired_def)
      have man: "pm_reachable t ([generate 6 \<mapsto> x], s)" by (rule deployed_manager [OF _ _ now pm nft]) simp_all
      have none: "get (pm_policy s) = Map.empty" using arg_cong [OF pm_state(2), of v_policy] by (simp add: view0)
      have "sys_reachable (generate 9) t ?start"
        by (rule sys_start [OF q man refl dep])
          (use sa(4) in \<open>simp_all add: claimed_policy_def none pm_state(3) debts_def fun_eq_iff obligation_for_def sa_state
            split: if_splits option.split\<close>)
      with dep show "sys_reachable (generate 9) t ?start \<and> deployment_ok (generate 9) ?start" by simp
    qed simp_all
  qed
  let ?w = "\<lparr>w_env = ?e, w_admin = generate 0, w_pm = generate 7, w_nft = generate 6, w_adapter = generate 8,
         w_pr = generate 9, w_backend = generate 1, w_farmer = generate 2, w_distributor = generate 3, w_org = generate 4,
         w_relayer = generate 5, w_sk = sk, w_domain = bytes32_of 0xAB, w_contracts = ?c\<rparr>"
  have "deploy_with lib generate e b = Some ?w"
    unfolding deploy_with_def Let_def by (simp add: pm nft sa pr key del: One_nat_def)
  moreover have "wired lib (if b then Some (generate 9) else None) (set_timestamp t ?w)" if "t < u64_max" for t
    unfolding wired_def manager_wired_def adapter_wired_def receiver_wired_def actors_def using reach [OF that]
    by (auto simp: set_timestamp_def neq pm_roles pm_state nft_roles nft_state sa_roles sa_state pr_roles pr_state)
  moreover have "blank ?w"
    unfolding blank_def Let_def
    using nft_constructor_effect(2-) [OF nft(1)] nft_state(2)
    by (simp add: pm_state(2) view0 adapter_of_def sa_state pr_state(7,8) same_book_def)
  moreover have "generate 10 \<notin> set (actors ?w)" by (simp add: actors_def neq)
  ultimately show ?thesis by (intro exI [of _ ?w], cases b) simp_all
qed

section \<open>Steps of a wired world\<close>

lemma wiredD:
  assumes "wired lib pr w"
  shows "w_backend w \<noteq> w_pr w" "w_admin w \<noteq> w_pr w" "w_relayer w \<noteq> w_pr w" "w_adapter w \<noteq> w_pr w"
    "manager_wired w (sys_pm (w_contracts w))" "adapter_wired w pr (sys_adapters (w_contracts w))"
    "receiver_wired lib w (sys_pr (w_contracts w))" "pm_ok (pm_view (snd (sys_pm (w_contracts w))))"
    "\<exists>t \<le> timestamp (w_env w). sys_reachable (w_pr w) t (w_contracts w)"
proof -
  show reach: "\<exists>t \<le> timestamp (w_env w). sys_reachable (w_pr w) t (w_contracts w)" using assms by (simp add: wired_def)
  then show "pm_ok (pm_view (snd (sys_pm (w_contracts w))))"
    using sys_reachable_inv pm_reached_ok unfolding sys_inv_def by blast
qed (use assms in \<open>auto simp: wired_def actors_def\<close>)

lemma wired_deployment: "manager_wired w m \<Longrightarrow> sys_pm c = m \<Longrightarrow> deployment_ok (w_pr w) c"
  by (auto simp: manager_wired_def deployment_ok_def nft_wired_def)

text \<open>A call of the policy manager that leaves the wiring alone.\<close>

lemma wired_manager:
  assumes w: "wired lib pr w" and step: "pm_step e (sys_pm (w_contracts w)) m" and m: "manager_wired w m"
    and e: "timestamp e = timestamp (w_env w)" "timestamp e < u64_max" "\<not> authorizes e (w_pr w)"
  shows "wired lib pr (w\<lparr>w_contracts := (w_contracts w)\<lparr>sys_pm := m\<rparr>\<rparr>)"
proof -
  obtain t where t: "t \<le> timestamp (w_env w)" "sys_reachable (w_pr w) t (w_contracts w)" using wiredD(9) [OF w] by blast
  have "sys_reachable (w_pr w) (timestamp (w_env w)) ((w_contracts w)\<lparr>sys_pm := m\<rparr>)"
    using sys_next [OF t(2) on_manager [OF step e(3)]] t(1) e(1,2) wired_deployment [OF m] by simp
  then show ?thesis
    using w m by (auto simp: wired_def actors_def manager_wired_def adapter_wired_def receiver_wired_def)
qed

text \<open>A call of the receiver that moves no roles and no addresses leaves the world wired.\<close>

lemma wired_receiver:
  assumes w: "wired lib pr w" and call: "pr_call real_pm real_adapter e (w_contracts w) sys'"
    and e: "current_contract_address e = w_pr w" "timestamp e = timestamp (w_env w)" "timestamp e < u64_max"
    and same: "manager_wired w (sys_pm sys')" "adapter_wired w pr (sys_adapters sys')" "receiver_wired lib w (sys_pr sys')"
  shows "wired lib pr (w\<lparr>w_contracts := sys'\<rparr>)"
proof -
  obtain t where t: "t \<le> timestamp (w_env w)" "sys_reachable (w_pr w) t (w_contracts w)" using wiredD(9) [OF w] by blast
  have "sys_reachable (w_pr w) (timestamp (w_env w)) sys'"
    using sys_next [OF t(2) on_receiver [OF call e(1)]] t(1) e(2,3) wired_deployment [OF same(1) refl] by simp
  then show ?thesis
    using w same by (auto simp: wired_def actors_def manager_wired_def adapter_wired_def receiver_wired_def)
qed

lemma wired_later: "wired lib pr w \<Longrightarrow> timestamp (w_env w) \<le> t \<Longrightarrow> wired lib pr (set_timestamp t w)"
  by (fastforce simp: wired_def actors_def manager_wired_def adapter_wired_def receiver_wired_def set_timestamp_def)

end
