(* ===== verification/IntegrationSteps.thy ===== *)
theory IntegrationSteps
  imports IntegrationWorld
begin

text \<open>
  What the steps of the integration tests do to a wired world: a sale, a read, a submission that is
  refused and one that settles, for any hash and any signature scheme whose recovery returns the key that
  signed. The predicates \<open>insured\<close> and \<open>settled\<close> say what the four contracts hold before and after.
\<close>

section \<open>An insured world\<close>

definition first_policy :: "'k world \<Rightarrow> int \<Rightarrow> int \<Rightarrow> nat \<Rightarrow> policy" where
  "first_policy w lat lon t =
     \<lparr>p_id = 1, p_farmer = w_farmer w, p_plot_id = 7, p_lat_e6 = lat, p_lon_e6 = lon, p_sum_insured = SUM_INSURED,
      p_premium = PREMIUM, p_start_date = t, p_end_date = t + 150 * 86400, p_coverage_type = Drought,
      p_status = Active, p_created_at = t, p_org = w_org w\<rparr>"

text \<open>The certificate of policy 1, and whether it is active.\<close>

definition certified :: "address \<Rightarrow> bool \<Rightarrow> nft_state \<Rightarrow> bool" where
  "certified farmer active x \<longleftrightarrow>
     get (nft_owner x) 1 = Some farmer \<and> get (nft_policy_to_token x) 1 = Some 1 \<and>
     (\<exists>c. get (nft_certificate x) 1 = Some c \<and> c_is_active c = active)"

definition insured :: "policy \<Rightarrow> 'k world \<Rightarrow> bool" where
  "insured p w \<longleftrightarrow> (let c = w_contracts w; v = pm_view (snd (sys_pm c)) in
     v_policy v = [1 \<mapsto> p] \<and> (\<forall>a. claims_of v a = []) \<and> exposure_of v (p_org p) = p_sum_insured p \<and>
     (\<exists>x. fst (sys_pm c) (w_nft w) = Some x \<and> certified (p_farmer p) True x) \<and>
     (\<exists>ad. adapter_of w = Some ad \<and> get (sa_obligation ad) = Map.empty \<and> get (sa_obligation_of ad) = Map.empty \<and>
        get (sa_org_count ad) = Map.empty \<and> sa_next_obligation_id ad = Some 1) \<and>
     pr_policy_paid (sys_pr c) = Map.empty \<and> pr_consumed (sys_pr c) = Map.empty)"

lemma sold:
  assumes w: "wired lib pr w" and new: "blank w" and t: "timestamp (w_env w) = t" "t \<le> 10 ^ 12"
    and plot: "\<bar>lat\<bar> \<le> 90000000" "\<bar>lon\<bar> \<le> 180000000"
  shows "\<exists>s n s'. create_policy (signed_call (w_env w) (w_pm w) (w_backend w)) (w_backend w) (w_farmer w) 7 lat lon
        SUM_INSURED PREMIUM DURATION_DAYS Drought (w_org w) (snd (sys_pm (w_contracts w))) = Inr (1, s) \<and>
     activate_policy (signed_call (w_env w) (w_pm w) (w_backend w)) (w_backend w) 1 (w_distributor w) name region
        (fst (sys_pm (w_contracts w))) s = Inr (n, s') \<and>
     wired lib pr (w\<lparr>w_contracts := (w_contracts w)\<lparr>sys_pm := (n, s')\<rparr>\<rparr>) \<and>
     insured (first_policy w lat lon t) (w\<lparr>w_contracts := (w_contracts w)\<lparr>sys_pm := (n, s')\<rparr>\<rparr>)"
proof -
  let ?e = "signed_call (w_env w) (w_pm w) (w_backend w)"
  obtain n0 s0 where m0: "sys_pm (w_contracts w) = (n0, s0)" by (cases "sys_pm (w_contracts w)")
  define p where "p = new_policy ?e 1 (w_farmer w) 7 lat lon SUM_INSURED PREMIUM DURATION_DAYS Drought (w_org w)"
  have view0: "pm_view s0 = \<lparr>v_policy = Map.empty, v_counter = 0, v_policy_count = Map.empty, v_policy_at = Map.empty,
       v_active = Map.empty, v_pending = Map.empty, v_claims = Map.empty, v_counted = Map.empty, v_outstanding = Map.empty\<rparr>"
    using new by (simp add: blank_def Let_def m0)
  have count: "policy_counter s0 = 0" using arg_cong [OF view0, of v_counter] by simp
  have wm: "manager_wired w (n0, s0)" and other: "w_backend w \<noteq> w_pr w" using wiredD(1,5) [OF w] by (simp_all add: m0)
  have backend: "holds (pm_roles s0) Backend (w_backend w)" using wm by (simp add: manager_wired_def)
  have "has_room ?e (w_farmer w) SUM_INSURED DURATION_DAYS (w_org w) (pm_view s0)"
    using t by (simp add: view0 has_room_def open_slots_def active_of_def pending_of_def claims_of_def index_size_def
        exposure_of_def pm_constants test_constants u64_max_def u32_max_def i128_max_def i128_min_def)
  moreover have "sale_terms lat lon SUM_INSURED PREMIUM DURATION_DAYS Drought"
    using plot by (simp add: sale_terms_def pm_constants test_constants)
  ultimately obtain s1 where create: "create_policy ?e (w_backend w) (w_farmer w) 7 lat lon SUM_INSURED PREMIUM
        DURATION_DAYS Drought (w_org w) s0 = Inr (1, s1)" and view1: "pm_view s1 = a_create p (pm_view s0)"
      and rest1: "holds (pm_roles s1) = holds (pm_roles s0)" "pm_policy_nft s1 = pm_policy_nft s0"
    using create_policy_ok [of ?e "w_backend w" s0 lat lon SUM_INSURED PREMIUM DURATION_DAYS Drought "w_farmer w" "w_org w" 7]
      backend by (auto simp: count p_def pm_rest_def)
  let ?w1 = "w\<lparr>w_contracts := (w_contracts w)\<lparr>sys_pm := (n0, s1)\<rparr>\<rparr>"
  have late: "timestamp ?e < u64_max" using t by (simp add: u64_max_def)
  have "manager_wired w (n0, s1)" using wm rest1 by (simp add: manager_wired_def)
  with wired_manager [OF w, of ?e "(n0, s1)"] do_create [OF create] late other m0
  have w1: "wired lib pr ?w1" by simp
  have stored: "get (pm_policy s1) 1 = Some p" using arg_cong [OF view1, of v_policy] by (simp add: a_create_def p_def new_policy_def)
  have ok1: "pm_ok (pm_view s1)" using wiredD(8) [OF w1] by simp
  obtain x where x: "n0 = [w_nft w \<mapsto> x]" "nft_policy_manager x = Some (w_pm w)"
      "\<And>r a. holds (nft_roles x) r a \<longleftrightarrow> a = w_admin w \<and> r = Admin \<or> a = w_pm w \<and> r = Minter"
    using wm by (auto simp: manager_wired_def)
  have x0: "get (nft_policy_to_token x) = Map.empty" "get (nft_distributor_count x) = Map.empty"
    using new by (simp_all add: blank_def Let_def m0 x(1))
  let ?q = "activated (timestamp ?e) p"
  have "\<exists>x'. mint_for ?e (w_nft w) ?q (w_distributor w) name region x = Inr (1, x')"
    unfolding mint_for_def
    using mint_policy_ok [of "subcall ?e (w_nft w)" "w_pm w" x "p_id ?q" "w_distributor w"]
    by (simp add: x x0 distributor_size_def u32_max_def p_def new_policy_def del: One_nat_def)
  then obtain x' where mint: "mint_for ?e (w_nft w) ?q (w_distributor w) name region x = Inr (1, x')" ..
  have nft: "pm_policy_nft s1 = Some (w_nft w)" using wm rest1 by (simp add: manager_wired_def)
  have "\<exists>n2 s2. activate_policy ?e (w_backend w) 1 (w_distributor w) name region n0 s1 = Inr (n2, s2)"
    by (rule activate_policy_ok [OF ok1 _ _ nft _ stored _ _ _ mint])
      (use backend t in \<open>simp_all add: rest1 x(1) p_def new_policy_def test_constants PM_SECONDS_PER_DAY_def u64_max_def\<close>)
  then obtain n2 s2 where act: "activate_policy ?e (w_backend w) 1 (w_distributor w) name region n0 s1 = Inr (n2, s2)"
    by blast
  have eff: "n2 = [w_nft w \<mapsto> x']" "pm_view s2 = a_activate t p (pm_view s1)"
      "holds (pm_roles s2) = holds (pm_roles s1)" "pm_policy_nft s2 = pm_policy_nft s1"
    using activate_policy_Inr [OF ok1 act] stored nft mint t by (auto simp: x(1) pm_rest_def)
  note minted = mint_policy_effect [OF mint [unfolded mint_for_def]]
  have wm2: "manager_wired ?w1 (n2, s2)"
    using wm by (auto simp: manager_wired_def eff rest1 x minted(12,13))
  have w2: "wired lib pr (w\<lparr>w_contracts := (w_contracts w)\<lparr>sys_pm := (n2, s2)\<rparr>\<rparr>)"
    using wired_manager [OF w1, of ?e "(n2, s2)"] do_activate [OF act] wm2 late other by simp
  have q: "?q = first_policy w lat lon t"
    by (simp add: activated_def p_def new_policy_def first_policy_def t(1) DURATION_DAYS_def PM_SECONDS_PER_DAY_def)
  have v2: "pm_view s2 = a_activate t p (a_create p (pm_view s0))" by (simp add: eff(2) view1)
  have pf: "p_id p = 1" "p_org p = w_org w" "p_sum_insured p = SUM_INSURED" "p_farmer p = w_farmer w"
    by (simp_all add: p_def new_policy_def)
  have "v_policy (pm_view s2) = [1 \<mapsto> ?q]" "\<And>a. claims_of (pm_view s2) a = []"
    "exposure_of (pm_view s2) (w_org w) = SUM_INSURED"
    unfolding v2 by (simp_all add: a_activate_def a_create_def view0 pf t(1) claims_of_def exposure_of_def)
  moreover have "certified (w_farmer w) True x'"
    using minted(7-9) by (simp add: certified_def fresh_certificate_def p_def new_policy_def)
  ultimately have "insured ?q (w\<lparr>w_contracts := (w_contracts w)\<lparr>sys_pm := (n2, s2)\<rparr>\<rparr>)"
    using new wiredD(6) [OF w]
    by (auto simp: insured_def blank_def Let_def eff(1) pf adapter_of_def adapter_wired_def)
  with create act w2 q m0 show ?thesis by auto
qed

section \<open>What a submission changes\<close>

text \<open>A certificate contract that has the caller as its manager closes the certificate of a claimed policy.\<close>

lemma claim_closes_certificate:
  assumes ok: "pm_ok (pm_view s)" and call: "mark_as_claimed e c i nfts s = Inr (nfts', s')"
    and nft: "pm_policy_nft s = Some addr" "nfts addr = Some n" "nft_policy_manager n = Some (current_contract_address e)"
    and cert: "get (nft_policy_to_token n) i = Some t" "get (nft_certificate n) t = Some cert"
  shows "\<exists>n'. nfts' = nfts(addr \<mapsto> n') \<and>
    update_policy_status (subcall e addr) (current_contract_address e) i False n = Inr n'"
proof -
  note g = claim_guards [OF call]
  obtain p where p: "get (pm_policy s) i = Some p" "p_status p = Active" "timestamp e \<le> p_end_date p"
    using g(3) by blast
  have c: "closable (pm_view s) p" "p_id p = i" using open_closable [OF ok, of i p] p by (simp_all add: is_open_def)
  obtain n' where n': "update_policy_status (subcall e addr) (current_contract_address e) i False n = Inr n'"
    using update_policy_status_ok [of n "current_contract_address e" "subcall e addr" i t cert False] nft(3) cert(1,2) by auto
  then show ?thesis
    using call nft(1,2) cert(1) unfolding mark_as_claimed_eq [OF g(1,2) p(1) c(2) p(2,3) c(1)]
    by (auto simp: deactivate_policy_nft_def policy_nft_exists_def has_iff bindE_eq_Inr)
qed

text \<open>The policy manager and its certificate contract over a settlement.\<close>

lemma submission_manager:
  assumes call: "submit_drought_determination real_pm real_adapter e c d sig rid sys = Inr sys'"
    and m: "sys_pm sys = (n, s)" and ok: "pm_ok (pm_view s)"
  shows "\<exists>pm s1 n' s2 s3. pr_policy_manager (sys_pr sys) = Some pm \<and> pm_rest s1 = pm_rest s \<and> pm_view s1 = pm_view s \<and>
    mark_as_claimed (subcall e pm) (current_contract_address e) (d_on_chain_policy_id d) n s1 = Inr (n', s2) \<and>
    sys_pm sys' = (n', s3) \<and> holds (pm_roles s3) = holds (pm_roles s) \<and> pm_policy_nft s3 = pm_policy_nft s"
proof -
  obtain ad pm p w1 w2 h where pm: "pr_policy_manager (sys_pr sys) = Some pm"
    and op: "open_policy real_pm e pm (d_on_chain_policy_id d) (sys_pr sys) (sys_pm sys) = Inr (p, w1)"
    and can: "pmc_can_farmer_claim real_pm (subcall e pm) (p_farmer p) w1 = Inr (True, w2)"
    and settle: "settle_verified real_pm real_adapter e pm ad p (drought_report d) h
      (sys\<lparr>sys_pr := drought_begun e c d (sys_pr sys), sys_pm := w2\<rparr>) = Inr sys'"
    using call unfolding submit_drought_Inr by blast
  obtain s1 where load: "load_policy (subcall e pm) (d_on_chain_policy_id d) s = Inr (p, s1)" and w1: "w1 = (n, s1)"
    using op by (auto simp: open_policy_Inr m pm_get_policy_def bindE_eq_Inr)
  note same = pm_read_same [OF ok load]
  obtain w3 w4 where mark: "mark_as_claimed (subcall e pm) (current_contract_address e) (d_on_chain_policy_id d) n s1 = Inr w3"
    and inc: "increment_claim_count (subcall e pm) (current_contract_address e) (p_farmer p) (snd w3) = Inr w4"
    and after: "sys_pm sys' = (fst w3, w4)"
    using settle can unfolding settle_verified_Inr by (auto simp: w1 bindE_eq_Inr)
  obtain n' s2 where w3: "w3 = (n', s2)" by (cases w3)
  have ok1: "pm_ok (pm_view s1)" using ok same(1) by simp
  have "holds (pm_roles s2) = holds (pm_roles s1)" "pm_policy_nft s2 = pm_policy_nft s1"
    using mark_as_claimed_Inr [OF ok1 mark [unfolded w3]] by (auto simp: pm_rest_def)
  moreover have "holds (pm_roles w4) = holds (pm_roles s2)" "pm_policy_nft w4 = pm_policy_nft s2"
    using increment_claim_count_ok [OF increment_claim_count_needs [OF inc]] inc by (auto simp: w3 pm_rest_def)
  ultimately show ?thesis
    using pm same mark after by (intro exI [of _ pm] exI [of _ s1] exI [of _ n'] exI [of _ s2] exI [of _ w4]) (auto simp: w3 pm_rest_def)
qed

text \<open>The receiver's own configuration stays.\<close>

lemma submission_receiver:
  assumes "submit_drought_determination real_pm real_adapter e c d sig rid sys = Inr sys'"
  shows "holds (pr_roles (sys_pr sys')) = holds (pr_roles (sys_pr sys))" "pr_paused (sys_pr sys') = pr_paused (sys_pr sys)"
    "pr_settlement_adapter (sys_pr sys') = pr_settlement_adapter (sys_pr sys)"
    "pr_policy_manager (sys_pr sys') = pr_policy_manager (sys_pr sys)"
    "pr_authorized_signer (sys_pr sys') = pr_authorized_signer (sys_pr sys)"
    "pr_network_domain (sys_pr sys') = pr_network_domain (sys_pr sys)"
    "is_methodology_enabled k (sys_pr sys') = is_methodology_enabled k (sys_pr sys)"
  using assms unfolding submit_drought_Inr settle_verified_Inr
  by (auto simp: drought_begun_def pr_begun_def pr_touch_def is_methodology_enabled_def methodology_enabled_def)

section \<open>A settled world\<close>

definition settled :: "policy \<Rightarrow> drought_determination \<Rightarrow> bytes32 \<Rightarrow> nat \<Rightarrow> 'k world \<Rightarrow> bool" where
  "settled p d h now w \<longleftrightarrow> (let c = w_contracts w; v = pm_view (snd (sys_pm c)) in
     v_policy v = [1 \<mapsto> p\<lparr>p_status := Claimed\<rparr>] \<and> claims_of v (p_farmer p) = [now] \<and> exposure_of v (p_org p) = 0 \<and>
     (\<exists>x. fst (sys_pm c) (w_nft w) = Some x \<and> certified (p_farmer p) False x) \<and>
     (\<exists>ad e. adapter_of w = Some ad \<and> timestamp e = now \<and> sa_inv ad \<and> sa_next_obligation_id ad = Some 2 \<and>
        get (sa_obligation ad) = [1 \<mapsto> fresh_obligation e 1 (w_pr w) 1 (p_org p) (d_payout_amount d) h 0] \<and>
        get (sa_obligation_of ad) = [(w_pr w, 1) \<mapsto> 1] \<and> get (sa_org_count ad) = [p_org p \<mapsto> 1]) \<and>
     is_policy_paid 1 (sys_pr c) \<and> get_report 1 (sys_pr c) = drought_report d)"

lemma settles_world:
  assumes w: "wired lib (Some (w_pr w)) w" and p: "insured p w" "p_id p = 1" "p_status p = Active"
    and now: "timestamp (w_env w) < u64_max"
    and d: "d_on_chain_policy_id d = 1"
    and call: "submit_drought_determination real_pm real_adapter (signed_call (w_env w) (w_pr w) (w_relayer w)) (w_relayer w)
      d sig rid (w_contracts w) = Inr sys'"
  shows "wired lib (Some (w_pr w)) (w\<lparr>w_contracts := sys'\<rparr>)" (is ?wired)
    and "settled p d (drought_determination_digest (w_env w) d (w_pr w) (w_domain w)) (timestamp (w_env w))
      (w\<lparr>w_contracts := sys'\<rparr>)" (is ?settled)
proof -
  let ?e = "signed_call (w_env w) (w_pr w) (w_relayer w)" and ?c = "w_contracts w"
  let ?h = "drought_determination_digest (w_env w) d (w_pr w) (w_domain w)"
  obtain n s where m: "sys_pm ?c = (n, s)" by (cases "sys_pm ?c")
  note wm = wiredD(5) [OF w] and wa = wiredD(6) [OF w] and wr = wiredD(7) [OF w]
  have ok: "pm_ok (pm_view s)" using wiredD(8) [OF w] by (simp add: m)
  have pol: "get (pm_policy s) = [1 \<mapsto> p]" and claims: "\<And>a. claims_of (pm_view s) a = []"
    and exposed: "exposure_of (pm_view s) (p_org p) = p_sum_insured p"
    using p(1) by (simp_all add: insured_def Let_def m)
  obtain a where ads: "sys_adapters ?c = [w_adapter w \<mapsto> a]" and bound: "sa_payout_receiver a = Some (w_pr w)"
    and aroles: "\<And>r x. holds (sa_roles a) r x \<longleftrightarrow> x = w_admin w \<and> (r = Admin \<or> r = Upgrader) \<or> x = w_backend w \<and> r = Funder"
    using wa by (auto simp: adapter_wired_def)
  have abook: "get (sa_obligation a) = Map.empty" "get (sa_obligation_of a) = Map.empty" "get (sa_org_count a) = Map.empty"
      "sa_next_obligation_id a = Some 1"
    using p(1) by (simp_all add: insured_def Let_def adapter_of_def ads)
  obtain x where x: "n = [w_nft w \<mapsto> x]" "nft_policy_manager x = Some (w_pm w)"
      "\<And>r a. holds (nft_roles x) r a \<longleftrightarrow> a = w_admin w \<and> r = Admin \<or> a = w_pm w \<and> r = Minter"
    and wired_nft: "pm_policy_nft s = Some (w_nft w)"
    using wm by (auto simp: manager_wired_def m)
  have cert: "certified (p_farmer p) True x" using p(1) by (simp add: insured_def Let_def m x(1))
  obtain t where t: "t \<le> timestamp (w_env w)" "sys_reachable (w_pr w) t ?c" using wiredD(9) [OF w] by blast
  note inv = sys_reachable_inv [OF t(2)]
  have sa: "sa_inv b" if "sys_adapters ?c ad = Some b" for ad b using inv that by (auto simp: sys_inv_def)
  \<comment> \<open>the certificate and the manager\<close>
  obtain s1 n' s2 s3 where rest: "pm_rest s1 = pm_rest s" "pm_view s1 = pm_view s"
    and mark: "mark_as_claimed (subcall ?e (w_pm w)) (w_pr w) 1 n s1 = Inr (n', s2)"
    and m': "sys_pm sys' = (n', s3)" "holds (pm_roles s3) = holds (pm_roles s)" "pm_policy_nft s3 = pm_policy_nft s"
    using submission_manager [OF call m ok] wr by (auto simp: d receiver_wired_def)
  have "pm_policy_nft s1 = Some (w_nft w)" "pm_ok (pm_view s1)" using rest wired_nft ok by (simp_all add: pm_rest_def)
  with claim_closes_certificate [OF _ mark, of "w_nft w" x] cert x
  obtain x' where x': "n' = [w_nft w \<mapsto> x']"
    and close: "update_policy_status (subcall (subcall ?e (w_pm w)) (w_nft w)) (w_pm w) 1 False x = Inr x'"
    by (auto simp: certified_def)
  note closed = update_policy_status_effect [OF close]
  have wm': "manager_wired w (n', s3)"
    using wm by (auto simp: manager_wired_def m m' x' closed(6,7) x)
  have cert': "certified (p_farmer p) False x'" using cert closed(1-3) by (auto simp: certified_def)
  \<comment> \<open>the adapter\<close>
  have digest: "drought_digest_of ?e d (sys_pr ?c) = ?h" using wr by (simp add: drought_digest_of_def receiver_wired_def)
  obtain pm q v ob a' where op: "open_policy real_pm ?e pm 1 (sys_pr ?c) (sys_pm ?c) = Inr (q, v)"
    and rec: "record_obligation (subcall ?e (w_adapter w)) (w_pr w) 1 (p_org q) (d_payout_amount d) ?h a = Inr (ob, a')"
    and ads': "sys_adapters sys' = [w_adapter w \<mapsto> a']"
    using submission_records [OF call] wr by (auto simp: ads d digest receiver_wired_def)
  have "q = p"
    using real.open_policy_effect [OF sys_inv_sound [OF inv] op] by (simp add: m pol)
  with record_obligation_Inr [OF rec] abook have ob: "ob = fresh_obligation (subcall ?e (w_adapter w)) 1 (w_pr w) 1 (p_org p) (d_payout_amount d) ?h 0"
    and a': "a' = sa_recorded (subcall ?e (w_adapter w)) ob (sa_touch (subcall ?e (w_adapter w)) a)"
    by (auto simp: org_size_def)
  have sa': "sa_inv a'" using sa_inv_step [OF sa step_record [OF rec]] ads by simp
  have wa': "adapter_wired w (Some (w_pr w)) (sys_adapters sys')"
    unfolding adapter_wired_def by (rule exI [of _ a']) (simp add: ads' a' bound aroles)
  \<comment> \<open>the receiver and the book\<close>
  have wr': "receiver_wired lib w (sys_pr sys')"
    using wr submission_receiver [OF call] by (simp add: receiver_wired_def)
  obtain p' ad ob' where at: "settlement_at ?e d p' ad ob' ?c sys'"
    by (rule drought_settlement [OF call sys_inv_sound [OF inv], elim_format]) (use sa in blast)+
  then have p': "p' = p" and v': "pm_view s3 = a_claim (p_farmer p) (timestamp (w_env w)) (a_close Claimed p (pm_view s))"
    and paid: "get (pr_policy_paid (sys_pr sys')) 1 = Some True" "get (pr_report (sys_pr sys')) 1 = Some (drought_report d)"
    by (auto simp: settlement_at_def Let_def d m m' pol pr_book_def)
  have "sys_reachable (w_pr w) (timestamp (w_env w)) sys'"
    using sys_next [OF t(2) on_receiver [OF pr_settles_drought [OF call]]] t(1) now wired_deployment [OF wm'] m'(1) by simp
  then show ?wired
    using w wm' wa' wr' m'(1)
    by (auto simp: wired_def actors_def manager_wired_def adapter_wired_def receiver_wired_def)
  have "v_policy (pm_view s3) = [1 \<mapsto> p\<lparr>p_status := Claimed\<rparr>]" "claims_of (pm_view s3) (p_farmer p) = [timestamp (w_env w)]"
    "exposure_of (pm_view s3) (p_org p) = 0"
    unfolding v' using claims [of "p_farmer p"] exposed pol p(2,3)
    by (simp_all add: a_claim_def a_close_def claims_of_def exposure_of_def MAX_CLAIMS_PER_FARMER_PER_YEAR_def)
  with m'(1) x' cert' sa' paid show ?settled
    by (auto simp: settled_def Let_def adapter_of_def ads' a' ob abook is_policy_paid_def get_report_def fresh_obligation_def
        intro!: exI [of _ "subcall ?e (w_adapter w)"])
qed

section \<open>Worlds of the same deployment\<close>

definition same_actors :: "'k world \<Rightarrow> 'k world \<Rightarrow> bool" where
  "same_actors w w' \<longleftrightarrow> w' = w\<lparr>w_env := w_env w', w_contracts := w_contracts w'\<rparr>"

lemma same_actorsD:
  assumes "same_actors w w'"
  shows "w_admin w' = w_admin w" "w_pm w' = w_pm w" "w_nft w' = w_nft w" "w_adapter w' = w_adapter w" "w_pr w' = w_pr w"
    "w_backend w' = w_backend w" "w_farmer w' = w_farmer w" "w_distributor w' = w_distributor w" "w_org w' = w_org w"
    "w_relayer w' = w_relayer w" "w_sk w' = w_sk w" "w_domain w' = w_domain w"
  by (subst assms [unfolded same_actors_def], simp)+

lemma same_actors_moves [simp]:
  "same_actors w (w\<lparr>w_contracts := c\<rparr>)" "same_actors w (set_timestamp t w)" "same_actors w (at_assessment w)"
  by (simp_all add: same_actors_def set_timestamp_def at_assessment_def)

lemma first_policy_same: "same_actors w w' \<Longrightarrow> first_policy w' = first_policy w"
  by (simp add: first_policy_def fun_eq_iff same_actorsD)

lemma set_timestamp_simps [simp]:
  "w_contracts (set_timestamp t w) = w_contracts w" "w_env (set_timestamp t w) = (w_env w)\<lparr>timestamp := t\<rparr>"
  "insured p (set_timestamp t w) = insured p w" "adapter_of (set_timestamp t w) = adapter_of w"
  by (simp_all add: set_timestamp_def insured_def adapter_of_def)

lemma digest_clock [simp]: "drought_determination_digest (e\<lparr>timestamp := t\<rparr>) = drought_determination_digest e"
  by (simp add: drought_determination_digest_def encode_drought_preimage_def keccak_of_def fun_eq_iff)

lemma at_assessment_simps [simp]:
  "w_contracts (at_assessment w) = w_contracts w" "insured p (at_assessment w) = insured p w"
  "timestamp (w_env (at_assessment w)) = max (timestamp (w_env w)) (ASSESSED + 60)"
  "secp256k1_recover (w_env (at_assessment w)) = secp256k1_recover (w_env w)"
  "drought_determination_digest (w_env (at_assessment w)) = drought_determination_digest (w_env w)"
  by (simp_all add: at_assessment_def)

lemma wired_assessment: "wired lib pr w \<Longrightarrow> wired lib pr (at_assessment w)"
  by (simp add: at_assessment_def wired_later)

text \<open>The scheme the tests sign with: every digest can be signed, and recovery returns the key.\<close>

definition signs :: "'k signing_lib \<Rightarrow> env \<Rightarrow> 'k \<Rightarrow> bool" where
  "signs lib e sk \<longleftrightarrow>
     (\<forall>h. \<exists>sig rid. sign_digest lib sk h = Some (sig, rid) \<and> secp256k1_recover e h sig rid = Some (pubkey65 lib sk))"

section \<open>Submissions in a wired world\<close>

text \<open>What is left of the documented checks when the deployment is in order and policy 1 is stored.\<close>

definition open_checks ::
  "'k signing_lib \<Rightarrow> address option \<Rightarrow> 'k world \<Rightarrow> policy \<Rightarrow> drought_determination \<Rightarrow> bytes64 \<Rightarrow> nat \<Rightarrow> (bool \<times> error) list" where
  "open_checks lib pr w p d sig rid =
     (let signer = secp256k1_recover (w_env w) (drought_determination_digest (w_env w) d (w_pr w) (w_domain w)) sig rid in
      evidence_rules d @ open_rules (w_env w) p @ cover_rules d p @ fresh_rules (w_env w) d @
      [(signer \<noteq> None, HostE BadSignatureEncoding), (signer = Some (pubkey65 lib (w_sk w)), PayoutE InvalidSignature),
       (pr \<noteq> None, CommonE NotConfigured), (pr = Some (w_pr w), AdapterE NotPayoutReceiver)])"

lemma wired_verdict:
  assumes w: "wired lib pr w" and p: "insured p w" and d: "d_on_chain_policy_id d = 1"
  shows "answers (open_checks lib pr w p d sig rid)
    (submit_drought_determination real_pm real_adapter (signed_call (w_env w) (w_pr w) (w_relayer w)) (w_relayer w)
      d sig rid (w_contracts w))"
proof -
  let ?e = "signed_call (w_env w) (w_pr w) (w_relayer w)" and ?c = "w_contracts w"
  obtain t where t: "t \<le> timestamp (w_env w)" "sys_reachable (w_pr w) t ?c" using wiredD(9) [OF w] by blast
  obtain a where ads: "sys_adapters ?c = [w_adapter w \<mapsto> a]" "sa_payout_receiver a = pr"
    using wiredD(6) [OF w] by (auto simp: adapter_wired_def)
  have room: "has_obligation_room a (p_org p)"
    using p by (simp add: insured_def Let_def adapter_of_def ads has_obligation_room_def obligation_count_def
        org_obligation_count_def sub_u_def u32_max_def u64_max_def)
  have pol: "get (pm_policy (snd (sys_pm ?c))) 1 = Some p" and none: "pr_consumed (sys_pr ?c) = Map.empty"
    using p by (simp_all add: insured_def Let_def)
  have orc: "holds (pm_roles (snd (sys_pm ?c))) Oracle (w_pr w)" using wiredD(5) [OF w] by (simp add: manager_wired_def)
  have "first_error (drought_rules ?e (w_relayer w) d sig rid ?c) = first_error (open_checks lib pr w p d sig rid)"
    using wiredD(7) [OF w] pol none orc ads room
    by (simp add: drought_rules_def gate_rules_def policy_rules_def key_rules_def booking_rules_def open_checks_def Let_def d
        receiver_wired_def has_temporary_def live_entry_def adapter_payout_receiver_def drought_digest_of_def open_rules_def fresh_rules_def
        first_error_append split: option.split)
  then show ?thesis using reachable_answers [OF t(2), of ?e "w_relayer w" d sig rid] t(1) by (simp add: answers_def)
qed

text \<open>Once policy 1 is claimed, well-formed evidence for it meets its status.\<close>

lemma claimed_verdict:
  assumes reach: "sys_reachable (w_pr w) t (w_contracts w)" "t \<le> timestamp (w_env w)"
    and pr: "first_error (gate_rules (signed_call (w_env w) (w_pr w) (w_relayer w)) (w_relayer w) CropDroughtRdi10
      (sys_pr (w_contracts w))) = None"
    and p: "get (pm_policy (snd (sys_pm (w_contracts w)))) 1 = Some p" "p_status p \<noteq> Active"
    and d: "d_on_chain_policy_id d = 1" "first_error (evidence_rules d) = None"
  shows "submit_drought_determination real_pm real_adapter (signed_call (w_env w) (w_pr w) (w_relayer w)) (w_relayer w)
      d sig rid (w_contracts w) = Inl (PayoutE PolicyNotActive)"
  using reachable_answers [OF reach(1), of "signed_call (w_env w) (w_pr w) (w_relayer w)" "w_relayer w" d sig rid] reach(2)
    pr p d
  by (simp add: answers_def drought_rules_def policy_rules_def open_rules_def first_error_append)

lemma wired_gates:
  assumes "receiver_wired lib w r"
  shows "first_error (gate_rules (signed_call e (w_pr w) (w_relayer w)) (w_relayer w) CropDroughtRdi10 r) = None"
  using assms by (simp add: gate_rules_def receiver_wired_def)

section \<open>Reads\<close>

text \<open>A read of a policy extends rent and leaves the wiring and the books.\<close>

lemma reads:
  assumes w: "wired lib pr w" and p: "get (pm_policy (snd (sys_pm (w_contracts w)))) i = Some p"
    and now: "timestamp (w_env w) < u64_max"
  shows "\<exists>w'. read_policy i w = Some (p, w') \<and> same_actors w w' \<and> wired lib pr w' \<and> w_env w' = w_env w \<and>
    sys_pr (w_contracts w') = sys_pr (w_contracts w) \<and> sys_adapters (w_contracts w') = sys_adapters (w_contracts w) \<and>
    fst (sys_pm (w_contracts w')) = fst (sys_pm (w_contracts w)) \<and>
    pm_view (snd (sys_pm (w_contracts w'))) = pm_view (snd (sys_pm (w_contracts w)))"
proof -
  let ?e = "open_call (w_env w) (w_pm w)"
  obtain n s where m: "sys_pm (w_contracts w) = (n, s)" by (cases "sys_pm (w_contracts w)")
  have ok: "pm_ok (pm_view s)" using wiredD(8) [OF w] by (simp add: m)
  have p': "get (pm_policy s) i = Some p" "p_id p = i" using p pm_okD(3) [OF ok, of i p] by (simp_all add: m)
  obtain s' where load: "pm_get_policy ?e i s = Inr (p, s')"
    using p' by (simp add: pm_get_policy_def load_policy_eq)
  note same = pm_read_same [OF ok load [unfolded pm_get_policy_def]]
  have "manager_wired w (n, s')" using wiredD(5) [OF w] same(2) by (simp add: manager_wired_def m pm_rest_def)
  then have "wired lib pr (w\<lparr>w_contracts := (w_contracts w)\<lparr>sys_pm := (n, s')\<rparr>\<rparr>)"
    using wired_manager [OF w, of ?e "(n, s')"] do_read [OF load] now by (simp add: m)
  then show ?thesis
    by (intro exI [of _ "w\<lparr>w_contracts := (w_contracts w)\<lparr>sys_pm := (n, s')\<rparr>\<rparr>"])
      (simp add: read_policy_def m load same(1))
qed

lemma insured_same:
  assumes "same_actors w w'" "sys_pr (w_contracts w') = sys_pr (w_contracts w)"
    "sys_adapters (w_contracts w') = sys_adapters (w_contracts w)" "fst (sys_pm (w_contracts w')) = fst (sys_pm (w_contracts w))"
    "pm_view (snd (sys_pm (w_contracts w'))) = pm_view (snd (sys_pm (w_contracts w)))"
  shows "insured p w' = insured p w" and "settled p d h now w' = settled p d h now w" and "adapter_of w' = adapter_of w"
  by (simp_all only: insured_def settled_def adapter_of_def Let_def assms same_actorsD [OF assms(1)])

text \<open>Nothing has been recorded for an insured policy.\<close>

lemma nothing_owed:
  assumes w: "wired lib pr w" and p: "insured p w" "p_status p = Active" and now: "timestamp (w_env w) < u64_max"
  shows "\<exists>w'. assert_nothing_owed 1 w = Some w' \<and> same_actors w w' \<and> wired lib pr w' \<and> w_env w' = w_env w \<and> insured p w'"
proof -
  obtain ad where ad: "adapter_of w = Some ad" "get (sa_obligation_of ad) = Map.empty" "sa_next_obligation_id ad = Some 1"
    using p(1) by (auto simp: insured_def Let_def)
  have "get (pm_policy (snd (sys_pm (w_contracts w)))) 1 = Some p" using p(1) by (simp add: insured_def Let_def)
  from reads [OF w this now] obtain w' where w': "read_policy 1 w = Some (p, w')" "same_actors w w'" "wired lib pr w'"
      "w_env w' = w_env w" "insured p w'"
    using insured_same(1) p(1) by blast
  have "\<not> is_policy_paid 1 (sys_pr (w_contracts w))" using p(1) by (simp add: insured_def Let_def is_policy_paid_def)
  then show ?thesis
    using w' p(2) by (auto simp: assert_nothing_owed_def ad find_obligation_def obligation_count_def sub_u_def)
qed

section \<open>Runs\<close>

text \<open>Deploy and sell: every test but one starts like this.\<close>

lemma sells:
  assumes w: "wired lib pr w" and new: "blank w" and t: "timestamp (w_env w) \<le> 10 ^ 12"
  shows "\<exists>w'. create_and_activate w = Some (1, w') \<and> same_actors w w' \<and> w_env w' = w_env w \<and> wired lib pr w' \<and>
    insured (first_policy w' PLOT_LAT_E6 PLOT_LON_E6 (timestamp (w_env w))) w'"
proof -
  have plot: "\<bar>PLOT_LAT_E6\<bar> \<le> 90000000" "\<bar>PLOT_LON_E6\<bar> \<le> 180000000" by (simp_all add: test_constants)
  obtain n0 s0 where m: "sys_pm (w_contracts w) = (n0, s0)" by (cases "sys_pm (w_contracts w)")
  from sold [OF w new refl t plot, of "''Acme Distributor''" "''Rift Valley''"] obtain s n s' where
    "create_policy (signed_call (w_env w) (w_pm w) (w_backend w)) (w_backend w) (w_farmer w) 7 PLOT_LAT_E6 PLOT_LON_E6
        SUM_INSURED PREMIUM DURATION_DAYS Drought (w_org w) s0 = Inr (1, s)"
    "activate_policy (signed_call (w_env w) (w_pm w) (w_backend w)) (w_backend w) 1 (w_distributor w) ''Acme Distributor''
        ''Rift Valley'' n0 s = Inr (n, s')"
    and after: "wired lib pr (w\<lparr>w_contracts := (w_contracts w)\<lparr>sys_pm := (n, s')\<rparr>\<rparr>)"
      "insured (first_policy w PLOT_LAT_E6 PLOT_LON_E6 (timestamp (w_env w))) (w\<lparr>w_contracts := (w_contracts w)\<lparr>sys_pm := (n, s')\<rparr>\<rparr>)"
    by (auto simp: m)
  then have "create_and_activate w = Some (1, w\<lparr>w_contracts := (w_contracts w)\<lparr>sys_pm := (n, s')\<rparr>\<rparr>)"
    by (simp add: create_and_activate_def Let_def m del: One_nat_def)
  then show ?thesis
    using after first_policy_same [OF same_actors_moves(1) [where w = w]]
    by (intro exI [of _ "w\<lparr>w_contracts := (w_contracts w)\<lparr>sys_pm := (n, s')\<rparr>\<rparr>"]) simp
qed

lemma same_actors_trans: "same_actors w w' \<Longrightarrow> same_actors w' w'' \<Longrightarrow> same_actors w w''"
  by (metis (no_types, lifting) same_actors_def world.surjective world.update_convs(1,14))

lemma deploys:
  assumes "inj generate" and "sk_from lib 0x11 = Some sk"
  obtains w where "deploy_with lib generate e b = Some w" and "blank w" and "w_env w = e\<lparr>timestamp := NOW\<rparr>" and "w_sk w = sk"
    and "wired lib (if b then Some (w_pr w) else None) w"
    and "\<And>t. t < u64_max \<Longrightarrow> wired lib (if b then Some (w_pr w) else None) (set_timestamp t w)"
    and "generate 10 \<notin> set (actors w)"
proof -
  obtain w where w: "deploy_with lib generate e b = Some w" "blank w" "w_env w = e\<lparr>timestamp := NOW\<rparr>" "w_sk w = sk"
      and any: "\<forall>t < u64_max. wired lib (if b then Some (w_pr w) else None) (set_timestamp t w)"
      and other: "generate 10 \<notin> set (actors w)"
    using deploy_with_ok [OF assms, of e b] by blast
  have "(w_env w)\<lparr>timestamp := NOW\<rparr> = w_env w" by (simp add: w(3))
  then have "set_timestamp NOW w = w" by (simp add: set_timestamp_def)
  moreover have "NOW < u64_max" by (simp add: test_constants u64_max_def)
  ultimately have now: "wired lib (if b then Some (w_pr w) else None) w" using any by metis
  show thesis by (rule that [OF w now _ other]) (rule any [rule_format])
qed

lemma opens:
  assumes "inj generate" and "sk_from lib 0x11 = Some sk"
  obtains w w1 where "deploy_with lib generate e b = Some w" and "create_and_activate w = Some (1, w1)"
    and "wired lib (if b then Some (w_pr w1) else None) w1"
    and "insured (first_policy w1 PLOT_LAT_E6 PLOT_LON_E6 NOW) w1"
    and "w_env w1 = e\<lparr>timestamp := NOW\<rparr>" and "w_sk w1 = sk" and "generate 10 \<notin> set (actors w1)"
proof (rule deploys [OF assms, of e b])
  fix w
  assume w: "deploy_with lib generate e b = Some w" "blank w" "w_env w = e\<lparr>timestamp := NOW\<rparr>" "w_sk w = sk"
    and wired: "wired lib (if b then Some (w_pr w) else None) w" and other: "generate 10 \<notin> set (actors w)"
  have "timestamp (w_env w) \<le> 10 ^ 12" by (simp add: w(3) test_constants)
  from sells [OF wired w(2) this] obtain w1 where w1: "create_and_activate w = Some (1, w1)" "same_actors w w1"
      "w_env w1 = w_env w" "wired lib (if b then Some (w_pr w) else None) w1"
      "insured (first_policy w1 PLOT_LAT_E6 PLOT_LON_E6 (timestamp (w_env w))) w1"
    by blast
  show thesis
    by (rule that [OF w(1) w1(1)]) (use w1 same_actorsD(5,11) [OF w1(2)] w(3,4) other in
        \<open>simp_all add: actors_def same_actorsD [OF w1(2)] split: if_splits\<close>)
qed

text \<open>A submission that the remaining checks accept settles.\<close>

lemma accepted:
  assumes w: "wired lib (Some (w_pr w)) w" and p: "insured p w" "p_id p = 1" "p_status p = Active"
    and now: "timestamp (w_env w) < u64_max" and d: "d_on_chain_policy_id d = 1"
    and checks: "first_error (open_checks lib (Some (w_pr w)) w p d sig rid) = None"
  shows "\<exists>sys'. submit_drought_determination real_pm real_adapter (signed_call (w_env w) (w_pr w) (w_relayer w)) (w_relayer w)
      d sig rid (w_contracts w) = Inr sys' \<and> wired lib (Some (w_pr w)) (w\<lparr>w_contracts := sys'\<rparr>) \<and>
    settled p d (drought_determination_digest (w_env w) d (w_pr w) (w_domain w)) (timestamp (w_env w)) (w\<lparr>w_contracts := sys'\<rparr>)"
  using wired_verdict [OF w p(1) d, of sig rid] settles_world [OF w p now d] checks by (auto simp: answers_def)

lemma submits:
  assumes w: "wired lib (Some (w_pr w)) w" and p: "insured p w" "p_id p = 1" "p_status p = Active"
    and now: "timestamp (w_env w) \<le> ASSESSED + 60" and d: "d_on_chain_policy_id d = 1"
    and checks: "\<And>sig rid. sign_for lib (w_env w) (w_sk w) (w_pr w) (w_domain w) d = Some (sig, rid) \<Longrightarrow>
      first_error (open_checks lib (Some (w_pr w)) (at_assessment w) p d sig rid) = None"
    and sign: "signs lib (w_env w) (w_sk w)"
  shows "\<exists>w' sig rid. submit lib d w = Some w' \<and> try_submit d sig rid w = (Inr (), w') \<and>
    sign_for lib (w_env w) (w_sk w) (w_pr w) (w_domain w) d = Some (sig, rid) \<and> same_actors w w' \<and>
    w_env w' = (w_env w)\<lparr>timestamp := ASSESSED + 60\<rparr> \<and> wired lib (Some (w_pr w')) w' \<and>
    settled p d (drought_determination_digest (w_env w) d (w_pr w) (w_domain w)) (ASSESSED + 60) w'"
proof -
  let ?w = "at_assessment w"
  obtain sig rid where s: "sign_for lib (w_env w) (w_sk w) (w_pr w) (w_domain w) d = Some (sig, rid)"
    using sign unfolding signs_def sign_for_def by blast
  note same = same_actorsD [OF same_actors_moves(3), of w]
  have t: "timestamp (w_env ?w) = ASSESSED + 60" "w_env ?w = (w_env w)\<lparr>timestamp := ASSESSED + 60\<rparr>"
    using now by (auto simp: at_assessment_def)
  have late: "timestamp (w_env ?w) < u64_max" by (simp only: t) (simp add: test_constants u64_max_def)
  have w': "wired lib (Some (w_pr ?w)) ?w" using wired_assessment [OF w] by (simp add: same)
  have p': "insured p ?w" using p(1) by simp
  have ok: "first_error (open_checks lib (Some (w_pr ?w)) ?w p d sig rid) = None" using checks [OF s] by (simp add: same)
  obtain sys' where sys': "submit_drought_determination real_pm real_adapter (signed_call (w_env ?w) (w_pr ?w) (w_relayer ?w))
        (w_relayer ?w) d sig rid (w_contracts ?w) = Inr sys'" "wired lib (Some (w_pr ?w)) (?w\<lparr>w_contracts := sys'\<rparr>)"
      "settled p d (drought_determination_digest (w_env w) d (w_pr w) (w_domain w)) (ASSESSED + 60) (?w\<lparr>w_contracts := sys'\<rparr>)"
    using accepted [OF w' p' p(2,3) late d ok] t(1) by (auto simp: same)
  have "sign_for lib (w_env ?w) (w_sk ?w) (w_pr ?w) (w_domain ?w) d = Some (sig, rid)" using s by (simp add: sign_for_def same)
  then show ?thesis
    using s sys' t(2) same_actors_trans [OF same_actors_moves(3) [of w] same_actors_moves(1) [of _ sys']]
    by (intro exI [of _ "?w\<lparr>w_contracts := sys'\<rparr>"] exI [of _ sig] exI [of _ rid])
      (simp add: submit_def try_submit_def Let_def del: One_nat_def)
qed

lemma refused:
  assumes w: "wired lib pr w" and p: "insured p w" and d: "d_on_chain_policy_id d = 1"
    and checks: "first_error (open_checks lib pr (at_assessment w) p d sig rid) = Some err"
  shows "try_submit d sig rid w = (Inl err, at_assessment w)"
proof -
  have "insured p (at_assessment w)" using p by simp
  then have "answers (open_checks lib pr (at_assessment w) p d sig rid) (submit_drought_determination real_pm real_adapter
      (signed_call (w_env (at_assessment w)) (w_pr (at_assessment w)) (w_relayer (at_assessment w))) (w_relayer (at_assessment w))
      d sig rid (w_contracts (at_assessment w)))"
    by (rule wired_verdict [OF wired_assessment [OF w] _ d])
  then show ?thesis using checks by (simp add: answers_def try_submit_def Let_def)
qed

section \<open>The determination of the tests\<close>

lemma determination_evidence:
  "first_error (evidence_rules (determination i s x)) = None"
  "first_error (evidence_rules (determination i s x\<lparr>d_latitude_e6 := l\<rparr>)) = None"
  "first_error (evidence_rules (determination i s x\<lparr>d_assessed_at := t\<rparr>)) = None"
  by (simp_all add: evidence_rules_def evidence_valid_def determination_def test_constants drought_index_def
      window_damage_def window_deficit_def)

lemma determination_cover:
  "first_error (cover_rules (determination 1 SUM_INSURED PAYOUT) (first_policy w PLOT_LAT_E6 PLOT_LON_E6 NOW)) = None"
  "first_error (cover_rules (determination 1 SUM_INSURED PAYOUT\<lparr>d_latitude_e6 := - 1300000\<rparr>)
     (first_policy w PLOT_LAT_E6 PLOT_LON_E6 NOW)) = Some (PayoutE PlotLocationMismatch)"
  "first_error (cover_rules (determination 1 SUM_INSURED PAYOUT)
     (first_policy w PLOT_LAT_E6 PLOT_LON_E6 (PLANT + 86400 + 60))) = Some (PayoutE EvidenceOutsideCoverWindow)"
  by (simp_all add: cover_rules_def determination_def first_policy_def test_constants)

lemma determination_checks:
  assumes "timestamp (w_env w) \<le> ASSESSED + 60"
  shows "first_error (open_checks lib pr (at_assessment w) (first_policy w' PLOT_LAT_E6 PLOT_LON_E6 NOW)
      (determination 1 SUM_INSURED PAYOUT) sig rid) =
    (let signer = secp256k1_recover (w_env w) (drought_determination_digest (w_env w) (determination 1 SUM_INSURED PAYOUT)
       (w_pr w) (w_domain w)) sig rid in
     if signer = None then Some (HostE BadSignatureEncoding)
     else if signer \<noteq> Some (pubkey65 lib (w_sk w)) then Some (PayoutE InvalidSignature)
     else if pr = None then Some (CommonE NotConfigured)
     else if pr \<noteq> Some (w_pr w) then Some (AdapterE NotPayoutReceiver) else None)"
proof -
  have t: "timestamp (w_env (at_assessment w)) = ASSESSED + 60" using assms by simp
  have "first_error (open_rules (w_env (at_assessment w)) (first_policy w' PLOT_LAT_E6 PLOT_LON_E6 NOW)) = None"
    unfolding open_rules_def t by (simp add: first_policy_def test_constants)
  moreover have "first_error (fresh_rules (w_env (at_assessment w)) (determination 1 SUM_INSURED PAYOUT)) = None"
    unfolding fresh_rules_def t by (simp add: determination_def test_constants)
  ultimately show ?thesis
    by (simp add: open_checks_def first_error_append determination_evidence determination_cover Let_def
        same_actorsD [OF same_actors_moves(3)] del: One_nat_def)
qed

section \<open>Calls on the adapter\<close>

definition with_adapter :: "'k world \<Rightarrow> sa_state \<Rightarrow> 'k world" where
  "with_adapter w a =
     w\<lparr>w_contracts := (w_contracts w)\<lparr>sys_adapters := (sys_adapters (w_contracts w))(w_adapter w \<mapsto> a)\<rparr>\<rparr>"

lemma with_adapter_simps [simp]:
  "same_actors w (with_adapter w a)" "adapter_of (with_adapter w a) = Some a" "w_env (with_adapter w a) = w_env w"
  "sys_pr (w_contracts (with_adapter w a)) = sys_pr (w_contracts w)"
  "sys_pm (w_contracts (with_adapter w a)) = sys_pm (w_contracts w)"
  by (simp_all add: with_adapter_def adapter_of_def)

lemma wired_adapter:
  assumes w: "wired lib pr w" and a: "adapter_of w = Some a" and step: "sa_step (signed_call (w_env w) (w_adapter w) who) a a'"
    and who: "who \<noteq> w_pr w" and now: "timestamp (w_env w) < u64_max"
    and after: "holds (sa_roles a') = holds (sa_roles a)" "sa_payout_receiver a' = pr'"
  shows "wired lib pr' (with_adapter w a')"
proof -
  let ?e = "signed_call (w_env w) (w_adapter w) who"
  obtain t where t: "t \<le> timestamp (w_env w)" "sys_reachable (w_pr w) t (w_contracts w)" using wiredD(9) [OF w] by blast
  have "sys_step (w_pr w) ?e (w_contracts w) (w_contracts (with_adapter w a'))"
    using on_adapter [of "w_contracts w" "w_adapter w" a ?e a' "w_pr w"] a step who by (simp add: adapter_of_def with_adapter_def)
  then have "sys_reachable (w_pr w) (timestamp (w_env w)) (w_contracts (with_adapter w a'))"
    using sys_next [OF t(2), of ?e] t(1) now wired_deployment [OF wiredD(5) [OF w], of "w_contracts (with_adapter w a')"] by simp
  moreover obtain b where "sys_adapters (w_contracts w) = [w_adapter w \<mapsto> b]"
      "\<And>r x. holds (sa_roles b) r x \<longleftrightarrow> x = w_admin w \<and> (r = Admin \<or> r = Upgrader) \<or> x = w_backend w \<and> r = Funder"
    using wiredD(6) [OF w] by (auto simp: adapter_wired_def)
  ultimately show ?thesis
    using w a after
    by (auto simp: wired_def actors_def manager_wired_def adapter_wired_def receiver_wired_def with_adapter_def adapter_of_def)
qed

lemma wired_funder:
  assumes "wired lib pr w" and "adapter_of w = Some a"
  shows "holds (sa_roles a) r x \<longleftrightarrow> x = w_admin w \<and> (r = Admin \<or> r = Upgrader) \<or> x = w_backend w \<and> r = Funder"
    and "sa_payout_receiver a = pr" and "sa_inv a"
proof -
  obtain t where "sys_reachable (w_pr w) t (w_contracts w)" using wiredD(9) [OF assms(1)] by blast
  then show "sa_inv a" using sys_reachable_inv assms(2) unfolding sys_inv_def adapter_of_def by blast
qed (use wiredD(6) [OF assms(1)] assms(2) in \<open>auto simp: adapter_wired_def adapter_of_def\<close>)

text \<open>The admin binds the adapter to a receiver; the obligations stay.\<close>

lemma binds:
  assumes w: "wired lib pr w" and now: "timestamp (w_env w) < u64_max" and other: "x \<noteq> w_adapter w"
  shows "\<exists>a a'. adapter_of w = Some a \<and>
    set_payout_receiver (signed_call (w_env w) (w_adapter w) (w_admin w)) (w_admin w) x a = Inr a' \<and>
    wired lib (Some x) (with_adapter w a') \<and> (insured p w \<longrightarrow> insured p (with_adapter w a'))"
proof -
  let ?e = "signed_call (w_env w) (w_adapter w) (w_admin w)"
  obtain a where a: "adapter_of w = Some a" using wiredD(6) [OF w] by (auto simp: adapter_wired_def adapter_of_def)
  have "\<exists>a'. set_payout_receiver ?e (w_admin w) x a = Inr a'"
    using other wired_funder(1) [OF w a] by (simp add: set_payout_receiver_def require_role_eq Let_def)
  then obtain a' where a': "set_payout_receiver ?e (w_admin w) x a = Inr a'" ..
  note eff = set_payout_receiver_effect(4,5) [OF a'] same_obligations_admin(2) [OF a']
  have "wired lib (Some x) (with_adapter w a')"
    by (rule wired_adapter [OF w a step_bind [OF a'] wiredD(2) [OF w] now eff(2,1)])
  moreover have "insured p (with_adapter w a')" if "insured p w"
    using that a eff(3) same_actorsD [OF with_adapter_simps(1) [of w a']]
    by (auto simp: insured_def Let_def same_obligations_def)
  ultimately show ?thesis using a a' by blast
qed

text \<open>The backend, which holds the funder role, marks an obligation.\<close>

lemma marks:
  assumes w: "wired lib pr w" and now: "timestamp (w_env w) < u64_max" and a: "adapter_of w = Some a"
    and ob: "get (sa_obligation a) 1 = Some ob" and r: "r \<noteq> 0"
  defines "e \<equiv> signed_call (w_env w) (w_adapter w) (w_backend w)"
  shows "o_status ob = Owed \<Longrightarrow> \<exists>a' ob'. mark_funded e (w_backend w) 1 r a = Inr (ob', a') \<and>
      ob' = ob\<lparr>o_status := Funded, o_funded_by := Some (w_backend w), o_funded_at := timestamp (w_env w),
        o_funding_reference := Some r\<rparr> \<and> get (sa_obligation a') 1 = Some ob' \<and>
      get (sa_obligation_of a') = get (sa_obligation_of a) \<and> wired lib pr (with_adapter w a')"
    and "o_status ob \<noteq> Settled \<Longrightarrow> \<exists>a' ob'. mark_settled e (w_backend w) 1 r a = Inr (ob', a') \<and>
      ob' = ob\<lparr>o_status := Settled, o_settled_by := Some (w_backend w), o_settled_at := timestamp (w_env w),
        o_settlement_reference := Some r\<rparr> \<and> get (sa_obligation a') 1 = Some ob' \<and>
      get (sa_obligation_of a') = get (sa_obligation_of a) \<and> wired lib pr (with_adapter w a')"
    and "who \<noteq> w_backend w \<Longrightarrow>
      mark_settled (signed_call (w_env w) (w_adapter w) who) who 1 r a = Inl (CommonE Unauthorized)"
proof -
  note funder = wired_funder [OF w a]
  have guard: "mark_guard e (w_backend w) 1 r a = Inr ob" using r ob by (simp add: mark_guard_def e_def funder(1))
  show "mark_settled (signed_call (w_env w) (w_adapter w) who) who 1 r a = Inl (CommonE Unauthorized)" if "who \<noteq> w_backend w"
    using r that by (simp add: mark_settled_eq [OF funder(3)] mark_guard_def funder(1))
  show "\<exists>a' ob'. mark_funded e (w_backend w) 1 r a = Inr (ob', a') \<and>
      ob' = ob\<lparr>o_status := Funded, o_funded_by := Some (w_backend w), o_funded_at := timestamp (w_env w),
        o_funding_reference := Some r\<rparr> \<and> get (sa_obligation a') 1 = Some ob' \<and>
      get (sa_obligation_of a') = get (sa_obligation_of a) \<and> wired lib pr (with_adapter w a')"
    if owed: "o_status ob = Owed"
  proof -
    have "\<exists>a' ob'. mark_funded e (w_backend w) 1 r a = Inr (ob', a') \<and>
        ob' = ob\<lparr>o_status := Funded, o_funded_by := Some (w_backend w), o_funded_at := timestamp (w_env w),
          o_funding_reference := Some r\<rparr> \<and> get (sa_obligation a') 1 = Some ob' \<and>
        get (sa_obligation_of a') = get (sa_obligation_of a) \<and> holds (sa_roles a') = holds (sa_roles a) \<and> sa_payout_receiver a' = pr"
      using owed sa_invD(2) [OF funder(3) ob] funder(2)
      by (auto simp: mark_funded_eq [OF funder(3)] guard [unfolded e_def] attest_funded_def e_def ob simp del: One_nat_def)
    then show ?thesis using wired_adapter [OF w a step_funded wiredD(1) [OF w] now] unfolding e_def by metis
  qed
  show "\<exists>a' ob'. mark_settled e (w_backend w) 1 r a = Inr (ob', a') \<and>
      ob' = ob\<lparr>o_status := Settled, o_settled_by := Some (w_backend w), o_settled_at := timestamp (w_env w),
        o_settlement_reference := Some r\<rparr> \<and> get (sa_obligation a') 1 = Some ob' \<and>
      get (sa_obligation_of a') = get (sa_obligation_of a) \<and> wired lib pr (with_adapter w a')"
    if open_ob: "o_status ob \<noteq> Settled"
  proof -
    have "\<exists>a' ob'. mark_settled e (w_backend w) 1 r a = Inr (ob', a') \<and>
        ob' = ob\<lparr>o_status := Settled, o_settled_by := Some (w_backend w), o_settled_at := timestamp (w_env w),
          o_settlement_reference := Some r\<rparr> \<and> get (sa_obligation a') 1 = Some ob' \<and>
          get (sa_obligation_of a') = get (sa_obligation_of a) \<and> holds (sa_roles a') = holds (sa_roles a) \<and> sa_payout_receiver a' = pr"
      using open_ob sa_invD(2) [OF funder(3) ob] funder(2)
      by (cases "o_status ob")
        (auto simp: mark_settled_eq [OF funder(3)] guard [unfolded e_def] attest_settled_def e_def ob simp del: One_nat_def)
    then show ?thesis using wired_adapter [OF w a step_settled wiredD(1) [OF w] now] unfolding e_def by metis
  qed
qed

end
