(* ===== verification/IntegrationTests.thy ===== *)
theory IntegrationTests
  imports IntegrationSteps
begin

text \<open>
  The integration tests (\<^verbatim>\<open>crates/integration-tests/src/lib.rs\<close>) as runs of the model, assertion by
  assertion. A run that panics is \<open>None\<close>.
\<close>

section \<open>Assertions\<close>

definition nft_of :: "'k world \<Rightarrow> nft_state option" where
  "nft_of w = fst (sys_pm (w_contracts w)) (w_nft w)"

definition manager_of :: "'k world \<Rightarrow> pm_state" where
  "manager_of w = snd (sys_pm (w_contracts w))"

text \<open>\<^verbatim>\<open>assert_eq!(.., Err(Ok(err)))\<close> and \<^verbatim>\<open>assert!(..is_err())\<close> on a \<^verbatim>\<open>try_\<close> call.\<close>

definition fails_with :: "error \<Rightarrow> error + 'a \<Rightarrow> unit option" where
  "fails_with err m = (case m of Inl e \<Rightarrow> must (e = err) | Inr _ \<Rightarrow> None)"

definition fails :: "error + 'a \<Rightarrow> unit option" where
  "fails m = (case m of Inl _ \<Rightarrow> Some () | Inr _ \<Rightarrow> None)"

text \<open>A client call on the adapter of the world, made by \<open>who\<close>.\<close>

definition on_adapter :: "address \<Rightarrow> (env \<Rightarrow> sa_state \<Rightarrow> error + 'a \<times> sa_state) \<Rightarrow> 'k world \<Rightarrow> ('a \<times> 'k world) option" where
  "on_adapter who f w = do {
     adapter \<leftarrow> adapter_of w;
     (x, adapter) \<leftarrow> ok (f (signed_call (w_env w) (w_adapter w) who) adapter);
     Some (x, w\<lparr>w_contracts := (w_contracts w)\<lparr>sys_adapters := (sys_adapters (w_contracts w))(w_adapter w \<mapsto> adapter)\<rparr>\<rparr>)
   }"

section \<open>Full lifecycle\<close>

definition full_lifecycle_determination_to_obligation_to_settlement ::
  "'k signing_lib \<Rightarrow> (nat \<Rightarrow> address) \<Rightarrow> env \<Rightarrow> unit option" where
  "full_lifecycle_determination_to_obligation_to_settlement lib generate env = do {
     w \<leftarrow> deploy lib generate env;
     (policy_id, w) \<leftarrow> create_and_activate w;
     must (policy_id = 1);
     nft \<leftarrow> nft_of w;
     owner \<leftarrow> ok (owner_of policy_id nft);
     must (owner = w_farmer w);
     (policy, w) \<leftarrow> read_policy policy_id w;
     must (p_status policy = Active);
     must (org_outstanding_sum_insured (w_org w) (manager_of w) = SUM_INSURED);
     let d = determination policy_id SUM_INSURED PAYOUT;
     w \<leftarrow> submit lib d w;
     let digest = drought_determination_digest (w_env w) d (w_pr w) (w_domain w);
     adapter \<leftarrow> adapter_of w;
     i \<leftarrow> find_obligation (w_pr w) policy_id adapter;
     ob \<leftarrow> get_obligation i adapter;
     must (o_id ob = 1);
     must (o_payout_receiver ob = w_pr w);
     must (o_policy_id ob = policy_id);
     must (o_org ob = w_org w);
     must (o_amount ob = PAYOUT);
     must (o_determination_digest ob = digest);
     must (o_status ob = Owed);
     must (org_obligation_count (w_org w) adapter = 1);
     must (is_policy_paid policy_id (sys_pr (w_contracts w)));
     (policy, w) \<leftarrow> read_policy policy_id w;
     must (p_status policy = Claimed);
     must (org_outstanding_sum_insured (w_org w) (manager_of w) = 0);
     must (get_farmer_claim_count (open_call (w_env w) (w_pm w)) (w_farmer w) (manager_of w) = 1);
     let report = get_report policy_id (sys_pr (w_contracts w));
     must (r_payout_amount report = PAYOUT);
     must (r_damage_percentage report = DAMAGE_BP);
     nft \<leftarrow> nft_of w;
     owner \<leftarrow> ok (owner_of policy_id nft);
     must (owner = w_farmer w);
     certificate \<leftarrow> ok (get_certificate policy_id nft);
     must (\<not> c_is_active certificate);
     let rf = reference 0xF1;
     (ob, w) \<leftarrow> on_adapter (w_backend w) (\<lambda>e. mark_funded e (w_backend w) i rf) w;
     must (o_status ob = Funded);
     must (o_funded_by ob = Some (w_backend w));
     let rs = reference 0x51;
     adapter \<leftarrow> adapter_of w;
     fails_with (CommonE Unauthorized) (mark_settled (signed_call (w_env w) (w_adapter w) (w_org w)) (w_org w) i rs adapter);
     (ob, w) \<leftarrow> on_adapter (w_backend w) (\<lambda>e. mark_settled e (w_backend w) i rs) w;
     must (o_status ob = Settled);
     must (o_settled_by ob = Some (w_backend w));
     must (o_funding_reference ob = Some rf);
     must (o_settlement_reference ob = Some rs);
     (policy, w) \<leftarrow> read_policy policy_id w;
     must (p_status policy = Claimed);
     nft \<leftarrow> nft_of w;
     owner \<leftarrow> ok (owner_of policy_id nft);
     must (owner = w_farmer w)
   }"

section \<open>Replay\<close>

definition determination_replay_rejected :: "'k signing_lib \<Rightarrow> (nat \<Rightarrow> address) \<Rightarrow> env \<Rightarrow> unit option" where
  "determination_replay_rejected lib generate env = do {
     w \<leftarrow> deploy lib generate env;
     (policy_id, w) \<leftarrow> create_and_activate w;
     let d = determination policy_id SUM_INSURED PAYOUT;
     (sig, recid) \<leftarrow> sign_for lib (w_env w) (w_sk w) (w_pr w) (w_domain w) d;
     let (result, w) = try_submit d sig recid w;
     ok result;
     let (result, w) = try_submit d sig recid w;
     must (result = Inl (PayoutE PolicyNotActive));
     adapter \<leftarrow> adapter_of w;
     must (obligation_count adapter = Inr 1)
   }"

text \<open>The second adapter is registered at the next generated address.\<close>

definition replay_after_adapter_swap_still_rejected :: "'k signing_lib \<Rightarrow> (nat \<Rightarrow> address) \<Rightarrow> env \<Rightarrow> unit option" where
  "replay_after_adapter_swap_still_rejected lib generate env = do {
     w \<leftarrow> deploy lib generate env;
     (policy_id, w) \<leftarrow> create_and_activate w;
     let d = determination policy_id SUM_INSURED PAYOUT;
     (sig, recid) \<leftarrow> sign_for lib (w_env w) (w_sk w) (w_pr w) (w_domain w) d;
     let (result, w) = try_submit d sig recid w;
     ok result;
     let adapter2_addr = generate 10;
     adapter2 \<leftarrow> ok (sa_constructor (signed_call (w_env w) adapter2_addr (w_admin w)) (w_admin w));
     let c = (w_contracts w)\<lparr>sys_adapters := (sys_adapters (w_contracts w))(adapter2_addr \<mapsto> adapter2)\<rparr>;
     fails_with (PayoutE SettlementAdapterNotBound)
       (set_settlement_adapter real_adapter (signed_call (w_env w) (w_pr w) (w_admin w)) (w_admin w) adapter2_addr c);
     adapter2 \<leftarrow> ok (set_payout_receiver (signed_call (w_env w) adapter2_addr (w_admin w)) (w_admin w) (w_pr w) adapter2);
     let c = (w_contracts w)\<lparr>sys_adapters := (sys_adapters (w_contracts w))(adapter2_addr \<mapsto> adapter2)\<rparr>;
     c \<leftarrow> ok (set_settlement_adapter real_adapter (signed_call (w_env w) (w_pr w) (w_admin w)) (w_admin w) adapter2_addr c);
     must (settlement_adapter (sys_pr c) = Inr adapter2_addr);
     let w = w\<lparr>w_contracts := c\<rparr>;
     let (result, w) = try_submit d sig recid w;
     must (result = Inl (PayoutE PolicyNotActive));
     let w = set_timestamp (ASSESSED + 120) w;
     let d2 = (determination policy_id SUM_INSURED PAYOUT)\<lparr>d_assessed_at := ASSESSED + 100\<rparr>;
     (sig2, recid2) \<leftarrow> sign_for lib (w_env w) (w_sk w) (w_pr w) (w_domain w) d2;
     let (result, w) = try_submit d2 sig2 recid2 w;
     fails result;
     adapter2 \<leftarrow> sys_adapters (w_contracts w) adapter2_addr;
     must (obligation_count adapter2 = Inr 0);
     adapter \<leftarrow> adapter_of w;
     must (obligation_count adapter = Inr 1);
     (ob, w) \<leftarrow> on_adapter (w_backend w) (\<lambda>e. mark_settled e (w_backend w) 1 (reference 0x51)) w;
     Some ()
   }"

text \<open>The first address generated after a deployment is the other receiver.\<close>

definition adapter_not_bound_reverts_atomically_then_succeeds_after_binding ::
  "'k signing_lib \<Rightarrow> (nat \<Rightarrow> address) \<Rightarrow> env \<Rightarrow> unit option" where
  "adapter_not_bound_reverts_atomically_then_succeeds_after_binding lib generate env = do {
     w \<leftarrow> deploy_with lib generate env False;
     (policy_id, w) \<leftarrow> create_and_activate w;
     let d = determination policy_id SUM_INSURED PAYOUT;
     (sig, recid) \<leftarrow> sign_for lib (w_env w) (w_sk w) (w_pr w) (w_domain w) d;
     let (result, w) = try_submit d sig recid w;
     must (result = Inl (CommonE NotConfigured));
     w \<leftarrow> assert_nothing_owed policy_id w;
     let other = generate 10;
     (_, w) \<leftarrow> on_adapter (w_admin w) (\<lambda>e s. map_sum id (Pair ()) (set_payout_receiver e (w_admin w) other s)) w;
     let (result, w) = try_submit d sig recid w;
     must (result = Inl (AdapterE NotPayoutReceiver));
     w \<leftarrow> assert_nothing_owed policy_id w;
     (_, w) \<leftarrow> on_adapter (w_admin w) (\<lambda>e s. map_sum id (Pair ()) (set_payout_receiver e (w_admin w) (w_pr w) s)) w;
     let (result, w) = try_submit d sig recid w;
     ok result;
     adapter \<leftarrow> adapter_of w;
     must (obligation_count adapter = Inr 1);
     (policy, w) \<leftarrow> read_policy policy_id w;
     must (p_status policy = Claimed)
   }"

definition wrong_signer_determination_rejected :: "'k signing_lib \<Rightarrow> (nat \<Rightarrow> address) \<Rightarrow> env \<Rightarrow> unit option" where
  "wrong_signer_determination_rejected lib generate env = do {
     w \<leftarrow> deploy lib generate env;
     (policy_id, w) \<leftarrow> create_and_activate w;
     attacker \<leftarrow> sk_from lib 0x22;
     let d = determination policy_id SUM_INSURED PAYOUT;
     (sig, recid) \<leftarrow> sign_for lib (w_env w) attacker (w_pr w) (w_domain w) d;
     let (result, w) = try_submit d sig recid w;
     must (result = Inl (PayoutE InvalidSignature));
     w \<leftarrow> assert_nothing_owed policy_id w;
     Some ()
   }"

section \<open>Roles\<close>

text \<open>A \<^verbatim>\<open>has_role\<close> query extends the rent of the grant it finds; its answer is the first component.\<close>

definition answer :: "error + bool \<times> 's \<Rightarrow> bool option" where
  "answer m = map_option fst (ok m)"

definition has_role_reports_the_money_path_grants :: "'k signing_lib \<Rightarrow> (nat \<Rightarrow> address) \<Rightarrow> env \<Rightarrow> unit option" where
  "has_role_reports_the_money_path_grants lib generate env = do {
     w \<leftarrow> deploy lib generate env;
     nft \<leftarrow> nft_of w;
     adapter \<leftarrow> adapter_of w;
     minter \<leftarrow> answer (nft_has_role (open_call (w_env w) (w_nft w)) Minter (w_pm w) nft);
     must minter;
     orc \<leftarrow> answer (pm_has_role (open_call (w_env w) (w_pm w)) Oracle (w_pr w) (manager_of w));
     must orc;
     funder \<leftarrow> answer (sa_has_role (open_call (w_env w) (w_adapter w)) Funder (w_backend w) adapter);
     must funder;
     must (adapter_payout_receiver adapter = Some (w_pr w));
     must (settlement_adapter (sys_pr (w_contracts w)) = Inr (w_adapter w));
     backend \<leftarrow> answer (pm_has_role (open_call (w_env w) (w_pm w)) Backend (w_backend w) (manager_of w));
     must backend;
     relayer \<leftarrow> answer (pr_has_role (open_call (w_env w) (w_pr w)) Relayer (w_relayer w) (sys_pr (w_contracts w)));
     must relayer
   }"

definition has_role_is_false_for_non_holders_and_is_per_contract ::
  "'k signing_lib \<Rightarrow> (nat \<Rightarrow> address) \<Rightarrow> env \<Rightarrow> unit option" where
  "has_role_is_false_for_non_holders_and_is_per_contract lib generate env = do {
     w \<leftarrow> deploy lib generate env;
     nft \<leftarrow> nft_of w;
     adapter \<leftarrow> adapter_of w;
     held \<leftarrow> answer (pm_has_role (open_call (w_env w) (w_pm w)) Backend (w_backend w) (manager_of w));
     must held;
     held \<leftarrow> answer (nft_has_role (open_call (w_env w) (w_nft w)) Backend (w_backend w) nft);
     must (\<not> held);
     held \<leftarrow> answer (pm_has_role (open_call (w_env w) (w_pm w)) Funder (w_backend w) (manager_of w));
     must (\<not> held);
     held \<leftarrow> answer (pm_has_role (open_call (w_env w) (w_pm w)) Oracle (w_backend w) (manager_of w));
     must (\<not> held);
     held \<leftarrow> answer (sa_has_role (open_call (w_env w) (w_adapter w)) Funder (w_farmer w) adapter);
     must (\<not> held);
     held \<leftarrow> answer (sa_has_role (open_call (w_env w) (w_adapter w)) Funder (w_pr w) adapter);
     must (\<not> held);
     held \<leftarrow> answer (pr_has_role (open_call (w_env w) (w_pr w)) Relayer (w_farmer w) (sys_pr (w_contracts w)));
     must (\<not> held)
   }"

definition revoking_a_role_is_visible_through_has_role :: "'k signing_lib \<Rightarrow> (nat \<Rightarrow> address) \<Rightarrow> env \<Rightarrow> unit option" where
  "revoking_a_role_is_visible_through_has_role lib generate env = do {
     w \<leftarrow> deploy lib generate env;
     (policy_id, w) \<leftarrow> create_and_activate w;
     w \<leftarrow> submit lib (determination policy_id SUM_INSURED PAYOUT) w;
     (_, w) \<leftarrow> on_adapter (w_admin w) (\<lambda>e s. map_sum id (Pair ()) (sa_revoke_role e (w_admin w) Funder (w_backend w) s)) w;
     adapter \<leftarrow> adapter_of w;
     held \<leftarrow> answer (sa_has_role (open_call (w_env w) (w_adapter w)) Funder (w_backend w) adapter);
     must (\<not> held);
     fails (mark_funded (signed_call (w_env w) (w_adapter w) (w_backend w)) (w_backend w) 1 (reference 1) adapter)
   }"

section \<open>Coverage type, plot and season\<close>

definition only_drought_cover_can_be_sold :: "'k signing_lib \<Rightarrow> (nat \<Rightarrow> address) \<Rightarrow> env \<Rightarrow> unit option" where
  "only_drought_cover_can_be_sold lib generate env = do {
     w \<leftarrow> deploy lib generate env;
     must (\<forall>coverage \<in> set [Comprehensive, Flood, Both, ExcessRain].
       fails_with (PolicyE CoverageNotOffered)
         (create_policy (signed_call (w_env w) (w_pm w) (w_backend w)) (w_backend w) (w_farmer w) 7 PLOT_LAT_E6 PLOT_LON_E6
            SUM_INSURED PREMIUM DURATION_DAYS coverage (w_org w) (manager_of w)) = Some ());
     must (get_total_policies (manager_of w) = 0);
     must (org_outstanding_sum_insured (w_org w) (manager_of w) = 0);
     must (get_farmer_policy_count (w_farmer w) (manager_of w) = 0)
   }"

definition evidence_from_another_plot_does_not_settle :: "'k signing_lib \<Rightarrow> (nat \<Rightarrow> address) \<Rightarrow> env \<Rightarrow> unit option" where
  "evidence_from_another_plot_does_not_settle lib generate env = do {
     w \<leftarrow> deploy lib generate env;
     (policy_id, w) \<leftarrow> create_and_activate w;
     let d = (determination policy_id SUM_INSURED PAYOUT)\<lparr>d_latitude_e6 := - 1300000\<rparr>;
     (sig, recid) \<leftarrow> sign_for lib (w_env w) (w_sk w) (w_pr w) (w_domain w) d;
     let (result, w) = try_submit d sig recid w;
     must (result = Inl (PayoutE PlotLocationMismatch));
     w \<leftarrow> assert_nothing_owed policy_id w;
     Some ()
   }"

definition crop_determination_is_rejected_after_the_upgrade ::
  "'k signing_lib \<Rightarrow> (nat \<Rightarrow> address) \<Rightarrow> env \<Rightarrow> unit option" where
  "crop_determination_is_rejected_after_the_upgrade lib generate env = do {
     w \<leftarrow> deploy lib generate env;
     (policy_id, w) \<leftarrow> create_and_activate w;
     let c = \<lparr>cd_on_chain_policy_id = policy_id, cd_damage_percent_bp = 5000, cd_weather_damage = 50,
       cd_satellite_damage = 50, cd_payout_amount = PAYOUT, cd_assessed_at = NOW, cd_latitude_e6 = PLOT_LAT_E6,
       cd_longitude_e6 = PLOT_LON_E6, cd_sum_insured = SUM_INSURED, cd_ndvi_scaled = 4200, cd_weather_present = 1,
       cd_weather_temp_c_e2 = 2750, cd_weather_precip_e2 = 15, cd_weather_humidity = 80, cd_weather_wind_e2 = 350\<rparr>;
     let digest = determination_digest (w_env w) c (w_pr w) (w_domain w);
     (sig, recid) \<leftarrow> sign_digest lib (w_sk w) digest;
     must (\<not> is_methodology_enabled CropDualIndex10 (sys_pr (w_contracts w)));
     fails_with (PayoutE MethodologyDisabled)
       (submit_determination real_pm real_adapter (signed_call (w_env w) (w_pr w) (w_relayer w)) (w_relayer w) c sig recid
         (w_contracts w));
     w \<leftarrow> assert_nothing_owed policy_id w;
     Some ()
   }"

definition cover_bought_after_planting_does_not_settle_that_season ::
  "'k signing_lib \<Rightarrow> (nat \<Rightarrow> address) \<Rightarrow> env \<Rightarrow> unit option" where
  "cover_bought_after_planting_does_not_settle_that_season lib generate env = do {
     w \<leftarrow> deploy lib generate env;
     let w = set_timestamp (PLANT + 86400 + 60) w;
     (policy_id, w) \<leftarrow> create_and_activate w;
     let d = determination policy_id SUM_INSURED PAYOUT;
     (sig, recid) \<leftarrow> sign_for lib (w_env w) (w_sk w) (w_pr w) (w_domain w) d;
     let (result, w) = try_submit d sig recid w;
     must (result = Inl (PayoutE EvidenceOutsideCoverWindow));
     w \<leftarrow> assert_nothing_owed policy_id w;
     Some ()
   }"

section \<open>The 2022 long rains\<close>

definition PLANT_2022 :: nat where "PLANT_2022 = 1648771200"
definition ERA5_LAT :: int where "ERA5_LAT = 1016700"
definition ERA5_LON :: int where "ERA5_LON = 35006200"

definition era5_source_hash :: bytes32 where
  "era5_source_hash = word_of_nat (be_value
     [0x20, 0x7c, 0xa2, 0x6b, 0x24, 0x54, 0xf0, 0xd0, 0x8e, 0x04, 0x96, 0x2f, 0x42, 0x00, 0x8b, 0x73,
      0xba, 0x0a, 0x51, 0x74, 0x4f, 0x26, 0x73, 0xe9, 0x9a, 0x0e, 0xe9, 0xf5, 0xf5, 0x6a, 0xf8, 0x42])"

definition era5_determination :: "nat \<Rightarrow> drought_determination" where
  "era5_determination policy_id =
     \<lparr>d_on_chain_policy_id = policy_id, d_damage_percent_bp = 4200, d_drought_damage = 42,
      d_payout_amount = SUM_INSURED * 4200 div 10000, d_assessed_at = PLANT_2022 + 117 * 86400, d_latitude_e6 = ERA5_LAT,
      d_longitude_e6 = ERA5_LON, d_sum_insured = SUM_INSURED, d_season_start_epoch = PLANT_2022,
      d_lgp_days = 180, d_rain_w1_e2 = 31130, d_rain_ref_w1_e2 = 27260, d_rain_w2_e2 = 16280,
      d_rain_ref_w2_e2 = 22305, d_cdd_w2_days = 7, d_source_hash = era5_source_hash,
      d_methodology_params_hash = DROUGHT_PARAMS_HASH_RDI_1_0\<rparr>"

definition real_era5_season_records_an_obligation_end_to_end ::
  "'k signing_lib \<Rightarrow> (nat \<Rightarrow> address) \<Rightarrow> env \<Rightarrow> unit option" where
  "real_era5_season_records_an_obligation_end_to_end lib generate env = do {
     w \<leftarrow> deploy lib generate env;
     let w = set_timestamp (PLANT_2022 + 6 * 3600) w;
     let e = signed_call (w_env w) (w_pm w) (w_backend w);
     let (nfts, pm) = sys_pm (w_contracts w);
     (policy_id, pm) \<leftarrow> ok (create_policy e (w_backend w) (w_farmer w) 7 ERA5_LAT ERA5_LON SUM_INSURED PREMIUM
       DURATION_DAYS Drought (w_org w) pm);
     (nfts, pm) \<leftarrow> ok (activate_policy e (w_backend w) policy_id (w_distributor w) ''Acme Distributor'' ''Trans Nzoia'' nfts pm);
     let w = w\<lparr>w_contracts := (w_contracts w)\<lparr>sys_pm := (nfts, pm)\<rparr>\<rparr>;
     let d = era5_determination policy_id;
     let w = set_timestamp (d_assessed_at d + 600) w;
     (sig, recid) \<leftarrow> sign_for lib (w_env w) (w_sk w) (w_pr w) (w_domain w) d;
     let digest = drought_determination_digest (w_env w) d (w_pr w) (w_domain w);
     view \<leftarrow> ok (pr_drought_determination_digest (open_call (w_env w) (w_pr w)) d (sys_pr (w_contracts w)));
     must (view = digest);
     c \<leftarrow> ok (submit_drought_determination real_pm real_adapter (signed_call (w_env w) (w_pr w) (w_relayer w)) (w_relayer w)
       d sig recid (w_contracts w));
     let w = w\<lparr>w_contracts := c\<rparr>;
     adapter \<leftarrow> adapter_of w;
     ob \<leftarrow> get_obligation 1 adapter;
     must (o_amount ob = SUM_INSURED * 4200 div 10000);
     must (o_determination_digest ob = digest);
     must (o_status ob = Owed);
     (policy, w) \<leftarrow> read_policy policy_id w;
     must (p_status policy = Claimed);
     must (r_damage_percentage (get_report policy_id (sys_pr (w_contracts w))) = 4200)
   }"

end
