(* ===== verification/IntegrationPass.thy ===== *)
theory IntegrationPass
  imports IntegrationTests
begin

text \<open>
  The integration tests pass on every host: for any address generator that does not repeat itself, any
  hash and any signature scheme whose recovery returns the key that signed.
\<close>

section \<open>What the runs share\<close>

lemma recovers:
  assumes "signs lib e sk" and "sign_for lib e sk pr h d = Some (sig, rid)"
  shows "secp256k1_recover e (drought_determination_digest e d pr h) sig rid = Some (pubkey65 lib sk)"
  using assms unfolding signs_def sign_for_def by (metis option.inject prod.inject)

lemma signed:
  assumes "signs lib e sk"
  obtains sig rid where "sign_for lib e sk pr h d = Some (sig, rid)"
    and "secp256k1_recover e (drought_determination_digest e d pr h) sig rid = Some (pubkey65 lib sk)"
  using assms unfolding signs_def sign_for_def by blast

lemma signs_clock [simp]: "signs lib (e\<lparr>timestamp := t\<rparr>) sk = signs lib e sk"
  by (simp add: signs_def)

text \<open>What the runs have in common: deploy, sell, sign and settle.\<close>

lemma settles:
  assumes w: "wired lib (Some (w_pr w1)) w1" and p: "insured (first_policy w PLOT_LAT_E6 PLOT_LON_E6 NOW) w1"
    and now: "timestamp (w_env w1) \<le> ASSESSED + 60" and s: "signs lib (w_env w1) (w_sk w1)"
  obtains w2 sig rid where
    "sign_for lib (w_env w1) (w_sk w1) (w_pr w1) (w_domain w1) (determination 1 SUM_INSURED PAYOUT) = Some (sig, rid)"
    and "submit lib (determination 1 SUM_INSURED PAYOUT) w1 = Some w2"
    and "try_submit (determination 1 SUM_INSURED PAYOUT) sig rid w1 = (Inr (), w2)" and "same_actors w1 w2"
    and "w_env w2 = (w_env w1)\<lparr>timestamp := ASSESSED + 60\<rparr>" and "wired lib (Some (w_pr w2)) w2"
    and "settled (first_policy w PLOT_LAT_E6 PLOT_LON_E6 NOW) (determination 1 SUM_INSURED PAYOUT)
      (drought_determination_digest (w_env w1) (determination 1 SUM_INSURED PAYOUT) (w_pr w1) (w_domain w1)) (ASSESSED + 60) w2"
proof -
  have ok: "first_error (open_checks lib (Some (w_pr w1)) (at_assessment w1) (first_policy w PLOT_LAT_E6 PLOT_LON_E6 NOW)
      (determination 1 SUM_INSURED PAYOUT) sig rid) = None"
    if "sign_for lib (w_env w1) (w_sk w1) (w_pr w1) (w_domain w1) (determination 1 SUM_INSURED PAYOUT) = Some (sig, rid)" for sig rid
    using recovers [OF s that] by (simp add: determination_checks [OF now] Let_def del: One_nat_def)
  have "p_id (first_policy w PLOT_LAT_E6 PLOT_LON_E6 NOW) = 1" "p_status (first_policy w PLOT_LAT_E6 PLOT_LON_E6 NOW) = Active"
    "d_on_chain_policy_id (determination 1 SUM_INSURED PAYOUT) = 1"
    by (simp_all add: first_policy_def determination_def)
  from submits [OF w p this(1,2) now this(3) ok s] show thesis using that by blast
qed

lemma settles_first:
  assumes gen: "inj generate" and key: "sk_from lib 0x11 = Some sk" and sign: "signs lib e sk"
  obtains w w1 w2 sig rid where "deploy lib generate e = Some w" and "create_and_activate w = Some (1, w1)"
    and "sign_for lib (w_env w1) (w_sk w1) (w_pr w1) (w_domain w1) (determination 1 SUM_INSURED PAYOUT) = Some (sig, rid)"
    and "submit lib (determination 1 SUM_INSURED PAYOUT) w1 = Some w2"
    and "try_submit (determination 1 SUM_INSURED PAYOUT) sig rid w1 = (Inr (), w2)" and "generate 10 \<notin> set (actors w2)"
    and "w_env w2 = e\<lparr>timestamp := ASSESSED + 60\<rparr>" and "wired lib (Some (w_pr w2)) w2" and "w_sk w2 = sk"
    and "settled (first_policy w1 PLOT_LAT_E6 PLOT_LON_E6 NOW) (determination 1 SUM_INSURED PAYOUT)
      (drought_determination_digest e (determination 1 SUM_INSURED PAYOUT) (w_pr w1) (w_domain w1)) (ASSESSED + 60) w2"
proof -
  obtain w w1 where o: "deploy_with lib generate e True = Some w" "create_and_activate w = Some (1, w1)"
      "wired lib (Some (w_pr w1)) w1" "insured (first_policy w1 PLOT_LAT_E6 PLOT_LON_E6 NOW) w1"
      "w_env w1 = e\<lparr>timestamp := NOW\<rparr>" "w_sk w1 = sk" "generate 10 \<notin> set (actors w1)"
    by (rule opens [OF gen key, of e True]) simp
  have "signs lib (w_env w1) (w_sk w1)" "timestamp (w_env w1) \<le> ASSESSED + 60" using sign by (simp_all add: o test_constants)
  from settles [OF o(3,4) this(2,1)] obtain w2 sig rid where run:
    "sign_for lib (w_env w1) (w_sk w1) (w_pr w1) (w_domain w1) (determination 1 SUM_INSURED PAYOUT) = Some (sig, rid)"
    "submit lib (determination 1 SUM_INSURED PAYOUT) w1 = Some w2"
    "try_submit (determination 1 SUM_INSURED PAYOUT) sig rid w1 = (Inr (), w2)" "same_actors w1 w2"
    "w_env w2 = (w_env w1)\<lparr>timestamp := ASSESSED + 60\<rparr>" "wired lib (Some (w_pr w2)) w2"
    "settled (first_policy w1 PLOT_LAT_E6 PLOT_LON_E6 NOW) (determination 1 SUM_INSURED PAYOUT)
      (drought_determination_digest (w_env w1) (determination 1 SUM_INSURED PAYOUT) (w_pr w1) (w_domain w1)) (ASSESSED + 60) w2" .
  then show thesis
    using o same_actorsD [OF run(4)]
    by (intro that [of w w1 sig rid w2]) (simp_all add: deploy_def actors_def del: One_nat_def)
qed

lemma late_assessment: "ASSESSED + 60 \<le> timestamp (w_env w) \<Longrightarrow> at_assessment w = w"
  by (simp add: at_assessment_def)

lemma replayed:
  assumes w: "wired lib pr w" and s: "settled p d h t w" and late: "ASSESSED + 60 \<le> timestamp (w_env w)"
    and d: "d_on_chain_policy_id d' = 1" "first_error (evidence_rules d') = None"
  shows "try_submit d' sig rid w = (Inl (PayoutE PolicyNotActive), w)"
proof -
  obtain t where t: "sys_reachable (w_pr w) t (w_contracts w)" "t \<le> timestamp (w_env w)" using wiredD(9) [OF w] by blast
  have p: "get (pm_policy (snd (sys_pm (w_contracts w)))) 1 = Some (p\<lparr>p_status := Claimed\<rparr>)"
    using s by (simp add: settled_def Let_def)
  have "p_status (p\<lparr>p_status := Claimed\<rparr>) \<noteq> Active" by simp
  from claimed_verdict [OF t wired_gates [OF wiredD(7) [OF w]] p this d, of sig rid]
  show ?thesis by (simp add: try_submit_def Let_def late_assessment [OF late])
qed

lemma determination_id [simp]:
  "d_on_chain_policy_id (determination i s x) = i" "d_payout_amount (determination i s x) = x"
  "d_damage_percent_bp (determination i s x) = DAMAGE_BP"
  by (simp_all add: determination_def)

lemma settled_adapter:
  assumes "settled p d h t w"
  obtains ad e' where "adapter_of w = Some ad" and "sa_inv ad" and "timestamp e' = t" and "sa_next_obligation_id ad = Some 2"
    and "get (sa_obligation ad) = [1 \<mapsto> fresh_obligation e' 1 (w_pr w) 1 (p_org p) (d_payout_amount d) h 0]"
    and "get (sa_obligation_of ad) = [(w_pr w, 1) \<mapsto> 1]" and "get (sa_org_count ad) = [p_org p \<mapsto> 1]"
  using assms by (auto simp: settled_def Let_def)

theorem replay_passes:
  assumes "inj generate" and "sk_from lib 0x11 = Some sk" and "signs lib e sk"
  shows "determination_replay_rejected lib generate e = Some ()"
proof (rule settles_first [OF assms])
  fix w w1 w2 sig rid
  assume run: "deploy lib generate e = Some w" "create_and_activate w = Some (1, w1)"
    "sign_for lib (w_env w1) (w_sk w1) (w_pr w1) (w_domain w1) (determination 1 SUM_INSURED PAYOUT) = Some (sig, rid)"
    "try_submit (determination 1 SUM_INSURED PAYOUT) sig rid w1 = (Inr (), w2)"
    and w2: "wired lib (Some (w_pr w2)) w2" "w_env w2 = e\<lparr>timestamp := ASSESSED + 60\<rparr>"
    and s: "settled (first_policy w1 PLOT_LAT_E6 PLOT_LON_E6 NOW) (determination 1 SUM_INSURED PAYOUT)
      (drought_determination_digest e (determination 1 SUM_INSURED PAYOUT) (w_pr w1) (w_domain w1)) (ASSESSED + 60) w2"
  have "try_submit (determination 1 SUM_INSURED PAYOUT) sig rid w2 = (Inl (PayoutE PolicyNotActive), w2)"
    using replayed [OF w2(1) s] by (simp add: w2(2) determination_evidence)
  moreover obtain ad where "adapter_of w2 = Some ad" "obligation_count ad = Inr 1"
    by (rule settled_adapter [OF s]) (simp add: obligation_count_def sub_u_def)
  ultimately show ?thesis
    by (simp add: determination_replay_rejected_def run del: One_nat_def)
qed

text \<open>Reads of a settled world.\<close>

lemma reads_settled:
  assumes w: "wired lib pr w" and s: "settled p d h t w" and now: "timestamp (w_env w) < u64_max"
  obtains w' where "read_policy 1 w = Some (p\<lparr>p_status := Claimed\<rparr>, w')" and "same_actors w w'" and "wired lib pr w'"
    and "settled p d h t w'" and "w_env w' = w_env w" and "sys_pr (w_contracts w') = sys_pr (w_contracts w)"
    and "adapter_of w' = adapter_of w"
proof -
  have "get (pm_policy (snd (sys_pm (w_contracts w)))) 1 = Some (p\<lparr>p_status := Claimed\<rparr>)"
    using s by (simp add: settled_def Let_def)
  from reads [OF w this now] insured_same(2,3) s show thesis using that by metis
qed

lemma settled_views:
  assumes "settled p d h t w" and "timestamp (w_env w) = t" and "t < u64_max"
  shows "org_outstanding_sum_insured (p_org p) (manager_of w) = 0"
    and "get_farmer_claim_count (open_call (w_env w) c) (p_farmer p) (manager_of w) = 1"
    and "is_policy_paid 1 (sys_pr (w_contracts w))" and "get_report 1 (sys_pr (w_contracts w)) = drought_report d"
    and "\<exists>x cert. nft_of w = Some x \<and> owner_of 1 x = Inr (p_farmer p) \<and> get_certificate 1 x = Inr cert \<and> \<not> c_is_active cert"
proof -
  have "recent t t" using assms(3) by (simp add: recent_def saturating_add_u64_def CLAIM_WINDOW_SECS_def PM_SECONDS_PER_DAY_def)
  then show "get_farmer_claim_count (open_call (w_env w) c) (p_farmer p) (manager_of w) = 1"
    using assms by (simp add: settled_def Let_def get_farmer_claim_count_def claims_in_window_eq manager_of_def)
  show "org_outstanding_sum_insured (p_org p) (manager_of w) = 0"
    using assms(1) by (simp add: settled_def Let_def org_outstanding_sum_insured_def org_outstanding_def manager_of_def exposure_of_def)
  show "\<exists>x cert. nft_of w = Some x \<and> owner_of 1 x = Inr (p_farmer p) \<and> get_certificate 1 x = Inr cert \<and> \<not> c_is_active cert"
    using assms(1) by (auto simp: settled_def Let_def certified_def nft_of_def owner_of_def get_certificate_def)
qed (use assms(1) in \<open>simp_all add: settled_def Let_def\<close>)

lemma insured_views:
  assumes "insured p w"
  shows "org_outstanding_sum_insured (p_org p) (manager_of w) = p_sum_insured p"
    and "\<exists>x. nft_of w = Some x \<and> owner_of 1 x = Inr (p_farmer p)"
  using assms by (auto simp: insured_def Let_def org_outstanding_sum_insured_def org_outstanding_def manager_of_def exposure_of_def
      certified_def nft_of_def owner_of_def)

lemma on_adapter_eq:
  "adapter_of w = Some a \<Longrightarrow> f (signed_call (w_env w) (w_adapter w) who) a = Inr (x, a') \<Longrightarrow>
    on_adapter who f w = Some (x, with_adapter w a')"
  by (simp add: on_adapter_def with_adapter_def)

lemma reference_nonzero:
  assumes "odd (unat b)"
  shows "reference b \<noteq> 0"
proof -
  have "replicate 32 b = replicate 31 b @ [b]" by (simp add: replicate_append_same flip: replicate_Suc)
  then have "odd (be_value (replicate 32 b))" using assms by (simp add: be_value_append1)
  moreover have "(2 :: nat) dvd 2 ^ 256" by simp
  ultimately have "\<not> 2 ^ 256 dvd be_value (replicate 32 b)" by (metis dvd_trans)
  then show ?thesis by (simp add: reference_def bytes32_of_def word_of_nat_eq_0_iff)
qed

lemmas references = reference_nonzero [of "0xF1", simplified] reference_nonzero [of "0x51", simplified]
  reference_nonzero [of 1, simplified]

section \<open>Full lifecycle\<close>

lemma fails_with_Inl [simp]: "fails_with err (Inl err) = Some ()"
  by (simp add: fails_with_def)

lemma first_policy_simps [simp]:
  "p_farmer (first_policy w lat lon t) = w_farmer w" "p_org (first_policy w lat lon t) = w_org w"
  "p_sum_insured (first_policy w lat lon t) = SUM_INSURED" "p_status (first_policy w lat lon t) = Active"
  "p_id (first_policy w lat lon t) = 1"
  by (simp_all add: first_policy_def)

text \<open>Funding and settling the obligation of a settled world.\<close>

lemma funds_and_settles:
  assumes w: "wired lib pr w" and s: "settled p d h t w" and now: "timestamp (w_env w) < u64_max"
  obtains ad ob ob1 ob2 ad1 ad2 where "adapter_of w = Some ad" and "find_obligation (w_pr w) 1 ad = Some 1"
    and "get_obligation 1 ad = Some ob" and "org_obligation_count (p_org p) ad = 1"
    and "o_id ob = 1" and "o_payout_receiver ob = w_pr w" and "o_policy_id ob = 1" and "o_org ob = p_org p"
    and "o_amount ob = d_payout_amount d" and "o_determination_digest ob = h" and "o_status ob = Owed"
    and "on_adapter (w_backend w) (\<lambda>e. mark_funded e (w_backend w) 1 (reference 0xF1)) w = Some (ob1, with_adapter w ad1)"
    and "o_status ob1 = Funded" and "o_funded_by ob1 = Some (w_backend w)"
    and "\<And>who. who \<noteq> w_backend w \<Longrightarrow>
      mark_settled (signed_call (w_env w) (w_adapter w) who) who 1 (reference 0x51) ad1 = Inl (CommonE Unauthorized)"
    and "on_adapter (w_backend w) (\<lambda>e. mark_settled e (w_backend w) 1 (reference 0x51)) (with_adapter w ad1) =
      Some (ob2, with_adapter w ad2)"
    and "o_status ob2 = Settled" and "o_settled_by ob2 = Some (w_backend w)"
    and "o_funding_reference ob2 = Some (reference 0xF1)" and "o_settlement_reference ob2 = Some (reference 0x51)"
    and "wired lib pr (with_adapter w ad2)" and "get (sa_obligation ad2) 1 = Some ob2"
    and "get (sa_obligation_of ad2) (w_pr w, 1) = Some 1"
proof -
  obtain ad e' where ad: "adapter_of w = Some ad" "get (sa_obligation_of ad) = [(w_pr w, 1) \<mapsto> 1]"
      "get (sa_obligation ad) = [1 \<mapsto> fresh_obligation e' 1 (w_pr w) 1 (p_org p) (d_payout_amount d) h 0]"
      "get (sa_org_count ad) = [p_org p \<mapsto> 1]"
    by (rule settled_adapter [OF s])
  define ob where "ob = fresh_obligation e' 1 (w_pr w) 1 (p_org p) (d_payout_amount d) h 0"
  have stored: "get (sa_obligation ad) 1 = Some ob" and fresh: "o_status ob = Owed" "o_status ob \<noteq> Settled"
    by (simp_all add: ad(3) ob_def fresh_obligation_def)
  obtain ad1 ob1 where f: "mark_funded (signed_call (w_env w) (w_adapter w) (w_backend w)) (w_backend w) 1 (reference 0xF1) ad = Inr (ob1, ad1)"
    and ob1: "ob1 = ob\<lparr>o_status := Funded, o_funded_by := Some (w_backend w), o_funded_at := timestamp (w_env w),
        o_funding_reference := Some (reference 0xF1)\<rparr>"
      "get (sa_obligation ad1) 1 = Some ob1" "get (sa_obligation_of ad1) = get (sa_obligation_of ad)"
    and w1: "wired lib pr (with_adapter w ad1)"
    using marks(1) [OF w now ad(1) stored references(1) fresh(1)] by blast
  note same = same_actorsD [OF with_adapter_simps(1) [of w ad1]]
  have now1: "timestamp (w_env (with_adapter w ad1)) < u64_max" using now by simp
  have ad1: "adapter_of (with_adapter w ad1) = Some ad1" by simp
  note mark = marks(2,3) [OF w1 now1 ad1 ob1(2) references(2), unfolded same with_adapter_simps(3)]
  have "o_status ob1 \<noteq> Settled" by (simp add: ob1)
  from mark(1) [OF this] obtain ad2 ob2 where
    g: "mark_settled (signed_call (w_env w) (w_adapter w) (w_backend w)) (w_backend w) 1 (reference 0x51) ad1 = Inr (ob2, ad2)"
    and ob2: "ob2 = ob1\<lparr>o_status := Settled, o_settled_by := Some (w_backend w), o_settled_at := timestamp (w_env w),
        o_settlement_reference := Some (reference 0x51)\<rparr>"
      "get (sa_obligation ad2) 1 = Some ob2" "get (sa_obligation_of ad2) = get (sa_obligation_of ad1)"
    and w2: "wired lib pr (with_adapter (with_adapter w ad1) ad2)"
    by blast
  have two: "with_adapter (with_adapter w ad1) ad2 = with_adapter w ad2" by (simp add: with_adapter_def)
  have run: "on_adapter (w_backend w) (\<lambda>e. mark_funded e (w_backend w) 1 (reference 0xF1)) w = Some (ob1, with_adapter w ad1)"
    using on_adapter_eq [OF ad(1), of "\<lambda>e. mark_funded e (w_backend w) 1 (reference 0xF1)" "w_backend w"] f by simp
  have "on_adapter (w_backend w) (\<lambda>e. mark_settled e (w_backend w) 1 (reference 0x51)) (with_adapter w ad1) =
      Some (ob2, with_adapter w ad2)"
    using on_adapter_eq [OF ad1, of "\<lambda>e. mark_settled e (w_backend w) 1 (reference 0x51)" "w_backend w"] g
    by (simp add: same two)
  from that [OF ad(1) _ _ _ _ _ _ _ _ _ fresh(1) run _ _ mark(2) this _ _ _ _ w2 [unfolded two] ob2(2)] show thesis
    by (simp add: find_obligation_def get_obligation_def org_obligation_count_def ad ob1 ob2 ob_def fresh_obligation_def)
qed

theorem lifecycle_passes:
  assumes "inj generate" and "sk_from lib 0x11 = Some sk" and "signs lib e sk"
  shows "full_lifecycle_determination_to_obligation_to_settlement lib generate e = Some ()"
proof -
  let ?d = "determination 1 SUM_INSURED PAYOUT"
  have late: "ASSESSED + 60 < u64_max" "NOW < u64_max" "NOW \<le> ASSESSED + 60" by (simp_all add: test_constants u64_max_def)
  obtain w w1 where o: "deploy_with lib generate e True = Some w" "create_and_activate w = Some (1, w1)"
      "wired lib (Some (w_pr w1)) w1" "insured (first_policy w1 PLOT_LAT_E6 PLOT_LON_E6 NOW) w1"
      "w_env w1 = e\<lparr>timestamp := NOW\<rparr>" "w_sk w1 = sk" "generate 10 \<notin> set (actors w1)"
    by (rule opens [OF assms(1,2), of e True]) simp
  let ?p = "first_policy w1 PLOT_LAT_E6 PLOT_LON_E6 NOW" and ?h = "drought_determination_digest e ?d (w_pr w1) (w_domain w1)"
  have stored: "get (pm_policy (snd (sys_pm (w_contracts w1)))) 1 = Some ?p" using o(4) by (simp add: insured_def Let_def)
  have now1: "timestamp (w_env w1) < u64_max" using late by (simp add: o(5))
  obtain w1' where r1: "read_policy 1 w1 = Some (?p, w1')" "same_actors w1 w1'" "wired lib (Some (w_pr w1)) w1'"
      "w_env w1' = w_env w1" "insured ?p w1'"
    using reads [OF o(3) stored now1] insured_same(1) o(4) by blast
  note a1 = same_actorsD [OF r1(2)]
  have "wired lib (Some (w_pr w1')) w1'" "timestamp (w_env w1') \<le> ASSESSED + 60" "signs lib (w_env w1') (w_sk w1')"
    using r1(3,4) assms(3) late by (simp_all add: a1 o(5,6))
  from settles [OF this(1) r1(5) this(2,3)] obtain w2 where w2: "submit lib ?d w1' = Some w2" "same_actors w1' w2"
      "w_env w2 = (w_env w1')\<lparr>timestamp := ASSESSED + 60\<rparr>" "wired lib (Some (w_pr w2)) w2"
      "settled ?p ?d (drought_determination_digest (w_env w1') ?d (w_pr w1') (w_domain w1')) (ASSESSED + 60) w2" .
  note a2 = same_actorsD [OF w2(2)] a1
  have now2: "timestamp (w_env w2) = ASSESSED + 60" "timestamp (w_env w2) < u64_max" using w2(3) late by simp_all
  have s2: "settled ?p ?d ?h (ASSESSED + 60) w2" using w2(5) by (simp add: a1 r1(4) o(5))
  obtain w3 where w3: "read_policy 1 w2 = Some (?p\<lparr>p_status := Claimed\<rparr>, w3)" "same_actors w2 w3" "wired lib (Some (w_pr w2)) w3"
      "settled ?p ?d ?h (ASSESSED + 60) w3" "w_env w3 = w_env w2" "sys_pr (w_contracts w3) = sys_pr (w_contracts w2)"
      "adapter_of w3 = adapter_of w2"
    by (rule reads_settled [OF w2(4) s2 now2(2)])
  note a3 = same_actorsD [OF w3(2)] a2
  have now3: "timestamp (w_env w3) = ASSESSED + 60" "timestamp (w_env w3) < u64_max" using now2 w3(5) by simp_all
  note views = settled_views [OF w3(4) now3(1) late(1)]
  obtain x cert where x: "nft_of w3 = Some x" "owner_of 1 x = Inr (w_farmer w1)" "get_certificate 1 x = Inr cert" "\<not> c_is_active cert"
    using views(5) by auto
  have v: "org_outstanding_sum_insured (w_org w1) (manager_of w1') = SUM_INSURED"
      "org_outstanding_sum_insured (w_org w1) (manager_of w3) = 0" "is_policy_paid 1 (sys_pr (w_contracts w2))"
      "get_farmer_claim_count (open_call (w_env w2) (w_pm w1)) (w_farmer w1) (manager_of w3) = 1"
      "get_report 1 (sys_pr (w_contracts w2)) = drought_report ?d"
    using views(1,3,4) views(2) [of "w_pm w1"] insured_views(1) [OF r1(5)] w3(5,6) by simp_all
  have digest: "drought_determination_digest (w_env w2) = drought_determination_digest e" by (simp add: w2(3) r1(4) o(5))
  obtain x1 where x1: "nft_of w1 = Some x1" "owner_of 1 x1 = Inr (w_farmer w1)" using insured_views(2) [OF o(4)] by auto
  show ?thesis
  proof (rule funds_and_settles [OF w3(3,4) now3(2)], goal_cases)
    case (1 ad ob ob1 ob2 ad1 ad2)
    let ?w5 = "with_adapter w3 ad2"
    have n5: "nft_of ?w5 = Some x" using x(1) by (simp add: nft_of_def same_actorsD [OF with_adapter_simps(1)])
    have "get (pm_policy (snd (sys_pm (w_contracts ?w5)))) 1 = Some (?p\<lparr>p_status := Claimed\<rparr>)"
      using w3(4) by (simp add: settled_def Let_def)
    from reads [OF 1(21) this] now3(2) obtain w6 where w6: "read_policy 1 ?w5 = Some (?p\<lparr>p_status := Claimed\<rparr>, w6)"
        "same_actors ?w5 w6" "fst (sys_pm (w_contracts w6)) = fst (sys_pm (w_contracts ?w5))"
      by auto
    note a6 = same_actorsD [OF w6(2)] same_actorsD [OF with_adapter_simps(1) [of w3 ad2]]
      same_actorsD [OF with_adapter_simps(1) [of w3 ad1]] a3
    have n6: "nft_of w6 = Some x" using n5 by (simp add: nft_of_def w6(3) a6)
    have other: "w_org w1 \<noteq> w_backend w1" using o(3) by (auto simp: wired_def actors_def)
    show ?thesis
      unfolding full_lifecycle_determination_to_obligation_to_settlement_def
      using 1 other
      by (simp add: deploy_def o x1 r1(1) a1 w2(1) a2 w3 a3 v x n5 w6(1) n6 a6 digest Let_def
        drought_report_def DAMAGE_BP_def del: One_nat_def)
  qed
qed

section \<open>Refused submissions\<close>

lemma sign_for_clock [simp]: "sign_for lib (e\<lparr>timestamp := t\<rparr>) = sign_for lib e"
  by (simp add: sign_for_def fun_eq_iff)

lemma at_assessment_env: "w_env w = e\<lparr>timestamp := NOW\<rparr> \<Longrightarrow> w_env (at_assessment w) = e\<lparr>timestamp := ASSESSED + 60\<rparr>"
  by (simp add: at_assessment_def test_constants)

text \<open>A refusal, and the check after it that nothing was recorded.\<close>

lemma refused_unowed:
  assumes w: "wired lib pr w" and p: "insured p w" "p_status p = Active" and d: "d_on_chain_policy_id d = 1"
    and checks: "first_error (open_checks lib pr (at_assessment w) p d sig rid) = Some err"
    and now: "timestamp (w_env w) \<le> ASSESSED + 60"
  obtains w' where "try_submit d sig rid w = (Inl err, at_assessment w)" and "assert_nothing_owed 1 (at_assessment w) = Some w'"
    and "same_actors w w'" and "wired lib pr w'" and "w_env w' = (w_env w)\<lparr>timestamp := ASSESSED + 60\<rparr>" and "insured p w'"
proof -
  have t: "w_env (at_assessment w) = (w_env w)\<lparr>timestamp := ASSESSED + 60\<rparr>" using now by (auto simp: at_assessment_def)
  have p': "insured p (at_assessment w)" using p(1) by simp
  have "timestamp (w_env (at_assessment w)) < u64_max" unfolding t by (simp add: test_constants u64_max_def)
  from nothing_owed [OF wired_assessment [OF w] p' p(2) this] t
  obtain w' where "assert_nothing_owed 1 (at_assessment w) = Some w'" "same_actors (at_assessment w) w'" "wired lib pr w'"
    "w_env w' = (w_env w)\<lparr>timestamp := ASSESSED + 60\<rparr>" "insured p w'" by metis
  then show thesis
    using that refused [OF w p(1) d checks] same_actors_trans [OF same_actors_moves(3)] by blast
qed

text \<open>The admin rebinds the adapter of an insured world.\<close>

lemma rebinds:
  assumes w: "wired lib pr w" and p: "insured p w" and now: "timestamp (w_env w) < u64_max" and other: "x \<noteq> w_adapter w"
  obtains w' where
    "on_adapter (w_admin w) (\<lambda>e s. map_sum id (Pair ()) (set_payout_receiver e (w_admin w) x s)) w = Some ((), w')"
    and "same_actors w w'" and "w_env w' = w_env w" and "wired lib (Some x) w'" and "insured p w'"
proof -
  obtain a a' where a: "adapter_of w = Some a" "set_payout_receiver (signed_call (w_env w) (w_adapter w) (w_admin w)) (w_admin w)
        x a = Inr a'" "wired lib (Some x) (with_adapter w a')" "insured p (with_adapter w a')"
    using binds [OF w now other] p by blast
  show thesis
    using that [OF _ with_adapter_simps(1,3) a(3,4)]
      on_adapter_eq [OF a(1), of "\<lambda>e s. map_sum id (Pair ()) (set_payout_receiver e (w_admin w) x s)"] a(2) by simp
qed

theorem unbound_passes:
  assumes "inj generate" and "sk_from lib 0x11 = Some sk" and "signs lib e sk"
  shows "adapter_not_bound_reverts_atomically_then_succeeds_after_binding lib generate e = Some ()"
proof -
  let ?d = "determination 1 SUM_INSURED PAYOUT"
  have late: "ASSESSED + 60 < u64_max" "NOW \<le> ASSESSED + 60" by (simp_all add: test_constants u64_max_def)
  obtain w w1 where o: "deploy_with lib generate e False = Some w" "create_and_activate w = Some (1, w1)"
      "wired lib None w1" "insured (first_policy w1 PLOT_LAT_E6 PLOT_LON_E6 NOW) w1"
      "w_env w1 = e\<lparr>timestamp := NOW\<rparr>" "w_sk w1 = sk" "generate 10 \<notin> set (actors w1)"
    by (rule opens [OF assms(1,2), of e False]) simp
  let ?p = "first_policy w1 PLOT_LAT_E6 PLOT_LON_E6 NOW"
  obtain sig rid where s: "sign_for lib e sk (w_pr w1) (w_domain w1) ?d = Some (sig, rid)"
      "secp256k1_recover e (drought_determination_digest e ?d (w_pr w1) (w_domain w1)) sig rid = Some (pubkey65 lib sk)"
    using signed [OF assms(3)] by blast
  have refusal: "first_error (open_checks lib pr (at_assessment v) ?p ?d sig rid) = (if pr = None then Some (CommonE NotConfigured)
      else if pr \<noteq> Some (w_pr v) then Some (AdapterE NotPayoutReceiver) else None)"
    if "same_actors w1 v" "w_env v = e\<lparr>timestamp := t\<rparr>" "t \<le> ASSESSED + 60" for v pr t
    using that(2,3) s by (subst determination_checks) (simp_all add: same_actorsD [OF that(1)] o Let_def)
  have now1: "timestamp (w_env w1) \<le> ASSESSED + 60" using late by (simp add: o)
  have id: "d_on_chain_policy_id ?d = 1" "p_status ?p = Active" "p_id ?p = 1" by (simp_all add: first_policy_def)
  have "same_actors w1 w1" by (simp add: same_actors_def)
  from refused_unowed [OF o(3,4) id(2,1) _ now1, of sig rid "CommonE NotConfigured"] refusal [OF this o(5) late(2)]
  obtain w2 where w2: "try_submit ?d sig rid w1 = (Inl (CommonE NotConfigured), at_assessment w1)"
      "assert_nothing_owed 1 (at_assessment w1) = Some w2" "same_actors w1 w2" "wired lib None w2"
      "w_env w2 = e\<lparr>timestamp := ASSESSED + 60\<rparr>" "insured ?p w2"
    by (auto simp: o(5))
  note a2 = same_actorsD [OF w2(3)]
  have now2: "timestamp (w_env w2) < u64_max" "timestamp (w_env w2) \<le> ASSESSED + 60" using late by (simp_all add: w2(5))
  have other: "generate 10 \<noteq> w_adapter w2" "generate 10 \<noteq> w_pr w1" using o(7) by (simp_all add: actors_def a2)
  obtain w3 where w3: "on_adapter (w_admin w2) (\<lambda>e s. map_sum id (Pair ()) (set_payout_receiver e (w_admin w2) (generate 10) s)) w2 =
        Some ((), w3)" "same_actors w2 w3" "w_env w3 = w_env w2" "wired lib (Some (generate 10)) w3" "insured ?p w3"
    by (rule rebinds [OF w2(4,6) now2(1) other(1)])
  have s3: "same_actors w1 w3" "w_env w3 = e\<lparr>timestamp := ASSESSED + 60\<rparr>" "timestamp (w_env w3) \<le> ASSESSED + 60"
    using same_actors_trans [OF w2(3) w3(2)] by (simp_all add: w2(5) w3(3))
  have at3: "at_assessment w3 = w3" by (simp add: late_assessment s3(2))
  from refused_unowed [OF w3(4,5) id(2,1) _ s3(3), of sig rid "AdapterE NotPayoutReceiver"] refusal [OF s3(1,2), of "Some (generate 10)"] other(2)
  obtain w4 where w4: "try_submit ?d sig rid w3 = (Inl (AdapterE NotPayoutReceiver), w3)"
      "assert_nothing_owed 1 w3 = Some w4" "same_actors w3 w4" "wired lib (Some (generate 10)) w4"
      "w_env w4 = e\<lparr>timestamp := ASSESSED + 60\<rparr>" "insured ?p w4"
    by (auto simp: at3 s3(2) same_actorsD [OF s3(1)])
  note a4 = same_actorsD [OF w4(3)] same_actorsD [OF s3(1)]
  have now4: "timestamp (w_env w4) < u64_max" using late by (simp add: w4(5))
  have pr: "w_pr w1 \<noteq> w_adapter w4" using wiredD(4) [OF o(3)] by (simp add: a4)
  obtain w5 where w5: "on_adapter (w_admin w4) (\<lambda>e s. map_sum id (Pair ()) (set_payout_receiver e (w_admin w4) (w_pr w1) s)) w4 =
        Some ((), w5)" "same_actors w4 w5" "w_env w5 = w_env w4" "wired lib (Some (w_pr w1)) w5" "insured ?p w5"
    by (rule rebinds [OF w4(4,6) now4 pr])
  note a5 = same_actorsD [OF w5(2)] a4
  have "wired lib (Some (w_pr w5)) w5" "timestamp (w_env w5) \<le> ASSESSED + 60" "signs lib (w_env w5) (w_sk w5)"
    using w5(3,4) assms(3) by (simp_all add: a5 w4(5) o(6))
  from settles [OF this(1) w5(5) this(2,3)] obtain w6 sig' rid' where w6: "try_submit ?d sig' rid' w5 = (Inr (), w6)"
      "sign_for lib (w_env w5) (w_sk w5) (w_pr w5) (w_domain w5) ?d = Some (sig', rid')"
      "wired lib (Some (w_pr w6)) w6" "w_env w6 = (w_env w5)\<lparr>timestamp := ASSESSED + 60\<rparr>"
      "settled ?p ?d (drought_determination_digest (w_env w5) ?d (w_pr w5) (w_domain w5)) (ASSESSED + 60) w6" by blast
  have same: "sig' = sig" "rid' = rid" using w6(2) s(1) by (simp_all add: a5 w5(3) w4(5) o(6))
  have now6: "timestamp (w_env w6) < u64_max" using late by (simp add: w6(4))
  obtain c where c: "adapter_of w6 = Some c" "obligation_count c = Inr 1"
    by (rule settled_adapter [OF w6(5)]) (simp add: obligation_count_def sub_u_def)
  obtain w7 where w7: "read_policy 1 w6 = Some (?p\<lparr>p_status := Claimed\<rparr>, w7)" by (rule reads_settled [OF w6(3,5) now6])
  show ?thesis
    unfolding adapter_not_bound_reverts_atomically_then_succeeds_after_binding_def
    using s(1) w3(1) w5(1) w6(1) by (simp add: o w2(1,2) a2 a4 w4(1,2) same c w7 Let_def del: One_nat_def)
qed

theorem wrong_signer_passes:
  assumes "inj generate" and "sk_from lib 0x11 = Some sk" and "signs lib e attacker"
    and "sk_from lib 0x22 = Some attacker" and "pubkey65 lib attacker \<noteq> pubkey65 lib sk"
  shows "wrong_signer_determination_rejected lib generate e = Some ()"
proof (rule opens [OF assms(1,2), of e True])
  fix w w1
  let ?d = "determination 1 SUM_INSURED PAYOUT"
  assume o: "deploy_with lib generate e True = Some w" "create_and_activate w = Some (1, w1)"
      "wired lib (if True then Some (w_pr w1) else None) w1" "insured (first_policy w1 PLOT_LAT_E6 PLOT_LON_E6 NOW) w1"
      "w_env w1 = e\<lparr>timestamp := NOW\<rparr>" "w_sk w1 = sk"
  have now: "timestamp (w_env w1) \<le> ASSESSED + 60" by (simp add: o test_constants)
  obtain sig rid where s: "sign_for lib e attacker (w_pr w1) (w_domain w1) ?d = Some (sig, rid)"
      "secp256k1_recover e (drought_determination_digest e ?d (w_pr w1) (w_domain w1)) sig rid = Some (pubkey65 lib attacker)"
    using signed [OF assms(3)] by blast
  have "first_error (open_checks lib (Some (w_pr w1)) (at_assessment w1) (first_policy w1 PLOT_LAT_E6 PLOT_LON_E6 NOW) ?d sig rid) =
      Some (PayoutE InvalidSignature)"
    using s assms(5) by (simp add: determination_checks [OF now] Let_def o(5,6) del: One_nat_def)
  from refused_unowed [OF o(3)[simplified] o(4) _ _ this now]
  obtain w2 where "try_submit ?d sig rid w1 = (Inl (PayoutE InvalidSignature), at_assessment w1)"
      "assert_nothing_owed 1 (at_assessment w1) = Some w2"
    by auto
  then show ?thesis
    using s by (simp add: wrong_signer_determination_rejected_def deploy_def o(1,2,5) assms(4) Let_def del: One_nat_def)
qed

lemma blank_clock [simp]: "blank (set_timestamp t w) = blank w"
  by (simp add: blank_def adapter_of_def) (simp add: set_timestamp_def)

theorem other_plot_passes:
  assumes "inj generate" and "sk_from lib 0x11 = Some sk" and "signs lib e sk"
  shows "evidence_from_another_plot_does_not_settle lib generate e = Some ()"
proof (rule opens [OF assms(1,2), of e True])
  fix w w1
  let ?d = "determination 1 SUM_INSURED PAYOUT\<lparr>d_latitude_e6 := - 1300000\<rparr>"
  assume o: "deploy_with lib generate e True = Some w" "create_and_activate w = Some (1, w1)"
      "wired lib (if True then Some (w_pr w1) else None) w1" "insured (first_policy w1 PLOT_LAT_E6 PLOT_LON_E6 NOW) w1"
      "w_env w1 = e\<lparr>timestamp := NOW\<rparr>" "w_sk w1 = sk"
  have now: "timestamp (w_env w1) \<le> ASSESSED + 60" by (simp add: o test_constants)
  have "timestamp (w_env (at_assessment w1)) = ASSESSED + 60" using now by simp
  then have "first_error (open_rules (w_env (at_assessment w1)) (first_policy w1 PLOT_LAT_E6 PLOT_LON_E6 NOW)) = None"
    by (simp only: open_rules_def) (simp add: first_policy_def test_constants)
  then have checks: "first_error (open_checks lib (Some (w_pr w1)) (at_assessment w1) (first_policy w1 PLOT_LAT_E6 PLOT_LON_E6 NOW)
      ?d sig rid) = Some (PayoutE PlotLocationMismatch)" for sig rid
    by (simp only: open_checks_def first_error_append determination_evidence determination_cover Let_def) simp
  have wired: "wired lib (Some (w_pr w1)) w1" using o(3) by simp
  obtain sig rid where s: "sign_for lib e sk (w_pr w1) (w_domain w1) ?d = Some (sig, rid)" using signed [OF assms(3)] by blast
  obtain w2 where w2: "try_submit ?d sig rid w1 = (Inl (PayoutE PlotLocationMismatch), at_assessment w1)"
      "assert_nothing_owed 1 (at_assessment w1) = Some w2"
    by (rule refused_unowed [OF wired o(4) _ _ checks [of sig rid] now]) (simp, simp, blast)
  show ?thesis
    using s by (simp add: evidence_from_another_plot_does_not_settle_def deploy_def o(1,2,5,6) w2 Let_def del: One_nat_def)
qed

theorem late_cover_passes:
  assumes "inj generate" and "sk_from lib 0x11 = Some sk" and "signs lib e sk"
  shows "cover_bought_after_planting_does_not_settle_that_season lib generate e = Some ()"
proof (rule deploys [OF assms(1,2), of e True])
  fix w
  let ?d = "determination 1 SUM_INSURED PAYOUT"
  define t where "t = PLANT + 86400 + 60"
  assume w: "deploy_with lib generate e True = Some w" "blank w" "w_env w = e\<lparr>timestamp := NOW\<rparr>" "w_sk w = sk"
    and any: "\<And>t. t < u64_max \<Longrightarrow> wired lib (if True then Some (w_pr w) else None) (set_timestamp t w)"
  have bounds: "t < u64_max" "t \<le> 10 ^ 12" "t \<le> ASSESSED + 60" by (simp_all add: t_def test_constants u64_max_def)
  have "wired lib (Some (w_pr w)) (set_timestamp t w)" using any [OF bounds(1)] by simp
  from sells [OF this] obtain w1 where w1: "create_and_activate (set_timestamp t w) = Some (1, w1)"
      "same_actors (set_timestamp t w) w1" "w_env w1 = e\<lparr>timestamp := t\<rparr>" "wired lib (Some (w_pr w)) w1"
      "insured (first_policy w1 PLOT_LAT_E6 PLOT_LON_E6 t) w1"
    using w(2,3) bounds(2) by auto
  note a1 = same_actorsD [OF same_actors_trans [OF same_actors_moves(2) w1(2)]]
  have now: "timestamp (w_env w1) \<le> ASSESSED + 60" using bounds(3) by (simp add: w1(3))
  then have "timestamp (w_env (at_assessment w1)) = ASSESSED + 60" by simp
  then have "first_error (open_rules (w_env (at_assessment w1)) (first_policy w1 PLOT_LAT_E6 PLOT_LON_E6 t)) = None"
    by (simp only: open_rules_def) (simp add: first_policy_def test_constants t_def)
  then have checks: "first_error (open_checks lib (Some (w_pr w)) (at_assessment w1) (first_policy w1 PLOT_LAT_E6 PLOT_LON_E6 t)
      ?d sig rid) = Some (PayoutE EvidenceOutsideCoverWindow)" for sig rid
    by (simp only: open_checks_def first_error_append determination_evidence determination_cover Let_def t_def) simp
  obtain sig rid where s: "sign_for lib e sk (w_pr w1) (w_domain w1) ?d = Some (sig, rid)" using signed [OF assms(3)] by blast
  obtain w2 where w2: "try_submit ?d sig rid w1 = (Inl (PayoutE EvidenceOutsideCoverWindow), at_assessment w1)"
      "assert_nothing_owed 1 (at_assessment w1) = Some w2"
    by (rule refused_unowed [OF w1(4,5) _ _ checks [of sig rid] now]) (simp, simp, blast)
  show ?thesis
    unfolding cover_bought_after_planting_does_not_settle_that_season_def t_def [symmetric]
    using s by (simp add: deploy_def w(1,4) w1(1,3) w2 a1 Let_def del: One_nat_def)
qed

theorem crop_passes:
  assumes "inj generate" and "sk_from lib 0x11 = Some sk" and "signs lib e sk"
  shows "crop_determination_is_rejected_after_the_upgrade lib generate e = Some ()"
proof (rule opens [OF assms(1,2), of e True])
  fix w w1
  assume o: "deploy_with lib generate e True = Some w" "create_and_activate w = Some (1, w1)"
      "wired lib (if True then Some (w_pr w1) else None) w1" "insured (first_policy w1 PLOT_LAT_E6 PLOT_LON_E6 NOW) w1"
      "w_env w1 = e\<lparr>timestamp := NOW\<rparr>" "w_sk w1 = sk"
  have pr: "receiver_wired lib w1 (sys_pr (w_contracts w1))" using wiredD(7) o(3) by simp
  have "timestamp (w_env w1) < u64_max" by (simp add: o(5) test_constants u64_max_def)
  then obtain w2 where w2: "assert_nothing_owed 1 w1 = Some w2" using nothing_owed [OF _ o(4)] o(3) by auto
  have no: "\<not> methodology_enabled CropDualIndex10 (sys_pr (w_contracts w1))" "pr_paused (sys_pr (w_contracts w1)) = Some False"
      "pr_authorized_signer (sys_pr (w_contracts w1)) \<noteq> None" "holds (pr_roles (sys_pr (w_contracts w1))) Relayer (w_relayer w1)"
    using pr by (simp_all add: receiver_wired_def flip: is_methodology_enabled_def)
  have "submit_determination real_pm real_adapter (signed_call (w_env w1) (w_pr w1) (w_relayer w1)) (w_relayer w1) c sig rid
      (w_contracts w1) = Inl (PayoutE MethodologyDisabled)" for c sig rid
    using no by (auto simp: submit_determination_def begin_submission_def require_role_eq methodology_enabled_def pr_touch_def Let_def)
  moreover obtain sig rid where "\<And>h. sign_digest lib sk h = Some (sig h, rid h)" using assms(3) unfolding signs_def by metis
  ultimately show ?thesis
    using no(1) by (simp add: crop_determination_is_rejected_after_the_upgrade_def deploy_def o(1,2,6) w2 Let_def
        is_methodology_enabled_def del: One_nat_def)
qed

theorem only_drought_passes:
  assumes "inj generate" and "sk_from lib 0x11 = Some sk"
  shows "only_drought_cover_can_be_sold lib generate e = Some ()"
proof (rule deploys [OF assms, of e True])
  fix w
  assume w: "deploy_with lib generate e True = Some w" "blank w" "wired lib (if True then Some (w_pr w) else None) w"
  have backend: "holds (pm_roles (manager_of w)) Backend (w_backend w)"
    using wiredD(5) [OF w(3)] by (simp add: manager_wired_def manager_of_def)
  have "create_policy (signed_call (w_env w) (w_pm w) (w_backend w)) (w_backend w) (w_farmer w) 7 PLOT_LAT_E6 PLOT_LON_E6
      SUM_INSURED PREMIUM DURATION_DAYS c (w_org w) (manager_of w) = Inl (PolicyE CoverageNotOffered)" if "c \<noteq> Drought" for c
    using backend that by (simp add: create_policy_def require_role_eq Let_def test_constants pm_constants)
  moreover have "policy_counter (manager_of w) = 0" "get (pm_org_outstanding (manager_of w)) = Map.empty"
      "get (pm_farmer_policy_count (manager_of w)) = Map.empty"
    using w(2) by (simp_all add: blank_def Let_def manager_of_def pm_view_def)
  ultimately show ?thesis
    by (simp add: only_drought_cover_can_be_sold_def deploy_def w(1) get_total_policies_def org_outstanding_sum_insured_def
        org_outstanding_def exposure_of_def get_farmer_policy_count_def)
qed

section \<open>Roles\<close>

lemma answer_role [simp]:
  "answer (pm_has_role e r a s) = Some (holds (pm_roles s) r a)" "answer (nft_has_role e r a x) = Some (holds (nft_roles x) r a)"
  "answer (sa_has_role e r a ad) = Some (holds (sa_roles ad) r a)" "answer (pr_has_role e r a p) = Some (holds (pr_roles p) r a)"
  by (simp_all add: answer_def pm_has_role_def nft_has_role_def sa_has_role_def pr_has_role_def has_role_eq)

theorem roles_pass:
  assumes "inj generate" and "sk_from lib 0x11 = Some sk"
  shows "has_role_reports_the_money_path_grants lib generate e = Some ()"
    and "has_role_is_false_for_non_holders_and_is_per_contract lib generate e = Some ()"
proof -
  obtain w where w: "deploy_with lib generate e True = Some w" "wired lib (Some (w_pr w)) w"
    by (rule deploys [OF assms, of e True]) simp
  obtain x where x: "nft_of w = Some x" "\<And>r a. holds (nft_roles x) r a \<longleftrightarrow> a = w_admin w \<and> r = Admin \<or> a = w_pm w \<and> r = Minter"
    and pm: "\<And>r a. holds (pm_roles (manager_of w)) r a \<longleftrightarrow> a = w_admin w \<and> (r = Admin \<or> r = Upgrader) \<or>
      a = w_backend w \<and> r = Backend \<or> a = w_pr w \<and> r = Oracle"
    using wiredD(5) [OF w(2)] by (auto simp: manager_wired_def nft_of_def manager_of_def)
  obtain ad where ad: "adapter_of w = Some ad" using wiredD(6) [OF w(2)] by (auto simp: adapter_wired_def adapter_of_def)
  note funder = wired_funder [OF w(2) ad]
  have pr: "receiver_wired lib w (sys_pr (w_contracts w))" by (rule wiredD(7) [OF w(2)])
  have distinct: "distinct (actors w)" using w(2) by (simp add: wired_def)
  show "has_role_reports_the_money_path_grants lib generate e = Some ()"
    using pr by (simp add: has_role_reports_the_money_path_grants_def deploy_def w(1) x pm ad funder receiver_wired_def
        adapter_payout_receiver_def settlement_adapter_def siblings_def)
  show "has_role_is_false_for_non_holders_and_is_per_contract lib generate e = Some ()"
    using pr distinct by (auto simp: has_role_is_false_for_non_holders_and_is_per_contract_def deploy_def w(1) x pm ad funder
        receiver_wired_def actors_def)
qed

theorem revoking_passes:
  assumes "inj generate" and "sk_from lib 0x11 = Some sk" and "signs lib e sk"
  shows "revoking_a_role_is_visible_through_has_role lib generate e = Some ()"
proof (rule settles_first [OF assms])
  fix w w1 w2
  assume run: "deploy lib generate e = Some w" "create_and_activate w = Some (1, w1)"
    "submit lib (determination 1 SUM_INSURED PAYOUT) w1 = Some w2" and w2: "wired lib (Some (w_pr w2)) w2"
  obtain ad where ad: "adapter_of w2 = Some ad" using wiredD(6) [OF w2] by (auto simp: adapter_wired_def adapter_of_def)
  note funder = wired_funder [OF w2 ad]
  let ?e = "signed_call (w_env w2) (w_adapter w2) (w_admin w2)"
  obtain ad' where ad': "sa_revoke_role ?e (w_admin w2) Funder (w_backend w2) ad = Inr ad'"
    using sa_access.revoke_law funder(1) by (metis signed_call_simps(3))
  have lost: "\<not> holds (sa_roles ad') Funder (w_backend w2)" by (simp add: sa_access.revoke_effect [OF ad'])
  have inv: "sa_inv ad'" by (rule sa_inv_step [OF funder(3) step_revoke [OF ad']])
  have "on_adapter (w_admin w2) (\<lambda>e s. map_sum id (Pair ()) (sa_revoke_role e (w_admin w2) Funder (w_backend w2) s)) w2 =
      Some ((), with_adapter w2 ad')"
    using on_adapter_eq [OF ad, of "\<lambda>e s. map_sum id (Pair ()) (sa_revoke_role e (w_admin w2) Funder (w_backend w2) s)"] ad' by simp
  moreover have "fails (mark_funded (signed_call (w_env w2) (w_adapter w2) (w_backend w2)) (w_backend w2) 1 (reference 1) ad') = Some ()"
    using lost references(3) by (simp add: mark_funded_eq [OF inv] mark_guard_def fails_def)
  ultimately show ?thesis
    by (simp add: revoking_a_role_is_visible_through_has_role_def run lost same_actorsD [OF with_adapter_simps(1)] del: One_nat_def)
qed

section \<open>The 2022 long rains\<close>

lemma era5_evidence: "first_error (evidence_rules (era5_determination 1)) = None"
  by (simp add: evidence_rules_def evidence_valid_def era5_determination_def PLANT_2022_def drought_index_def
      window_damage_def window_deficit_def)

lemma era5_checks:
  assumes "secp256k1_recover (w_env w) (drought_determination_digest (w_env w) (era5_determination 1) (w_pr w) (w_domain w)) sig rid =
      Some (pubkey65 lib (w_sk w))" and now: "timestamp (w_env w) = PLANT_2022 + 117 * 86400 + 600"
    and t: "t = PLANT_2022 + 6 * 3600"
  shows "first_error (open_checks lib (Some (w_pr w)) w (first_policy v ERA5_LAT ERA5_LON t)
      (era5_determination 1) sig rid) = None"
proof -
  note era5_evidence
  moreover have "first_error (open_rules (w_env w) (first_policy v ERA5_LAT ERA5_LON t)) = None"
    by (simp add: open_rules_def first_policy_def now t)
  moreover have "first_error (cover_rules (era5_determination 1) (first_policy v ERA5_LAT ERA5_LON t)) = None"
    by (simp add: cover_rules_def first_policy_def era5_determination_def PLANT_2022_def SUM_INSURED_def t)
  moreover have "first_error (fresh_rules (w_env w) (era5_determination 1)) = None"
    by (simp add: fresh_rules_def era5_determination_def now)
  ultimately show ?thesis by (simp add: open_checks_def first_error_append assms(1) Let_def del: One_nat_def)
qed

text \<open>The season in a deployed world: the cover is sold at planting and its determination settles.\<close>

definition ERA5_SOLD :: nat where "ERA5_SOLD = PLANT_2022 + 6 * 3600"
definition ERA5_SUBMITTED :: nat where "ERA5_SUBMITTED = PLANT_2022 + 117 * 86400 + 600"

lemma era5_season:
  assumes start: "wired lib (Some (w_pr w)) w" "blank w" "timestamp (w_env w) = ERA5_SOLD" and sign: "signs lib (w_env w) (w_sk w)"
  obtains s n s' w2 sig rid sys' where
    "create_policy (signed_call (w_env w) (w_pm w) (w_backend w)) (w_backend w) (w_farmer w) 7 ERA5_LAT ERA5_LON
        SUM_INSURED PREMIUM DURATION_DAYS Drought (w_org w) (snd (sys_pm (w_contracts w))) = Inr (1, s)"
    and "activate_policy (signed_call (w_env w) (w_pm w) (w_backend w)) (w_backend w) 1 (w_distributor w) ''Acme Distributor''
        ''Trans Nzoia'' (fst (sys_pm (w_contracts w))) s = Inr (n, s')"
    and "w2 = set_timestamp ERA5_SUBMITTED (w\<lparr>w_contracts := (w_contracts w)\<lparr>sys_pm := (n, s')\<rparr>\<rparr>)"
    and "same_actors w w2" and "w_env w2 = (w_env w)\<lparr>timestamp := ERA5_SUBMITTED\<rparr>" and "wired lib (Some (w_pr w)) w2"
    and "sign_for lib (w_env w) (w_sk w) (w_pr w) (w_domain w) (era5_determination 1) = Some (sig, rid)"
    and "submit_drought_determination real_pm real_adapter (signed_call (w_env w2) (w_pr w) (w_relayer w)) (w_relayer w)
        (era5_determination 1) sig rid (w_contracts w2) = Inr sys'"
    and "wired lib (Some (w_pr w)) (w2\<lparr>w_contracts := sys'\<rparr>)"
    and "settled (first_policy w ERA5_LAT ERA5_LON ERA5_SOLD) (era5_determination 1)
        (drought_determination_digest (w_env w) (era5_determination 1) (w_pr w) (w_domain w)) ERA5_SUBMITTED (w2\<lparr>w_contracts := sys'\<rparr>)"
proof -
  let ?d = "era5_determination 1" and ?p = "first_policy w ERA5_LAT ERA5_LON ERA5_SOLD"
  have bounds: "ERA5_SOLD \<le> 10 ^ 12" "ERA5_SOLD \<le> ERA5_SUBMITTED" "ERA5_SUBMITTED < u64_max"
    by (simp_all add: ERA5_SOLD_def ERA5_SUBMITTED_def PLANT_2022_def u64_max_def)
  have plot: "\<bar>ERA5_LAT\<bar> \<le> 90000000" "\<bar>ERA5_LON\<bar> \<le> 180000000" by (simp_all add: ERA5_LAT_def ERA5_LON_def)
  obtain s n s' where sale: "create_policy (signed_call (w_env w) (w_pm w) (w_backend w)) (w_backend w) (w_farmer w) 7 ERA5_LAT ERA5_LON
        SUM_INSURED PREMIUM DURATION_DAYS Drought (w_org w) (snd (sys_pm (w_contracts w))) = Inr (1, s)"
      "activate_policy (signed_call (w_env w) (w_pm w) (w_backend w)) (w_backend w) 1 (w_distributor w) ''Acme Distributor''
        ''Trans Nzoia'' (fst (sys_pm (w_contracts w))) s = Inr (n, s')"
    and w1: "wired lib (Some (w_pr w)) (w\<lparr>w_contracts := (w_contracts w)\<lparr>sys_pm := (n, s')\<rparr>\<rparr>)"
      "insured ?p (w\<lparr>w_contracts := (w_contracts w)\<lparr>sys_pm := (n, s')\<rparr>\<rparr>)"
    using sold [OF start bounds(1) plot, of "''Acme Distributor''" "''Trans Nzoia''"] by blast
  let ?w1 = "w\<lparr>w_contracts := (w_contracts w)\<lparr>sys_pm := (n, s')\<rparr>\<rparr>"
  define w2 where "w2 = set_timestamp ERA5_SUBMITTED ?w1"
  have same: "same_actors w w2" by (simp add: w2_def same_actors_def set_timestamp_def)
  note a2 = same_actorsD [OF same]
  have w2: "wired lib (Some (w_pr w2)) w2" "insured ?p w2" "w_env w2 = (w_env w)\<lparr>timestamp := ERA5_SUBMITTED\<rparr>"
    using wired_later [OF w1(1), of ERA5_SUBMITTED] w1(2) bounds(2) start(3) by (simp_all add: a2 flip: w2_def) (simp_all add: w2_def)
  obtain sig rid where s: "sign_for lib (w_env w) (w_sk w) (w_pr w) (w_domain w) ?d = Some (sig, rid)"
      "secp256k1_recover (w_env w) (drought_determination_digest (w_env w) ?d (w_pr w) (w_domain w)) sig rid = Some (pubkey65 lib (w_sk w))"
    using signed [OF sign] by blast
  have "secp256k1_recover (w_env w2) (drought_determination_digest (w_env w2) ?d (w_pr w2) (w_domain w2)) sig rid =
      Some (pubkey65 lib (w_sk w2))"
    using s(2) by (simp add: a2 w2(3))
  from era5_checks [OF this _ ERA5_SOLD_def] have checks: "first_error (open_checks lib (Some (w_pr w2)) w2 ?p ?d sig rid) = None"
    by (simp add: w2(3) ERA5_SUBMITTED_def)
  have "timestamp (w_env w2) < u64_max" "d_on_chain_policy_id ?d = 1" using bounds(3) by (simp_all add: era5_determination_def w2(3))
  from accepted [OF w2(1,2) _ _ this checks] obtain sys' where
      "submit_drought_determination real_pm real_adapter (signed_call (w_env w2) (w_pr w2) (w_relayer w2)) (w_relayer w2) ?d sig rid
        (w_contracts w2) = Inr sys'" "wired lib (Some (w_pr w2)) (w2\<lparr>w_contracts := sys'\<rparr>)"
      "settled ?p ?d (drought_determination_digest (w_env w2) ?d (w_pr w2) (w_domain w2)) ERA5_SUBMITTED (w2\<lparr>w_contracts := sys'\<rparr>)"
    by (auto simp: w2(3))
  then show thesis using that [OF sale w2_def same w2(3) _ s(1)] w2(1,3) by (simp add: a2)
qed

theorem era5_passes:
  assumes "inj generate" and "sk_from lib 0x11 = Some sk" and "signs lib e sk"
  shows "real_era5_season_records_an_obligation_end_to_end lib generate e = Some ()"
proof (rule deploys [OF assms(1,2), of e True])
  fix w
  assume w: "deploy_with lib generate e True = Some w" "blank w" "w_env w = e\<lparr>timestamp := NOW\<rparr>" "w_sk w = sk"
    and any: "\<And>t. t < u64_max \<Longrightarrow> wired lib (if True then Some (w_pr w) else None) (set_timestamp t w)"
  let ?d = "era5_determination 1" and ?w = "set_timestamp ERA5_SOLD w"
  have bounds: "ERA5_SOLD < u64_max" "ERA5_SUBMITTED < u64_max"
    by (simp_all add: ERA5_SOLD_def ERA5_SUBMITTED_def PLANT_2022_def u64_max_def)
  note aw = same_actorsD [OF same_actors_moves(2) [of w ERA5_SOLD]]
  obtain n0 s0 where m: "sys_pm (w_contracts w) = (n0, s0)" by (cases "sys_pm (w_contracts w)")
  have start: "wired lib (Some (w_pr ?w)) ?w" "blank ?w" "timestamp (w_env ?w) = ERA5_SOLD" "signs lib (w_env ?w) (w_sk ?w)"
    using any [OF bounds(1)] w(2) assms(3) by (simp_all add: aw w(3,4))
  show ?thesis
  proof (rule era5_season [OF start])
    fix s n s' w2 sig rid sys'
    assume sale: "create_policy (signed_call (w_env ?w) (w_pm ?w) (w_backend ?w)) (w_backend ?w) (w_farmer ?w) 7 ERA5_LAT ERA5_LON
          SUM_INSURED PREMIUM DURATION_DAYS Drought (w_org ?w) (snd (sys_pm (w_contracts ?w))) = Inr (1, s)"
        "activate_policy (signed_call (w_env ?w) (w_pm ?w) (w_backend ?w)) (w_backend ?w) 1 (w_distributor ?w) ''Acme Distributor''
          ''Trans Nzoia'' (fst (sys_pm (w_contracts ?w))) s = Inr (n, s')"
      and w2: "w2 = set_timestamp ERA5_SUBMITTED (?w\<lparr>w_contracts := (w_contracts ?w)\<lparr>sys_pm := (n, s')\<rparr>\<rparr>)" "same_actors ?w w2"
        "w_env w2 = (w_env ?w)\<lparr>timestamp := ERA5_SUBMITTED\<rparr>" "wired lib (Some (w_pr ?w)) w2"
      and sent: "sign_for lib (w_env ?w) (w_sk ?w) (w_pr ?w) (w_domain ?w) ?d = Some (sig, rid)"
        "submit_drought_determination real_pm real_adapter (signed_call (w_env w2) (w_pr ?w) (w_relayer ?w)) (w_relayer ?w) ?d sig rid
          (w_contracts w2) = Inr sys'"
      and w3: "wired lib (Some (w_pr ?w)) (w2\<lparr>w_contracts := sys'\<rparr>)"
        "settled (first_policy ?w ERA5_LAT ERA5_LON ERA5_SOLD) ?d
          (drought_determination_digest (w_env ?w) ?d (w_pr ?w) (w_domain ?w)) ERA5_SUBMITTED (w2\<lparr>w_contracts := sys'\<rparr>)"
    note a2 = same_actorsD [OF w2(2)] aw
    have now: "timestamp (w_env (w2\<lparr>w_contracts := sys'\<rparr>)) < u64_max" using bounds(2) by (simp add: w2(3))
    obtain ad e' where ad: "adapter_of (w2\<lparr>w_contracts := sys'\<rparr>) = Some ad" "get (sa_obligation ad) =
        [1 \<mapsto> fresh_obligation e' 1 (w_pr (w2\<lparr>w_contracts := sys'\<rparr>)) 1 (p_org (first_policy ?w ERA5_LAT ERA5_LON ERA5_SOLD))
          (d_payout_amount ?d) (drought_determination_digest (w_env ?w) ?d (w_pr ?w) (w_domain ?w)) 0]"
      by (rule settled_adapter [OF w3(2)])
    obtain w4 where w4: "read_policy 1 (w2\<lparr>w_contracts := sys'\<rparr>) =
          Some (first_policy ?w ERA5_LAT ERA5_LON ERA5_SOLD\<lparr>p_status := Claimed\<rparr>, w4)" "sys_pr (w_contracts w4) = sys_pr sys'"
      by (rule reads_settled [OF w3 now]) simp
    have "pr_network_domain (sys_pr (w_contracts w2)) = Some (w_domain w2)" using wiredD(7) [OF w2(4)] by (simp add: receiver_wired_def)
    then have view: "pr_drought_determination_digest (open_call (w_env w2) (w_pr w)) ?d (sys_pr (w_contracts w2)) =
        Inr (drought_determination_digest e ?d (w_pr w) (w_domain w))"
      by (simp add: pr_drought_determination_digest_def network_domain_def a2 w2(3) w(3))
    have report: "get_report 1 (sys_pr sys') = drought_report ?d" using w3(2) by (simp add: settled_def Let_def)
    have d: "d_assessed_at ?d + 600 = ERA5_SUBMITTED" "d_payout_amount ?d = SUM_INSURED * 4200 div 10000" "d_damage_percent_bp ?d = 4200"
      by (simp_all add: era5_determination_def ERA5_SUBMITTED_def)
    have w2': "set_timestamp ERA5_SUBMITTED (set_timestamp ERA5_SOLD w\<lparr>w_contracts := (w_contracts w)\<lparr>sys_pm := (n, s')\<rparr>\<rparr>) = w2"
      "w_contracts w2 = (w_contracts w)\<lparr>sys_pm := (n, s')\<rparr>"
      by (simp_all add: w2(1))
    have env: "w_env w2 = e\<lparr>timestamp := ERA5_SUBMITTED\<rparr>" by (simp add: w2(3) w(3))
    show ?thesis
      unfolding real_era5_season_records_an_obligation_end_to_end_def ERA5_SOLD_def [symmetric]
      using sale sent w4 view
      by (simp add: deploy_def w(1,3,4) m w2' d aw ad report get_obligation_def fresh_obligation_def drought_report_def
          a2 env Let_def del: One_nat_def)
  qed
qed

section \<open>A swapped adapter\<close>

text \<open>A new adapter at an address of its own: refused while it is unbound, then taken.\<close>

lemma swaps:
  assumes w: "wired lib pr w" and fresh: "x \<notin> set (actors w)" and now: "timestamp (w_env w) < u64_max"
  obtains a0 a1 c where "sa_constructor (signed_call (w_env w) x (w_admin w)) (w_admin w) = Inr a0"
    and "set_settlement_adapter real_adapter (signed_call (w_env w) (w_pr w) (w_admin w)) (w_admin w) x
      ((w_contracts w)\<lparr>sys_adapters := (sys_adapters (w_contracts w))(x \<mapsto> a0)\<rparr>) = Inl (PayoutE SettlementAdapterNotBound)"
    and "set_payout_receiver (signed_call (w_env w) x (w_admin w)) (w_admin w) (w_pr w) a0 = Inr a1"
    and "set_settlement_adapter real_adapter (signed_call (w_env w) (w_pr w) (w_admin w)) (w_admin w) x
      ((w_contracts w)\<lparr>sys_adapters := (sys_adapters (w_contracts w))(x \<mapsto> a1)\<rparr>) = Inr c"
    and "settlement_adapter (sys_pr c) = Inr x" and "sys_pm c = sys_pm (w_contracts w)"
    and "sys_adapters c = (sys_adapters (w_contracts w))(x \<mapsto> a1)" and "obligation_count a1 = Inr 0"
    and "\<And>e. first_error (gate_rules (signed_call e (w_pr w) (w_relayer w)) (w_relayer w) CropDroughtRdi10 (sys_pr c)) = None"
    and "sys_reachable (w_pr w) (timestamp (w_env w)) c"
proof -
  let ?x = "signed_call (w_env w) x (w_admin w)" and ?r = "signed_call (w_env w) (w_pr w) (w_admin w)"
  let ?c = "\<lambda>a. (w_contracts w)\<lparr>sys_adapters := (sys_adapters (w_contracts w))(x \<mapsto> a)\<rparr>"
  have neq: "x \<noteq> w_adapter w" "x \<noteq> w_pr w" "w_admin w \<noteq> w_pr w" using fresh wiredD(2) [OF w] by (auto simp: actors_def)
  have rec: "receiver_wired lib w (sys_pr (w_contracts w))" by (rule wiredD(7) [OF w])
  have none: "sys_adapters (w_contracts w) x = None" using wiredD(6) [OF w] neq by (auto simp: adapter_wired_def)
  obtain t where t: "t \<le> timestamp (w_env w)" "sys_reachable (w_pr w) t (w_contracts w)" using wiredD(9) [OF w] by blast
  obtain a0 where a0: "sa_constructor ?x (w_admin w) = Inr a0" by (simp add: sa_constructor_def grant_role_def Let_def)
  note new = sa_constructor_effect [OF a0]
  have unbound: "sa_payout_receiver a0 = None" using a0 by (auto simp: sa_constructor_def sa_deployed_def bindE_eq_Inr Let_def)
  obtain a1 where a1: "set_payout_receiver ?x (w_admin w) (w_pr w) a0 = Inr a1"
    using new(1) neq by (fastforce simp: set_payout_receiver_def require_role_eq Let_def)
  note bound = set_payout_receiver_effect(4) [OF a1] and same = same_obligations_admin(2) [OF a1]
  have dep: "deployment_ok (w_pr w) c" if "sys_pm c = sys_pm (w_contracts w)" for c
    by (rule wired_deployment [OF wiredD(5) [OF w] that])
  have "sys_reachable (w_pr w) (timestamp (w_env w)) (?c a0)"
    using sys_next [OF t(2) new_adapter [OF none a0]] t(1) now dep by simp
  from sys_next [OF this on_adapter [where ad = x and a = a0, OF _ step_bind [OF a1]]] now dep neq
  have reach: "sys_reachable (w_pr w) (timestamp (w_env w)) (?c a1)" by simp
  obtain c where c: "set_settlement_adapter real_adapter ?r (w_admin w) x (?c a1) = Inr c"
      "settlement_adapter (sys_pr c) = Inr x" "sys_pm c = sys_pm (w_contracts w)"
      "sys_adapters c = (sys_adapters (w_contracts w))(x \<mapsto> a1)"
    and gates: "\<And>e. first_error (gate_rules (signed_call e (w_pr w) (w_relayer w)) (w_relayer w) CropDroughtRdi10 (sys_pr c)) = None"
    using rec neq bound
    by (auto simp: set_settlement_adapter_Inr receiver_wired_def adapter_payout_receiver_def settlement_adapter_def siblings_def
        gate_rules_def pr_touch_def is_methodology_enabled_def methodology_enabled_def)
  have "sys_reachable (w_pr w) (timestamp (w_env w)) c"
    using sys_next [OF reach on_receiver [OF pr_swaps [OF c(1)]]] now dep c(3) by simp
  moreover have "set_settlement_adapter real_adapter ?r (w_admin w) x (?c a0) = Inl (PayoutE SettlementAdapterNotBound)"
    using rec neq unbound
    by (simp add: set_settlement_adapter_def require_role_eq receiver_wired_def adapter_call_def adapter_payout_receiver_def Let_def)
  moreover have "obligation_count a1 = Inr 0"
    using same new(4) by (simp add: obligation_count_def same_obligations_def sub_u_def)
  ultimately show thesis using that [OF a0 _ a1 c] gates by blast
qed

theorem swap_passes:
  fixes lib :: "'k signing_lib"
  assumes "inj generate" and "sk_from lib 0x11 = Some sk" and "signs lib e sk"
  shows "replay_after_adapter_swap_still_rejected lib generate e = Some ()"
proof (rule settles_first [OF assms])
  fix w w1 w2 :: "'k world" and sig rid
  let ?d = "determination 1 SUM_INSURED PAYOUT" and ?d2 = "determination 1 SUM_INSURED PAYOUT\<lparr>d_assessed_at := ASSESSED + 100\<rparr>"
  let ?p = "first_policy w1 PLOT_LAT_E6 PLOT_LON_E6 NOW"
  assume run: "deploy lib generate e = Some w" "create_and_activate w = Some (1, w1)"
    "sign_for lib (w_env w1) (w_sk w1) (w_pr w1) (w_domain w1) ?d = Some (sig, rid)" "try_submit ?d sig rid w1 = (Inr (), w2)"
    and w2: "wired lib (Some (w_pr w2)) w2" "w_env w2 = e\<lparr>timestamp := ASSESSED + 60\<rparr>" "generate 10 \<notin> set (actors w2)" "w_sk w2 = sk"
    and s: "settled ?p ?d (drought_determination_digest e ?d (w_pr w1) (w_domain w1)) (ASSESSED + 60) w2"
  have late: "timestamp (w_env w2) < u64_max" "ASSESSED + 120 < u64_max" by (simp_all add: w2(2) test_constants u64_max_def)
  obtain a0 a1 c where c: "sa_constructor (signed_call (w_env w2) (generate 10) (w_admin w2)) (w_admin w2) = Inr a0"
      "set_settlement_adapter real_adapter (signed_call (w_env w2) (w_pr w2) (w_admin w2)) (w_admin w2) (generate 10)
        ((w_contracts w2)\<lparr>sys_adapters := (sys_adapters (w_contracts w2))(generate 10 \<mapsto> a0)\<rparr>) = Inl (PayoutE SettlementAdapterNotBound)"
      "set_payout_receiver (signed_call (w_env w2) (generate 10) (w_admin w2)) (w_admin w2) (w_pr w2) a0 = Inr a1"
      "set_settlement_adapter real_adapter (signed_call (w_env w2) (w_pr w2) (w_admin w2)) (w_admin w2) (generate 10)
        ((w_contracts w2)\<lparr>sys_adapters := (sys_adapters (w_contracts w2))(generate 10 \<mapsto> a1)\<rparr>) = Inr c"
      "settlement_adapter (sys_pr c) = Inr (generate 10)" "sys_pm c = sys_pm (w_contracts w2)"
      "sys_adapters c = (sys_adapters (w_contracts w2))(generate 10 \<mapsto> a1)" "obligation_count a1 = Inr 0"
      "\<And>e. first_error (gate_rules (signed_call e (w_pr w2) (w_relayer w2)) (w_relayer w2) CropDroughtRdi10 (sys_pr c)) = None"
      "sys_reachable (w_pr w2) (timestamp (w_env w2)) c"
    by (rule swaps [OF w2(1,3) late(1)]) blast
  let ?w3 = "w2\<lparr>w_contracts := c\<rparr>"
  let ?w4 = "set_timestamp (ASSESSED + 120) ?w3"
  note a3 = same_actorsD [OF same_actors_moves(1) [of w2 c]] and a4 = same_actorsD [OF same_actors_moves(2) [of ?w3 "ASSESSED + 120"]]
  have claimed: "get (pm_policy (snd (sys_pm c))) 1 = Some (?p\<lparr>p_status := Claimed\<rparr>)" "p_status (?p\<lparr>p_status := Claimed\<rparr>) \<noteq> Active"
    using s by (simp_all add: c(6) settled_def Let_def)
  have replay: "try_submit d' sig rid v = (Inl (PayoutE PolicyNotActive), v)"
    if "v = ?w3 \<or> v = ?w4" "d_on_chain_policy_id d' = 1" "first_error (evidence_rules d') = None" for v d' sig rid
  proof -
    have v: "w_contracts v = c" "w_pr v = w_pr w2" "w_relayer v = w_relayer w2" "ASSESSED + 60 \<le> timestamp (w_env v)"
      "timestamp (w_env w2) \<le> timestamp (w_env v)"
      using that(1) by (auto simp: a4 w2(2))
    show ?thesis
      using claimed_verdict [where w = v, OF _ v(5) _ _ claimed(2) that(2,3), unfolded v(1-3), OF c(10) c(9) claimed(1)]
      by (simp add: try_submit_def late_assessment [OF v(4)] v(1-3) Let_def)
  qed
  obtain ad e' where ad: "adapter_of w2 = Some ad" "sa_next_obligation_id ad = Some 2"
      "get (sa_obligation ad) = [1 \<mapsto> fresh_obligation e' 1 (w_pr w2) 1 (p_org ?p) (d_payout_amount ?d)
        (drought_determination_digest e ?d (w_pr w1) (w_domain w1)) 0]"
    by (rule settled_adapter [OF s])
  have ad4: "adapter_of ?w4 = Some ad" "sys_adapters (w_contracts ?w4) (generate 10) = Some a1"
    using ad(1) w2(3) by (auto simp: adapter_of_def c(7) a4 actors_def)
  let ?v = "set_timestamp (ASSESSED + 120) w2"
  note av = same_actorsD [OF same_actors_moves(2) [of w2 "ASSESSED + 120"]]
  have "wired lib (Some (w_pr w2)) ?v" using wired_later [OF w2(1)] by (simp add: w2(2))
  from marks(2) [OF this _ _ _ references(2), of ad] obtain ad5 ob5 where
    "mark_settled (signed_call (w_env ?v) (w_adapter w2) (w_backend w2)) (w_backend w2) 1 (reference 0x51) ad = Inr (ob5, ad5)"
    using ad late(2) by (auto simp: av fresh_obligation_def simp del: One_nat_def)
  then have mark: "on_adapter (w_backend ?w4) (\<lambda>e. mark_settled e (w_backend ?w4) 1 (reference 0x51)) ?w4 =
      Some (ob5, with_adapter ?w4 ad5)"
    using on_adapter_eq [OF ad4(1), of "\<lambda>e. mark_settled e (w_backend ?w4) 1 (reference 0x51)" "w_backend ?w4"] by (simp add: a4)
  have counts: "obligation_count ad = Inr 1" by (simp add: obligation_count_def ad(2) sub_u_def)
  obtain sig2 rid2 where sig2: "sign_for lib e sk (w_pr w2) (w_domain w2) ?d2 = Some (sig2, rid2)" using signed [OF assms(3)] by blast
  have "try_submit ?d sig rid ?w3 = (Inl (PayoutE PolicyNotActive), ?w3)" by (rule replay) (simp_all add: determination_evidence)
  moreover have "try_submit ?d2 sig2 rid2 ?w4 = (Inl (PayoutE PolicyNotActive), ?w4)" by (rule replay) (simp_all add: determination_evidence)
  ultimately show ?thesis
    unfolding replay_after_adapter_swap_still_rejected_def
    using mark sig2 c(1-4) ad4 by (simp add: run c(5,8) a4 w2(2,4) counts fails_def Let_def del: One_nat_def)
qed

section \<open>The tests on every host\<close>

text \<open>A toy scheme for the examples: a key is a byte, a signature spells it, and recovery reads it back.\<close>

definition test_lib :: "byte signing_lib" where
  "test_lib = \<lparr>from_slice = (\<lambda>bs. if length bs = 32 then Some (hd bs) else None),
     encoded_point = (\<lambda>k. replicate 64 0 @ [k]), sign_prehash = (\<lambda>k h. Some (ucast k, 0)),
     address_from_str = (\<lambda>_. None)\<rparr>"

definition test_env :: env where
  "test_env = sample_env\<lparr>secp256k1_recover := (\<lambda>h sig rid. Some (ucast sig))\<rparr>"

lemma test_key: "sk_from test_lib b = Some b" "pubkey65 test_lib b = ucast b"
proof -
  have "be_value (replicate n 0) = 0" for n
    by (induction n) (simp_all add: be_value_def flip: replicate_append_same)
  then show "pubkey65 test_lib b = ucast b" by (simp add: pubkey65_def test_lib_def be_value_append1 unsigned_ucast_eq)
qed (simp add: sk_from_def test_lib_def)

lemma test_signs: "signs test_lib test_env b"
proof -
  have "ucast (ucast b :: bytes64) = (ucast b :: bytes65)" by transfer simp
  then show ?thesis by (simp add: signs_def sign_digest_def test_key(2)) (simp add: test_lib_def test_env_def)
qed

lemma test_addresses: "inj Address"
  by (simp add: inj_def)

text \<open>C9. The life of a claim, end to end. On every host whose generated addresses differ, and with any key
  whose signatures recover to it, the four contracts, deployed and wired as the deployment script does,
  sell a cover, settle a signed determination into an owed obligation for exactly the payout, close the
  policy, its exposure and its certificate, and let only the funder mark the obligation funded and settled;
  the 2022 season of the oracle's pilot pixel settles for 42 percent.\<close>

theorem claims_settle_end_to_end:
  assumes "inj generate" and "sk_from lib 0x11 = Some sk" and "signs lib e sk"
  shows "full_lifecycle_determination_to_obligation_to_settlement lib generate e = Some () \<and>
    real_era5_season_records_an_obligation_end_to_end lib generate e = Some ()"
  using lifecycle_passes [OF assms] era5_passes [OF assms] by simp

theorem claims_settle_end_to_end_witness:
  "full_lifecycle_determination_to_obligation_to_settlement test_lib Address test_env = Some () \<and>
   real_era5_season_records_an_obligation_end_to_end test_lib Address test_env = Some ()"
  by (rule claims_settle_end_to_end [OF test_addresses test_key(1) test_signs])

text \<open>C10. Replays, end to end. On every such host a determination that settled is refused with PolicyNotActive when it is
  submitted again, also after the admin swapped in a second adapter (which the receiver takes only once it
  is bound); a newer determination for the same policy is refused too, the new adapter records nothing and
  the obligation in the old one can still be settled.\<close>

theorem replays_refused_end_to_end:
  assumes "inj generate" and "sk_from lib 0x11 = Some sk" and "signs lib e sk"
  shows "determination_replay_rejected lib generate e = Some () \<and>
    replay_after_adapter_swap_still_rejected lib generate e = Some ()"
  using replay_passes [OF assms] swap_passes [OF assms] by simp

theorem replays_refused_end_to_end_witness:
  "determination_replay_rejected test_lib Address test_env = Some () \<and>
   replay_after_adapter_swap_still_rejected test_lib Address test_env = Some ()"
  by (rule replays_refused_end_to_end [OF test_addresses test_key(1) test_signs])

text \<open>C11. Refusals, end to end. On every such host a submission is refused, with the error the tests name, while
  the adapter is unbound or bound elsewhere, for another signer, another plot, a season that began before
  the cover, or the retired crop methodology; after each nothing is paid or owed and the policy is active, and
  once the adapter is bound the very same determination settles. No cover but drought can be sold, the
  grants of the deployment are exactly as the tests read them, and a revoked funder cannot mark.\<close>

theorem refusals_end_to_end:
  assumes "inj generate" and "sk_from lib 0x11 = Some sk" and "signs lib e sk"
    and "sk_from lib 0x22 = Some attacker" and "signs lib e attacker" and "pubkey65 lib attacker \<noteq> pubkey65 lib sk"
  shows "list_all (\<lambda>test. test lib generate e = Some ())
    [adapter_not_bound_reverts_atomically_then_succeeds_after_binding, wrong_signer_determination_rejected,
     has_role_reports_the_money_path_grants, has_role_is_false_for_non_holders_and_is_per_contract,
     revoking_a_role_is_visible_through_has_role, only_drought_cover_can_be_sold,
     evidence_from_another_plot_does_not_settle, crop_determination_is_rejected_after_the_upgrade,
     cover_bought_after_planting_does_not_settle_that_season]"
  using unbound_passes [OF assms(1-3)] wrong_signer_passes [OF assms(1,2,5,4,6)] roles_pass [OF assms(1,2), of e]
    revoking_passes [OF assms(1-3)] only_drought_passes [OF assms(1,2), of e] other_plot_passes [OF assms(1-3)]
    crop_passes [OF assms(1-3)] late_cover_passes [OF assms(1-3)]
  by simp

theorem refusals_end_to_end_witness:
  "list_all (\<lambda>test. test test_lib Address test_env = Some ())
    [adapter_not_bound_reverts_atomically_then_succeeds_after_binding, wrong_signer_determination_rejected,
     has_role_reports_the_money_path_grants, has_role_is_false_for_non_holders_and_is_per_contract,
     revoking_a_role_is_visible_through_has_role, only_drought_cover_can_be_sold,
     evidence_from_another_plot_does_not_settle, crop_determination_is_rejected_after_the_upgrade,
     cover_bought_after_planting_does_not_settle_that_season]"
  by (rule refusals_end_to_end [OF test_addresses test_key(1) test_signs test_key(1) test_signs]) (simp add: test_key(2))

end
