(* ===== verification/IntegrationRent.thy ===== *)
theory IntegrationRent
  imports IntegrationPass Keepers
begin

text \<open>
  The integration tests about rent (\<^verbatim>\<open>crates/integration-tests/src/lib.rs\<close>, \<^verbatim>\<open>Rent cap: keepers
  reach every contract\<close>), as runs of the model; the proof that the contract keeper's test passes on every host that
  follows the documented rent rule; and what a sale and a claim leave of the horizons under that rule, for the
  other two (\<open>IntegrationRentPass\<close>).
\<close>

section \<open>Reading the time to live\<close>

text \<open>\<^verbatim>\<open>get_ttl\<close> of the test environment.\<close>

definition get_ttl :: "env \<Rightarrow> nat \<Rightarrow> nat" where
  "get_ttl e live = live - sequence e"

definition instance_ttls :: "'k world \<Rightarrow> nat list option" where
  "instance_ttls w = do {
     nft \<leftarrow> nft_of w;
     adapter \<leftarrow> adapter_of w;
     Some (map (get_ttl (w_env w)) [pm_instance_live (manager_of w), nft_instance_live nft, sa_instance_live adapter,
       pr_instance_live (sys_pr (w_contracts w))])
   }"

definition extend_contract_ttl_reaches_every_contract ::
  "'k signing_lib \<Rightarrow> (nat \<Rightarrow> address) \<Rightarrow> env \<Rightarrow> unit option" where
  "extend_contract_ttl_reaches_every_contract lib generate env = do {
     w \<leftarrow> deploy lib generate env;
     (policy_id, w) \<leftarrow> create_and_activate w;
     ttls \<leftarrow> instance_ttls w;
     must (\<forall>ttl \<in> set ttls. ttl \<le> USER_TARGET_LEDGERS);
     c \<leftarrow> ok (pr_extend_contract_ttl real_pm real_adapter (open_call (w_env w) (w_pr w)) (w_contracts w));
     let w = w\<lparr>w_contracts := c\<rparr>;
     ttls \<leftarrow> instance_ttls w;
     must (\<forall>ttl \<in> set ttls. ttl = KEEPER_TARGET_LEDGERS)
   }"

text \<open>The time to live of stored entries, each given by the last ledger it is paid for.\<close>

definition ttls_in :: "'k world \<Rightarrow> nat option list \<Rightarrow> nat list option" where
  "ttls_in w lives = those (map (map_option (get_ttl (w_env w))) lives)"

definition policy_ttls :: "nat \<Rightarrow> 'k world \<Rightarrow> nat list option" where
  "policy_ttls policy_id w = do {
     nft \<leftarrow> nft_of w;
     ttls_in w [live_until (pm_policy (manager_of w)) policy_id,
       live_until (pr_policy_paid (sys_pr (w_contracts w))) policy_id, live_until (nft_certificate nft) policy_id]
   }"

definition obligation_ttls :: "nat \<Rightarrow> 'k world \<Rightarrow> nat list option" where
  "obligation_ttls policy_id w = do {
     adapter \<leftarrow> adapter_of w;
     ttls_in w [live_until (sa_obligation adapter) 1, live_until (sa_obligation_of adapter) (w_pr w, policy_id),
       live_until (sa_org_at adapter) (w_org w, 0)]
   }"

section \<open>The ledger moves\<close>

definition set_max_entry_ttl :: "nat \<Rightarrow> 'k world \<Rightarrow> 'k world" where
  "set_max_entry_ttl n w = w\<lparr>w_env := (w_env w)\<lparr>max_ttl := n\<rparr>\<rparr>"

text \<open>
  \<open>rule n\<close> is the host's rent rule in ledger \<open>n\<close>; the least life of a new entry counts from the ledger.
\<close>

type_synonym rent_rule = "nat \<Rightarrow> nat \<Rightarrow> nat \<Rightarrow> nat \<Rightarrow> nat"

definition set_sequence_number :: "rent_rule \<Rightarrow> nat \<Rightarrow> 'k world \<Rightarrow> 'k world" where
  "set_sequence_number rule n w =
     (let e = w_env w in
      w\<lparr>w_env := e\<lparr>sequence := n, host_extend_ttl := rule n, fresh_live_until := n + (fresh_live_until e - sequence e)\<rparr>\<rparr>)"

definition advance_with_keeper :: "rent_rule \<Rightarrow> nat \<Rightarrow> 'k world \<Rightarrow> 'k world option" where
  "advance_with_keeper rule days w = do {
     c \<leftarrow> ok (pr_extend_contract_ttl real_pm real_adapter (open_call (w_env w) (w_pr w)) (w_contracts w));
     let w = w\<lparr>w_contracts := c\<rparr>;
     let seq = sequence (w_env w);
     let w = set_sequence_number rule (seq + days * DAY_LEDGERS) w;
     let ts = timestamp (w_env w);
     Some (set_timestamp (ts + days * 86400) w)
   }"

definition extend_policy :: "nat \<Rightarrow> 'k world \<Rightarrow> 'k world option" where
  "extend_policy policy_id w = do {
     c \<leftarrow> ok (pr_extend_policy_ttl real_pm real_adapter (open_call (w_env w) (w_pr w)) policy_id (w_contracts w));
     Some (w\<lparr>w_contracts := c\<rparr>)
   }"

definition extend_policy_ttl_reaches_every_contract ::
  "rent_rule \<Rightarrow> 'k signing_lib \<Rightarrow> (nat \<Rightarrow> address) \<Rightarrow> env \<Rightarrow> unit option" where
  "extend_policy_ttl_reaches_every_contract rule lib generate env = do {
     w \<leftarrow> deploy lib generate env;
     let w = set_max_entry_ttl NETWORK_MAX_ENTRY_TTL_LEDGERS w;
     (policy_id, w) \<leftarrow> create_and_activate w;
     w \<leftarrow> submit lib (determination policy_id SUM_INSURED PAYOUT) w;
     (policy, w) \<leftarrow> read_policy policy_id w;
     let until = p_end_date policy + 30 * 86400;
     let need_at = (\<lambda>t. div_ceil (until - t) 5);
     before \<leftarrow> policy_ttls policy_id w;
     must (before = [need_at NOW, need_at (ASSESSED + 60), need_at NOW]);
     ttls \<leftarrow> obligation_ttls policy_id w;
     must (\<forall>ttl \<in> set ttls. ttl = PENDING_TARGET_LEDGERS);
     w \<leftarrow> advance_with_keeper rule 40 w;
     ttls \<leftarrow> obligation_ttls policy_id w;
     must (\<forall>ttl \<in> set ttls. ttl = 20 * DAY_LEDGERS);
     w \<leftarrow> extend_policy policy_id w;
     ttls \<leftarrow> obligation_ttls policy_id w;
     must (\<forall>ttl \<in> set ttls. ttl = PENDING_TARGET_LEDGERS);
     ttls \<leftarrow> policy_ttls policy_id w;
     must (ttls = map (\<lambda>ttl. ttl - 40 * DAY_LEDGERS) before);
     (ob, w) \<leftarrow> on_adapter (w_backend w) (\<lambda>e. mark_settled e (w_backend w) 1 (reference 0x51)) w;
     w \<leftarrow> advance_with_keeper rule 10 w;
     adapter \<leftarrow> adapter_of w;
     settled \<leftarrow> ttls_in w [live_until (sa_obligation adapter) 1];
     w \<leftarrow> extend_policy policy_id w;
     adapter \<leftarrow> adapter_of w;
     ttls \<leftarrow> ttls_in w [live_until (sa_obligation adapter) 1];
     must (ttls = settled)
   }"

definition extend_policy_ttl_keeps_org_and_farmer_entries_alive ::
  "rent_rule \<Rightarrow> 'k signing_lib \<Rightarrow> (nat \<Rightarrow> address) \<Rightarrow> env \<Rightarrow> unit option" where
  "extend_policy_ttl_keeps_org_and_farmer_entries_alive rule lib generate env = do {
     w \<leftarrow> deploy lib generate env;
     let w = set_max_entry_ttl NETWORK_MAX_ENTRY_TTL_LEDGERS w;
     (policy_id, w) \<leftarrow> create_and_activate w;
     w \<leftarrow> submit lib (determination policy_id SUM_INSURED PAYOUT) w;
     (policy, w) \<leftarrow> read_policy policy_id w;
     let until = p_end_date policy + 30 * 86400;
     let need = div_ceil (until - NOW) 5;
     adapter \<leftarrow> adapter_of w;
     ttls \<leftarrow> ttls_in w [live_until (sa_org_count adapter) (w_org w)];
     must (ttls = [SHARED_FLOOR_LEDGERS]);
     w \<leftarrow> advance_with_keeper rule 40 w;
     w \<leftarrow> extend_policy policy_id w;
     ttls \<leftarrow> ttls_in w [live_until (pm_org_outstanding (manager_of w)) (w_org w),
       live_until (pm_farmer_policy_count (manager_of w)) (w_farmer w)];
     must (\<forall>ttl \<in> set ttls. ttl = need - 40 * DAY_LEDGERS);
     adapter \<leftarrow> adapter_of w;
     ttls \<leftarrow> ttls_in w [live_until (sa_org_count adapter) (w_org w)];
     must (ttls = [SHARED_FLOOR_LEDGERS])
   }"

section \<open>User calls extend an instance to ten days at most\<close>

definition young :: "env \<Rightarrow> nat \<Rightarrow> bool" where
  "young e l \<longleftrightarrow> l \<le> sequence e + USER_TARGET_LEDGERS"

definition rent_host :: "env \<Rightarrow> bool" where
  "rent_host e \<longleftrightarrow> documented_extend_ttl e \<and> KEEPER_TARGET_LEDGERS \<le> max_ttl e \<and> young e (fresh_live_until e)"

lemma young_touch: "documented_extend_ttl e \<Longrightarrow> young e l \<Longrightarrow> young e (touch_contract e l)"
  using touch_contract_live(3) [of e l] by (auto simp: young_def)

text \<open>One invocation, whoever signs it, sees the host of the world.\<close>

lemma called_host [simp]:
  "documented_extend_ttl (signed_call e c a) = documented_extend_ttl e" "young (signed_call e c a) = young e"
  "documented_extend_ttl (open_call e c) = documented_extend_ttl e"
  "fresh_live_until (signed_call e c a) = fresh_live_until e" "young (subcall e c) = young e"
  "sequence (signed_call e c a) = sequence e" "sequence (open_call e c) = sequence e"
  by (simp_all add: fun_eq_iff documented_extend_ttl_def signed_call_def open_call_def young_def)

lemma young_new:
  assumes "young e (fresh_live_until e)"
  shows "nft_constructor e a n y = Inr x \<Longrightarrow> young e (nft_instance_live x)"
    and "pm_constructor e a = Inr s \<Longrightarrow> young e (pm_instance_live s)"
    and "sa_constructor e a = Inr ad \<Longrightarrow> young e (sa_instance_live ad)"
    and "pr_constructor e ad' pm a = Inr r \<Longrightarrow> young e (pr_instance_live r)"
  using assms
  by (auto simp: nft_constructor_def pm_constructor_def sa_constructor_def pr_constructor_def bindE_eq_Inr Let_def
      nft_deployed_def pm_deployed_def sa_deployed_def pr_deployed_def)

lemma young_admin:
  assumes "documented_extend_ttl e"
  shows "set_policy_nft e c a s = Inr s' \<Longrightarrow> young e (pm_instance_live s) \<Longrightarrow> young e (pm_instance_live s')"
    and "pm_grant_role e c r a s = Inr s' \<Longrightarrow> young e (pm_instance_live s) \<Longrightarrow> young e (pm_instance_live s')"
    and "set_policy_manager e c a x = Inr x' \<Longrightarrow> young e (nft_instance_live x) \<Longrightarrow> young e (nft_instance_live x')"
    and "nft_grant_role e c r a x = Inr x' \<Longrightarrow> young e (nft_instance_live x) \<Longrightarrow> young e (nft_instance_live x')"
    and "set_payout_receiver e c a ad = Inr ad' \<Longrightarrow> young e (sa_instance_live ad) \<Longrightarrow> young e (sa_instance_live ad')"
    and "sa_grant_role e c r a ad = Inr ad' \<Longrightarrow> young e (sa_instance_live ad) \<Longrightarrow> young e (sa_instance_live ad')"
    and "pr_grant_role e c r a q = Inr q' \<Longrightarrow> young e (pr_instance_live q) \<Longrightarrow> young e (pr_instance_live q')"
    and "set_authorized_signer e c k q = Inr q' \<Longrightarrow> young e (pr_instance_live q) \<Longrightarrow> young e (pr_instance_live q')"
    and "set_network_domain e c d q = Inr q' \<Longrightarrow> young e (pr_instance_live q) \<Longrightarrow> young e (pr_instance_live q')"
    and "set_methodology_enabled e c m b q = Inr q' \<Longrightarrow> young e (pr_instance_live q) \<Longrightarrow> young e (pr_instance_live q')"
  by (auto simp: set_policy_nft_def pm_grant_role_def set_policy_manager_def nft_grant_role_def set_payout_receiver_def
      sa_grant_role_def pr_grant_role_def set_authorized_signer_def set_network_domain_def set_methodology_enabled_def
      bindE_eq_Inr Let_def young_touch [OF assms] pm_bump_instance_def pm_publish_def nft_bump_instance_def nft_publish_def
      sa_touch_def sa_publish_def pr_touch_def pr_publish_def split: if_splits)

lemma pm_live_kept:
  "load_policy e i s = Inr (p, s') \<Longrightarrow> pm_instance_live s' = pm_instance_live s"
  "save_policy e p s = Inr s' \<Longrightarrow> pm_instance_live s' = pm_instance_live s"
  "set_farmer_active_count e a v t s = Inr s' \<Longrightarrow> pm_instance_live s' = pm_instance_live s"
  "set_farmer_pending_count e a v t s = Inr s' \<Longrightarrow> pm_instance_live s' = pm_instance_live s"
  "set_org_outstanding e a z t s = Inr s' \<Longrightarrow> pm_instance_live s' = pm_instance_live s"
  "release_pending_slot e i a t s = Inr s' \<Longrightarrow> pm_instance_live s' = pm_instance_live s"
  by (auto simp: load_policy_def bump_policy_def save_policy_def set_farmer_active_count_def set_farmer_pending_count_def
      set_org_outstanding_def release_pending_slot_def bindE_eq_Inr Let_def split: option.splits policy_status.splits if_splits)

lemma young_sale:
  assumes "documented_extend_ttl e"
  shows "create_policy e c a k lat lon si pr d cov org s = Inr (i, s') \<Longrightarrow> young e (pm_instance_live s) \<Longrightarrow>
      young e (pm_instance_live s')"
    and "mint_policy e c a i ds dn si pr st en cov r k x = Inr (t, x') \<Longrightarrow> young e (nft_instance_live x) \<Longrightarrow>
      young e (nft_instance_live x')"
proof -
  show "young e (pm_instance_live s')"
    if "create_policy e c a k lat lon si pr d cov org s = Inr (i, s')" and "young e (pm_instance_live s)"
    using that young_touch [OF assms]
    unfolding create_policy_def Let_def
    by (auto simp: bindE_eq_Inr Let_def pm_bump_instance_def pm_publish_def dest!: pm_live_kept split: if_splits)
  show "young e (nft_instance_live x')"
    if "mint_policy e c a i ds dn si pr st en cov r k x = Inr (t, x')" and "young e (nft_instance_live x)"
    using that young_touch [OF assms]
    unfolding mint_policy_def Let_def
    by (auto simp: bindE_eq_Inr Let_def nft_bump_instance_def nft_publish_def split: if_splits)
qed

definition all_young :: "'k world \<Rightarrow> bool" where
  "all_young w \<longleftrightarrow> (\<exists>nft adapter. nft_of w = Some nft \<and> adapter_of w = Some adapter \<and>
     young (w_env w) (pm_instance_live (manager_of w)) \<and> young (w_env w) (nft_instance_live nft) \<and>
     young (w_env w) (sa_instance_live adapter) \<and> young (w_env w) (pr_instance_live (sys_pr (w_contracts w))))"

lemma ok_eq [simp]: "ok m = Some x \<longleftrightarrow> m = Inr x"
  by (cases m) (simp_all add: ok_def)

lemma deployed_young:
  assumes dep: "deploy_with lib generate env b = Some w" and host: "rent_host (env\<lparr>timestamp := NOW\<rparr>)"
  shows "all_young w" and "w_env w = env\<lparr>timestamp := NOW\<rparr>"
proof -
  let ?e = "env\<lparr>timestamp := NOW\<rparr>"
  have rule: "documented_extend_ttl (signed_call ?e c a)" and new: "young (signed_call ?e c a) (fresh_live_until (signed_call ?e c a))" for c a
    using host by (simp_all add: rent_host_def)
  note young = young_new [OF new, simplified] young_admin [OF rule, simplified]
  from dep show "w_env w = ?e"
    unfolding deploy_with_def Let_def by (auto simp: bind_eq_Some_conv)
  from dep show "all_young w"
    unfolding deploy_with_def Let_def
    by (auto simp: bind_eq_Some_conv all_young_def nft_of_def adapter_of_def manager_of_def split: if_splits)
      ((rule young, assumption)+)
qed

lemma activate_core_live [simp]: "pm_instance_live (activate_core e c p s) = pm_instance_live s"
  by (simp add: activate_core_def policy_saved_def policy_rented_def slot_released_def Let_def)

lemma young_activation:
  assumes act: "activate_policy e c i d dn r n s = Inr (n', s')" and ok: "pm_ok (pm_view s)"
    and rule: "documented_extend_ttl e" and pm: "young e (pm_instance_live s)" and x: "n a = Some x" "young e (nft_instance_live x)"
  shows "young e (pm_instance_live s')" and "\<exists>x'. n' a = Some x' \<and> young e (nft_instance_live x')"
proof -
  obtain p addr n0 n1 where run: "n addr = Some n0" "n' = n(addr \<mapsto> n1)"
    "mint_for e addr (activated (timestamp e) p) d dn r n0 = Inr (i, n1)"
    "s' = pm_publish (PolicyActivated i (timestamp e)) (pm_bump_instance e (activate_core e c p s))"
    by (rule activate_policy_run [OF ok act]) blast
  show "young e (pm_instance_live s')"
    using pm young_touch [OF rule] by (simp add: run(4) pm_publish_def pm_bump_instance_def)
  have "documented_extend_ttl (subcall e addr)" using rule by simp
  then show "\<exists>x'. n' a = Some x' \<and> young e (nft_instance_live x')"
    using x run(1) young_sale(2) [OF _ run(3) [unfolded mint_for_def]] by (auto simp: run(2))
qed

lemma sold_young:
  assumes sale: "create_and_activate w = Some (i, w')" and all: "all_young w" and rule: "documented_extend_ttl (w_env w)"
    and w: "wired lib pr w"
  shows "all_young w'" and "w_env w' = w_env w"
proof -
  obtain n s where m: "sys_pm (w_contracts w) = (n, s)" by (cases "sys_pm (w_contracts w)")
  let ?e = "signed_call (w_env w) (w_pm w) (w_backend w)"
  from sale obtain s1 n2 s2 where create: "create_policy ?e (w_backend w) (w_farmer w) 7 PLOT_LAT_E6 PLOT_LON_E6
        SUM_INSURED PREMIUM DURATION_DAYS Drought (w_org w) s = Inr (i, s1)"
    and act: "activate_policy ?e (w_backend w) i (w_distributor w) ''Acme Distributor'' ''Rift Valley'' n s1 = Inr (n2, s2)"
    and w': "w' = w\<lparr>w_contracts := (w_contracts w)\<lparr>sys_pm := (n2, s2)\<rparr>\<rparr>"
    unfolding create_and_activate_def Let_def m by (auto simp: bind_eq_Some_conv)
  have ok: "pm_ok (pm_view s1)"
    using wiredD(8) [OF w] pm_ok_step [OF do_create [OF create, of n]] by (simp add: m)
  have rule': "documented_extend_ttl ?e" using rule by simp
  obtain x adapter where all': "n (w_nft w) = Some x" "sys_adapters (w_contracts w) (w_adapter w) = Some adapter"
    "young ?e (pm_instance_live s)" "young ?e (nft_instance_live x)" "young (w_env w) (sa_instance_live adapter)"
    "young (w_env w) (pr_instance_live (sys_pr (w_contracts w)))"
    using all by (auto simp: all_young_def nft_of_def adapter_of_def manager_of_def m)
  note young = young_activation [OF act ok rule' young_sale(1) [OF rule' create all'(3)] all'(1,4)]
  show "all_young w'" using young all' by (auto simp: all_young_def nft_of_def adapter_of_def manager_of_def w')
  show "w_env w' = w_env w" by (simp add: w')
qed

section \<open>The contract keeper\<close>

lemma keeper_target:
  assumes rule: "documented_extend_ttl e" and limit: "KEEPER_TARGET_LEDGERS \<le> max_ttl e" and l: "young e l"
  shows "keep_contract_alive e l = sequence e + KEEPER_TARGET_LEDGERS"
  using documented_extend_ttlD(3) [OF rule rent_targets_ordered(2) min.cobounded2, of l] limit l
  by (simp add: keep_contract_alive_def young_def ttl_constants)

lemma contract_keeper_passes:
  assumes gen: "inj generate" and key: "sk_from lib 0x11 = Some sk" and host: "rent_host (env\<lparr>timestamp := NOW\<rparr>)"
  shows "extend_contract_ttl_reaches_every_contract lib generate env = Some ()"
proof (rule deploys [OF gen key, of env True])
  fix w
  assume w: "deploy_with lib generate env True = Some w" "blank w" "w_env w = env\<lparr>timestamp := NOW\<rparr>"
    "wired lib (if True then Some (w_pr w) else None) w"
  have wired: "wired lib (Some (w_pr w)) w" using w(4) by simp
  have now: "timestamp (w_env w) \<le> 10 ^ 12" by (simp add: w(3) test_constants)
  have rule: "documented_extend_ttl (w_env w)" and limit: "KEEPER_TARGET_LEDGERS \<le> max_ttl (w_env w)"
    using host by (simp_all add: w(3) rent_host_def)
  obtain v where v: "create_and_activate w = Some (1, v)" "w_env v = w_env w" "wired lib (Some (w_pr w)) v"
    using sells [OF wired w(2) now] by blast
  have "all_young v" by (rule sold_young [OF v(1) deployed_young(1) [OF w(1) host] rule wired])
  then obtain nft adapter where young: "nft_of v = Some nft" "adapter_of v = Some adapter"
      "young (w_env w) (pm_instance_live (manager_of v))" "young (w_env w) (nft_instance_live nft)"
      "young (w_env w) (sa_instance_live adapter)" "young (w_env w) (pr_instance_live (sys_pr (w_contracts v)))"
    by (auto simp: all_young_def v(2))
  let ?e = "open_call (w_env v) (w_pr v)" and ?c = "w_contracts v"
  obtain t where "sys_reachable (w_pr v) t ?c" using wiredD(9) [OF v(3)] by blast
  then have inv: "sys_inv (w_pr v) t ?c" by (rule sys_reachable_inv)
  have wires: "pr_settlement_adapter (sys_pr ?c) = Some (w_adapter v)" "pr_policy_manager (sys_pr ?c) = Some (w_pm v)"
    "pm_policy_nft (snd (sys_pm ?c)) = Some (w_nft v)"
    using wiredD(5,7) [OF v(3)] by (simp_all add: receiver_wired_def manager_wired_def)
  have target: "keep_contract_alive ?e l = sequence (w_env w) + KEEPER_TARGET_LEDGERS" if "young (w_env w) l" for l
    using keeper_target [OF rule limit that] by (simp add: v(2) keep_contract_alive_def open_call_def)
  show ?thesis
  proof (rule keep_all [OF inv wires(1) young(2) [unfolded adapter_of_def] wires(2,3), of ?e])
    fix n sys'
    assume keep: "fst (sys_pm ?c) (w_nft v) = Some n" "pr_extend_contract_ttl real_pm real_adapter ?e ?c = Inr sys'"
      "sys' = \<lparr>sys_pr = (sys_pr ?c)\<lparr>pr_instance_live := keep_contract_alive ?e (pr_instance_live (sys_pr ?c))\<rparr>,
        sys_pm = ((fst (sys_pm ?c))(w_nft v \<mapsto> n\<lparr>nft_instance_live := keep_contract_alive ?e (nft_instance_live n)\<rparr>),
          (snd (sys_pm ?c))\<lparr>pm_instance_live := keep_contract_alive ?e (pm_instance_live (snd (sys_pm ?c)))\<rparr>),
        sys_adapters = (sys_adapters ?c)(w_adapter v \<mapsto> adapter\<lparr>sa_instance_live := keep_contract_alive ?e (sa_instance_live adapter)\<rparr>)\<rparr>"
    have n: "n = nft" using young(1) keep(1) by (simp add: nft_of_def)
    have "instance_ttls (v\<lparr>w_contracts := sys'\<rparr>) = Some (replicate 4 KEEPER_TARGET_LEDGERS)"
      using young by (simp add: instance_ttls_def nft_of_def adapter_of_def manager_of_def keep(3) n target [unfolded v(2)] get_ttl_def v(2) numeral_eq_Suc)
    moreover have "\<exists>ttls. instance_ttls v = Some ttls \<and> (\<forall>ttl \<in> set ttls. ttl \<le> USER_TARGET_LEDGERS)"
      using young by (auto simp: instance_ttls_def get_ttl_def v(2) young_def)
    ultimately show ?thesis
      by (auto simp: extend_contract_ttl_reaches_every_contract_def deploy_def w(1) v(1) keep(2) must_def)
  qed
qed

section \<open>Horizons under the host's rule\<close>

text \<open>The documented rule, in full: a life below the threshold is extended to the target, any other stays.\<close>

definition follows :: "rent_rule \<Rightarrow> bool" where
  "follows rule \<longleftrightarrow> (\<forall>s l t n. t \<le> n \<longrightarrow> n \<le> NETWORK_MAX_ENTRY_TTL_LEDGERS \<longrightarrow> rule s l t n = (if l < s + t then s + n else l))"

definition exact_host :: "rent_rule \<Rightarrow> env \<Rightarrow> bool" where
  "exact_host rule e \<longleftrightarrow> follows rule \<and> host_extend_ttl e = rule (sequence e) \<and>
     max_ttl e = NETWORK_MAX_ENTRY_TTL_LEDGERS \<and> young e (fresh_live_until e)"

lemma exact_rule:
  assumes "exact_host rule e" and "t \<le> n" and "n \<le> NETWORK_MAX_ENTRY_TTL_LEDGERS"
  shows "host_extend_ttl e l t n = (if l < sequence e + t then sequence e + n else l)"
proof -
  have "follows rule" and "host_extend_ttl e = rule (sequence e)" using assms(1) by (simp_all add: exact_host_def)
  then show ?thesis using assms(2,3) by (simp add: follows_def)
qed

lemma exact_documented:
  assumes "exact_host rule e"
  shows "documented_extend_ttl e"
  unfolding documented_extend_ttl_def
proof (intro allI impI)
  fix l t n
  assume "t \<le> n" "n \<le> max_ttl e"
  moreover from this have "n \<le> NETWORK_MAX_ENTRY_TTL_LEDGERS" using assms by (simp add: exact_host_def)
  ultimately have "host_extend_ttl e l t n = (if l < sequence e + t then sequence e + n else l)"
    by (intro exact_rule [OF assms])
  with \<open>t \<le> n\<close> show "l \<le> host_extend_ttl e l t n \<and> host_extend_ttl e l t n \<le> max l (sequence e + n) \<and>
      (l < sequence e + t \<longrightarrow> host_extend_ttl e l t n = sequence e + n)"
    by auto
qed

lemma exact_called [simp]:
  "exact_host rule (signed_call e c a) = exact_host rule e" "exact_host rule (open_call e c) = exact_host rule e"
  "exact_host rule (subcall e c) = exact_host rule e"
  by (simp_all add: exact_host_def signed_call_def open_call_def young_def)

lemma live_put [simp]:
  "live_until (put e k v st) k = Some (case live_until st k of None \<Rightarrow> fresh_live_until e | Some l \<Rightarrow> l)"
  "j \<noteq> k \<Longrightarrow> live_until (put e k v st) j = live_until st j"
  by (auto simp: live_until_def put_def split: option.splits)

lemma live_none: "get st k = None \<Longrightarrow> live_until st k = None"
  by (simp add: live_until_def get_def)

lemma live_empty: "get st = Map.empty \<Longrightarrow> live_until st k = None"
  by (simp add: live_none)

lemma live_kept:
  assumes "exact_host rule e"
  shows "live_until (kept e k n st) k = map_option (\<lambda>l. let m = min n NETWORK_MAX_ENTRY_TTL_LEDGERS in
      if m = 0 then l else if l < sequence e + (m - DAY_LEDGERS) then sequence e + m else l) (live_until st k)"
proof -
  define m where "m = min n NETWORK_MAX_ENTRY_TTL_LEDGERS"
  have "host_extend_ttl e l (m - DAY_LEDGERS) m = (if l < sequence e + (m - DAY_LEDGERS) then sequence e + m else l)" for l
    unfolding m_def by (rule exact_rule [OF assms]) (rule diff_le_self, rule min.cobounded2)
  moreover have "max_ttl e = NETWORK_MAX_ENTRY_TTL_LEDGERS" using assms by (simp add: exact_host_def)
  ultimately show ?thesis
    by (cases "st k") (auto simp: kept_def Let_def live_until_def bumped_def simp flip: m_def)
qed

lemma kept_live:
  assumes e: "exact_host rule e" and l: "live_until st k = Some l" and m: "m = min n NETWORK_MAX_ENTRY_TTL_LEDGERS"
  shows "sequence e \<le> l \<Longrightarrow> sequence e + m \<le> l + DAY_LEDGERS \<Longrightarrow> live_until (kept e k n st) k = Some l"
    and "0 < m \<Longrightarrow> l + DAY_LEDGERS < sequence e + m \<Longrightarrow> live_until (kept e k n st) k = Some (sequence e + m)"
    and "sequence e \<le> l \<Longrightarrow> sequence e + m \<le> l + DAY_LEDGERS \<Longrightarrow> live_until (kept_if e k n st) k = Some l"
    and "0 < m \<Longrightarrow> l + DAY_LEDGERS < sequence e + m \<Longrightarrow> live_until (kept_if e k n st) k = Some (sequence e + m)"
proof -
  have live: "live_until (kept e k n st) k = Some (if m = 0 then l else if l < sequence e + (m - DAY_LEDGERS) then sequence e + m else l)"
    using live_kept [OF e, of k n st] l unfolding Let_def m [symmetric] by simp
  have has: "has st k" using l by (auto simp: has_def live_until_def)
  have pos: "0 < DAY_LEDGERS" by (simp add: ttl_constants)
  show stays: "live_until (kept e k n st) k = Some l"
    if "sequence e \<le> l" "sequence e + m \<le> l + DAY_LEDGERS" using live that by auto
  show grows: "live_until (kept e k n st) k = Some (sequence e + m)" if "0 < m" "l + DAY_LEDGERS < sequence e + m"
    using live that pos by auto
  show "live_until (kept_if e k n st) k = Some l" if "sequence e \<le> l" "sequence e + m \<le> l + DAY_LEDGERS"
    using stays [OF that] has by (simp add: kept_if_def)
  show "live_until (kept_if e k n st) k = Some (sequence e + m)" if "0 < m" "l + DAY_LEDGERS < sequence e + m"
    using grows [OF that] has by (simp add: kept_if_def)
qed

lemma new_entry_live:
  assumes e: "exact_host rule e" and new: "live_until st k = None"
    and n: "n \<le> NETWORK_MAX_ENTRY_TTL_LEDGERS" "USER_TARGET_LEDGERS + DAY_LEDGERS < n"
  shows "live_until (kept e k n (put e k v st)) k = Some (sequence e + n)"
proof -
  have "fresh_live_until e + DAY_LEDGERS < sequence e + n" using e n(2) by (auto simp: exact_host_def young_def)
  moreover have "0 < n" and "min n NETWORK_MAX_ENTRY_TTL_LEDGERS = n" using n by simp_all
  ultimately show ?thesis
    using kept_live(2) [OF e, of "put e k v st" k "fresh_live_until e" n n] new by simp
qed

lemma bumped_live:
  assumes e: "exact_host rule e" and l: "live_until st k = Some l"
  shows "live_until (bumped e k (min PENDING_THRESHOLD_LEDGERS (max_ttl e)) (min PENDING_TARGET_LEDGERS (max_ttl e)) st) k =
    Some (if l < sequence e + PENDING_THRESHOLD_LEDGERS then sequence e + PENDING_TARGET_LEDGERS else l)"
  using e l exact_rule [OF e, of PENDING_THRESHOLD_LEDGERS PENDING_TARGET_LEDGERS]
  by (auto simp: exact_host_def live_until_def bumped_def ttl_constants)

section \<open>What a sale stores\<close>

lemma create_stores:
  assumes "create_policy e c a k lat lon si pr d cov org s = Inr (i, s')"
  defines "p \<equiv> new_policy e i a k lat lon si pr d cov org"
  shows "pm_policy s' = kept e i (policy_need e (p_end_date p)) (put e i p (pm_policy s))"
    and "\<exists>n. pm_farmer_policy_count s' = kept e a (shared_need e (Some (p_end_date p))) (put e a n (pm_farmer_policy_count s))"
    and "\<exists>z. pm_org_outstanding s' = kept e org (shared_need e (Some (p_end_date p))) (put e org z (pm_org_outstanding s))"
  using assms(1) unfolding create_policy_def Let_def p_def new_policy_def
  by (auto simp: bindE_eq_Inr Let_def save_policy_eq set_org_outstanding_eq set_farmer_pending_count_eq policy_saved_def
      policy_rented_def policy_need_def pm_bump_instance_def pm_publish_def split: if_splits)

lemma activate_keeps:
  assumes e: "exact_host rule e" and p: "p_status p = Pending" "p_end_date (activated (timestamp e) p) = p_end_date p"
    and alive: "sequence e \<le> L"
  shows "live_until (pm_policy s) (p_id p) = Some L \<Longrightarrow>
      sequence e + min (policy_need e (p_end_date p)) NETWORK_MAX_ENTRY_TTL_LEDGERS \<le> L + DAY_LEDGERS \<Longrightarrow>
      live_until (pm_policy (activate_core e c p s)) (p_id p) = Some L"
    and "live_until (pm_farmer_policy_count s) (p_farmer p) = Some L \<Longrightarrow>
      sequence e + min (shared_need e (Some (p_end_date p))) NETWORK_MAX_ENTRY_TTL_LEDGERS \<le> L + DAY_LEDGERS \<Longrightarrow>
      live_until (pm_farmer_policy_count (activate_core e c p s)) (p_farmer p) = Some L"
    and "live_until (pm_org_outstanding s) (p_org p) = Some L \<Longrightarrow>
      sequence e + min (shared_need e (Some (p_end_date p))) NETWORK_MAX_ENTRY_TTL_LEDGERS \<le> L + DAY_LEDGERS \<Longrightarrow>
      live_until (pm_org_outstanding (activate_core e c p s)) (p_org p) = Some L"
  using p
  by (simp_all add: activate_core_def Let_def policy_saved_def policy_rented_def slot_released_def policy_need_def
      kept_live(1,3) [OF e _ refl] alive)

lemma mint_stores:
  "mint_policy e c a i ds dn si pr st en cov r k x = Inr (t, x') \<Longrightarrow>
     \<exists>cert. nft_certificate x' = kept e t (policy_need e en) (put e t cert (nft_certificate x)) \<and> c_end_date cert = en"
  unfolding mint_policy_def Let_def
  by (auto simp: bindE_eq_Inr Let_def nft_bump_instance_def nft_publish_def policy_need_def split: if_splits)

definition END :: nat where "END = NOW + 150 * 86400"

text \<open>The entries of the first policy at the manager and at the certificate contract live until ledger L.\<close>

definition book_horizon :: "nat \<Rightarrow> 'k world \<Rightarrow> bool" where
  "book_horizon L w \<longleftrightarrow>
     live_until (pm_policy (manager_of w)) 1 = Some L \<and>
     live_until (pm_farmer_policy_count (manager_of w)) (w_farmer w) = Some L \<and>
     live_until (pm_org_outstanding (manager_of w)) (w_org w) = Some L \<and>
     (\<exists>x c. nft_of w = Some x \<and> get (nft_certificate x) 1 = Some c \<and> c_end_date c = END \<and>
        live_until (nft_certificate x) 1 = Some L)"

lemma end_now: "NOW + (END - NOW) = END"
  by (simp add: END_def)

lemma need_now:
  assumes "exact_host rule e" and "timestamp e = NOW"
  shows "policy_need e END = NETWORK_MAX_ENTRY_TTL_LEDGERS" and "shared_need e (Some END) = NETWORK_MAX_ENTRY_TTL_LEDGERS"
  using assms
  by (simp_all add: policy_need_def shared_need_def ledgers_until_def exact_host_def END_def saturating_add_u64_def u64_max_def
      ttl_constants test_constants div_ceil_def Let_def)

lemma sold_horizon:
  assumes sale: "create_and_activate w = Some (1, w')" and w: "wired lib pr w" and new: "blank w"
    and host: "exact_host rule (w_env w)" and now: "timestamp (w_env w) = NOW"
  shows "book_horizon (sequence (w_env w) + NETWORK_MAX_ENTRY_TTL_LEDGERS) w'"
proof -
  obtain n s where m: "sys_pm (w_contracts w) = (n, s)" by (cases "sys_pm (w_contracts w)")
  let ?e = "signed_call (w_env w) (w_pm w) (w_backend w)" and ?L = "sequence (w_env w) + NETWORK_MAX_ENTRY_TTL_LEDGERS"
  let ?p = "new_policy ?e 1 (w_farmer w) 7 PLOT_LAT_E6 PLOT_LON_E6 SUM_INSURED PREMIUM DURATION_DAYS Drought (w_org w)"
  from sale obtain s1 n2 s2 where create: "create_policy ?e (w_backend w) (w_farmer w) 7 PLOT_LAT_E6 PLOT_LON_E6
        SUM_INSURED PREMIUM DURATION_DAYS Drought (w_org w) s = Inr (1, s1)"
    and act: "activate_policy ?e (w_backend w) 1 (w_distributor w) ''Acme Distributor'' ''Rift Valley'' n s1 = Inr (n2, s2)"
    and w': "w' = w\<lparr>w_contracts := (w_contracts w)\<lparr>sys_pm := (n2, s2)\<rparr>\<rparr>"
    unfolding create_and_activate_def Let_def m by (auto simp: bind_eq_Some_conv)
  have e: "exact_host rule ?e" "timestamp ?e = NOW" "sequence ?e = sequence (w_env w)" using host now by simp_all
  have end_date: "p_end_date ?p = END" by (simp add: new_policy_def END_def now DURATION_DAYS_def PM_SECONDS_PER_DAY_def)
  note need = need_now [OF e(1,2)]
  have empty: "live_until (pm_policy s) k = None" "live_until (pm_farmer_policy_count s) a = None"
      "live_until (pm_org_outstanding s) a = None" for k a
    using new by (auto simp: blank_def Let_def m pm_view_def intro!: live_empty)
  have big: "NETWORK_MAX_ENTRY_TTL_LEDGERS \<le> NETWORK_MAX_ENTRY_TTL_LEDGERS"
    "USER_TARGET_LEDGERS + DAY_LEDGERS < NETWORK_MAX_ENTRY_TTL_LEDGERS" by (simp_all add: ttl_constants)
  note new_entry = new_entry_live [OF e(1) _ big, unfolded e(3)]
  have s1: "live_until (pm_policy s1) 1 = Some ?L" "live_until (pm_farmer_policy_count s1) (w_farmer w) = Some ?L"
      "live_until (pm_org_outstanding s1) (w_org w) = Some ?L"
    using create_stores [OF create, unfolded end_date need] new_entry [OF empty(1)] new_entry [OF empty(2)] new_entry [OF empty(3)]
    by metis+
  have ok: "pm_ok (pm_view s1)" using wiredD(8) [OF w] pm_ok_step [OF do_create [OF create, of n]] by (simp add: m)
  have stored: "get (pm_policy s1) 1 = Some ?p" using create_stores(1) [OF create] by simp
  obtain p addr x x' where run: "pm_policy_nft s1 = Some addr" "n addr = Some x" "n2 = n(addr \<mapsto> x')"
      "get (pm_policy s1) 1 = Some p" "p_status p = Pending"
      "mint_for ?e addr (activated NOW p) (w_distributor w) ''Acme Distributor'' ''Rift Valley'' x = Inr (1, x')"
      "s2 = pm_publish (PolicyActivated 1 NOW) (pm_bump_instance ?e (activate_core ?e (w_backend w) p s1))"
    using activate_policy_run [OF ok act] e(2) by metis
  have p: "p = ?p" using run(4) stored by simp
  have pf: "p_id p = 1" "p_farmer p = w_farmer w" "p_org p = w_org w" "p_start_date p = NOW" "p_end_date p = END"
    "p_end_date (activated (timestamp ?e) p) = p_end_date p" "p_end_date (activated NOW p) = END"
    by (simp_all add: p new_policy_def now END_def DURATION_DAYS_def PM_SECONDS_PER_DAY_def)
  note keeps = activate_keeps [OF e(1) run(5) pf(6), of ?L s1 "w_backend w", unfolded pf need e(3)]
  have s2: "live_until (pm_policy s2) 1 = Some ?L" "live_until (pm_farmer_policy_count s2) (w_farmer w) = Some ?L"
      "live_until (pm_org_outstanding s2) (w_org w) = Some ?L"
    using keeps s1 by (simp_all add: run(7) pm_publish_def pm_bump_instance_def)
  have "pm_policy_nft s1 = pm_policy_nft s"
    using create_policy_ok [OF create_policy_needs [OF create], of 7] create by (auto simp: pm_rest_def)
  then have "addr = w_nft w" using wiredD(5) [OF w] run(1) by (simp add: manager_wired_def m)
  with run(2) new have "live_until (nft_certificate x) 1 = None" by (auto simp: blank_def Let_def m intro!: live_empty)
  then have "live_until (nft_certificate x') 1 = Some ?L" "\<exists>c. get (nft_certificate x') 1 = Some c \<and> c_end_date c = END"
    using mint_stores [OF run(6) [unfolded mint_for_def]] new_entry_live [of rule "subcall ?e addr", OF _ _ big] e
    by (auto simp: pf need end_now)
  then show ?thesis
    using s2 \<open>addr = w_nft w\<close> by (simp add: book_horizon_def manager_of_def nft_of_def w' run(3))
qed

section \<open>What a settlement does to the horizons\<close>

lemma claim_keeps:
  assumes e: "exact_host rule e" and p: "p_status p = Active" and alive: "sequence e \<le> L"
  shows "live_until (pm_policy s) (p_id p) = Some L \<Longrightarrow>
      sequence e + min (policy_need e (p_end_date p)) NETWORK_MAX_ENTRY_TTL_LEDGERS \<le> L + DAY_LEDGERS \<Longrightarrow>
      live_until (pm_policy (claim_core e c p (policy_rented e p s))) (p_id p) = Some L"
    and "pm_farmer_policy_count (claim_core e c p (policy_rented e p s)) = pm_farmer_policy_count s"
    and "live_until (pm_org_outstanding s) (p_org p) = Some L \<Longrightarrow>
      sequence e + min (shared_need e (Some (p_end_date p))) NETWORK_MAX_ENTRY_TTL_LEDGERS \<le> L + DAY_LEDGERS \<Longrightarrow>
      live_until (pm_org_outstanding (claim_core e c p (policy_rented e p s))) (p_org p) = Some L"
  using p
  by (simp_all add: claim_core_def Let_def policy_saved_def policy_rented_def active_decremented_def exposure_released_def
      policy_need_def kept_live(1,3) [OF e _ refl] alive)

lemma deactivate_stores:
  "deactivate_policy_nft e i nfts s = Inr (nfts', s') \<Longrightarrow> pm_policy s' = pm_policy s \<and>
     pm_farmer_policy_count s' = pm_farmer_policy_count s \<and> pm_org_outstanding s' = pm_org_outstanding s"
  by (auto simp: deactivate_policy_nft_def pm_publish_def split: option.splits if_splits sum.splits)

lemma increment_stores:
  "increment_claim_count e c a s = Inr s' \<Longrightarrow> pm_policy s' = pm_policy s \<and>
     pm_farmer_policy_count s' = pm_farmer_policy_count s \<and> pm_org_outstanding s' = pm_org_outstanding s"
  by (auto simp: increment_claim_count_def bindE_eq_Inr Let_def pm_publish_def split: if_splits)

lemma status_keeps:
  assumes e: "exact_host rule e" and alive: "sequence e \<le> L" and call: "update_policy_status e c i b x = Inr x'"
    and cert: "get (nft_policy_to_token x) i = Some t" "get (nft_certificate x) t = Some cert"
      "live_until (nft_certificate x) t = Some L"
    and need: "sequence e + min (policy_need e (c_end_date cert)) NETWORK_MAX_ENTRY_TTL_LEDGERS \<le> L + DAY_LEDGERS"
  shows "live_until (nft_certificate x') t = Some L"
    and "\<exists>cert'. get (nft_certificate x') t = Some cert' \<and> c_end_date cert' = c_end_date cert"
  using call cert need
  by (auto simp: update_policy_status_def bindE_eq_Inr Let_def nft_bump_instance_def nft_publish_def policy_need_def
      kept_live(1) [OF e _ refl] alive split: if_splits)

text \<open>The paid flag lives until ledger P, the open obligation and its indexes until ledger Q.\<close>

definition claim_horizon :: "nat \<Rightarrow> nat \<Rightarrow> 'k world \<Rightarrow> bool" where
  "claim_horizon P Q w \<longleftrightarrow>
     live_until (pr_policy_paid (sys_pr (w_contracts w))) 1 = Some P \<and>
     (\<exists>a. adapter_of w = Some a \<and> live_until (sa_obligation a) 1 = Some Q \<and>
        live_until (sa_obligation_of a) (w_pr w, 1) = Some Q \<and> live_until (sa_org_at a) (w_org w, 0) = Some Q \<and>
        live_until (sa_org_count a) (w_org w) = Some Q)"

text \<open>The need of the policy's entries when its claim is settled, in ledgers.\<close>

definition CLAIM_NEED :: nat where "CLAIM_NEED = 1092948"

lemma need_later:
  assumes "exact_host rule e" and "timestamp e = ASSESSED + 60"
  shows "policy_need e END = CLAIM_NEED" and "shared_need e (Some END) = CLAIM_NEED"
  using assms
  by (simp_all add: policy_need_def shared_need_def ledgers_until_def exact_host_def END_def saturating_add_u64_def u64_max_def
      ttl_constants test_constants div_ceil_def Let_def CLAIM_NEED_def)

lemma recorded_live:
  assumes e: "exact_host rule e" and new: "live_until (sa_obligation a) (o_id ob) = None"
      "live_until (sa_obligation_of a) (o_payout_receiver ob, o_policy_id ob) = None"
      "live_until (sa_org_at a) (o_org ob, o_org_index ob) = None" "live_until (sa_org_count a) (o_org ob) = None"
  defines "Q \<equiv> sequence e + PENDING_TARGET_LEDGERS" and "a' \<equiv> sa_recorded e ob a"
  shows "live_until (sa_obligation a') (o_id ob) = Some Q"
    and "live_until (sa_obligation_of a') (o_payout_receiver ob, o_policy_id ob) = Some Q"
    and "live_until (sa_org_at a') (o_org ob, o_org_index ob) = Some Q" and "live_until (sa_org_count a') (o_org ob) = Some Q"
proof -
  have fresh: "fresh_live_until e < sequence e + PENDING_THRESHOLD_LEDGERS"
    using e by (auto simp: exact_host_def young_def ttl_constants)
  have bumped: "live_until (bumped e k (min PENDING_THRESHOLD_LEDGERS (max_ttl e)) (min PENDING_TARGET_LEDGERS (max_ttl e))
      (put e k v st)) k = Some Q" if "live_until st k = None" for k v st
    using bumped_live [OF e, of "put e k v st" k "fresh_live_until e"] that fresh by (simp add: Q_def)
  have kept: "live_until (kept e k (shared_need e None) (put e k v st)) k = Some Q" if "live_until st k = None" for k v st
    using new_entry_live [OF e that, of SHARED_FLOOR_LEDGERS] by (simp add: Q_def shared_need_def ttl_constants)
  show "live_until (sa_obligation a') (o_id ob) = Some Q"
    "live_until (sa_obligation_of a') (o_payout_receiver ob, o_policy_id ob) = Some Q"
    "live_until (sa_org_at a') (o_org ob, o_org_index ob) = Some Q" "live_until (sa_org_count a') (o_org ob) = Some Q"
    using bumped [OF new(1)] bumped [OF new(2)] bumped [OF new(3)] kept [OF new(4)]
    by (simp_all add: a'_def sa_recorded_def sa_rented_def Let_def sa_publish_def)
qed

lemma submitted_horizon:
  assumes w: "wired lib (Some (w_pr w)) w" and ins: "insured p w"
    and p: "p_id p = 1" "p_status p = Active" "p_end_date p = END" "p_farmer p = w_farmer w" "p_org p = w_org w"
    and host: "exact_host rule (w_env w)" and now: "timestamp (w_env w) = ASSESSED + 60"
    and book: "book_horizon L w" and L: "L = sequence (w_env w) + NETWORK_MAX_ENTRY_TTL_LEDGERS"
    and d: "d_on_chain_policy_id d = 1"
    and call: "submit_drought_determination real_pm real_adapter (signed_call (w_env w) (w_pr w) (w_relayer w)) (w_relayer w)
      d sig rid (w_contracts w) = Inr sys'"
  shows "book_horizon L (w\<lparr>w_contracts := sys'\<rparr>)"
    and "claim_horizon (sequence (w_env w) + CLAIM_NEED) (sequence (w_env w) + PENDING_TARGET_LEDGERS) (w\<lparr>w_contracts := sys'\<rparr>)"
proof -
  let ?e = "signed_call (w_env w) (w_pr w) (w_relayer w)" and ?c = "w_contracts w"
  let ?m = "subcall ?e (w_pm w)" and ?a = "subcall ?e (w_adapter w)"
  obtain n s where m: "sys_pm ?c = (n, s)" by (cases "sys_pm ?c")
  have ok: "pm_ok (pm_view s)" using wiredD(8) [OF w] by (simp add: m)
  have pol: "get (pm_policy s) 1 = Some p" using ins by (simp add: insured_def Let_def m)
  have wr: "pr_settlement_adapter (sys_pr ?c) = Some (w_adapter w)" "pr_policy_manager (sys_pr ?c) = Some (w_pm w)"
    "pm_policy_nft s = Some (w_nft w)"
    using wiredD(5,7) [OF w] by (simp_all add: receiver_wired_def manager_wired_def m)
  obtain q w1 w2 h where op: "open_policy real_pm ?e (w_pm w) 1 (sys_pr ?c) (sys_pm ?c) = Inr (q, w1)"
    and can: "pmc_can_farmer_claim real_pm ?m (p_farmer q) w1 = Inr (True, w2)"
    and settle: "settle_verified real_pm real_adapter ?e (w_pm w) (w_adapter w) q (drought_report d) h
      (?c\<lparr>sys_pr := drought_begun ?e (w_relayer w) d (sys_pr ?c), sys_pm := w2\<rparr>) = Inr sys'"
    using call unfolding submit_drought_Inr by (auto simp: wr d)
  have w1: "q = p" "w1 = (n, policy_rented ?m p s)"
    using op pol p(1) by (auto simp: open_policy_Inr m pm_get_policy_def load_policy_eq bindE_eq_Inr)
  then have w2: "w2 = (n, policy_rented ?m p s)" using can by auto
  let ?s1 = "policy_rented ?m p s"
  obtain a ob a' n2 s2 s3 where a: "sys_adapters ?c (w_adapter w) = Some a"
    and rec: "record_obligation ?a (w_pr w) 1 (p_org p) (d_payout_amount d) h a = Inr (ob, a')"
    and mark: "mark_as_claimed ?m (w_pr w) 1 n ?s1 = Inr (n2, s2)"
    and inc: "increment_claim_count ?m (w_pr w) (p_farmer p) s2 = Inr s3"
    and sys': "sys_pm sys' = (n2, s3)" "sys_adapters sys' = (sys_adapters ?c)(w_adapter w \<mapsto> a')"
      "pr_policy_paid (sys_pr sys') = kept ?e 1 (policy_need ?e (p_end_date p)) (put ?e 1 True (pr_policy_paid (sys_pr ?c)))"
    using settle unfolding settle_verified_Inr
    by (auto simp: w1(1) w2 d bindE_eq_Inr settled_state_def Let_def policy_need_def drought_begun_def pr_begun_def pr_touch_def pr_publish_def)
  have e: "exact_host rule ?e" "exact_host rule ?m" "exact_host rule ?a" using host by simp_all
  have seq: "sequence ?m = sequence (w_env w)" "sequence ?a = sequence (w_env w)" by simp_all
  have alive: "sequence ?m \<le> L" by (simp add: L)
  have need: "policy_need ?m END = CLAIM_NEED" "shared_need ?m (Some END) = CLAIM_NEED" "policy_need ?e END = CLAIM_NEED"
    using need_later [of rule ?m] need_later [of rule ?e] e now by simp_all
  have short: "sequence ?m + min CLAIM_NEED NETWORK_MAX_ENTRY_TTL_LEDGERS \<le> L + DAY_LEDGERS"
    by (simp add: L ttl_constants CLAIM_NEED_def)
  \<comment> \<open>the manager\<close>
  note g = claim_guards [OF mark]
  have pol1: "get (pm_policy ?s1) 1 = Some p" using pol by simp
  have ok1: "pm_ok (pm_view ?s1)" using ok by simp
  have c: "closable (pm_view ?s1) p" using open_closable [OF ok1, of 1 p] pol1 p(2) by (simp add: is_open_def)
  have open_date: "timestamp ?m \<le> p_end_date p" using g(3) pol1 by auto
  obtain s4 where de: "deactivate_policy_nft ?m 1 n (claim_core ?m (w_pr w) p ?s1) = Inr (n2, s4)"
    and s2: "pm_policy s2 = pm_policy s4" "pm_farmer_policy_count s2 = pm_farmer_policy_count s4"
      "pm_org_outstanding s2 = pm_org_outstanding s4"
    using mark unfolding mark_as_claimed_eq [OF g(1,2) pol1 p(1,2) open_date c]
    by (auto simp: bindE_eq_Inr pm_publish_def pm_bump_instance_def)
  have "live_until (pm_policy s3) 1 = Some L" "live_until (pm_farmer_policy_count s3) (w_farmer w) = Some L"
      "live_until (pm_org_outstanding s3) (w_org w) = Some L"
    using deactivate_stores [OF de] increment_stores [OF inc] s2 book
      claim_keeps [OF e(2) p(2) alive, where s = s and c = "w_pr w", unfolded p need] short
    by (simp_all add: book_horizon_def manager_of_def m)
  moreover obtain x cert where x: "n = [w_nft w \<mapsto> x]" "nft_policy_manager x = Some (w_pm w)"
      "get (nft_policy_to_token x) 1 = Some 1" "get (nft_certificate x) 1 = Some cert" "c_end_date cert = END"
      "live_until (nft_certificate x) 1 = Some L"
    using wiredD(5) [OF w] ins book
    by (auto simp: manager_wired_def m insured_def Let_def certified_def book_horizon_def nft_of_def)
  moreover obtain x' where x': "n2 = [w_nft w \<mapsto> x']" "update_policy_status (subcall ?m (w_nft w)) (w_pm w) 1 False x = Inr x'"
    using claim_closes_certificate [OF ok1 mark, of "w_nft w" x 1 cert] wr(3) x by auto
  moreover have "live_until (nft_certificate x') 1 = Some L \<and> (\<exists>cert'. get (nft_certificate x') 1 = Some cert' \<and> c_end_date cert' = END)"
    using status_keeps [OF _ _ x'(2) x(3,4,6), of rule] e(2) alive short need x(5) by simp
  ultimately show "book_horizon L (w\<lparr>w_contracts := sys'\<rparr>)"
    by (simp add: book_horizon_def manager_of_def nft_of_def sys'(1))
  \<comment> \<open>the receiver and the adapter\<close>
  have "pr_policy_paid (sys_pr ?c) = Map.empty" using ins by (simp add: insured_def Let_def)
  then have paid: "live_until (pr_policy_paid (sys_pr sys')) 1 = Some (sequence (w_env w) + CLAIM_NEED)"
    using new_entry_live [OF e(1), of "pr_policy_paid (sys_pr ?c)" 1 CLAIM_NEED True]
    by (simp add: sys'(3) p need live_until_def CLAIM_NEED_def ttl_constants)
  have inv: "sa_inv a" using wired_funder(3) [OF w] a by (simp add: adapter_of_def)
  have abook: "get (sa_obligation a) = Map.empty" "get (sa_obligation_of a) = Map.empty" "get (sa_org_count a) = Map.empty"
    "sa_next_obligation_id a = Some 1"
    using ins a by (auto simp: insured_def Let_def adapter_of_def)
  have "get (sa_org_at a) (org, j) = None" for org j
    using sa_invD(6) [OF inv, of org j] abook(3) by (simp add: org_size_def)
  then have none: "live_until (sa_org_at (sa_touch ?a a)) (w_org w, 0) = None" "live_until (sa_obligation (sa_touch ?a a)) 1 = None"
    "live_until (sa_obligation_of (sa_touch ?a a)) (w_pr w, 1) = None" "live_until (sa_org_count (sa_touch ?a a)) (w_org w) = None"
    using abook by (simp_all add: live_none sa_touch_def)
  have ob: "ob = fresh_obligation ?a 1 (w_pr w) 1 (w_org w) (d_payout_amount d) h 0" "a' = sa_recorded ?a ob (sa_touch ?a a)"
    using record_obligation_Inr(2) [OF rec] abook by (auto simp: org_size_def p(5))
  have of: "o_id ob = 1" "o_payout_receiver ob = w_pr w" "o_policy_id ob = 1" "o_org ob = w_org w" "o_org_index ob = 0"
    by (simp_all add: ob(1))
  note rl = recorded_live [OF e(3), of "sa_touch ?a a" ob, unfolded of seq, OF none(2,3,1,4), folded ob(2)]
  show "claim_horizon (sequence (w_env w) + CLAIM_NEED) (sequence (w_env w) + PENDING_TARGET_LEDGERS) (w\<lparr>w_contracts := sys'\<rparr>)"
    using paid rl by (simp add: claim_horizon_def adapter_of_def sys'(2))
qed

end
