(* ===== verification/IntegrationRentPass.thy ===== *)
theory IntegrationRentPass
  imports IntegrationRent
begin

text \<open>
  The integration tests about rent pass: what a step of a keeper does to a wired world in which the first policy is
  claimed, and the two runs, which follow the life of its entries over forty and fifty days.
\<close>

section \<open>Steps of a keeper in a wired world\<close>

text \<open>What the tests rely on after a settlement: the claimed policy, its token and its obligation.\<close>

definition claimed_world :: "policy \<Rightarrow> obligation_status \<Rightarrow> 'k world \<Rightarrow> bool" where
  "claimed_world p st w \<longleftrightarrow>
     get (pm_policy (manager_of w)) 1 = Some p \<and>
     (\<exists>x. nft_of w = Some x \<and> get (nft_policy_to_token x) 1 = Some 1) \<and>
     (\<exists>a ob. adapter_of w = Some a \<and> get (sa_obligation_of a) (w_pr w, 1) = Some 1 \<and> get (sa_obligation a) 1 = Some ob \<and>
        o_id ob = 1 \<and> o_payout_receiver ob = w_pr w \<and> o_policy_id ob = 1 \<and> o_org ob = w_org w \<and> o_org_index ob = 0 \<and>
        o_status ob = st)"

definition claimed_terms :: "policy \<Rightarrow> 'k world \<Rightarrow> bool" where
  "claimed_terms p w \<longleftrightarrow> p_id p = 1 \<and> p_status p = Claimed \<and> p_end_date p = END \<and> p_farmer p = w_farmer w \<and> p_org p = w_org w"

lemma env_moves [simp]:
  "same_actors w (w\<lparr>w_env := e\<rparr>)" "book_horizon L (w\<lparr>w_env := e\<rparr>) = book_horizon L w"
  "claim_horizon P Q (w\<lparr>w_env := e\<rparr>) = claim_horizon P Q w" "claimed_world p st (w\<lparr>w_env := e\<rparr>) = claimed_world p st w"
  "claimed_terms p (w\<lparr>w_env := e\<rparr>) = claimed_terms p w" "claimed_terms p (w\<lparr>w_contracts := c\<rparr>) = claimed_terms p w"
  "blank (w\<lparr>w_env := e\<rparr>) = blank w" "insured q (w\<lparr>w_env := e\<rparr>) = insured q w"
  by (simp_all add: same_actors_def book_horizon_def claim_horizon_def claimed_world_def claimed_terms_def blank_def insured_def
      manager_of_def nft_of_def adapter_of_def)

lemma wired_env:
  assumes "wired lib pr w" and "timestamp (w_env w) \<le> timestamp e"
  shows "wired lib pr (w\<lparr>w_env := e\<rparr>)"
  using assms by (fastforce simp: wired_def actors_def manager_wired_def adapter_wired_def receiver_wired_def)

lemma adapter_wired_single:
  "adapter_wired w pr [w_adapter w \<mapsto> a] \<longleftrightarrow> sa_payout_receiver a = pr \<and>
     (\<forall>r x. holds (sa_roles a) r x \<longleftrightarrow> x = w_admin w \<and> (r = Admin \<or> r = Upgrader) \<or> x = w_backend w \<and> r = Funder)"
  unfolding adapter_wired_def by (auto dest: map_upd_eqD1)

lemma manager_wired_single:
  "manager_wired w ([w_nft w \<mapsto> x], s) \<longleftrightarrow>
     (\<forall>r a. holds (pm_roles s) r a \<longleftrightarrow> a = w_admin w \<and> (r = Admin \<or> r = Upgrader) \<or> a = w_backend w \<and> r = Backend \<or>
        a = w_pr w \<and> r = Oracle) \<and> pm_policy_nft s = Some (w_nft w) \<and> nft_policy_manager x = Some (w_pm w) \<and>
     (\<forall>r a. holds (nft_roles x) r a \<longleftrightarrow> a = w_admin w \<and> r = Admin \<or> a = w_pm w \<and> r = Minter)"
  unfolding manager_wired_def by (auto dest: map_upd_eqD1)

lemma keeper_step:
  assumes w: "wired lib pr w" and now: "timestamp (w_env w) + days * 86400 < u64_max"
  shows "\<exists>c. advance_with_keeper rule days w = Some (w\<lparr>w_env := w_env (set_timestamp (timestamp (w_env w) + days * 86400)
        (set_sequence_number rule (sequence (w_env w) + days * DAY_LEDGERS) w)), w_contracts := c\<rparr>) \<and>
     wired lib pr (w\<lparr>w_contracts := c\<rparr>) \<and> (\<forall>L. book_horizon L (w\<lparr>w_contracts := c\<rparr>) \<longleftrightarrow> book_horizon L w) \<and>
     (\<forall>P Q. claim_horizon P Q (w\<lparr>w_contracts := c\<rparr>) \<longleftrightarrow> claim_horizon P Q w) \<and>
     (\<forall>p st. claimed_world p st (w\<lparr>w_contracts := c\<rparr>) \<longleftrightarrow> claimed_world p st w)"
proof -
  let ?e = "open_call (w_env w) (w_pr w)" and ?c = "w_contracts w"
  obtain t where "sys_reachable (w_pr w) t ?c" using wiredD(9) [OF w] by blast
  then have inv: "sys_inv (w_pr w) t ?c" by (rule sys_reachable_inv)
  have wires: "pr_settlement_adapter (sys_pr ?c) = Some (w_adapter w)" "pr_policy_manager (sys_pr ?c) = Some (w_pm w)"
    "pm_policy_nft (snd (sys_pm ?c)) = Some (w_nft w)"
    using wiredD(5,7) [OF w] by (simp_all add: receiver_wired_def manager_wired_def)
  obtain a where a: "sys_adapters ?c = [w_adapter w \<mapsto> a]" using wiredD(6) [OF w] by (auto simp: adapter_wired_def)
  then have at: "sys_adapters ?c (w_adapter w) = Some a" by simp
  obtain x s where m: "sys_pm ?c = ([w_nft w \<mapsto> x], s)"
    using wiredD(5) [OF w] by (cases "sys_pm ?c") (auto simp: manager_wired_def)
  show ?thesis
  proof (rule keep_all [OF inv wires(1) at wires(2,3), of ?e])
    fix n sys'
    assume n: "fst (sys_pm ?c) (w_nft w) = Some n" and call: "pr_extend_contract_ttl real_pm real_adapter ?e ?c = Inr sys'"
      and sys': "sys' = \<lparr>sys_pr = (sys_pr ?c)\<lparr>pr_instance_live := keep_contract_alive ?e (pr_instance_live (sys_pr ?c))\<rparr>,
        sys_pm = ((fst (sys_pm ?c))(w_nft w \<mapsto> n\<lparr>nft_instance_live := keep_contract_alive ?e (nft_instance_live n)\<rparr>),
          (snd (sys_pm ?c))\<lparr>pm_instance_live := keep_contract_alive ?e (pm_instance_live (snd (sys_pm ?c)))\<rparr>),
        sys_adapters = (sys_adapters ?c)(w_adapter w \<mapsto> a\<lparr>sa_instance_live := keep_contract_alive ?e (sa_instance_live a)\<rparr>)\<rparr>"
    have "manager_wired w (sys_pm sys')" "adapter_wired w pr (sys_adapters sys')" "receiver_wired lib w (sys_pr sys')"
      using wiredD(5,6,7) [OF w] n
      by (simp_all add: sys' m a manager_wired_single adapter_wired_single receiver_wired_def is_methodology_enabled_def methodology_enabled_def)
    then have "wired lib pr (w\<lparr>w_contracts := sys'\<rparr>)" using wired_receiver [OF w pr_keeps [OF call]] now by simp
    moreover have "advance_with_keeper rule days w = Some (w\<lparr>w_env := w_env (set_timestamp (timestamp (w_env w) + days * 86400)
        (set_sequence_number rule (sequence (w_env w) + days * DAY_LEDGERS) w)), w_contracts := sys'\<rparr>)"
      by (simp add: advance_with_keeper_def call Let_def set_sequence_number_def set_timestamp_def)
    moreover have "book_horizon L (w\<lparr>w_contracts := sys'\<rparr>) \<longleftrightarrow> book_horizon L w"
      "claim_horizon P Q (w\<lparr>w_contracts := sys'\<rparr>) \<longleftrightarrow> claim_horizon P Q w"
      "claimed_world p st (w\<lparr>w_contracts := sys'\<rparr>) \<longleftrightarrow> claimed_world p st w" for L P Q p st
      using n at by (simp_all add: sys' book_horizon_def claim_horizon_def claimed_world_def manager_of_def nft_of_def adapter_of_def)
    ultimately show ?thesis by blast
  qed
qed

text \<open>The adapter after the rent call for policy 1: an open obligation is extended, a settled one is left.\<close>

definition adapter_after :: "env \<Rightarrow> obligation \<Rightarrow> sa_state \<Rightarrow> sa_state" where
  "adapter_after e ob a = (if o_status ob = Settled then sa_touch e a else sa_rented e ob (sa_touch e a))"

lemma extend_obligation_after:
  assumes "sa_inv a" and "get (sa_obligation a) i = Some ob"
  shows "extend_obligation_ttl e i a = Inr (adapter_after e ob a)"
proof -
  have "extend_entries e ob (sa_touch e a) = Inr (sa_rented e ob (sa_touch e a))"
    by (rule extend_entries_stored [OF assms]) simp_all
  then show ?thesis using assms(2) by (simp add: extend_obligation_ttl_def adapter_after_def Let_def)
qed

lemma adapter_after_simps [simp]:
  "get (sa_obligation (adapter_after e ob a)) = get (sa_obligation a)"
  "get (sa_obligation_of (adapter_after e ob a)) = get (sa_obligation_of a)"
  "sa_roles (adapter_after e ob a) = sa_roles a" "sa_payout_receiver (adapter_after e ob a) = sa_payout_receiver a"
  by (simp_all add: adapter_after_def)

text \<open>The rent call for policy 1 in a wired world.\<close>

lemma rent_step:
  assumes w: "wired lib pr w" and c: "claimed_world p st w" "claimed_terms p w" and now: "timestamp (w_env w) < u64_max"
  obtains x s a ob where "w_contracts w = \<lparr>sys_pr = sys_pr (w_contracts w), sys_pm = ([w_nft w \<mapsto> x], s), sys_adapters = [w_adapter w \<mapsto> a]\<rparr>"
    and "get (nft_policy_to_token x) 1 = Some 1" and "get (sa_obligation a) 1 = Some ob" and "o_status ob = st"
    and "o_id ob = 1 \<and> o_payout_receiver ob = w_pr w \<and> o_policy_id ob = 1 \<and> o_org ob = w_org w \<and> o_org_index ob = 0"
    and "let e = open_call (w_env w) (w_pr w); m = subcall e (w_pm w); n = policy_need e END;
        c' = \<lparr>sys_pr = (pr_touch e (sys_pr (w_contracts w)))
             \<lparr>pr_policy_paid := kept_if e 1 n (pr_policy_paid (sys_pr (w_contracts w))),
              pr_report := kept_if e 1 n (pr_report (sys_pr (w_contracts w)))\<rparr>,
           sys_pm = ([w_nft w \<mapsto> nft_rented (subcall m (w_nft w)) 1 x], pm_rented m p s),
           sys_adapters = [w_adapter w \<mapsto> adapter_after (subcall e (w_adapter w)) ob a]\<rparr>
      in extend_policy 1 w = Some (w\<lparr>w_contracts := c'\<rparr>) \<and> wired lib pr (w\<lparr>w_contracts := c'\<rparr>) \<and>
         claimed_world p st (w\<lparr>w_contracts := c'\<rparr>)"
proof -
  let ?e = "open_call (w_env w) (w_pr w)" and ?c = "w_contracts w"
  let ?m = "subcall ?e (w_pm w)"
  obtain x s where m: "sys_pm ?c = ([w_nft w \<mapsto> x], s)"
    using wiredD(5) [OF w] by (cases "sys_pm ?c") (auto simp: manager_wired_def)
  obtain a where a: "sys_adapters ?c = [w_adapter w \<mapsto> a]" using wiredD(6) [OF w] by (auto simp: adapter_wired_def)
  have x: "get (nft_policy_to_token x) 1 = Some 1" and p: "get (pm_policy s) 1 = Some p"
    using c(1) by (simp_all add: claimed_world_def nft_of_def manager_of_def m)
  obtain ob where ob: "get (sa_obligation a) 1 = Some ob" "o_status ob = st" "get (sa_obligation_of a) (w_pr w, 1) = Some 1"
      "o_id ob = 1 \<and> o_payout_receiver ob = w_pr w \<and> o_policy_id ob = 1 \<and> o_org ob = w_org w \<and> o_org_index ob = 0"
    using c(1) by (auto simp: claimed_world_def adapter_of_def a)
  have inv: "sa_inv a" using wired_funder(3) [OF w, of a] by (simp add: adapter_of_def a)
  have t: "p_id p = 1" "p_status p = Claimed" "p_end_date p = END" using c(2) by (simp_all add: claimed_terms_def)
  have wires: "pr_settlement_adapter (sys_pr ?c) = Some (w_adapter w)" "pr_policy_manager (sys_pr ?c) = Some (w_pm w)"
    "pm_policy_nft s = Some (w_nft w)"
    using wiredD(5,7) [OF w] by (simp_all add: receiver_wired_def manager_wired_def m)
  let ?c' = "\<lparr>sys_pr = (pr_touch ?e (sys_pr ?c))\<lparr>pr_policy_paid := kept_if ?e 1 (policy_need ?e END) (pr_policy_paid (sys_pr ?c)),
              pr_report := kept_if ?e 1 (policy_need ?e END) (pr_report (sys_pr ?c))\<rparr>,
           sys_pm = ([w_nft w \<mapsto> nft_rented (subcall ?m (w_nft w)) 1 x], pm_rented ?m p s),
           sys_adapters = [w_adapter w \<mapsto> adapter_after (subcall ?e (w_adapter w)) ob a]\<rparr>"
  have "adapters_rented ?e (w_adapter w) 1 [w_adapter w \<mapsto> a] = [w_adapter w \<mapsto> adapter_after (subcall ?e (w_adapter w)) ob a]"
    using adapters_rented_eq(2) [of "[w_adapter w \<mapsto> a]" "w_adapter w" a ?e 1 1] extend_obligation_after [OF inv ob(1)] ob(3)
    by (simp add: find_obligation_def open_call_def)
  then have "system_rented ?e (w_adapter w) (w_pm w) p ?c = ?c'"
    by (simp add: system_rented_def certificates_rented_def Let_def m a t wires(3) policy_rented_def)
  then have call: "pr_extend_policy_ttl real_pm real_adapter ?e 1 ?c = Inr ?c'"
    using rent_all [of ?c 1 p "w_adapter w" "w_pm w" ?e] p t(1) wires(1,2) by (simp add: m)
  have "manager_wired w (sys_pm ?c')" "adapter_wired w pr (sys_adapters ?c')" "receiver_wired lib w (sys_pr ?c')"
    using wiredD(5,6,7) [OF w] pm_rented_view(2) [of ?m p s]
    by (simp_all add: m a manager_wired_single adapter_wired_single receiver_wired_def is_methodology_enabled_def
        methodology_enabled_def pm_rest_def pr_touch_def)
  then have wired: "wired lib pr (w\<lparr>w_contracts := ?c'\<rparr>)" using wired_receiver [OF w pr_rents [OF call]] now by simp
  have "get (pm_policy (pm_rented ?m p s)) = get (pm_policy s)" using arg_cong [OF pm_rented_view(1) [of ?m p s], of v_policy] by simp
  then have "claimed_world p st (w\<lparr>w_contracts := ?c'\<rparr>)"
    using p x ob by (simp add: claimed_world_def manager_of_def nft_of_def adapter_of_def)
  moreover have "extend_policy 1 w = Some (w\<lparr>w_contracts := ?c'\<rparr>)" by (simp add: extend_policy_def call del: One_nat_def)
  moreover have "?c = \<lparr>sys_pr = sys_pr ?c, sys_pm = ([w_nft w \<mapsto> x], s), sys_adapters = [w_adapter w \<mapsto> a]\<rparr>" using m a by simp
  ultimately show thesis using that [OF _ x ob(1,2,4)] wired by (simp only: Let_def)
qed

lemma pm_rented_keeps:
  assumes e: "exact_host rule e" and p: "p_status p = Claimed" "p_id p = i" and alive: "sequence e \<le> L"
  shows "live_until (pm_policy s) i = Some L \<Longrightarrow>
      sequence e + min (policy_need e (p_end_date p)) NETWORK_MAX_ENTRY_TTL_LEDGERS \<le> L + DAY_LEDGERS \<Longrightarrow>
      live_until (pm_policy (pm_rented e p s)) i = Some L"
    and "live_until (pm_farmer_policy_count s) (p_farmer p) = Some L \<Longrightarrow>
      sequence e + min (shared_need e (Some (p_end_date p))) NETWORK_MAX_ENTRY_TTL_LEDGERS \<le> L + DAY_LEDGERS \<Longrightarrow>
      live_until (pm_farmer_policy_count (pm_rented e p s)) (p_farmer p) = Some L"
    and "live_until (pm_org_outstanding s) (p_org p) = Some L \<Longrightarrow>
      sequence e + min (shared_need e (Some (p_end_date p))) NETWORK_MAX_ENTRY_TTL_LEDGERS \<le> L + DAY_LEDGERS \<Longrightarrow>
      live_until (pm_org_outstanding (pm_rented e p s)) (p_org p) = Some L"
  using p
  by (simp_all add: pm_rented_def Let_def policy_rented_def policy_need_def pm_bump_instance_def kept_live(1,3) [OF e _ refl] alive)

lemma nft_rented_keeps:
  assumes e: "exact_host rule e" and alive: "sequence e \<le> L"
    and x: "get (nft_policy_to_token x) i = Some t" "get (nft_certificate x) t = Some c" "live_until (nft_certificate x) t = Some L"
    and need: "sequence e + min (policy_need e (c_end_date c)) NETWORK_MAX_ENTRY_TTL_LEDGERS \<le> L + DAY_LEDGERS"
  shows "live_until (nft_certificate (nft_rented e i x)) t = Some L"
  using x need
  by (simp add: nft_rented_def nft_bump_instance_def Let_def policy_need_def kept_live(1) [OF e _ refl] alive)

lemma adapter_after_live:
  assumes e: "exact_host rule e" and open_ob: "o_status ob \<noteq> Settled"
    and Q: "Q + DAY_LEDGERS < sequence e + PENDING_TARGET_LEDGERS" "Q < sequence e + PENDING_THRESHOLD_LEDGERS"
    and a: "live_until (sa_obligation a) (o_id ob) = Some Q"
      "live_until (sa_obligation_of a) (o_payout_receiver ob, o_policy_id ob) = Some Q"
      "live_until (sa_org_at a) (o_org ob, o_org_index ob) = Some Q" "live_until (sa_org_count a) (o_org ob) = Some Q"
  defines "a' \<equiv> adapter_after e ob a" and "R \<equiv> sequence e + PENDING_TARGET_LEDGERS"
  shows "live_until (sa_obligation a') (o_id ob) = Some R"
    and "live_until (sa_obligation_of a') (o_payout_receiver ob, o_policy_id ob) = Some R"
    and "live_until (sa_org_at a') (o_org ob, o_org_index ob) = Some R" and "live_until (sa_org_count a') (o_org ob) = Some R"
proof -
  have floor: "min SHARED_FLOOR_LEDGERS NETWORK_MAX_ENTRY_TTL_LEDGERS = PENDING_TARGET_LEDGERS" "shared_need e None = SHARED_FLOOR_LEDGERS"
    "0 < PENDING_TARGET_LEDGERS"
    by (simp_all add: ttl_constants shared_need_def)
  show "live_until (sa_org_count a') (o_org ob) = Some R"
    using kept_live(2) [OF e a(4) floor(1) [symmetric] floor(3) Q(1)] open_ob
    by (simp add: a'_def R_def adapter_after_def sa_rented_def Let_def floor(2))
  show "live_until (sa_obligation a') (o_id ob) = Some R" "live_until (sa_obligation_of a') (o_payout_receiver ob, o_policy_id ob) = Some R"
    "live_until (sa_org_at a') (o_org ob, o_org_index ob) = Some R"
    using bumped_live [OF e a(1)] bumped_live [OF e a(2)] bumped_live [OF e a(3)] open_ob Q(2)
    by (simp_all add: a'_def R_def adapter_after_def sa_rented_def Let_def)
qed

lemma open_call_needs [simp]:
  "ledgers_until (open_call e c) = ledgers_until e" "policy_need (open_call e c) = policy_need e"
  "shared_need (open_call e c) = shared_need e"
proof -
  show until: "ledgers_until (open_call e c) = ledgers_until e" by (simp add: fun_eq_iff ledgers_until_def open_call_def Let_def)
  show "policy_need (open_call e c) = policy_need e" "shared_need (open_call e c) = shared_need e"
    by (intro ext; simp add: policy_need_def shared_need_def until split: option.split)+
qed

lemma rent_horizon:
  assumes w: "wired lib pr w" and c: "claimed_world p st w" "claimed_terms p w" and now: "timestamp (w_env w) < u64_max"
    and host: "exact_host rule (w_env w)" and live: "book_horizon L w" "claim_horizon P Q w"
    and alive: "sequence (w_env w) \<le> L" "sequence (w_env w) \<le> P"
    and need: "sequence (w_env w) + min (policy_need (w_env w) END) NETWORK_MAX_ENTRY_TTL_LEDGERS \<le> L + DAY_LEDGERS"
      "sequence (w_env w) + min (shared_need (w_env w) (Some END)) NETWORK_MAX_ENTRY_TTL_LEDGERS \<le> L + DAY_LEDGERS"
      "sequence (w_env w) + min (policy_need (w_env w) END) NETWORK_MAX_ENTRY_TTL_LEDGERS \<le> P + DAY_LEDGERS"
    and open_ob: "st \<noteq> Settled" and Q: "Q + DAY_LEDGERS < sequence (w_env w) + PENDING_THRESHOLD_LEDGERS"
  shows "\<exists>c'. extend_policy 1 w = Some (w\<lparr>w_contracts := c'\<rparr>) \<and> wired lib pr (w\<lparr>w_contracts := c'\<rparr>) \<and>
     claimed_world p st (w\<lparr>w_contracts := c'\<rparr>) \<and> book_horizon L (w\<lparr>w_contracts := c'\<rparr>) \<and>
     claim_horizon P (sequence (w_env w) + PENDING_TARGET_LEDGERS) (w\<lparr>w_contracts := c'\<rparr>)"
proof (rule rent_step [OF w c now])
  fix x s a ob
  let ?e = "open_call (w_env w) (w_pr w)" and ?pr = "sys_pr (w_contracts w)"
  let ?m = "subcall ?e (w_pm w)"
  let ?c' = "\<lparr>sys_pr = (pr_touch ?e ?pr)\<lparr>pr_policy_paid := kept_if ?e 1 (policy_need ?e END) (pr_policy_paid ?pr),
              pr_report := kept_if ?e 1 (policy_need ?e END) (pr_report ?pr)\<rparr>,
           sys_pm = ([w_nft w \<mapsto> nft_rented (subcall ?m (w_nft w)) 1 x], pm_rented ?m p s),
           sys_adapters = [w_adapter w \<mapsto> adapter_after (subcall ?e (w_adapter w)) ob a]\<rparr>"
  assume sys: "w_contracts w = \<lparr>sys_pr = ?pr, sys_pm = ([w_nft w \<mapsto> x], s), sys_adapters = [w_adapter w \<mapsto> a]\<rparr>"
    and x: "get (nft_policy_to_token x) 1 = Some 1" and ob: "get (sa_obligation a) 1 = Some ob" "o_status ob = st"
      "o_id ob = 1 \<and> o_payout_receiver ob = w_pr w \<and> o_policy_id ob = 1 \<and> o_org ob = w_org w \<and> o_org_index ob = 0"
    and run: "let e = ?e; m = subcall e (w_pm w); n = policy_need e END;
        c' = \<lparr>sys_pr = (pr_touch e ?pr)\<lparr>pr_policy_paid := kept_if e 1 n (pr_policy_paid ?pr), pr_report := kept_if e 1 n (pr_report ?pr)\<rparr>,
           sys_pm = ([w_nft w \<mapsto> nft_rented (subcall m (w_nft w)) 1 x], pm_rented m p s),
           sys_adapters = [w_adapter w \<mapsto> adapter_after (subcall e (w_adapter w)) ob a]\<rparr>
      in extend_policy 1 w = Some (w\<lparr>w_contracts := c'\<rparr>) \<and> wired lib pr (w\<lparr>w_contracts := c'\<rparr>) \<and>
         claimed_world p st (w\<lparr>w_contracts := c'\<rparr>)"
  have sel: "sys_pm (w_contracts w) = ([w_nft w \<mapsto> x], s)" "sys_adapters (w_contracts w) = [w_adapter w \<mapsto> a]" by (subst sys, simp)+
  have e: "exact_host rule ?m" "exact_host rule (subcall ?m (w_nft w))" "exact_host rule ?e" "exact_host rule (subcall ?e (w_adapter w))"
    using host by simp_all
  have t: "p_id p = 1" "p_status p = Claimed" "p_end_date p = END" "p_farmer p = w_farmer w" "p_org p = w_org w"
    using c(2) by (simp_all add: claimed_terms_def)
  obtain cert where cert: "get (nft_certificate x) 1 = Some cert" "c_end_date cert = END" "live_until (nft_certificate x) 1 = Some L"
    using live(1) by (auto simp: book_horizon_def nft_of_def sel)
  have cert': "live_until (nft_certificate (nft_rented (subcall ?m (w_nft w)) 1 x)) 1 = Some L"
    by (rule nft_rented_keeps [OF e(2) _ x cert(1,3)]) (use need(1) alive cert(2) in simp_all)
  have "book_horizon L (w\<lparr>w_contracts := ?c'\<rparr>)"
    using live(1) cert cert' need alive pm_rented_keeps [OF e(1) t(2,1), of L s, unfolded t]
    by (simp add: book_horizon_def manager_of_def nft_of_def sel)
  moreover have "claim_horizon P (sequence (w_env w) + PENDING_TARGET_LEDGERS) (w\<lparr>w_contracts := ?c'\<rparr>)"
  proof -
    have "Q + DAY_LEDGERS < sequence (subcall ?e (w_adapter w)) + PENDING_TARGET_LEDGERS"
      "Q < sequence (subcall ?e (w_adapter w)) + PENDING_THRESHOLD_LEDGERS"
      using Q by (simp_all add: ttl_constants)
    from adapter_after_live [OF e(4) _ this, of ob a] live(2) ob open_ob kept_live(3) [OF e(3) _ refl, of "pr_policy_paid ?pr" 1 P "policy_need ?e END"]
      need(3) alive(2)
    show ?thesis by (simp add: claim_horizon_def adapter_of_def sel)
  qed
  ultimately show ?thesis using run by (intro exI [of _ ?c']) (simp only: Let_def)
qed

section \<open>The runs\<close>

lemma settled_claimed:
  assumes "settled q d h now w" and q: "p_id q = 1" "p_org q = w_org w"
  shows "claimed_world (q\<lparr>p_status := Claimed\<rparr>) Owed w"
  using assms
  by (auto simp: settled_def Let_def claimed_world_def manager_of_def nft_of_def certified_def simp del: One_nat_def)

lemma assessment_env: "at_assessment w = w\<lparr>w_env := w_env (at_assessment w)\<rparr>"
  by (simp add: at_assessment_def set_timestamp_def)

text \<open>Deploy, raise the network's limit, sell and settle: the world both tests start from.\<close>

lemma settles_with_rent:
  assumes gen: "inj generate" and key: "sk_from lib 0x11 = Some sk" and sign: "signs lib env sk"
    and rule: "follows rule" "host_extend_ttl env = rule (sequence env)" "young env (fresh_live_until env)"
  defines "L \<equiv> sequence env + NETWORK_MAX_ENTRY_TTL_LEDGERS"
  obtains w1 w2 w3 p where "deploy lib generate env = Some w1"
    and "create_and_activate (set_max_entry_ttl NETWORK_MAX_ENTRY_TTL_LEDGERS w1) = Some (1, w2)"
    and "submit lib (determination 1 SUM_INSURED PAYOUT) w2 = Some w3"
    and "wired lib (Some (w_pr w3)) w3" and "claimed_world p Owed w3" and "claimed_terms p w3" and "exact_host rule (w_env w3)"
    and "timestamp (w_env w3) = ASSESSED + 60" and "sequence (w_env w3) = sequence env"
    and "book_horizon L w3" and "claim_horizon (sequence env + CLAIM_NEED) (sequence env + PENDING_TARGET_LEDGERS) w3"
proof (rule deploys [OF gen key, of env True])
  fix w1
  assume w1: "deploy_with lib generate env True = Some w1" "blank w1" "w_env w1 = env\<lparr>timestamp := NOW\<rparr>" "w_sk w1 = sk"
    "wired lib (if True then Some (w_pr w1) else None) w1"
  let ?d = "determination 1 SUM_INSURED PAYOUT" and ?w = "set_max_entry_ttl NETWORK_MAX_ENTRY_TTL_LEDGERS w1"
  have w: "wired lib (Some (w_pr ?w)) ?w" "blank ?w" "timestamp (w_env ?w) = NOW" "sequence (w_env ?w) = sequence env"
    using w1(2,5) wired_env [of lib "Some (w_pr w1)" w1] by (simp_all add: set_max_entry_ttl_def w1(3))
  have host: "exact_host rule (w_env ?w)"
    using rule by (simp add: exact_host_def set_max_entry_ttl_def w1(3) young_def)
  have "timestamp (w_env ?w) \<le> 10 ^ 12" unfolding w(3) by (simp add: test_constants)
  from sells [OF w(1,2) this] obtain w2 where w2: "create_and_activate ?w = Some (1, w2)" "same_actors ?w w2" "w_env w2 = w_env ?w"
      "wired lib (Some (w_pr ?w)) w2" "insured (first_policy w2 PLOT_LAT_E6 PLOT_LON_E6 NOW) w2"
    unfolding w(3) by blast
  let ?p = "first_policy w2 PLOT_LAT_E6 PLOT_LON_E6 NOW"
  have book: "book_horizon L w2" using sold_horizon [OF w2(1) w(1,2) host w(3)] by (simp add: w(4) L_def)
  note a2 = same_actorsD [OF w2(2)]
  have w2': "wired lib (Some (w_pr w2)) w2" using w2(4) a2 by simp
  have pf: "p_id ?p = 1" "p_status ?p = Active" "p_end_date ?p = END" "p_farmer ?p = w_farmer w2" "p_org ?p = w_org w2"
    by (simp_all add: first_policy_def END_def)
  have now: "timestamp (w_env w2) \<le> ASSESSED + 60" by (simp add: w2(3) w(3) test_constants)
  have sk: "w_sk w2 = sk" "secp256k1_recover (w_env w2) = secp256k1_recover env"
    using w1(4) by (simp_all add: a2 w2(3) set_max_entry_ttl_def w1(3))
  have d: "d_on_chain_policy_id ?d = 1" by (simp add: determination_def)
  have sig: "signs lib (w_env w2) (w_sk w2)" using sign by (simp add: signs_def sk)
  obtain w3 where w3: "submit lib ?d w2 = Some w3" "same_actors w2 w3" "w_env w3 = (w_env w2)\<lparr>timestamp := ASSESSED + 60\<rparr>"
      "wired lib (Some (w_pr w3)) w3"
      "settled ?p ?d (drought_determination_digest (w_env w2) ?d (w_pr w2) (w_domain w2)) (ASSESSED + 60) w3"
    by (rule settles [OF w2' w2(5) now sig])
  have env: "w_env (at_assessment w2) = w_env w3" using now by (auto simp: at_assessment_def w3(3))
  obtain sys' sg rid where run: "submit_drought_determination real_pm real_adapter (signed_call (w_env (at_assessment w2)) (w_pr w2)
      (w_relayer w2)) (w_relayer w2) ?d sg rid (w_contracts w2) = Inr sys'" and w3': "w3 = (at_assessment w2)\<lparr>w_contracts := sys'\<rparr>"
    using w3(1) by (auto simp: submit_def Let_def bind_eq_Some_conv same_actorsD [OF same_actors_moves(3)])
  note call = run [unfolded env]
  define E where "E = (w_env w2)\<lparr>timestamp := ASSESSED + 60\<rparr>"
  let ?v = "w2\<lparr>w_env := E\<rparr>"
  have E: "w_env w3 = E" by (simp only: w3(3) E_def)
  have w3v: "w3 = ?v\<lparr>w_contracts := sys'\<rparr>" using assessment_env [of w2, unfolded env E] by (simp only: w3')
  have hostE: "exact_host rule E" and seq: "sequence E = sequence env" and t: "timestamp E = ASSESSED + 60"
    using host by (simp_all add: E_def w2(3) w(4) exact_host_def young_def)
  have wv: "wired lib (Some (w_pr ?v)) ?v" using wired_env [OF w2', of E] now t by simp
  have "insured ?p ?v" "book_horizon L ?v" "L = sequence E + NETWORK_MAX_ENTRY_TTL_LEDGERS"
    using w2(5) book seq by (simp_all add: L_def)
  then have after: "book_horizon L (?v\<lparr>w_contracts := sys'\<rparr>)"
    "claim_horizon (sequence E + CLAIM_NEED) (sequence E + PENDING_TARGET_LEDGERS) (?v\<lparr>w_contracts := sys'\<rparr>)"
    using submitted_horizon [OF wv, of ?p rule L ?d sg rid sys'] pf hostE call t d by (simp_all add: E)
  then have "book_horizon L w3" "claim_horizon (sequence env + CLAIM_NEED) (sequence env + PENDING_TARGET_LEDGERS) w3"
    unfolding w3v seq .
  moreover have "claimed_world (?p\<lparr>p_status := Claimed\<rparr>) Owed w3"
    using settled_claimed [OF w3(5)] pf same_actorsD [OF w3(2)] by simp
  moreover have "claimed_terms (?p\<lparr>p_status := Claimed\<rparr>) w3"
    using pf by (simp add: claimed_terms_def same_actorsD [OF w3(2)])
  ultimately show thesis
    using that [OF _ w2(1) w3(1,4)] w1(1) hostE seq t by (simp add: deploy_def E)
qed

text \<open>Reading a claimed policy pays no rent.\<close>

lemma reads_claimed:
  assumes "claimed_world p st w" and "claimed_terms p w"
  shows "read_policy 1 w = Some (p, w)"
proof -
  obtain n s where m: "sys_pm (w_contracts w) = (n, s)" by (cases "sys_pm (w_contracts w)")
  have "pm_get_policy (open_call (w_env w) (w_pm w)) 1 s = Inr (p, s)"
    using assms load_policy_eq [of s 1 p]
    by (simp add: claimed_world_def claimed_terms_def manager_of_def m pm_get_policy_def policy_rented_def)
  moreover have "(w_contracts w)\<lparr>sys_pm := (n, s)\<rparr> = w_contracts w" using m by (cases "w_contracts w") simp
  ultimately show ?thesis by (simp add: read_policy_def m del: One_nat_def)
qed

definition advanced :: "rent_rule \<Rightarrow> nat \<Rightarrow> env \<Rightarrow> env" where
  "advanced rule days e = e\<lparr>timestamp := timestamp e + days * 86400, sequence := sequence e + days * DAY_LEDGERS,
     host_extend_ttl := rule (sequence e + days * DAY_LEDGERS),
     fresh_live_until := sequence e + days * DAY_LEDGERS + (fresh_live_until e - sequence e)\<rparr>"

lemma advanced_host:
  "exact_host rule e \<Longrightarrow> exact_host rule (advanced rule days e)"
  "timestamp (advanced rule days e) = timestamp e + days * 86400" "sequence (advanced rule days e) = sequence e + days * DAY_LEDGERS"
  by (auto simp: exact_host_def young_def advanced_def)

lemma advances:
  assumes w: "wired lib pr w" and now: "timestamp (w_env w) + days * 86400 < u64_max"
  obtains v where "advance_with_keeper rule days w = Some v" and "w_env v = advanced rule days (w_env w)" and "wired lib pr v"
    and "same_actors w v" and "\<And>L. book_horizon L w \<Longrightarrow> book_horizon L v" and "\<And>P Q. claim_horizon P Q w \<Longrightarrow> claim_horizon P Q v"
    and "\<And>p st. claimed_world p st w \<Longrightarrow> claimed_world p st v"
proof -
  have env: "w_env (set_timestamp (timestamp (w_env w) + days * 86400) (set_sequence_number rule (sequence (w_env w) + days * DAY_LEDGERS) w)) =
      advanced rule days (w_env w)"
    by (simp add: set_sequence_number_def advanced_def Let_def)
  from keeper_step [OF w now, of rule, unfolded env] obtain c where
    c: "advance_with_keeper rule days w = Some (w\<lparr>w_env := advanced rule days (w_env w), w_contracts := c\<rparr>)"
      "wired lib pr (w\<lparr>w_contracts := c\<rparr>)" "\<And>L. book_horizon L (w\<lparr>w_contracts := c\<rparr>) \<longleftrightarrow> book_horizon L w"
      "\<And>P Q. claim_horizon P Q (w\<lparr>w_contracts := c\<rparr>) \<longleftrightarrow> claim_horizon P Q w"
      "\<And>p st. claimed_world p st (w\<lparr>w_contracts := c\<rparr>) \<longleftrightarrow> claimed_world p st w"
    by blast
  let ?v = "w\<lparr>w_env := advanced rule days (w_env w), w_contracts := c\<rparr>"
  have v: "?v = (w\<lparr>w_contracts := c\<rparr>)\<lparr>w_env := advanced rule days (w_env w)\<rparr>" by simp
  have "wired lib pr ?v" unfolding v by (rule wired_env [OF c(2)]) (simp add: advanced_def)
  moreover have "same_actors w ?v" by (simp add: same_actors_def)
  moreover have "book_horizon L ?v \<longleftrightarrow> book_horizon L w" "claim_horizon P Q ?v \<longleftrightarrow> claim_horizon P Q w"
    "claimed_world p st ?v \<longleftrightarrow> claimed_world p st w" for L P Q p st
    unfolding v env_moves c(3-5) by (rule refl)+
  ultimately show thesis using that [of ?v] c(1) by simp
qed

text \<open>Forty days with the contract keeper alone, then one call of the policy keeper.\<close>

lemma need_last:
  assumes "exact_host rule e" and "timestamp e = ASSESSED + 60 + 40 * 86400"
  shows "policy_need e END = CLAIM_NEED - 40 * DAY_LEDGERS" and "shared_need e (Some END) = SHARED_FLOOR_LEDGERS"
  using assms
  by (simp_all add: policy_need_def shared_need_def ledgers_until_def exact_host_def END_def saturating_add_u64_def u64_max_def
      ttl_constants test_constants div_ceil_def Let_def CLAIM_NEED_def)

lemma forty_days:
  assumes w: "wired lib pr w" and c: "claimed_world p Owed w" "claimed_terms p w" and host: "exact_host rule (w_env w)"
    and t: "timestamp (w_env w) = ASSESSED + 60" and L: "L = sequence (w_env w) + NETWORK_MAX_ENTRY_TTL_LEDGERS"
    and live: "book_horizon L w" "claim_horizon (sequence (w_env w) + CLAIM_NEED) (sequence (w_env w) + PENDING_TARGET_LEDGERS) w"
  obtains v u where "advance_with_keeper rule 40 w = Some v" and "sequence (w_env v) = sequence (w_env w) + 40 * DAY_LEDGERS"
    and "same_actors w v" and "claim_horizon (sequence (w_env w) + CLAIM_NEED) (sequence (w_env w) + PENDING_TARGET_LEDGERS) v"
    and "extend_policy 1 v = Some u" and "same_actors v u" and "w_env u = w_env v" and "wired lib pr u"
    and "claimed_world p Owed u" and "claimed_terms p u" and "timestamp (w_env u) = ASSESSED + 60 + 40 * 86400"
    and "book_horizon L u" and "claim_horizon (sequence (w_env w) + CLAIM_NEED) (sequence (w_env v) + PENDING_TARGET_LEDGERS) u"
proof -
  have late: "timestamp (w_env w) + 40 * 86400 < u64_max" by (simp add: t test_constants u64_max_def)
  show thesis
  proof (rule advances [OF w late, of rule])
    fix v
    assume v: "advance_with_keeper rule 40 w = Some v" "w_env v = advanced rule 40 (w_env w)" "wired lib pr v" "same_actors w v"
      and keep: "\<And>L. book_horizon L w \<Longrightarrow> book_horizon L v" "\<And>P Q. claim_horizon P Q w \<Longrightarrow> claim_horizon P Q v"
        "\<And>p st. claimed_world p st w \<Longrightarrow> claimed_world p st v"
    let ?P = "sequence (w_env w) + CLAIM_NEED" and ?Q = "sequence (w_env w) + PENDING_TARGET_LEDGERS"
    have host': "exact_host rule (w_env v)" and t': "timestamp (w_env v) = ASSESSED + 60 + 40 * 86400"
      and seq: "sequence (w_env v) = sequence (w_env w) + 40 * DAY_LEDGERS"
      using host by (simp_all add: v(2) t advanced_host)
    have terms: "claimed_terms p v" using c(2) same_actorsD [OF v(4)] by (simp add: claimed_terms_def)
    have "timestamp (w_env v) < u64_max" by (simp add: t' test_constants u64_max_def)
    note rent = rent_horizon [OF v(3) keep(3) [OF c(1)] terms this host' keep(1) [OF live(1)] keep(2) [OF live(2)],
        unfolded need_last [OF host' t'] seq L]
    have "\<exists>c'. extend_policy 1 v = Some (v\<lparr>w_contracts := c'\<rparr>) \<and> wired lib pr (v\<lparr>w_contracts := c'\<rparr>) \<and>
        claimed_world p Owed (v\<lparr>w_contracts := c'\<rparr>) \<and> book_horizon L (v\<lparr>w_contracts := c'\<rparr>) \<and>
        claim_horizon ?P (sequence (w_env v) + PENDING_TARGET_LEDGERS) (v\<lparr>w_contracts := c'\<rparr>)"
      unfolding seq L by (rule rent) (simp_all add: ttl_constants CLAIM_NEED_def)
    then obtain c' where c': "extend_policy 1 v = Some (v\<lparr>w_contracts := c'\<rparr>)" "wired lib pr (v\<lparr>w_contracts := c'\<rparr>)"
        "claimed_world p Owed (v\<lparr>w_contracts := c'\<rparr>)" "book_horizon L (v\<lparr>w_contracts := c'\<rparr>)"
        "claim_horizon ?P (sequence (w_env v) + PENDING_TARGET_LEDGERS) (v\<lparr>w_contracts := c'\<rparr>)" by blast
    show thesis
      using that [OF v(1) seq v(4) keep(2) [OF live(2)] c'(1) same_actors_moves(1) _ c'(2,3) _ _ c'(4,5)] terms t' by simp
  qed
qed

lemma need_at_now: "div_ceil (END + 2592000 - NOW) 5 = NETWORK_MAX_ENTRY_TTL_LEDGERS"
  and need_at_claim: "div_ceil (2591940 + END - ASSESSED) 5 = CLAIM_NEED"
  by (simp_all add: END_def test_constants div_ceil_def ttl_constants CLAIM_NEED_def)

lemma shared_keeper_passes:
  assumes gen: "inj generate" and key: "sk_from lib 0x11 = Some sk" and sign: "signs lib env sk"
    and rule: "follows rule" "host_extend_ttl env = rule (sequence env)" "young env (fresh_live_until env)"
  shows "extend_policy_ttl_keeps_org_and_farmer_entries_alive rule lib generate env = Some ()"
proof (rule settles_with_rent [OF assms])
  fix w1 w2 w3 :: "'a world" and p
  assume run: "deploy lib generate env = Some w1"
      "create_and_activate (set_max_entry_ttl NETWORK_MAX_ENTRY_TTL_LEDGERS w1) = Some (1, w2)"
      "submit lib (determination 1 SUM_INSURED PAYOUT) w2 = Some w3"
    and w: "wired lib (Some (w_pr w3)) w3" and c: "claimed_world p Owed w3" "claimed_terms p w3"
    and host: "exact_host rule (w_env w3)" and t: "timestamp (w_env w3) = ASSESSED + 60" and seq: "sequence (w_env w3) = sequence env"
    and live: "book_horizon (sequence env + NETWORK_MAX_ENTRY_TTL_LEDGERS) w3"
      "claim_horizon (sequence env + CLAIM_NEED) (sequence env + PENDING_TARGET_LEDGERS) w3"
  show ?thesis
  proof (rule forty_days [OF w c host t refl, unfolded seq, OF live])
    fix v u
    assume v: "advance_with_keeper rule 40 w3 = Some v" "sequence (w_env v) = sequence env + 40 * DAY_LEDGERS" "same_actors w3 v"
      and u: "extend_policy 1 v = Some u" "same_actors v u" "w_env u = w_env v"
      and after: "book_horizon (sequence env + NETWORK_MAX_ENTRY_TTL_LEDGERS) u"
        "claim_horizon (sequence env + CLAIM_NEED) (sequence (w_env v) + PENDING_TARGET_LEDGERS) u"
    obtain a where a: "adapter_of w3 = Some a" "live_until (sa_org_count a) (w_org w3) = Some (sequence env + PENDING_TARGET_LEDGERS)"
      using live(2) by (auto simp: claim_horizon_def)
    obtain b where b: "adapter_of u = Some b" "live_until (sa_org_count b) (w_org u) = Some (sequence (w_env v) + PENDING_TARGET_LEDGERS)"
      using after(2) by (auto simp: claim_horizon_def)
    have floor: "PENDING_TARGET_LEDGERS = SHARED_FLOOR_LEDGERS" by (simp add: ttl_constants)
    have "ttls_in w3 [live_until (sa_org_count a) (w_org w3)] = Some [SHARED_FLOOR_LEDGERS]"
      by (simp add: a ttls_in_def get_ttl_def seq floor)
    moreover have "ttls_in u [live_until (sa_org_count b) (w_org u)] = Some [SHARED_FLOOR_LEDGERS]"
      by (simp add: b ttls_in_def get_ttl_def u(3) floor)
    moreover have "ttls_in u [live_until (pm_org_outstanding (manager_of u)) (w_org u), live_until (pm_farmer_policy_count (manager_of u)) (w_farmer u)] =
        Some (replicate 2 (NETWORK_MAX_ENTRY_TTL_LEDGERS - 40 * DAY_LEDGERS))"
      using after(1) by (simp add: book_horizon_def ttls_in_def get_ttl_def u(3) v(2) numeral_eq_Suc)
    moreover have "p_end_date p = END" using c(2) by (simp add: claimed_terms_def)
    ultimately show ?thesis
      using run reads_claimed [OF c] v(1) u(1)
      by (simp add: extend_policy_ttl_keeps_org_and_farmer_entries_alive_def Let_def a(1) b(1) need_at_now must_def del: One_nat_def)
  qed
qed

text \<open>The funder settles the obligation of the claimed policy.\<close>

lemma settles_obligation:
  assumes w: "wired lib pr w" and c: "claimed_world p Owed w" and now: "timestamp (w_env w) < u64_max" and r: "r \<noteq> 0"
  obtains ob v where "on_adapter (w_backend w) (\<lambda>e. mark_settled e (w_backend w) 1 r) w = Some (ob, v)" and "wired lib pr v"
    and "claimed_world p Settled v" and "same_actors w v" and "w_env v = w_env w"
proof -
  obtain a ob where a: "adapter_of w = Some a" "get (sa_obligation_of a) (w_pr w, 1) = Some 1" "get (sa_obligation a) 1 = Some ob"
      "o_id ob = 1 \<and> o_payout_receiver ob = w_pr w \<and> o_policy_id ob = 1 \<and> o_org ob = w_org w \<and> o_org_index ob = 0" "o_status ob = Owed"
    using c by (auto simp: claimed_world_def)
  let ?e = "signed_call (w_env w) (w_adapter w) (w_backend w)"
  let ?ob = "ob\<lparr>o_status := Settled, o_settled_by := Some (w_backend w), o_settled_at := timestamp (w_env w),
        o_settlement_reference := Some r\<rparr>"
  obtain a' where a': "mark_settled ?e (w_backend w) 1 r a = Inr (?ob, a')" "wired lib pr (with_adapter w a')"
    using marks(2) [OF w now a(1,3) r] a(5) by auto
  have book: "get (sa_obligation a') 1 = Some ?ob" "get (sa_obligation_of a') = get (sa_obligation_of a)"
    using a'(1) a(3-5) unfolding mark_settled_eq [OF wired_funder(3) [OF w a(1)]]
    by (auto simp: bindE_eq_Inr mark_guard_Inr attest_settled_def simp del: One_nat_def split: if_splits)
  have "claimed_world p Settled (with_adapter w a')"
    using c a(2,4) book same_actorsD [OF with_adapter_simps(1) [of w a']]
    by (simp add: claimed_world_def manager_of_def nft_of_def)
  moreover have "on_adapter (w_backend w) (\<lambda>e. mark_settled e (w_backend w) 1 r) w = Some (?ob, with_adapter w a')"
    using a'(1) a(1) by (simp add: on_adapter_def with_adapter_def del: One_nat_def)
  ultimately show thesis using that a'(2) with_adapter_simps(1,3) by blast
qed

text \<open>The rent call leaves a settled obligation as it is.\<close>

lemma settled_left_alone:
  assumes w: "wired lib pr w" and c: "claimed_world p Settled w" "claimed_terms p w" and now: "timestamp (w_env w) < u64_max"
  obtains a a' c' l where "adapter_of w = Some a" and "live_until (sa_obligation a) 1 = Some l"
    and "extend_policy 1 w = Some (w\<lparr>w_contracts := c'\<rparr>)" and "adapter_of (w\<lparr>w_contracts := c'\<rparr>) = Some a'"
    and "live_until (sa_obligation a') 1 = Some l"
proof (rule rent_step [OF w c now])
  fix x s a ob
  let ?pr = "sys_pr (w_contracts w)"
  assume sys: "w_contracts w = \<lparr>sys_pr = ?pr, sys_pm = ([w_nft w \<mapsto> x], s), sys_adapters = [w_adapter w \<mapsto> a]\<rparr>"
    and ob: "get (sa_obligation a) 1 = Some ob" "o_status ob = Settled"
    and run: "let e = open_call (w_env w) (w_pr w); m = subcall e (w_pm w); n = policy_need e END;
        c' = \<lparr>sys_pr = (pr_touch e ?pr)\<lparr>pr_policy_paid := kept_if e 1 n (pr_policy_paid ?pr), pr_report := kept_if e 1 n (pr_report ?pr)\<rparr>,
           sys_pm = ([w_nft w \<mapsto> nft_rented (subcall m (w_nft w)) 1 x], pm_rented m p s),
           sys_adapters = [w_adapter w \<mapsto> adapter_after (subcall e (w_adapter w)) ob a]\<rparr>
      in extend_policy 1 w = Some (w\<lparr>w_contracts := c'\<rparr>) \<and> wired lib pr (w\<lparr>w_contracts := c'\<rparr>) \<and>
         claimed_world p Settled (w\<lparr>w_contracts := c'\<rparr>)"
  have sel: "adapter_of w = Some a" unfolding adapter_of_def by (subst sys) simp
  obtain l where l: "live_until (sa_obligation a) 1 = Some l" using ob(1) by (auto simp: get_def live_until_def)
  from run obtain c' where "extend_policy 1 w = Some (w\<lparr>w_contracts := c'\<rparr>)"
    and "sys_adapters c' = [w_adapter w \<mapsto> adapter_after (subcall (open_call (w_env w) (w_pr w)) (w_adapter w)) ob a]"
    by (auto simp: Let_def)
  moreover have "sa_obligation (adapter_after e ob a) = sa_obligation a" for e using ob(2) by (simp add: adapter_after_def)
  ultimately show thesis using that [OF sel l] l by (simp add: adapter_of_def)
qed

lemma horizon_ttls:
  shows "book_horizon L w \<Longrightarrow> claim_horizon P Q w \<Longrightarrow>
      policy_ttls 1 w = Some [L - sequence (w_env w), P - sequence (w_env w), L - sequence (w_env w)]"
    and "claim_horizon P Q w \<Longrightarrow> obligation_ttls 1 w = Some (replicate 3 (Q - sequence (w_env w)))"
  by (auto simp: policy_ttls_def obligation_ttls_def book_horizon_def claim_horizon_def ttls_in_def get_ttl_def numeral_3_eq_3)

lemma policy_keeper_passes:
  assumes gen: "inj generate" and key: "sk_from lib 0x11 = Some sk" and sign: "signs lib env sk"
    and rule: "follows rule" "host_extend_ttl env = rule (sequence env)" "young env (fresh_live_until env)"
  shows "extend_policy_ttl_reaches_every_contract rule lib generate env = Some ()"
proof (rule settles_with_rent [OF assms])
  fix w1 w2 w3 :: "'a world" and p
  assume run: "deploy lib generate env = Some w1"
      "create_and_activate (set_max_entry_ttl NETWORK_MAX_ENTRY_TTL_LEDGERS w1) = Some (1, w2)"
      "submit lib (determination 1 SUM_INSURED PAYOUT) w2 = Some w3"
    and w: "wired lib (Some (w_pr w3)) w3" and c: "claimed_world p Owed w3" "claimed_terms p w3"
    and host: "exact_host rule (w_env w3)" and t: "timestamp (w_env w3) = ASSESSED + 60" and seq: "sequence (w_env w3) = sequence env"
    and live: "book_horizon (sequence env + NETWORK_MAX_ENTRY_TTL_LEDGERS) w3"
      "claim_horizon (sequence env + CLAIM_NEED) (sequence env + PENDING_TARGET_LEDGERS) w3"
  show ?thesis
  proof (rule forty_days [OF w c host t refl, unfolded seq, OF live])
    fix v u
    assume v: "advance_with_keeper rule 40 w3 = Some v" "sequence (w_env v) = sequence env + 40 * DAY_LEDGERS"
        "claim_horizon (sequence env + CLAIM_NEED) (sequence env + PENDING_TARGET_LEDGERS) v"
      and u: "extend_policy 1 v = Some u" "w_env u = w_env v" "wired lib (Some (w_pr w3)) u"
        "claimed_world p Owed u" "claimed_terms p u" "timestamp (w_env u) = ASSESSED + 60 + 40 * 86400"
      and after: "book_horizon (sequence env + NETWORK_MAX_ENTRY_TTL_LEDGERS) u"
        "claim_horizon (sequence env + CLAIM_NEED) (sequence (w_env v) + PENDING_TARGET_LEDGERS) u"
    \<comment> \<open>what the test reads\<close>
    have before: "policy_ttls 1 w3 = Some [NETWORK_MAX_ENTRY_TTL_LEDGERS, CLAIM_NEED, NETWORK_MAX_ENTRY_TTL_LEDGERS]"
      "obligation_ttls 1 w3 = Some (replicate 3 PENDING_TARGET_LEDGERS)"
      using horizon_ttls(1) [OF live] horizon_ttls(2) [OF live(2)] by (simp_all add: seq)
    have mid: "obligation_ttls 1 v = Some (replicate 3 (20 * DAY_LEDGERS))"
      using horizon_ttls(2) [OF v(3)] by (simp add: v(2) PENDING_TARGET_LEDGERS_def)
    have rented: "obligation_ttls 1 u = Some (replicate 3 PENDING_TARGET_LEDGERS)"
      "policy_ttls 1 u = Some (map (\<lambda>ttl. ttl - 40 * DAY_LEDGERS) [NETWORK_MAX_ENTRY_TTL_LEDGERS, CLAIM_NEED, NETWORK_MAX_ENTRY_TTL_LEDGERS])"
      using horizon_ttls(1) [OF after] horizon_ttls(2) [OF after(2)] by (simp_all add: u(2) v(2))
    \<comment> \<open>the settlement and ten more days\<close>
    have late: "timestamp (w_env u) < u64_max" by (simp add: u(6) test_constants u64_max_def)
    obtain ob z where z: "on_adapter (w_backend u) (\<lambda>e. mark_settled e (w_backend u) 1 (reference 0x51)) u = Some (ob, z)"
        "wired lib (Some (w_pr w3)) z" "claimed_world p Settled z" "same_actors u z" "w_env z = w_env u"
      by (rule settles_obligation [OF u(3,4) late references(2)])
    have late': "timestamp (w_env z) + 10 * 86400 < u64_max" by (simp add: z(5) u(6) test_constants u64_max_def)
    obtain y where y: "advance_with_keeper rule 10 z = Some y" "w_env y = advanced rule 10 (w_env z)" "wired lib (Some (w_pr w3)) y"
        "same_actors z y" "claimed_world p Settled y"
      by (rule advances [OF z(2) late', of rule]) (use z(3) in blast)
    have "claimed_terms p y"
      using u(5) same_actorsD [OF same_actors_trans [OF z(4) y(4)]] by (simp add: claimed_terms_def)
    moreover have "timestamp (w_env y) < u64_max" using late' by (simp add: y(2) advanced_host)
    ultimately obtain a a' c' l where last: "adapter_of y = Some a" "live_until (sa_obligation a) 1 = Some l"
        "extend_policy 1 y = Some (y\<lparr>w_contracts := c'\<rparr>)" "adapter_of (y\<lparr>w_contracts := c'\<rparr>) = Some a'"
        "live_until (sa_obligation a') 1 = Some l"
      by (rule settled_left_alone [OF y(3,5)])
    have ends: "p_end_date p = END" using c(2) by (simp add: claimed_terms_def)
    show ?thesis
      using run reads_claimed [OF c] v(1) u(1) before mid rented z(1) y(1) last
      by (simp add: extend_policy_ttl_reaches_every_contract_def Let_def ends need_at_now need_at_claim must_def ttls_in_def
          del: One_nat_def)
  qed
qed

section \<open>The tests pass\<close>

lemma rent_host_clock [simp]: "rent_host (e\<lparr>timestamp := t\<rparr>) = rent_host e"
  by (simp add: rent_host_def documented_extend_ttl_def young_def)

text \<open>C12. Rent, end to end. On every host whose rent rule is the documented one, with distinct addresses, a key
  whose signatures recover to it and room for the keepers' thirty days, the three integration tests about rent
  pass. One unsigned call extends the instances of all four contracts to thirty days. The entries of a
  policy live until thirty days after its cover, its open obligation sixty days, and forty days later one unsigned
  call brings the obligation, its indexes and the organisation's count back to sixty, pays nothing for the
  entries that live long enough, and once the obligation is settled leaves it to archive.\<close>

theorem rent_paid_end_to_end:
  assumes "inj generate" and "sk_from lib 0x11 = Some sk" and "signs lib env sk" and "rent_host env"
    and "follows rule" and "host_extend_ttl env = rule (sequence env)"
  shows "extend_contract_ttl_reaches_every_contract lib generate env = Some () \<and>
    extend_policy_ttl_reaches_every_contract rule lib generate env = Some () \<and>
    extend_policy_ttl_keeps_org_and_farmer_entries_alive rule lib generate env = Some ()"
proof -
  have "young env (fresh_live_until env)" using assms(4) by (simp add: rent_host_def)
  then show ?thesis
    using assms contract_keeper_passes [OF assms(1,2)] policy_keeper_passes [OF assms(1-3,5,6)]
      shared_keeper_passes [OF assms(1-3,5,6)] by simp
qed

theorem rent_paid_end_to_end_witness:
  "extend_contract_ttl_reaches_every_contract test_lib Address test_env = Some () \<and>
   extend_policy_ttl_reaches_every_contract (\<lambda>s l t n. if l < s + t then s + n else l) test_lib Address test_env = Some () \<and>
   extend_policy_ttl_keeps_org_and_farmer_entries_alive (\<lambda>s l t n. if l < s + t then s + n else l) test_lib Address test_env = Some ()"
proof (rule rent_paid_end_to_end [OF test_addresses test_key(1) test_signs])
  show "rent_host test_env"
    by (simp add: rent_host_def documented_extend_ttl_def young_def test_env_def sample_env_def ttl_constants)
qed (simp_all add: follows_def test_env_def sample_env_def fun_eq_iff)

end
