(* ===== verification/IntegrationUpgrade.thy ===== *)
theory IntegrationUpgrade
  imports IntegrationPass
begin

text \<open>
  The lane of the integration tests that runs the compiled contracts (\<^verbatim>\<open>crates/integration-tests/src/lib.rs\<close>,
  \<^verbatim>\<open>wasm_lane_full_flow\<close>): the 2022 season from deployment to settlement, then an upgrade of the three contracts
  on the money path. The compiled contracts are compiled from the sources the model is of, in both builds, so
  they run as the model does; \<open>upload\<close> is the hash of the unoptimized build of a contract, which the host
  returns for its bytes.
\<close>

section \<open>The lane\<close>

text \<open>The deployment. The distributor is the first address generated after it.\<close>

definition deploy_compiled :: "'k signing_lib \<Rightarrow> (nat \<Rightarrow> address) \<Rightarrow> env \<Rightarrow> 'k world option" where
  "deploy_compiled lib generate env = (
     let e = env\<lparr>timestamp := PLANT_2022 + 6 * 3600\<rparr>;
         admin = generate 0; backend = generate 1; relayer = generate 2; farmer = generate 3; org = generate 4;
         nft_addr = generate 5; pm_addr = generate 6; ad_addr = generate 7; pr_addr = generate 8
     in do {
       nft \<leftarrow> ok (nft_constructor (signed_call e nft_addr admin) admin ''MicroCrop Policy'' ''MCP'');
       pm \<leftarrow> ok (pm_constructor (signed_call e pm_addr admin) admin);
       adapter \<leftarrow> ok (sa_constructor (signed_call e ad_addr admin) admin);
       pr \<leftarrow> ok (pr_constructor (signed_call e pr_addr admin) ad_addr pm_addr admin);
       pm \<leftarrow> ok (set_policy_nft (signed_call e pm_addr admin) admin nft_addr pm);
       nft \<leftarrow> ok (set_policy_manager (signed_call e nft_addr admin) admin pm_addr nft);
       adapter \<leftarrow> ok (set_payout_receiver (signed_call e ad_addr admin) admin pr_addr adapter);
       pm \<leftarrow> ok (pm_grant_role (signed_call e pm_addr admin) admin Backend backend pm);
       nft \<leftarrow> ok (nft_grant_role (signed_call e nft_addr admin) admin Minter pm_addr nft);
       pm \<leftarrow> ok (pm_grant_role (signed_call e pm_addr admin) admin Oracle pr_addr pm);
       adapter \<leftarrow> ok (sa_grant_role (signed_call e ad_addr admin) admin Funder backend adapter);
       pr \<leftarrow> ok (pr_grant_role (signed_call e pr_addr admin) admin Relayer relayer pr);
       sk \<leftarrow> sk_from lib 0x11;
       pr \<leftarrow> ok (set_authorized_signer (signed_call e pr_addr admin) admin (pubkey65 lib sk) pr);
       let domain = bytes32_of 0xAB;
       pr \<leftarrow> ok (set_network_domain (signed_call e pr_addr admin) admin domain pr);
       pr \<leftarrow> ok (set_methodology_enabled (signed_call e pr_addr admin) admin CropDroughtRdi10 True pr);
       Some \<lparr>w_env = e, w_admin = admin, w_pm = pm_addr, w_nft = nft_addr, w_adapter = ad_addr,
         w_pr = pr_addr, w_backend = backend, w_farmer = farmer, w_distributor = generate 9, w_org = org,
         w_relayer = relayer, w_sk = sk, w_domain = domain,
         w_contracts = \<lparr>sys_pr = pr, sys_pm = ([nft_addr \<mapsto> nft], pm), sys_adapters = [ad_addr \<mapsto> adapter]\<rparr>\<rparr>
     })"

text \<open>The upgrades, each by the admin after one by a stranger was refused.\<close>

definition upgrade_money_path :: "(string \<Rightarrow> bytes32) \<Rightarrow> (nat \<Rightarrow> address) \<Rightarrow> 'k world \<Rightarrow> 'k world option" where
  "upgrade_money_path upload generate w = do {
     let hash = upload ''microcrop_settlement_adapter'';
     let stranger = generate 10;
     adapter \<leftarrow> adapter_of w;
     fails (sa_upgrade (signed_call (w_env w) (w_adapter w) stranger) stranger hash adapter);
     adapter \<leftarrow> ok (sa_upgrade (signed_call (w_env w) (w_adapter w) (w_admin w)) (w_admin w) hash adapter);
     let w = with_adapter w adapter;
     let hash = upload ''microcrop_payout_receiver'';
     let stranger = generate 11;
     let pr = sys_pr (w_contracts w);
     fails (pr_upgrade (signed_call (w_env w) (w_pr w) stranger) stranger hash pr);
     pr \<leftarrow> ok (pr_upgrade (signed_call (w_env w) (w_pr w) (w_admin w)) (w_admin w) hash pr);
     let w = w\<lparr>w_contracts := (w_contracts w)\<lparr>sys_pr := pr\<rparr>\<rparr>;
     let hash = upload ''microcrop_policy_manager'';
     let stranger = generate 12;
     let (nfts, pm) = sys_pm (w_contracts w);
     fails (pm_upgrade (signed_call (w_env w) (w_pm w) stranger) stranger hash pm);
     pm \<leftarrow> ok (pm_upgrade (signed_call (w_env w) (w_pm w) (w_admin w)) (w_admin w) hash pm);
     Some (w\<lparr>w_contracts := (w_contracts w)\<lparr>sys_pm := (nfts, pm)\<rparr>\<rparr>)
   }"

definition wasm_lane_full_flow ::
  "(string \<Rightarrow> bytes32) \<Rightarrow> 'k signing_lib \<Rightarrow> (nat \<Rightarrow> address) \<Rightarrow> env \<Rightarrow> unit option" where
  "wasm_lane_full_flow upload lib generate env = do {
     w \<leftarrow> deploy_compiled lib generate env;
     let e = signed_call (w_env w) (w_pm w) (w_backend w);
     let (nfts, pm) = sys_pm (w_contracts w);
     (policy_id, pm) \<leftarrow> ok (create_policy e (w_backend w) (w_farmer w) 7 ERA5_LAT ERA5_LON SUM_INSURED PREMIUM
       DURATION_DAYS Drought (w_org w) pm);
     (nfts, pm) \<leftarrow> ok (activate_policy e (w_backend w) policy_id (w_distributor w) ''Acme Distributor'' ''Trans Nzoia'' nfts pm);
     let w = w\<lparr>w_contracts := (w_contracts w)\<lparr>sys_pm := (nfts, pm)\<rparr>\<rparr>;
     let d = era5_determination policy_id;
     let w = set_timestamp (d_assessed_at d + 600) w;
     (sig, recid) \<leftarrow> sign_for lib (w_env w) (w_sk w) (w_pr w) (w_domain w) d;
     let submission = (\<lambda>w. submit_drought_determination real_pm real_adapter
       (signed_call (w_env w) (w_pr w) (w_relayer w)) (w_relayer w) d sig recid (w_contracts w));
     c \<leftarrow> ok (submission w);
     let w = w\<lparr>w_contracts := c\<rparr>;
     adapter \<leftarrow> adapter_of w;
     ob \<leftarrow> get_obligation 1 adapter;
     must (o_status ob = Owed);
     must (o_amount ob = SUM_INSURED * 4200 div 10000);
     (policy, w) \<leftarrow> read_policy policy_id w;
     must (p_status policy = Claimed);
     (ob, w) \<leftarrow> on_adapter (w_backend w) (\<lambda>e. mark_funded e (w_backend w) 1 (reference 0xF1)) w;
     (ob, w) \<leftarrow> on_adapter (w_backend w) (\<lambda>e. mark_settled e (w_backend w) 1 (reference 0x51)) w;
     must (o_status ob = Settled);
     fails (submission w);
     let report = get_report policy_id (sys_pr (w_contracts w));
     (policy, w) \<leftarrow> read_policy policy_id w;
     w \<leftarrow> upgrade_money_path upload generate w;
     adapter \<leftarrow> adapter_of w;
     must (get_obligation 1 adapter = Some ob);
     must (find_obligation (w_pr w) policy_id adapter = Some 1);
     (held, adapter) \<leftarrow> ok (sa_has_role (open_call (w_env w) (w_adapter w)) Funder (w_backend w) adapter);
     must held;
     let w = with_adapter w adapter;
     must (adapter_payout_receiver adapter = Some (w_pr w));
     must (get_report policy_id (sys_pr (w_contracts w)) = report);
     must (is_policy_paid policy_id (sys_pr (w_contracts w)));
     (same, w) \<leftarrow> read_policy policy_id w;
     must (same = policy);
     (again, w) \<leftarrow> on_adapter (w_backend w) (\<lambda>e. mark_settled e (w_backend w) 1 (reference 0x51)) w;
     must (again = ob);
     fails (submission w)
   }"

section \<open>The deployment is the tested one\<close>

text \<open>The lane generates the same addresses in another order and deploys at planting.\<close>

definition lane_order :: "nat \<Rightarrow> nat" where
  "lane_order = id(2 := 3, 3 := 9, 5 := 2, 6 := 5, 7 := 6, 8 := 7, 9 := 8)"

lemma lane_order_inj: "inj lane_order"
  by (auto simp: lane_order_def inj_def split: if_splits)

lemma adapter_set_up_clock:
  "sa_constructor (e\<lparr>timestamp := t\<rparr>) = sa_constructor e" "set_payout_receiver (e\<lparr>timestamp := t\<rparr>) = set_payout_receiver e"
  "sa_grant_role (e\<lparr>timestamp := t\<rparr>) = sa_grant_role e"
  by (simp_all add: fun_eq_iff sa_constructor_def set_payout_receiver_def sa_grant_role_def sa_deployed_def sa_touch_def
      host_clock roles_clock Let_def cong: if_cong)

lemma signed_call_clock: "signed_call (e\<lparr>timestamp := t\<rparr>) c a = (signed_call e c a)\<lparr>timestamp := t\<rparr>"
  by (simp add: signed_call_def)

lemma map_option_binds: "map_option f (m \<bind> g) = m \<bind> (\<lambda>x. map_option f (g x))"
  by (cases m) simp_all

lemma deploy_compiled_eq:
  "deploy_compiled lib generate env =
     map_option (set_timestamp ERA5_SOLD) (deploy_with lib (generate \<circ> lane_order) env True)"
  by (simp add: deploy_compiled_def deploy_with_def signed_call_clock set_up_clock adapter_set_up_clock map_option_binds
      lane_order_def set_timestamp_def ERA5_SOLD_def Let_def)

section \<open>The upgrades\<close>

lemma sa_upgrades:
  assumes w: "wired lib pr w" and now: "timestamp (w_env w) < u64_max" and a: "adapter_of w = Some a"
  obtains a' where "sa_upgrade (signed_call (w_env w) (w_adapter w) (w_admin w)) (w_admin w) hash a = Inr a'"
    and "\<And>who. who \<noteq> w_admin w \<Longrightarrow> fails (sa_upgrade (signed_call (w_env w) (w_adapter w) who) who hash a) = Some ()"
    and "same_obligations a a'" and "wired lib pr (with_adapter w a')"
proof -
  note roles = wired_funder [OF w a]
  let ?e = "signed_call (w_env w) (w_adapter w) (w_admin w)"
  obtain a' where a': "sa_upgrade ?e (w_admin w) hash a = Inr a'" by (simp add: sa_upgrade_def require_role_eq roles(1))
  have "wired lib pr (with_adapter w a')"
    by (rule wired_adapter [OF w a step_upgrade [OF a'] wiredD(2) [OF w] now])
      (use a' in \<open>auto simp: sa_upgrade_def bindE_eq_Inr roles(2)\<close>)
  moreover have "fails (sa_upgrade (signed_call (w_env w) (w_adapter w) who) who hash a) = Some ()" if "who \<noteq> w_admin w" for who
    using that by (simp add: sa_upgrade_def require_role_eq roles(1) fails_def)
  ultimately show thesis using that [OF a'] a' by (auto simp: sa_upgrade_def bindE_eq_Inr same_obligations_def)
qed

lemma pr_upgrades:
  assumes w: "wired lib pr w" and now: "timestamp (w_env w) < u64_max"
  obtains r where "pr_upgrade (signed_call (w_env w) (w_pr w) (w_admin w)) (w_admin w) hash (sys_pr (w_contracts w)) = Inr r"
    and "\<And>who. who \<noteq> w_admin w \<Longrightarrow>
      fails (pr_upgrade (signed_call (w_env w) (w_pr w) who) who hash (sys_pr (w_contracts w))) = Some ()"
    and "pr_report r = pr_report (sys_pr (w_contracts w))" and "pr_policy_paid r = pr_policy_paid (sys_pr (w_contracts w))"
    and "wired lib pr (w\<lparr>w_contracts := (w_contracts w)\<lparr>sys_pr := r\<rparr>\<rparr>)"
proof -
  let ?e = "signed_call (w_env w) (w_pr w) (w_admin w)"
  have wired: "receiver_wired lib w (sys_pr (w_contracts w))" by (rule wiredD(7) [OF w])
  then obtain r where r: "pr_upgrade ?e (w_admin w) hash (sys_pr (w_contracts w)) = Inr r"
    by (simp add: receiver_wired_def pr_upgrade_def require_role_eq)
  have "receiver_wired lib w r"
    using wired r by (auto simp: receiver_wired_def pr_upgrade_def bindE_eq_Inr is_methodology_enabled_def methodology_enabled_def)
  then have "wired lib pr (w\<lparr>w_contracts := (w_contracts w)\<lparr>sys_pr := r\<rparr>\<rparr>)"
    using wired_receiver [OF w pr_administers [OF adm_upgrade [OF r]]] now wiredD(5,6) [OF w] by simp
  moreover have "fails (pr_upgrade (signed_call (w_env w) (w_pr w) who) who hash (sys_pr (w_contracts w))) = Some ()"
    if "who \<noteq> w_admin w" for who
    using that wired by (simp add: receiver_wired_def pr_upgrade_def require_role_eq fails_def)
  ultimately show thesis using that [OF r] r by (auto simp: pr_upgrade_def bindE_eq_Inr)
qed

lemma pm_upgrades:
  assumes w: "wired lib pr w" and now: "timestamp (w_env w) < u64_max" and m: "sys_pm (w_contracts w) = (n, s)"
  obtains s' where "pm_upgrade (signed_call (w_env w) (w_pm w) (w_admin w)) (w_admin w) hash s = Inr s'"
    and "\<And>who. who \<noteq> w_admin w \<Longrightarrow> fails (pm_upgrade (signed_call (w_env w) (w_pm w) who) who hash s) = Some ()"
    and "pm_view s' = pm_view s" and "wired lib pr (w\<lparr>w_contracts := (w_contracts w)\<lparr>sys_pm := (n, s')\<rparr>\<rparr>)"
proof -
  let ?e = "signed_call (w_env w) (w_pm w) (w_admin w)"
  have wired: "manager_wired w (n, s)" using wiredD(5) [OF w] by (simp add: m)
  then obtain s' where s': "pm_upgrade ?e (w_admin w) hash s = Inr s'"
    by (simp add: manager_wired_def pm_upgrade_def require_role_eq)
  have "manager_wired w (n, s')" using wired s' by (auto simp: manager_wired_def pm_upgrade_def bindE_eq_Inr)
  moreover have "pm_step ?e (sys_pm (w_contracts w)) (n, s')" unfolding m by (rule do_upgrade [OF s'])
  ultimately have "wired lib pr (w\<lparr>w_contracts := (w_contracts w)\<lparr>sys_pm := (n, s')\<rparr>\<rparr>)"
    using wired_manager [OF w] now wiredD(2) [OF w] by simp
  moreover have "fails (pm_upgrade (signed_call (w_env w) (w_pm w) who) who hash s) = Some ()" if "who \<noteq> w_admin w" for who
    using that wired by (simp add: manager_wired_def pm_upgrade_def require_role_eq fails_def)
  ultimately show thesis using that [OF s'] pm_admin_same(5) [OF s'] by blast
qed

lemma upgrades:
  assumes w: "wired lib pr w" and now: "timestamp (w_env w) < u64_max" and a: "adapter_of w = Some a"
    and strangers: "\<And>k. 10 \<le> k \<Longrightarrow> generate k \<noteq> w_admin w"
  obtains w' a' where "upgrade_money_path upload generate w = Some w'" and "same_actors w w'" and "w_env w' = w_env w"
    and "wired lib pr w'" and "adapter_of w' = Some a'" and "same_obligations a a'"
    and "pr_report (sys_pr (w_contracts w')) = pr_report (sys_pr (w_contracts w))"
    and "pr_policy_paid (sys_pr (w_contracts w')) = pr_policy_paid (sys_pr (w_contracts w))"
    and "pm_view (manager_of w') = pm_view (manager_of w)"
proof (rule sa_upgrades [OF w now a, of "upload ''microcrop_settlement_adapter''"])
  fix a'
  assume one: "sa_upgrade (signed_call (w_env w) (w_adapter w) (w_admin w)) (w_admin w) (upload ''microcrop_settlement_adapter'') a = Inr a'"
      "\<And>who. who \<noteq> w_admin w \<Longrightarrow> fails (sa_upgrade (signed_call (w_env w) (w_adapter w) who) who (upload ''microcrop_settlement_adapter'') a) = Some ()"
      "same_obligations a a'" "wired lib pr (with_adapter w a')"
  let ?w1 = "with_adapter w a'"
  note same1 = same_actorsD [OF with_adapter_simps(1) [of w a']]
  have now1: "timestamp (w_env ?w1) < u64_max" using now by simp
  show thesis
  proof (rule pr_upgrades [OF one(4) now1, of "upload ''microcrop_payout_receiver''"])
    fix r
    assume two: "pr_upgrade (signed_call (w_env ?w1) (w_pr ?w1) (w_admin ?w1)) (w_admin ?w1) (upload ''microcrop_payout_receiver'')
          (sys_pr (w_contracts ?w1)) = Inr r"
        "\<And>who. who \<noteq> w_admin ?w1 \<Longrightarrow> fails (pr_upgrade (signed_call (w_env ?w1) (w_pr ?w1) who) who
          (upload ''microcrop_payout_receiver'') (sys_pr (w_contracts ?w1))) = Some ()"
        "pr_report r = pr_report (sys_pr (w_contracts ?w1))" "pr_policy_paid r = pr_policy_paid (sys_pr (w_contracts ?w1))"
        "wired lib pr (?w1\<lparr>w_contracts := (w_contracts ?w1)\<lparr>sys_pr := r\<rparr>\<rparr>)"
    let ?w2 = "?w1\<lparr>w_contracts := (w_contracts ?w1)\<lparr>sys_pr := r\<rparr>\<rparr>"
    obtain n s where m: "sys_pm (w_contracts ?w2) = (n, s)" by (cases "sys_pm (w_contracts ?w2)")
    have now2: "timestamp (w_env ?w2) < u64_max" using now by simp
    show thesis
    proof (rule pm_upgrades [OF two(5) now2 m, of "upload ''microcrop_policy_manager''"])
      fix s'
      assume three: "pm_upgrade (signed_call (w_env ?w2) (w_pm ?w2) (w_admin ?w2)) (w_admin ?w2) (upload ''microcrop_policy_manager'') s = Inr s'"
          "\<And>who. who \<noteq> w_admin ?w2 \<Longrightarrow> fails (pm_upgrade (signed_call (w_env ?w2) (w_pm ?w2) who) who
            (upload ''microcrop_policy_manager'') s) = Some ()"
          "pm_view s' = pm_view s" "wired lib pr (?w2\<lparr>w_contracts := (w_contracts ?w2)\<lparr>sys_pm := (n, s')\<rparr>\<rparr>)"
      let ?w3 = "?w2\<lparr>w_contracts := (w_contracts ?w2)\<lparr>sys_pm := (n, s')\<rparr>\<rparr>"
      have "same_actors w ?w3" by (simp add: same_actors_def with_adapter_def)
      moreover have "upgrade_money_path upload generate w = Some ?w3"
        using m by (simp add: upgrade_money_path_def a one(1) one(2) [OF strangers] two(1) [unfolded same1, simplified]
            two(2) [unfolded same1, OF strangers, simplified] three(1) [simplified, unfolded same1]
            three(2) [simplified, unfolded same1, OF strangers] same1 Let_def)
      moreover have "adapter_of ?w3 = Some a'" by (simp add: adapter_of_def same1 with_adapter_def)
      ultimately show thesis using that three(4) one(3) two(3,4) three(3) m by (simp add: manager_of_def)
    qed
  qed
qed

section \<open>The lane passes\<close>

lemma deploy_admin: "deploy_with lib generate e b = Some w \<Longrightarrow> w_admin w = generate 0"
  by (auto simp: deploy_with_def Let_def bind_eq_Some_conv)

text \<open>A determination for the claimed policy is refused.\<close>

lemma resubmission_fails:
  assumes w: "wired lib pr w" and p: "get (pm_policy (manager_of w)) 1 = Some p" "p_status p \<noteq> Active"
  shows "fails (submit_drought_determination real_pm real_adapter (signed_call (w_env w) (w_pr w) (w_relayer w)) (w_relayer w)
      (era5_determination 1) sig rid (w_contracts w)) = Some ()"
proof -
  obtain t where "sys_reachable (w_pr w) t (w_contracts w)" "t \<le> timestamp (w_env w)" using wiredD(9) [OF w] by blast
  from claimed_verdict [OF this wired_gates [OF wiredD(7) [OF w]] p(1) [unfolded manager_of_def] p(2) _ era5_evidence, of sig rid]
  show ?thesis by (simp add: era5_determination_def fails_def)
qed

text \<open>A query of a role leaves the world wired and the obligations as they are.\<close>

lemma queries_role:
  assumes w: "wired lib pr w" and now: "timestamp (w_env w) < u64_max" and a: "adapter_of w = Some a"
  obtains a' where "sa_has_role (open_call (w_env w) (w_adapter w)) Funder (w_backend w) a = Inr (True, a')"
    and "same_obligations a a'" and "wired lib pr (with_adapter w a')" and "sa_payout_receiver a' = pr"
proof -
  note roles = wired_funder [OF w a]
  let ?e = "\<lambda>who. signed_call (w_env w) (w_adapter w) who"
  have query: "sa_has_role (open_call (w_env w) (w_adapter w)) r x s = sa_has_role (?e who) r x s" for r x s who
    by (simp add: sa_has_role_def has_role_eq used_role_def extend_role_def extend_ttl_def bumped_def open_call_def signed_call_def)
  obtain a' where a': "sa_has_role (?e (w_backend w)) Funder (w_backend w) a = Inr (True, a')"
    by (simp add: sa_has_role_def has_role_eq roles(1))
  have "wired lib pr (with_adapter w a')"
    by (rule wired_adapter [OF w a step_has_role [OF a'] wiredD(1) [OF w] now])
      (use a' in \<open>auto simp: sa_has_role_def has_role_eq bindE_eq_Inr roles(2)\<close>)
  moreover have "same_obligations a a'" "sa_payout_receiver a' = pr"
    using a' by (auto simp: sa_has_role_def has_role_eq same_obligations_def roles(2))
  ultimately show thesis using that a' query [of Funder "w_backend w" a "w_backend w"] by simp
qed

text \<open>Settling again with the same reference changes nothing.\<close>

lemma settles_again:
  assumes w: "wired lib pr w" and now: "timestamp (w_env w) < u64_max" and a: "adapter_of w = Some a"
    and ob: "get (sa_obligation a) 1 = Some ob" "o_status ob = Settled" "o_settlement_reference ob = Some r" "r \<noteq> 0"
  obtains a' where "on_adapter (w_backend w) (\<lambda>e. mark_settled e (w_backend w) 1 r) w = Some (ob, with_adapter w a')"
    and "wired lib pr (with_adapter w a')"
proof -
  note roles = wired_funder [OF w a]
  let ?e = "signed_call (w_env w) (w_adapter w) (w_backend w)"
  obtain a' where a': "mark_settled ?e (w_backend w) 1 r a = Inr (ob, a')" "holds (sa_roles a') = holds (sa_roles a)" "sa_payout_receiver a' = pr"
    using ob by (simp add: mark_settled_eq [OF roles(3)] mark_guard_def roles(1,2) attest_settled_def sa_checked_def)
  have "wired lib pr (with_adapter w a')"
    by (rule wired_adapter [OF w a step_settled [OF a'(1)] wiredD(1) [OF w] now a'(2,3)])
  then show thesis
    using that on_adapter_eq [OF a, of "\<lambda>e. mark_settled e (w_backend w) 1 r" "w_backend w"] a'(1) by blast
qed

text \<open>After a settlement: the claimed policy is funded, settled, and read.\<close>

lemma settled_and_upgraded:
  assumes w: "wired lib pr w" and s: "settled p d h t w" and now: "timestamp (w_env w) < u64_max"
    and strangers: "\<And>k. 10 \<le> k \<Longrightarrow> generate k \<noteq> w_admin w"
  obtains ob1 ob w1 w2 w3 w4 a where
    "on_adapter (w_backend w) (\<lambda>e. mark_funded e (w_backend w) 1 (reference 0xF1)) w = Some (ob1, w1)" and "same_actors w w1"
    and "on_adapter (w_backend w) (\<lambda>e. mark_settled e (w_backend w) 1 (reference 0x51)) w1 = Some (ob, w2)"
    and "o_status ob = Settled" and "o_settlement_reference ob = Some (reference 0x51)"
    and "same_actors w w2" and "w_env w2 = w_env w" and "wired lib pr w2"
    and "read_policy 1 w2 = Some (p\<lparr>p_status := Claimed\<rparr>, w3)" and "upgrade_money_path upload generate w3 = Some w4"
    and "get (pm_policy (manager_of w2)) 1 = Some (p\<lparr>p_status := Claimed\<rparr>)"
    and "same_actors w w4" and "w_env w4 = w_env w" and "wired lib pr w4" and "adapter_of w4 = Some a"
    and "get (sa_obligation a) 1 = Some ob" and "get (sa_obligation_of a) (w_pr w, 1) = Some 1"
    and "get_report 1 (sys_pr (w_contracts w2)) = get_report 1 (sys_pr (w_contracts w4))"
    and "is_policy_paid 1 (sys_pr (w_contracts w4))" and "get (pm_policy (manager_of w4)) 1 = Some (p\<lparr>p_status := Claimed\<rparr>)"
proof (rule funds_and_settles [OF w s now])
  fix ob1 ob ad1 ad2
  let ?w1 = "with_adapter w ad1" and ?w2 = "with_adapter w ad2"
  assume run: "on_adapter (w_backend w) (\<lambda>e. mark_funded e (w_backend w) 1 (reference 0xF1)) w = Some (ob1, ?w1)"
      "on_adapter (w_backend w) (\<lambda>e. mark_settled e (w_backend w) 1 (reference 0x51)) ?w1 = Some (ob, ?w2)"
    and ob: "o_status ob = Settled" "o_settlement_reference ob = Some (reference 0x51)"
    and w2: "wired lib pr ?w2" "get (sa_obligation ad2) 1 = Some ob" "get (sa_obligation_of ad2) (w_pr w, 1) = Some 1"
  note a2 = same_actorsD [OF with_adapter_simps(1) [of w ad2]]
  have p: "get (pm_policy (manager_of ?w2)) 1 = Some (p\<lparr>p_status := Claimed\<rparr>)"
    using s by (simp add: settled_def Let_def manager_of_def)
  have now2: "timestamp (w_env ?w2) < u64_max" using now by simp
  obtain w3 where w3: "read_policy 1 ?w2 = Some (p\<lparr>p_status := Claimed\<rparr>, w3)" "same_actors ?w2 w3" "wired lib pr w3"
      "w_env w3 = w_env ?w2" "sys_pr (w_contracts w3) = sys_pr (w_contracts ?w2)"
      "sys_adapters (w_contracts w3) = sys_adapters (w_contracts ?w2)" "pm_view (manager_of w3) = pm_view (manager_of ?w2)"
    using reads [OF w2(1) p [unfolded manager_of_def] now2] unfolding manager_of_def by blast
  note a3 = same_actorsD [OF w3(2)] a2
  have now3: "timestamp (w_env w3) < u64_max" using now by (simp add: w3(4))
  have ad: "adapter_of w3 = Some ad2" using with_adapter_simps(2) [of w ad2] by (simp add: adapter_of_def w3(6) a3)
  show thesis
  proof (rule upgrades [OF w3(3) now3 ad, of generate upload])
    show "\<And>k. 10 \<le> k \<Longrightarrow> generate k \<noteq> w_admin w3" using strangers by (simp add: a3)
    fix w4 a
    assume w4: "upgrade_money_path upload generate w3 = Some w4" "same_actors w3 w4" "w_env w4 = w_env w3" "wired lib pr w4"
      "adapter_of w4 = Some a" "same_obligations ad2 a" "pr_report (sys_pr (w_contracts w4)) = pr_report (sys_pr (w_contracts w3))"
      "pr_policy_paid (sys_pr (w_contracts w4)) = pr_policy_paid (sys_pr (w_contracts w3))" "pm_view (manager_of w4) = pm_view (manager_of w3)"
    have "same_actors w w4"
      by (rule same_actors_trans [OF with_adapter_simps(1) same_actors_trans [OF w3(2) w4(2)]])
    moreover have "get (pm_policy (manager_of w4)) 1 = Some (p\<lparr>p_status := Claimed\<rparr>)"
      using p arg_cong [OF w4(9), of v_policy] arg_cong [OF w3(7), of v_policy] by simp
    moreover have "is_policy_paid 1 (sys_pr (w_contracts w4))"
      using s by (simp add: settled_def Let_def is_policy_paid_def w4(8) w3(5))
    moreover have "get_report 1 (sys_pr (w_contracts ?w2)) = get_report 1 (sys_pr (w_contracts w4))"
      by (simp add: get_report_def w4(7) w3(5))
    moreover have "get (sa_obligation a) 1 = Some ob" "get (sa_obligation_of a) (w_pr w, 1) = Some 1"
      using w2(2,3) w4(6) by (simp_all add: same_obligations_def)
    ultimately show thesis
      using that [OF run(1) with_adapter_simps(1) run(2) ob with_adapter_simps(1,3) w2(1) w3(1) w4(1) p] w4(3-5) w3(4) by simp
  qed
qed

text \<open>The upgraded contracts still run: the queries answer, settling again is a no-op and a replay is refused.\<close>

lemma still_runs:
  assumes w: "wired lib (Some r) w" and now: "timestamp (w_env w) < u64_max" and a: "adapter_of w = Some a"
    and ob: "get (sa_obligation a) 1 = Some ob" "o_status ob = Settled" "o_settlement_reference ob = Some (reference 0x51)"
    and p: "get (pm_policy (manager_of w)) 1 = Some p" "p_status p \<noteq> Active"
  obtains c w1 f where "sa_has_role (open_call (w_env w) (w_adapter w)) Funder (w_backend w) a = Inr (True, c)"
    and "sa_payout_receiver c = Some r" and "read_policy 1 (with_adapter w c) = Some (p, w1)" and "same_actors w w1"
    and "on_adapter (w_backend w) (\<lambda>e. mark_settled e (w_backend w) 1 (reference 0x51)) w1 = Some (ob, with_adapter w1 f)"
    and "\<And>sig rid. fails (submit_drought_determination real_pm real_adapter (signed_call (w_env w1) (w_pr w) (w_relayer w))
      (w_relayer w) (era5_determination 1) sig rid (w_contracts (with_adapter w1 f))) = Some ()"
proof (rule queries_role [OF w now a])
  fix c
  assume c: "sa_has_role (open_call (w_env w) (w_adapter w)) Funder (w_backend w) a = Inr (True, c)"
      "same_obligations a c" "wired lib (Some r) (with_adapter w c)" "sa_payout_receiver c = Some r"
  let ?w = "with_adapter w c"
  obtain w1 where w1: "read_policy 1 ?w = Some (p, w1)" "same_actors ?w w1" "wired lib (Some r) w1" "w_env w1 = w_env ?w"
      "sys_adapters (w_contracts w1) = sys_adapters (w_contracts ?w)" "pm_view (manager_of w1) = pm_view (manager_of ?w)"
    using reads [OF c(3), of 1] now p(1) by (auto simp: manager_of_def)
  have same: "same_actors w w1" by (rule same_actors_trans [OF with_adapter_simps(1) w1(2)])
  note a1 = same_actorsD [OF same]
  have now1: "timestamp (w_env w1) < u64_max" using now by (simp add: w1(4))
  have ad1: "adapter_of w1 = Some c"
    using with_adapter_simps(2) [of w c] by (simp add: adapter_of_def w1(5) a1 same_actorsD [OF with_adapter_simps(1)])
  have "get (sa_obligation c) 1 = Some ob" using ob(1) c(2) by (simp add: same_obligations_def)
  then obtain f where f: "on_adapter (w_backend w1) (\<lambda>e. mark_settled e (w_backend w1) 1 (reference 0x51)) w1 =
        Some (ob, with_adapter w1 f)" "wired lib (Some r) (with_adapter w1 f)"
    by (rule settles_again [OF w1(3) now1 ad1 _ ob(2,3) references(2)])
  have "get (pm_policy (manager_of (with_adapter w1 f))) 1 = Some p"
    using p(1) arg_cong [OF w1(6), of v_policy] by (simp add: manager_of_def)
  from resubmission_fails [OF f(2) this p(2)] that [OF c(1,4) w1(1) same] f(1) show thesis
    by (simp add: same_actorsD [OF with_adapter_simps(1) [of w1 f]] a1)
qed

lemma lane_passes:
  assumes gen: "inj generate" and key: "sk_from lib 0x11 = Some sk" and sign: "signs lib e sk"
  shows "wasm_lane_full_flow upload lib generate e = Some ()"
proof (rule deploys [OF inj_compose [OF gen lane_order_inj] key, of e True])
  fix w0
  assume w0: "deploy_with lib (generate \<circ> lane_order) e True = Some w0" "blank w0" "w_env w0 = e\<lparr>timestamp := NOW\<rparr>" "w_sk w0 = sk"
    and any: "\<And>t. t < u64_max \<Longrightarrow> wired lib (if True then Some (w_pr w0) else None) (set_timestamp t w0)"
  define w where "w = set_timestamp ERA5_SOLD w0"
  let ?d = "era5_determination 1"
  have bounds: "ERA5_SOLD < u64_max" "ERA5_SUBMITTED < u64_max"
    by (simp_all add: ERA5_SOLD_def ERA5_SUBMITTED_def PLANT_2022_def u64_max_def)
  note aw = same_actorsD [OF same_actors_moves(2) [of w0 ERA5_SOLD], folded w_def]
  have env: "w_env w = e\<lparr>timestamp := ERA5_SOLD\<rparr>" by (simp add: w_def w0(3))
  have start: "wired lib (Some (w_pr w)) w" "blank w" "timestamp (w_env w) = ERA5_SOLD" "signs lib (w_env w) (w_sk w)"
    using any [OF bounds(1)] w0(2) sign by (simp_all add: aw env w0(4)) (simp_all add: w_def)
  have deployed: "deploy_compiled lib generate e = Some w" by (simp add: deploy_compiled_eq w0(1) w_def)
  have "w_admin w = generate 0" using deploy_admin [OF w0(1)] by (simp add: aw lane_order_def)
  then have strangers: "generate k \<noteq> w_admin w" if "10 \<le> k" for k using gen that by (auto dest: injD)
  let ?p = "first_policy w ERA5_LAT ERA5_LON ERA5_SOLD" and ?h = "drought_determination_digest (w_env w) ?d (w_pr w) (w_domain w)"
  show ?thesis
  proof (rule era5_season [OF start])
    fix s n s' w2 sig rid sys'
    assume sale: "create_policy (signed_call (w_env w) (w_pm w) (w_backend w)) (w_backend w) (w_farmer w) 7 ERA5_LAT ERA5_LON
          SUM_INSURED PREMIUM DURATION_DAYS Drought (w_org w) (snd (sys_pm (w_contracts w))) = Inr (1, s)"
        "activate_policy (signed_call (w_env w) (w_pm w) (w_backend w)) (w_backend w) 1 (w_distributor w) ''Acme Distributor''
          ''Trans Nzoia'' (fst (sys_pm (w_contracts w))) s = Inr (n, s')"
      and w2: "w2 = set_timestamp ERA5_SUBMITTED (w\<lparr>w_contracts := (w_contracts w)\<lparr>sys_pm := (n, s')\<rparr>\<rparr>)" "same_actors w w2"
        "w_env w2 = (w_env w)\<lparr>timestamp := ERA5_SUBMITTED\<rparr>"
      and sent: "sign_for lib (w_env w) (w_sk w) (w_pr w) (w_domain w) ?d = Some (sig, rid)"
        "submit_drought_determination real_pm real_adapter (signed_call (w_env w2) (w_pr w) (w_relayer w)) (w_relayer w) ?d sig rid
          (w_contracts w2) = Inr sys'"
      and w3: "wired lib (Some (w_pr w)) (w2\<lparr>w_contracts := sys'\<rparr>)" "settled ?p ?d ?h ERA5_SUBMITTED (w2\<lparr>w_contracts := sys'\<rparr>)"
    define w3' where "w3' = w2\<lparr>w_contracts := sys'\<rparr>"
    have a3: "same_actors w w3'" "w_env w3' = (w_env w)\<lparr>timestamp := ERA5_SUBMITTED\<rparr>"
      using same_actors_trans [OF w2(2) same_actors_moves(1) [of w2 sys']] by (simp_all add: w3'_def w2(3))
    have now: "timestamp (w_env w3') < u64_max" using bounds(2) by (simp add: a3(2))
    obtain w4 where w4: "read_policy 1 w3' = Some (?p\<lparr>p_status := Claimed\<rparr>, w4)" "same_actors w3' w4" "wired lib (Some (w_pr w)) w4"
        "settled ?p ?d ?h ERA5_SUBMITTED w4" "w_env w4 = w_env w3'" "sys_pr (w_contracts w4) = sys_pr sys'" "adapter_of w4 = adapter_of w3'"
      by (rule reads_settled [OF w3 [folded w3'_def] now]) (simp add: w3'_def)
    note a4 = same_actorsD [OF w4(2)] same_actorsD [OF a3(1)]
    have now4: "timestamp (w_env w4) < u64_max" and claimed: "p_status (?p\<lparr>p_status := Claimed\<rparr>) \<noteq> Active"
      using now by (simp_all add: w4(5))
    obtain ad e' where ad: "adapter_of w3' = Some ad" "get (sa_obligation ad) = [1 \<mapsto> fresh_obligation e' 1 (w_pr w3') 1 (p_org ?p)
        (d_payout_amount ?d) ?h 0]"
      by (rule settled_adapter [OF w3(2) [folded w3'_def]])
    show ?thesis
    proof (rule settled_and_upgraded [OF w4(3,4) now4, of generate upload])
      show "\<And>k. 10 \<le> k \<Longrightarrow> generate k \<noteq> w_admin w4" using strangers by (simp add: a4)
      fix ob1 ob w5 w6 w7 w8 b
      assume run: "on_adapter (w_backend w4) (\<lambda>e. mark_funded e (w_backend w4) 1 (reference 0xF1)) w4 = Some (ob1, w5)" "same_actors w4 w5"
          "on_adapter (w_backend w4) (\<lambda>e. mark_settled e (w_backend w4) 1 (reference 0x51)) w5 = Some (ob, w6)"
        and ob: "o_status ob = Settled" "o_settlement_reference ob = Some (reference 0x51)"
        and w6: "same_actors w4 w6" "w_env w6 = w_env w4" "wired lib (Some (w_pr w)) w6"
          "read_policy 1 w6 = Some (?p\<lparr>p_status := Claimed\<rparr>, w7)" "upgrade_money_path upload generate w7 = Some w8"
          "get (pm_policy (manager_of w6)) 1 = Some (?p\<lparr>p_status := Claimed\<rparr>)"
        and w8: "same_actors w4 w8" "w_env w8 = w_env w4" "wired lib (Some (w_pr w)) w8" "adapter_of w8 = Some b"
          "get (sa_obligation b) 1 = Some ob" "get (sa_obligation_of b) (w_pr w4, 1) = Some 1"
          "get_report 1 (sys_pr (w_contracts w6)) = get_report 1 (sys_pr (w_contracts w8))" "is_policy_paid 1 (sys_pr (w_contracts w8))"
          "get (pm_policy (manager_of w8)) 1 = Some (?p\<lparr>p_status := Claimed\<rparr>)"
      note a5 = same_actorsD [OF run(2)] same_actorsD [OF w6(1)] same_actorsD [OF w8(1)] a4
      have now8: "timestamp (w_env w8) < u64_max" using now4 by (simp add: w8(2))
      obtain c w10 f where c: "sa_has_role (open_call (w_env w8) (w_adapter w8)) Funder (w_backend w8) b = Inr (True, c)"
          "sa_payout_receiver c = Some (w_pr w)" "read_policy 1 (with_adapter w8 c) = Some (?p\<lparr>p_status := Claimed\<rparr>, w10)"
          "same_actors w8 w10"
          "on_adapter (w_backend w8) (\<lambda>e. mark_settled e (w_backend w8) 1 (reference 0x51)) w10 = Some (ob, with_adapter w10 f)"
          "\<And>sig rid. fails (submit_drought_determination real_pm real_adapter (signed_call (w_env w10) (w_pr w8) (w_relayer w8))
            (w_relayer w8) ?d sig rid (w_contracts (with_adapter w10 f))) = Some ()"
        by (rule still_runs [OF w8(3) now8 w8(4,5) ob w8(9) claimed]) blast
      note fails = resubmission_fails [OF w6(3,6) claimed, of sig rid] c(6) [of sig rid]
      note a11 = same_actorsD [OF with_adapter_simps(1) [of w8 c]] same_actorsD [OF with_adapter_simps(1) [of w10 f]]
        same_actorsD [OF c(4)] a5
      have d: "d_assessed_at ?d + 600 = ERA5_SUBMITTED" "d_payout_amount ?d = SUM_INSURED * 4200 div 10000"
        by (simp_all add: era5_determination_def ERA5_SUBMITTED_def)
      have w2': "set_timestamp ERA5_SUBMITTED (w\<lparr>w_contracts := (w_contracts w)\<lparr>sys_pm := (n, s')\<rparr>\<rparr>) = w2"
          "w_contracts w2 = (w_contracts w)\<lparr>sys_pm := (n, s')\<rparr>"
        by (simp_all add: w2(1))
      obtain n0 s0 where m: "sys_pm (w_contracts w) = (n0, s0)" by (cases "sys_pm (w_contracts w)")
      have w3': "w2\<lparr>w_contracts := sys'\<rparr> = w3'" by (simp add: w3'_def)
      show ?thesis
        unfolding wasm_lane_full_flow_def
        using sale sent w4(1) run(1,3) ob(1) w6(4,5) w8(4-8) c(1-3,5) fails
        by (simp add: deployed m w2' w2(3) w3' d ad get_obligation_def find_obligation_def fresh_obligation_def
            adapter_payout_receiver_def a11 same_actorsD [OF w2(2)] Let_def del: One_nat_def)
    qed
  qed
qed

text \<open>C13. The compiled contracts, end to end. On every host whose generated addresses differ, and with any key
  whose signatures recover to it, the lane against the compiled contracts passes: the 2022 season settles for 42
  percent, the funder marks it funded and settled, and a replay is refused; then a stranger can upgrade
  none of the three money-path contracts and the admin each of them, and the obligation, the adapter's binding
  and grants, the report, the paid flag and the policy survive, settling again changes nothing and the replay
  is refused again.\<close>

theorem compiled_flow_end_to_end:
  assumes "inj generate" and "sk_from lib 0x11 = Some sk" and "signs lib e sk"
  shows "wasm_lane_full_flow upload lib generate e = Some ()"
  by (rule lane_passes [OF assms])

theorem compiled_flow_end_to_end_witness: "wasm_lane_full_flow (\<lambda>name. of_nat (length name)) test_lib Address test_env = Some ()"
  by (rule compiled_flow_end_to_end [OF test_addresses test_key(1) test_signs])

end
