(* ===== verification/UnitTests.thy ===== *)
theory UnitTests
  imports IntegrationRent TestnetPolicyFixture
begin

text \<open>
  The unit tests inside the sources of the shared crate (\<^verbatim>\<open>ttl.rs\<close>, \<^verbatim>\<open>drought.rs\<close>) and of the testnet fixture, as
  runs of the model, and that they pass: those of the rent policy on every host with the documented rent
  rule, those of the index by evaluation, on the grid that the oracle's own code generated.
\<close>

section \<open>The rent policy\<close>

definition PROBE_NOW :: nat where "PROBE_NOW = 1700000000"

definition probe_env :: "env \<Rightarrow> env" where
  "probe_env env = env\<lparr>timestamp := PROBE_NOW, max_ttl := NETWORK_MAX_ENTRY_TTL_LEDGERS\<rparr>"

text \<open>The time to live of a persistent entry of the probe.\<close>

definition entry_ttl :: "env \<Rightarrow> string \<Rightarrow> (string, nat) storage \<Rightarrow> nat option" where
  "entry_ttl e k st = map_option (get_ttl e) (live_until st k)"

definition ledgers_until_rounds_up_and_clamps :: "env \<Rightarrow> unit option" where
  "ledgers_until_rounds_up_and_clamps env = (let e = probe_env env in do {
     must (ledgers_until e PROBE_NOW = 0);
     must (ledgers_until e (PROBE_NOW - 1) = 0);
     must (ledgers_until e (PROBE_NOW + 1) = 1);
     must (ledgers_until e (PROBE_NOW + 5) = 1);
     must (ledgers_until e (PROBE_NOW + 6) = 2);
     must (ledgers_until e (PROBE_NOW + 86400) = DAY_LEDGERS);
     must (ledgers_until e (PROBE_NOW + 400 * 86400) = max_ttl e);
     must (ledgers_until e u64_max = max_ttl e)
   })"

definition extend_to_clamps_never_shortens_and_skips_within_a_day :: "env \<Rightarrow> unit option" where
  "extend_to_clamps_never_shortens_and_skips_within_a_day env = (let e = probe_env env; k = ''k'' in do {
     let st = put e k 1 Map.empty;
     let max = max_ttl e;
     st \<leftarrow> ok (extend_to e k (40 * DAY_LEDGERS) st);
     must (entry_ttl e k st = Some (40 * DAY_LEDGERS));
     st \<leftarrow> ok (extend_to e k (10 * DAY_LEDGERS) st);
     must (entry_ttl e k st = Some (40 * DAY_LEDGERS));
     st \<leftarrow> ok (extend_to e k (40 * DAY_LEDGERS + 100) st);
     must (entry_ttl e k st = Some (40 * DAY_LEDGERS));
     st \<leftarrow> ok (extend_to e k u32_max st);
     must (entry_ttl e k st = Some max);
     st \<leftarrow> ok (extend_to e k 0 st);
     must (entry_ttl e k st = Some max);
     must (USER_THRESHOLD_LEDGERS \<le> USER_TARGET_LEDGERS);
     must (KEEPER_THRESHOLD_LEDGERS \<le> KEEPER_TARGET_LEDGERS);
     must (ROLE_THRESHOLD_LEDGERS \<le> ROLE_TARGET_LEDGERS);
     must (PENDING_THRESHOLD_LEDGERS \<le> PENDING_TARGET_LEDGERS);
     must (USER_TARGET_LEDGERS < KEEPER_THRESHOLD_LEDGERS)
   })"

definition policy_need_is_end_date_plus_grace :: "env \<Rightarrow> unit option" where
  "policy_need_is_end_date_plus_grace env = (let e = probe_env env; k = ''p'' in do {
     let st = put e k 1 Map.empty;
     let end_date = PROBE_NOW + 140 * 86400;
     st \<leftarrow> ok (extend_for_policy e k end_date st);
     must (entry_ttl e k st = Some ((140 + 30) * DAY_LEDGERS));
     let k2 = ''q'';
     let st = put e k2 1 st;
     before \<leftarrow> entry_ttl e k2 st;
     st \<leftarrow> ok (extend_for_policy e k2 (PROBE_NOW - 365 * 86400) st);
     must (entry_ttl e k2 st = Some before)
   })"

definition shared_entries_take_the_longest_need_and_the_floor :: "env \<Rightarrow> unit option" where
  "shared_entries_take_the_longest_need_and_the_floor env = (let e = probe_env env; k = ''s'' in do {
     let st = put e k 1 Map.empty;
     st \<leftarrow> ok (extend_shared e k None st);
     must (entry_ttl e k st = Some SHARED_FLOOR_LEDGERS);
     st \<leftarrow> ok (extend_shared e k (Some (PROBE_NOW + 100 * 86400)) st);
     must (entry_ttl e k st = Some (130 * DAY_LEDGERS));
     st \<leftarrow> ok (extend_shared e k (Some (PROBE_NOW + 31 * 86400)) st);
     must (entry_ttl e k st = Some (130 * DAY_LEDGERS))
   })"

text \<open>The instance of the probe lives from its registration; the ledger moves by six days before the last call.\<close>

definition instance_user_and_keeper_targets :: "rent_rule \<Rightarrow> env \<Rightarrow> unit option" where
  "instance_user_and_keeper_targets rule env = (let e = probe_env env; live = fresh_live_until e in do {
     let live = touch_contract e live;
     must (get_ttl e live = USER_TARGET_LEDGERS);
     let live = keep_contract_alive e live;
     must (get_ttl e live = KEEPER_TARGET_LEDGERS);
     let live = touch_contract e live;
     must (get_ttl e live = KEEPER_TARGET_LEDGERS);
     let seq = sequence e + 6 * DAY_LEDGERS;
     let e = e\<lparr>sequence := seq, host_extend_ttl := rule seq\<rparr>;
     let live = keep_contract_alive e live;
     must (get_ttl e live = 24 * DAY_LEDGERS)
   })"

lemma ledgers_until_test: "ledgers_until_rounds_up_and_clamps env = Some ()"
  by (simp add: ledgers_until_rounds_up_and_clamps_def probe_env_def ledgers_until_def div_ceil_def PROBE_NOW_def
      ttl_constants u64_max_def Let_def)

lemma probe_exact:
  assumes "follows rule" and "host_extend_ttl env = rule (sequence env)" and "young env (fresh_live_until env)"
  shows "exact_host rule (probe_env env)"
  using assms by (simp add: exact_host_def probe_env_def young_def)

lemma probe_simps [simp]:
  "timestamp (probe_env env) = PROBE_NOW" "sequence (probe_env env) = sequence env"
  "max_ttl (probe_env env) = NETWORK_MAX_ENTRY_TTL_LEDGERS" "fresh_live_until (probe_env env) = fresh_live_until env"
  "host_extend_ttl (probe_env env) = host_extend_ttl env"
  by (simp_all add: probe_env_def)

lemma storage_tests:
  assumes rule: "follows rule" "host_extend_ttl env = rule (sequence env)" and young: "young env (fresh_live_until env)"
  shows "extend_to_clamps_never_shortens_and_skips_within_a_day env = Some ()"
    and "policy_need_is_end_date_plus_grace env = Some ()"
    and "shared_entries_take_the_longest_need_and_the_floor env = Some ()"
proof -
  note live = live_kept [OF probe_exact [OF assms]]
  have fresh: "fresh_live_until env < sequence env + 30 * DAY_LEDGERS" using young by (simp add: young_def ttl_constants)
  show "extend_to_clamps_never_shortens_and_skips_within_a_day env = Some ()"
    using fresh by (simp add: extend_to_clamps_never_shortens_and_skips_within_a_day_def Let_def entry_ttl_def live live_empty
        get_ttl_def ttl_constants u32_max_def)
  show "policy_need_is_end_date_plus_grace env = Some ()"
    using fresh by (simp add: policy_need_is_end_date_plus_grace_def Let_def entry_ttl_def live live_empty live_none
        get_ttl_def ttl_constants ledgers_until_def div_ceil_def saturating_add_u64_def PROBE_NOW_def u64_max_def)
  show "shared_entries_take_the_longest_need_and_the_floor env = Some ()"
    using fresh by (simp add: shared_entries_take_the_longest_need_and_the_floor_def Let_def entry_ttl_def live live_empty
        get_ttl_def ttl_constants shared_need_def ledgers_until_def div_ceil_def saturating_add_u64_def PROBE_NOW_def u64_max_def)
qed

lemma instance_test:
  assumes rule: "follows rule" "host_extend_ttl env = rule (sequence env)"
    and fresh: "fresh_live_until env < sequence env + USER_THRESHOLD_LEDGERS"
  shows "instance_user_and_keeper_targets rule env = Some ()"
proof -
  have step: "rule s l t n = (if l < s + t then s + n else l)" if "t \<le> n" "n \<le> NETWORK_MAX_ENTRY_TTL_LEDGERS" for s l t n
    using rule(1) that by (simp add: follows_def)
  show ?thesis
    using fresh by (simp add: instance_user_and_keeper_targets_def Let_def touch_contract_def keep_contract_alive_def
        get_ttl_def ttl_constants step rule(2))
qed

section \<open>The drought index\<close>

text \<open>\<^verbatim>\<open>drought_grid.in\<close>: the rains and references of the two windows and the damage the oracle's code computes.\<close>

definition JS_GRID :: "(nat \<times> nat \<times> nat \<times> nat \<times> nat) list" where
  "JS_GRID =
   [(20000, 20000, 12600, 18000, 45), (20000, 20000, 3000, 18000, 100), (20000, 20000, 0, 18000, 100),
    (20000, 20000, 18000, 18000, 0), (20000, 20000, 17999, 18000, 1), (20000, 20000, 9000, 18000, 75),
    (20000, 20000, 12000, 18000, 51), (20000, 20000, 13499, 18000, 39), (20000, 20000, 5555, 7777, 43),
    (20000, 20000, 1, 7777, 100), (20000, 20000, 7000, 7777, 15), (20000, 20000, 250, 301, 25),
    (20000, 20000, 100, 301, 100), (20000, 20000, 33000, 30000, 0), (20000, 20000, 20001, 30000, 51),
    (0, 20000, 12600, 18000, 67), (0, 20000, 3000, 18000, 100), (0, 20000, 0, 18000, 100),
    (0, 20000, 18000, 18000, 40), (0, 20000, 17999, 18000, 41), (0, 20000, 9000, 18000, 85),
    (0, 20000, 12000, 18000, 71), (0, 20000, 13499, 18000, 64), (0, 20000, 5555, 7777, 66),
    (0, 20000, 1, 7777, 100), (0, 20000, 7000, 7777, 49), (0, 20000, 250, 301, 55), (0, 20000, 100, 301, 100),
    (0, 20000, 33000, 30000, 40), (0, 20000, 20001, 30000, 71), (12500, 20000, 12600, 18000, 54),
    (12500, 20000, 3000, 18000, 100), (12500, 20000, 0, 18000, 100), (12500, 20000, 18000, 18000, 15),
    (12500, 20000, 17999, 18000, 16), (12500, 20000, 9000, 18000, 79), (12500, 20000, 12000, 18000, 59),
    (12500, 20000, 13499, 18000, 49), (12500, 20000, 5555, 7777, 52), (12500, 20000, 1, 7777, 100),
    (12500, 20000, 7000, 7777, 28), (12500, 20000, 250, 301, 37), (12500, 20000, 100, 301, 100),
    (12500, 20000, 33000, 30000, 15), (12500, 20000, 20001, 30000, 59), (19999, 20000, 12600, 18000, 45),
    (19999, 20000, 3000, 18000, 100), (19999, 20000, 0, 18000, 100), (19999, 20000, 18000, 18000, 0),
    (19999, 20000, 17999, 18000, 1), (19999, 20000, 9000, 18000, 75), (19999, 20000, 12000, 18000, 51),
    (19999, 20000, 13499, 18000, 39), (19999, 20000, 5555, 7777, 43), (19999, 20000, 1, 7777, 100),
    (19999, 20000, 7000, 7777, 15), (19999, 20000, 250, 301, 25), (19999, 20000, 100, 301, 100),
    (19999, 20000, 33000, 30000, 0), (19999, 20000, 20001, 30000, 51), (10000, 20000, 12600, 18000, 56),
    (10000, 20000, 3000, 18000, 100), (10000, 20000, 0, 18000, 100), (10000, 20000, 18000, 18000, 20),
    (10000, 20000, 17999, 18000, 21), (10000, 20000, 9000, 18000, 80), (10000, 20000, 12000, 18000, 61),
    (10000, 20000, 13499, 18000, 52), (10000, 20000, 5555, 7777, 55), (10000, 20000, 1, 7777, 100),
    (10000, 20000, 7000, 7777, 32), (10000, 20000, 250, 301, 40), (10000, 20000, 100, 301, 100),
    (10000, 20000, 33000, 30000, 20), (10000, 20000, 20001, 30000, 61), (24000, 20000, 12600, 18000, 45),
    (24000, 20000, 3000, 18000, 100), (24000, 20000, 0, 18000, 100), (24000, 20000, 18000, 18000, 0),
    (24000, 20000, 17999, 18000, 1), (24000, 20000, 9000, 18000, 75), (24000, 20000, 12000, 18000, 51),
    (24000, 20000, 13499, 18000, 39), (24000, 20000, 5555, 7777, 43), (24000, 20000, 1, 7777, 100),
    (24000, 20000, 7000, 7777, 15), (24000, 20000, 250, 301, 25), (24000, 20000, 100, 301, 100),
    (24000, 20000, 33000, 30000, 0), (24000, 20000, 20001, 30000, 51), (7, 999, 12600, 18000, 67),
    (7, 999, 3000, 18000, 100), (7, 999, 0, 18000, 100), (7, 999, 18000, 18000, 40), (7, 999, 17999, 18000, 41),
    (7, 999, 9000, 18000, 85), (7, 999, 12000, 18000, 71), (7, 999, 13499, 18000, 64), (7, 999, 5555, 7777, 66),
    (7, 999, 1, 7777, 100), (7, 999, 7000, 7777, 49), (7, 999, 250, 301, 55), (7, 999, 100, 301, 100),
    (7, 999, 33000, 30000, 40), (7, 999, 20001, 30000, 71), (500, 999, 12600, 18000, 56),
    (500, 999, 3000, 18000, 100), (500, 999, 0, 18000, 100), (500, 999, 18000, 18000, 20),
    (500, 999, 17999, 18000, 21), (500, 999, 9000, 18000, 80), (500, 999, 12000, 18000, 61),
    (500, 999, 13499, 18000, 52), (500, 999, 5555, 7777, 55), (500, 999, 1, 7777, 100),
    (500, 999, 7000, 7777, 32), (500, 999, 250, 301, 40), (500, 999, 100, 301, 100),
    (500, 999, 33000, 30000, 20), (500, 999, 20001, 30000, 61), (998, 999, 12600, 18000, 45),
    (998, 999, 3000, 18000, 100), (998, 999, 0, 18000, 100), (998, 999, 18000, 18000, 0),
    (998, 999, 17999, 18000, 1), (998, 999, 9000, 18000, 75), (998, 999, 12000, 18000, 51),
    (998, 999, 13499, 18000, 39), (998, 999, 5555, 7777, 43), (998, 999, 1, 7777, 100),
    (998, 999, 7000, 7777, 15), (998, 999, 250, 301, 25), (998, 999, 100, 301, 100),
    (998, 999, 33000, 30000, 0), (998, 999, 20001, 30000, 51), (1, 33333, 12600, 18000, 67),
    (1, 33333, 3000, 18000, 100), (1, 33333, 0, 18000, 100), (1, 33333, 18000, 18000, 40),
    (1, 33333, 17999, 18000, 41), (1, 33333, 9000, 18000, 85), (1, 33333, 12000, 18000, 71),
    (1, 33333, 13499, 18000, 64), (1, 33333, 5555, 7777, 66), (1, 33333, 1, 7777, 100),
    (1, 33333, 7000, 7777, 49), (1, 33333, 250, 301, 55), (1, 33333, 100, 301, 100),
    (1, 33333, 33000, 30000, 40), (1, 33333, 20001, 30000, 71), (16666, 33333, 12600, 18000, 56),
    (16666, 33333, 3000, 18000, 100), (16666, 33333, 0, 18000, 100), (16666, 33333, 18000, 18000, 20),
    (16666, 33333, 17999, 18000, 21), (16666, 33333, 9000, 18000, 80), (16666, 33333, 12000, 18000, 61),
    (16666, 33333, 13499, 18000, 52), (16666, 33333, 5555, 7777, 55), (16666, 33333, 1, 7777, 100),
    (16666, 33333, 7000, 7777, 32), (16666, 33333, 250, 301, 40), (16666, 33333, 100, 301, 100),
    (16666, 33333, 33000, 30000, 20), (16666, 33333, 20001, 30000, 61), (33332, 33333, 12600, 18000, 45),
    (33332, 33333, 3000, 18000, 100), (33332, 33333, 0, 18000, 100), (33332, 33333, 18000, 18000, 0),
    (33332, 33333, 17999, 18000, 1), (33332, 33333, 9000, 18000, 75), (33332, 33333, 12000, 18000, 51),
    (33332, 33333, 13499, 18000, 39), (33332, 33333, 5555, 7777, 43), (33332, 33333, 1, 7777, 100),
    (33332, 33333, 7000, 7777, 15), (33332, 33333, 250, 301, 25), (33332, 33333, 100, 301, 100),
    (33332, 33333, 33000, 30000, 0), (33332, 33333, 20001, 30000, 51), (4321, 12345, 12600, 18000, 60),
    (4321, 12345, 3000, 18000, 100), (4321, 12345, 0, 18000, 100), (4321, 12345, 18000, 18000, 26),
    (4321, 12345, 17999, 18000, 27), (4321, 12345, 9000, 18000, 82), (4321, 12345, 12000, 18000, 64),
    (4321, 12345, 13499, 18000, 55), (4321, 12345, 5555, 7777, 58), (4321, 12345, 1, 7777, 100),
    (4321, 12345, 7000, 7777, 38), (4321, 12345, 250, 301, 45), (4321, 12345, 100, 301, 100),
    (4321, 12345, 33000, 30000, 26), (4321, 12345, 20001, 30000, 64), (9876, 12345, 12600, 18000, 50),
    (9876, 12345, 3000, 18000, 100), (9876, 12345, 0, 18000, 100), (9876, 12345, 18000, 18000, 8),
    (9876, 12345, 17999, 18000, 9), (9876, 12345, 9000, 18000, 77), (9876, 12345, 12000, 18000, 55),
    (9876, 12345, 13499, 18000, 44), (9876, 12345, 5555, 7777, 48), (9876, 12345, 1, 7777, 100),
    (9876, 12345, 7000, 7777, 22), (9876, 12345, 250, 301, 31), (9876, 12345, 100, 301, 100),
    (9876, 12345, 33000, 30000, 8), (9876, 12345, 20001, 30000, 55), (11111, 12345, 12600, 18000, 48),
    (11111, 12345, 3000, 18000, 100), (11111, 12345, 0, 18000, 100), (11111, 12345, 18000, 18000, 4),
    (11111, 12345, 17999, 18000, 5), (11111, 12345, 9000, 18000, 76), (11111, 12345, 12000, 18000, 53),
    (11111, 12345, 13499, 18000, 42), (11111, 12345, 5555, 7777, 46), (11111, 12345, 1, 7777, 100),
    (11111, 12345, 7000, 7777, 19), (11111, 12345, 250, 301, 28), (11111, 12345, 100, 301, 100),
    (11111, 12345, 33000, 30000, 4), (11111, 12345, 20001, 30000, 53)]"

definition recompute_matches_the_oracle_js_over_a_grid :: "unit option" where
  "recompute_matches_the_oracle_js_over_a_grid =
     must (list_all (\<lambda>(w1, r1, w2, r2, dd). rdi_v1_drought_damage w1 r1 w2 r2 = Inr (Some dd)) JS_GRID)"

definition canonical_vector_and_edges :: "unit option" where
  "canonical_vector_and_edges = do {
     must (rdi_v1_drought_damage 20000 20000 12600 18000 = Inr (Some 45));
     must (rdi_v1_drought_damage 12500 20000 3000 18000 = Inr (Some 100));
     must (rdi_v1_drought_damage 99999 1 99999 1 = Inr (Some 0));
     must (rdi_v1_drought_damage 0 1 0 1 = Inr (Some 100));
     must (rdi_v1_drought_damage 1 0 1 1 = Inr None);
     must (rdi_v1_drought_damage 1 1 1 0 = Inr None);
     must (rdi_v1_drought_damage (MAX_RAIN_E2 + 1) 1 1 1 = Inr None);
     must (rdi_v1_drought_damage MAX_RAIN_E2 1 MAX_RAIN_E2 1 = Inr (Some 0));
     must (rdi_v1_drought_damage 0 MAX_RAIN_E2 0 (2 ^ 128 - 1) = Inr (Some 100))
   }"

lemma grid_test: "recompute_matches_the_oracle_js_over_a_grid = Some ()"
  unfolding recompute_matches_the_oracle_js_over_a_grid_def JS_GRID_def
  by (simp add: rdi_cases MAX_RAIN_E2_def drought_index_def window_damage_def window_deficit_def)

lemma edges_test: "canonical_vector_and_edges = Some ()"
  by (simp add: canonical_vector_and_edges_def rdi_cases MAX_RAIN_E2_def drought_index_def window_damage_def window_deficit_def)

section \<open>The testnet fixture\<close>

text \<open>A registration that panics is refused.\<close>

definition refuses_to_deploy_on_mainnet :: "(nat \<Rightarrow> address) \<Rightarrow> env \<Rightarrow> unit option" where
  "refuses_to_deploy_on_mainnet generate env =
     (let admin = generate 0; id = generate 1; e = env\<lparr>network_id := MAINNET_NETWORK_ID\<rparr>
      in fails (fx_constructor (signed_call e id admin) admin))"

definition deploys_elsewhere_and_only_the_oracle_marks_claimed :: "(nat \<Rightarrow> address) \<Rightarrow> env \<Rightarrow> unit option" where
  "deploys_elsewhere_and_only_the_oracle_marks_claimed generate env = (
     let admin = generate 0; id = generate 1 in do {
       s \<leftarrow> ok (fx_constructor (signed_call env id admin) admin);
       (held, s) \<leftarrow> ok (fx_has_role (open_call env id) Admin admin s);
       must held;
       must (\<not> fx_policy_exists 1 s);
       let stranger = generate 2;
       fails (fx_mark_as_claimed (signed_call env id stranger) stranger 1 s)
     })"

lemma mainnet_test: "refuses_to_deploy_on_mainnet generate env = Some ()"
  by (simp add: refuses_to_deploy_on_mainnet_def fx_constructor_def signed_call_def fails_def Let_def)

lemma oracle_test:
  assumes "network_id env \<noteq> MAINNET_NETWORK_ID"
  shows "deploys_elsewhere_and_only_the_oracle_marks_claimed generate env = Some ()"
proof -
  obtain s where s: "fx_constructor (signed_call env (generate 1) (generate 0)) (generate 0) = Inr s"
    using assms by (simp add: fx_constructor_def signed_call_def grant_role_def)
  show ?thesis
    using fx_constructor_effect [OF s]
    by (simp add: deploys_elsewhere_and_only_the_oracle_marks_claimed_def s fx_has_role_def has_role_eq fx_policy_exists_def has_iff
        fx_mark_as_claimed_def require_role_eq fails_def Let_def del: One_nat_def)
qed

section \<open>All of them\<close>

text \<open>
  On a host that follows the documented rent rule, starts a new entry with less than three days to live and is
  not the main network, every unit test of these sources passes.
\<close>

theorem unit_tests_pass:
  assumes "follows rule" and "host_extend_ttl env = rule (sequence env)"
    and fresh: "fresh_live_until env < sequence env + USER_THRESHOLD_LEDGERS" and "network_id env \<noteq> MAINNET_NETWORK_ID"
  shows "list_all (\<lambda>test. test env = Some ())
      [ledgers_until_rounds_up_and_clamps, extend_to_clamps_never_shortens_and_skips_within_a_day,
       policy_need_is_end_date_plus_grace, shared_entries_take_the_longest_need_and_the_floor,
       instance_user_and_keeper_targets rule, refuses_to_deploy_on_mainnet generate,
       deploys_elsewhere_and_only_the_oracle_marks_claimed generate] \<and>
    recompute_matches_the_oracle_js_over_a_grid = Some () \<and> canonical_vector_and_edges = Some ()"
proof -
  have "young env (fresh_live_until env)" using fresh by (simp add: young_def ttl_constants)
  note storage = storage_tests [OF assms(1,2) this]
  show ?thesis
    using storage instance_test [OF assms(1-3)] ledgers_until_test [of env] grid_test edges_test mainnet_test [of generate env]
      oracle_test [OF assms(4), of generate] by simp
qed

theorem unit_tests_pass_witness:
  "recompute_matches_the_oracle_js_over_a_grid = Some () \<and>
   instance_user_and_keeper_targets (\<lambda>s l t n. if l < s + t then s + n else l) sample_env = Some () \<and>
   deploys_elsewhere_and_only_the_oracle_marks_claimed Address sample_env = Some ()"
proof -
  let ?rule = "\<lambda>s l t n. if l < s + t then s + n else l :: nat"
  have "follows ?rule" "host_extend_ttl sample_env = ?rule (sequence sample_env)"
      "fresh_live_until sample_env < sequence sample_env + USER_THRESHOLD_LEDGERS" "network_id sample_env \<noteq> MAINNET_NETWORK_ID"
    by (simp_all add: follows_def sample_env_def fun_eq_iff ttl_constants MAINNET_NETWORK_ID_def)
  from unit_tests_pass [OF this, of Address] show ?thesis by simp
qed

end
