(* ===== verification/Spec2Isabelle.thy ===== *)
theory Spec2Isabelle
  imports System Access Verdict SaleVerdict Outcome TestnetPolicyFixture EvidenceSigner Keepers IntegrationRentPass IntegrationUpgrade UnitTests
begin

text \<open>
  A model of the MicroCrop contracts: parametric crop insurance on Soroban, written in Rust under
  \<^verbatim>\<open>src/crates\<close>. This theory is the root; it holds the properties of the contracts together.

  \<^bold>\<open>The program.\<close> A PolicyManager keeps the policy book: a backend sells a policy (pending), activates it
  (which mints a certificate at a PolicyNft contract) and, through an oracle, it is claimed; it may
  also be cancelled or expire. A PayoutReceiver is that oracle. A relayer submits to it a signed
  determination of a season; it recomputes the drought index, rebuilds the digest the signer signed,
  looks the policy up at the PolicyManager, records an obligation at its SettlementAdapter, marks the
  policy paid and claimed and counts the claim against the farmer's limit. A SettlementAdapter keeps
  the obligations per organisation; a funder attests funding and settlement. No contract moves money.

  \<^bold>\<open>How the code is modelled.\<close> A contract's persistent storage is a record with one field for each variant
  of its \<^verbatim>\<open>DataKey\<close>; an entry is a value with a rent horizon (\<open>Host\<close>). An entry point is a function of the
  environment (\<open>env\<close>: time, ledger, authorisations, host functions), its arguments and the state; it
  returns \<open>Inl\<close> of the error it panics with, and then the state is unchanged, or \<open>Inr\<close> of the result
  and the new state. Checked machine arithmetic fails with \<open>ArithmeticOverflow\<close>; saturating and
  wrapping operations are written out. Hashes and signatures are words. Contracts call each other
  through records of functions, one for each client trait of \<^verbatim>\<open>interfaces.rs\<close>. Every loop of the code is
  a fold or a structural recursion over a list or a range, so all definitions are total and no fuel
  is used.

  \<^bold>\<open>Theories and sources.\<close>
  \<^item> \<open>Prelude\<close>: the error monad, totals over finite maps. \<open>Host\<close>: environment, arithmetic, ledger entries.
  \<^item> \<open>Errors\<close>, \<open>Types\<close>, \<open>Ttl\<close>, \<open>Roles\<close>, \<open>Drought\<close>, \<open>Encoding\<close>: \<^verbatim>\<open>shared/src/errors.rs\<close>, \<^verbatim>\<open>types.rs\<close>, \<^verbatim>\<open>ttl.rs\<close>,
    \<^verbatim>\<open>roles.rs\<close>, \<^verbatim>\<open>drought.rs\<close>, \<^verbatim>\<open>encoding.rs\<close>. The index equals its formula (\<open>drought_index_sound\<close>); the byte
    layouts are injective, so digests bind every field (\<open>drought_digest_binds\<close>) and keep the methodologies
    apart (\<open>digests_separate\<close>); rent outlives the cover (\<open>policy_entry_outlives_policy\<close>).
  \<^item> \<open>PagedIndex\<close>: the page loops that three contracts repeat, with the locale \<open>paged_index\<close>.
  \<^item> \<open>PolicyNft\<close>: \<^verbatim>\<open>policy-nft/src/lib.rs\<close>, with its steps, invariant and certificate properties.
  \<^item> \<open>PolicyManager\<close>: \<^verbatim>\<open>policy-manager/src/lib.rs\<close>. \<open>PolicyLedger\<close> gives each operation's exact effect on
    the abstract book \<open>pm_view\<close> (counters as totals over the stored policies); \<open>PolicyLife\<close> its steps,
    reachable states, life cycle and claim window. Closing an active policy asks the certificate contract,
    and the call fails where none is deployed (\<open>undeployed_certificate_blocks\<close>); the properties of the closing
    calls state that it is deployed (\<open>nft_wired\<close>).
  \<^item> \<open>SettlementAdapter\<close>: \<^verbatim>\<open>settlement-adapter/src/lib.rs\<close>, with the abstract attestations it implements.
  \<^item> \<open>Interfaces\<close>: \<^verbatim>\<open>shared/src/interfaces.rs\<close>: the clients, the locales \<open>policy_source\<close> and
    \<open>claim_registry\<close> of what the receiver relies on, and their interpretation on the modelled manager.
  \<^item> \<open>PayoutReceiver\<close>: \<^verbatim>\<open>payout-receiver/src/lib.rs\<close>. \<open>PayoutChecks\<close> has the exact condition of each
    check and submission for arbitrary clients, \<open>Settlement\<close> over clients that keep their promises (locale
    \<open>payout_system\<close>), \<open>PayoutLife\<close> the receiver over time, \<open>PayoutSample\<close> a concrete deployment.
  \<^item> \<open>System\<close>: the contracts together, with the steps of all of them interleaved, and the invariant that
    their books agree. \<open>Access\<close>: only an admin's call changes who holds a role, in all four contracts.
  \<^item> \<open>Rules\<close>: lists of checks with their errors, and what it means that a call answers to one.
    \<open>SaleVerdict\<close> and \<open>Verdict\<close> show that \<^verbatim>\<open>create_policy\<close> and \<^verbatim>\<open>submit_drought_determination\<close> answer, in
    every reachable state, the error of the first check that fails, and which guards never fire.
    \<open>Outcome\<close>: a paid claim can be settled by a funder.
  \<^item> \<open>TestnetPolicyFixture\<close>: \<^verbatim>\<open>testnet-policy-fixture/src/lib.rs\<close>, a second policy manager that keeps the
    promises of \<open>policy_source\<close> only. \<open>EvidenceSigner\<close>: \<^verbatim>\<open>integration-tests/examples/evidence_signer.rs\<close>.
  \<^item> \<open>Keepers\<close>: the two calls anybody may make to pay rent, \<open>pr_extend_contract_ttl\<close> and
    \<open>pr_extend_policy_ttl\<close>: in every reachable state they go through, reach all four contracts, leave the books
    alone, and on a host with the documented rent rule leave every entry as long a life as its class asks.
  \<^item> \<open>IntegrationWorld\<close>: the harness of \<^verbatim>\<open>integration-tests/src/lib.rs\<close>, the deployment and wiring of the four
    contracts; \<open>IntegrationSteps\<close>: what each step of a test does to a wired world; \<open>IntegrationTests\<close>: thirteen
    tests, assertion by assertion, as runs in the option monad (\<open>None\<close> is a panic); \<open>IntegrationPass\<close>: they
    return on every host, for any address generator and any key whose signatures recover to it.
  \<^item> \<open>IntegrationRent\<close>: the three integration tests about rent, on a ledger that moves; \<open>IntegrationRentPass\<close>: they
    return on every host with the documented rent rule. The rule is a parameter \<open>rule\<close>, the host's
    \<^verbatim>\<open>extend_ttl\<close> at each ledger. \<open>IntegrationUpgrade\<close>: the lane that runs the compiled contracts and upgrades them;
    its parameter \<open>upload\<close> is the hash of a compiled contract, and both builds run as the model does.
  \<^item> \<open>UnitTests\<close>: the unit tests inside \<^verbatim>\<open>ttl.rs\<close>, \<^verbatim>\<open>drought.rs\<close> and the fixture, among them the grid of 225 seasons that
    the oracle's own code computed (\<^verbatim>\<open>drought_grid.in\<close>); all pass (\<open>unit_tests_pass\<close>).

  \<^bold>\<open>Assumptions, all explicit.\<close> The ledger clock does not run backwards and stops before its last second
  (\<open>pm_reachable\<close>). \<open>sys_reachable\<close> states the deployment of \<^verbatim>\<open>scripts/deploy.sh\<close>: the receiver is the only
  oracle of the manager and the certificate contract is there. Contracts act only in the calls of the model:
  nobody else is authorised as the receiver. keccak256, secp256k1 recovery, the address serialisation and the
  host's rent rule are fields of the environment; where a theorem needs more of them (no collision on
  the messages involved, the documented rent rule) it says so. An entry whose rent ran out is archived by the
  host and restored before use, so only a temporary entry loses its value when its horizon expires.

  \<^bold>\<open>Not modelled.\<close> The unit tests in files of their own (\<^verbatim>\<open>test.rs\<close> and the like); the deployment
  scripts, the prose documents, the JSON text of the methodology parameters (a documentation constant whose
  hash the code uses as a number), reading compiled contracts from disk, code other than that of this
  repository installed by \<open>upgrade\<close> (the call is modelled; the code after it is again the modelled one),
  fees and resource limits.
\<close>

section \<open>Properties of the whole system\<close>

text \<open>C1. The three books agree. In every reachable state of the system a policy is paid in the receiver
  exactly when the policy manager has it as claimed, and then exactly one adapter holds an obligation
  of the receiver for it: to the policy's organisation, for the amount of the stored report, which is
  the report's share of the sum insured. No adapter holds an obligation for an unpaid policy.\<close>

theorem books_agree:
  assumes "sys_reachable this t sys"
  shows "if is_policy_paid i (sys_pr sys)
     then \<exists>p ad a n ob. get (pm_policy (snd (sys_pm sys))) i = Some p \<and> p_status p = Claimed \<and>
            sys_adapters sys ad = Some a \<and> find_obligation this i a = Some n \<and> get_obligation n a = Some ob \<and>
            o_org ob = p_org p \<and> o_amount ob = r_payout_amount (get_report i (sys_pr sys)) \<and>
            o_amount ob = p_sum_insured p * int (r_damage_percentage (get_report i (sys_pr sys))) div 10000 \<and>
            settlements i (sys_pr sys) = [(n, ad, o_amount ob)] \<and>
            (\<forall>ad' a'. ad' \<noteq> ad \<and> sys_adapters sys ad' = Some a' \<longrightarrow> find_obligation this i a' = None)
     else (\<nexists>p. get (pm_policy (snd (sys_pm sys))) i = Some p \<and> p_status p = Claimed) \<and>
          (\<forall>ad a. sys_adapters sys ad = Some a \<longrightarrow> find_obligation this i a = None)"
proof -
  note inv = sys_reachable_inv [OF assms]
  have sa: "sa_inv a" if "sys_adapters sys ad = Some a" for ad a using inv that by (auto simp: sys_inv_def)
  have agree: "records_agree (records this i sys)" using inv by (simp add: sys_inv_def)
  show ?thesis
  proof (cases "is_policy_paid i (sys_pr sys)")
    case True
    let ?r = "get_report i (sys_pr sys)"
    obtain p ad ob where p: "claimed_policy i sys = Some p" and req: "settlements i (sys_pr sys) = [(ob, ad, r_payout_amount ?r)]"
      and owed: "debts this i sys = [ad \<mapsto> (ob, p_org p, r_payout_amount ?r)]"
      and share: "r_payout_amount ?r = payout_share p (r_damage_percentage ?r)"
      using agree True by (auto simp: records_def records_agree_def)
    obtain a where a: "sys_adapters sys ad = Some a"
      using fun_cong [OF owed, of ad] by (cases "sys_adapters sys ad") (simp_all add: debts_def)
    obtain n x where x: "find_obligation this i a = Some n" "get_obligation n a = Some x" "o_id x = n"
        "debt_of x = (ob, p_org p, r_payout_amount ?r)"
      using debts_find(1) [OF sa [OF a] a] owed by (metis fun_upd_same)
    have stored: "get (pm_policy (snd (sys_pm sys))) i = Some p" "p_status p = Claimed"
      using p by (auto simp: claimed_policy_def split: option.splits if_splits)
    have "0 \<le> p_sum_insured p" using policy_ok_sum [OF policy_terms(1) [OF inv stored(1)]] by simp
    moreover have "\<forall>ad' a'. ad' \<noteq> ad \<and> sys_adapters sys ad' = Some a' \<longrightarrow> find_obligation this i a' = None"
    proof (intro allI impI)
      fix ad' a'
      assume other: "ad' \<noteq> ad \<and> sys_adapters sys ad' = Some a'"
      then have a': "sys_adapters sys ad' = Some a'" ..
      from other show "find_obligation this i a' = None"
        using debts_find(2) [OF sa [OF a'] a', of this i] fun_cong [OF owed, of ad'] by simp
    qed
    ultimately show ?thesis
      unfolding if_P [OF True]
      using a x stored req share payout_share_floor [of p]
      by (intro exI [of _ p] exI [of _ ad] exI [of _ a] exI [of _ n] exI [of _ x]) (simp add: debt_of_def)
  next
    case False
    have "find_obligation this i a = None" if a: "sys_adapters sys ad = Some a" for ad a
      using agree False debts_find(2) [OF sa [OF a] a, of this i] by (simp add: records_def records_agree_def)
    moreover have "claimed_policy i sys = None" using agree False by (simp add: records_def records_agree_def)
    ultimately show ?thesis using False by (auto simp: claimed_policy_def split: if_splits)
  qed
qed

lemma sample_paid_policy: "is_policy_paid 1 (sys_pr sample_paid)" "get_report 1 (sys_pr sample_paid) = drought_report sample_drought"
proof -
  have one: "d_on_chain_policy_id sample_drought = 1" by (simp add: sample_drought_def)
  show "is_policy_paid 1 (sys_pr sample_paid)" "get_report 1 (sys_pr sample_paid) = drought_report sample_drought"
    using drought_settles_one [OF sample_paid, unfolded one]
    by (auto simp: settles_def pr_book_def is_policy_paid_def get_report_def simp del: One_nat_def)
qed

theorem books_agree_witness:
  "\<exists>p ad a n ob. get (pm_policy (snd (sys_pm sample_paid))) 1 = Some p \<and> p_status p = Claimed \<and>
     sys_adapters sample_paid ad = Some a \<and> find_obligation (Address 200) 1 a = Some n \<and>
     get_obligation n a = Some ob \<and> o_amount ob = 2100000000"
proof -
  have "r_payout_amount (drought_report sample_drought) = 2100000000" by (simp add: sample_drought_def)
  then show ?thesis
    using books_agree [OF sample_paid_system, of 1] sample_paid_policy by (simp only: if_True) metis
qed

text \<open>C2. The exact condition. In every reachable state of the system a drought submission to the receiver
  goes through exactly when the policy is active and in time, the determination, its signature and
  the relayer pass every check, the receiver holds the oracle role, and the adapter is bound to it
  and has room. Nothing else can make a valid claim fail: not the claim limit, not the paid flag,
  not an older obligation.\<close>

theorem drought_settles_exactly:
  assumes "sys_reachable this t sys" and "current_contract_address e = this" and "t \<le> timestamp e"
    and "pr_settlement_adapter (sys_pr sys) = Some ad" and "pr_policy_manager (sys_pr sys) = Some pm"
    and "sys_adapters sys ad = Some a"
  shows "(\<exists>sys'. submit_drought_determination real_pm real_adapter e c d sig rid sys = Inr sys') \<longleftrightarrow>
    (\<exists>p. get (pm_policy (snd (sys_pm sys))) (d_on_chain_policy_id d) = Some p \<and> p_status p = Active \<and>
       timestamp e \<le> p_end_date p \<and> drought_accepted e c d sig rid (sys_pr sys) p \<and>
       holds (pm_roles (snd (sys_pm sys))) Oracle this \<and> adapter_payout_receiver a = Some this \<and>
       has_obligation_room a (p_org p))"
proof -
  let ?i = "d_on_chain_policy_id d"
  note inv = sys_reachable_inv [OF assms(1)]
  have kept: "sa_inv a" using inv assms(6) by (auto simp: sys_inv_def)
  have agree: "records_agree (records this ?i sys)" using inv by (simp add: sys_inv_def)
  have free: "\<not> is_policy_paid ?i (sys_pr sys)" "obligation_for a (this, ?i) = None"
      "pm_can_farmer_claim (subcall e pm) (p_farmer p) (snd (sys_pm sys))"
    if p: "get (pm_policy (snd (sys_pm sys))) ?i = Some p" "p_status p = Active" for p
  proof -
    have "claimed_policy ?i sys = None" using p by (simp add: claimed_policy_def)
    then show unpaid: "\<not> is_policy_paid ?i (sys_pr sys)" using agree by (auto simp: records_def records_agree_def)
    then have "debts this ?i sys ad = None" using agree by (simp add: records_def records_agree_def)
    then show "obligation_for a (this, ?i) = None" by (simp add: debts_def assms(6))
    show "pm_can_farmer_claim (subcall e pm) (p_farmer p) (snd (sys_pm sys))"
      using active_room [OF inv _ p, of "subcall e pm"] assms(3) by simp
  qed
  have pays: "0 < d_payout_amount d"
    if "get (pm_policy (snd (sys_pm sys))) ?i = Some p" "drought_accepted e c d sig rid (sys_pr sys) p" for p
    using share_bounds(3) [OF policy_terms(1) [OF inv that(1)]] drought_claim_bounds [of d] that(2)
    by (simp add: drought_accepted_def drought_matches_def)
  have "r_policy_id (drought_report d) = ?i" by simp
  then show ?thesis
    unfolding real.drought_settles [OF sys_inv_sound [OF inv] assms(4-6) kept] real.settleable_def assms(2)
    using free pays by (auto simp del: report_fields(1))
qed

theorem drought_settles_exactly_witness:
  "\<exists>sys'. submit_drought_determination real_pm real_adapter sample_late (Address 12) sample_drought 0 0 sample_sys = Inr sys'"
  using drought_settles_exactly [OF sample_sys_system, of sample_late "Address 400" "Address 100" sample_sa_ready
      "Address 12" sample_drought 0 0]
    sample_pr_ready(2,3) sample_world(3) sample_drought_accepted sample_world_oracle sample_obligation_room(2)
  by (simp add: sample_active_fields adapter_payout_receiver_def sample_sa_ready(3) sample_drought_def del: One_nat_def)

text \<open>C14. The claim limit never stands between an active policy and its payout. The manager refuses a
  farmer's fourth claim in 365 days, but it also counts recent claims against the open slots when a
  policy is sold; so in every reachable state of the system the farmer of an active policy can
  claim, now and at any later time the policy is still active.\<close>

theorem active_policy_claimable:
  assumes "sys_reachable this t sys" and "t \<le> timestamp e"
    and "get (pm_policy (snd (sys_pm sys))) i = Some p" and "p_status p = Active"
  shows "pm_can_farmer_claim e (p_farmer p) (snd (sys_pm sys))"
  using active_room [OF sys_reachable_inv [OF assms(1)] assms(2-4)] .

theorem active_policy_claimable_witness:
  "pm_can_farmer_claim sample_late (Address 5) (snd sample_world)"
  using active_policy_claimable [OF sample_sys_system, of sample_late 1 sample_active] sample_world(3)
  by (simp add: sample_active_fields del: One_nat_def)

text \<open>C15. What is owed is bounded. Whatever an adapter holds for a policy of the receiver in a reachable
  state is positive, at least 30 percent of the policy's sum insured (rounded down) and never more
  than the sum insured, which lies within the limits of a sale.\<close>

theorem owed_within_insured:
  assumes "sys_reachable this t sys" and "sys_adapters sys ad = Some a"
    and "find_obligation this i a = Some n" and "get_obligation n a = Some ob"
  shows "\<exists>p. get (pm_policy (snd (sys_pm sys))) i = Some p \<and> o_org ob = p_org p \<and> 0 < o_amount ob \<and>
     p_sum_insured p * 3 div 10 \<le> o_amount ob \<and> o_amount ob \<le> p_sum_insured p \<and> p_sum_insured p \<le> MAX_SUM_INSURED"
proof -
  note inv = sys_reachable_inv [OF assms(1)]
  have sa: "sa_inv a" using inv assms(2) by (auto simp: sys_inv_def)
  have agree: "records_agree (records this i sys)" using inv by (simp add: sys_inv_def)
  have "o_id ob = n" using sa_invD(2) [OF sa] assms(4) by (simp add: get_obligation_def)
  then have debt: "debts this i sys ad = Some (debt_of ob)"
    using debts_find(1) [OF sa assms(2), of this i] assms(3,4) by auto
  have paid: "is_policy_paid i (sys_pr sys)"
    using agree debt by (auto simp: records_def records_agree_def split: if_splits)
  let ?r = "get_report i (sys_pr sys)"
  obtain p where p: "claimed_policy i sys = Some p" and ob: "o_org ob = p_org p" "o_amount ob = payout_share p (r_damage_percentage ?r)"
    using agree paid debt by (auto simp: records_def records_agree_def debt_of_def split: if_splits)
  have stored: "get (pm_policy (snd (sys_pm sys))) i = Some p"
    using p by (auto simp: claimed_policy_def split: option.splits if_splits)
  note terms = policy_terms(1) [OF inv stored]
  have "p_sum_insured p * 3 div 10 = p_sum_insured p * 3000 div 10000" by simp
  then show ?thesis
    using stored ob share_bounds [OF terms] paid_bounds [OF assms(1) paid] terms
    by (intro exI [of _ p]) (auto simp: policy_ok_def sale_terms_def)
qed

theorem owed_within_insured_witness:
  "\<exists>ad a n ob. sys_adapters sample_paid ad = Some a \<and> find_obligation (Address 200) 1 a = Some n \<and>
     get_obligation n a = Some ob \<and> 0 < o_amount ob \<and> o_amount ob \<le> MAX_SUM_INSURED"
proof -
  let ?i = "1 :: nat"
  have agree: "records_agree (records (Address 200) ?i sample_paid)"
    using sys_reachable_inv [OF sample_paid_system] by (simp add: sys_inv_def)
  then obtain ad x where "debts (Address 200) ?i sample_paid = [ad \<mapsto> x]"
    using sample_paid_policy(1) by (auto simp: records_def records_agree_def simp del: One_nat_def)
  then have x: "debts (Address 200) ?i sample_paid ad = Some x" by simp
  then obtain a where a: "sys_adapters sample_paid ad = Some a" by (cases "sys_adapters sample_paid ad") (simp_all add: debts_def)
  have "sa_inv a" using sys_reachable_inv [OF sample_paid_system] a by (auto simp: sys_inv_def)
  from debts_find(1) [OF this a, of "Address 200" ?i x] x obtain n ob
    where ob: "find_obligation (Address 200) ?i a = Some n" "get_obligation n a = Some ob" by blast
  from owed_within_insured [OF sample_paid_system a this] a ob show ?thesis by force
qed

text \<open>C16. The retired methodology is closed. Although \<open>submit_determination\<close> is still there, and an admin may
  even enable it again, no crop determination goes through in any reachable state of the system,
  whoever signed it: every policy that was ever sold is drought cover.\<close>

theorem crop_path_closed:
  assumes "sys_reachable this t sys"
  shows "submit_determination real_pm real_adapter e c d sig rid sys \<noteq> Inr sys'"
  using crop_closed [OF sys_inv_sound [OF sys_reachable_inv [OF assms]]] .

theorem crop_path_closed_witness:
  "\<forall>d sys'. submit_determination real_pm real_adapter sample_late (Address 12) d 0 0 sample_sys \<noteq> Inr sys'"
  using crop_path_closed [OF sample_sys_system] by blast

end
